(* ===== verification/Kaf_Prelude.thy ===== *)
theory Kaf_Prelude
  imports Main "HOL-Library.Word"
begin

text \<open>
  Shared vocabulary of the development: the machine integers of the Rust source (\<open>u8\<close>,
  \<open>u32\<close>, \<open>u64\<close>, \<open>u128\<close>, fixed byte arrays) as words, Rust's saturating, checked and
  wrapping arithmetic on them, \<open>Duration\<close> and \<open>Instant\<close> of the standard library as
  nanosecond counts with their overflow bounds, and the error-or-value results that model
  \<open>Result\<close>. The named collections gather the rewrite rules which the component
  theories hand to the simplifier.
\<close>

named_theorems sat_simps \<open>facts on saturating machine arithmetic\<close>
named_theorems map_eval \<open>rules that compute the entry list of an ordered map\<close>
named_theorems duration_simps \<open>definitions of the Duration and Instant operations\<close>

subsection \<open>Machine integers\<close>

type_synonym u8 = "8 word"
type_synonym u16 = "16 word"
type_synonym u32 = "32 word"
type_synonym u64 = "64 word"
type_synonym u128 = "128 word"

text \<open>
  A \<open>[u8; 32]\<close> is read as the big-endian 256-bit number its bytes spell. Equality and the
  derived lexicographic order of the array are the equality and the order of that number.
\<close>

type_synonym bytes32 = "256 word"

text \<open>\<open>saturating_add\<close>, \<open>saturating_sub\<close>, \<open>saturating_mul\<close>, \<open>checked_add\<close> and \<open>checked_sub\<close>
  of an unsigned machine integer. \<open>wrapping_add\<close> is the addition of words.\<close>

definition sat_add :: "'a::len word \<Rightarrow> 'a word \<Rightarrow> 'a word" where
  "sat_add a b = (if unat a + unat b < 2 ^ LENGTH('a) then a + b else - 1)"

definition sat_sub :: "'a::len word \<Rightarrow> 'a word \<Rightarrow> 'a word" where
  "sat_sub a b = (if b \<le> a then a - b else 0)"

definition sat_mul :: "'a::len word \<Rightarrow> 'a word \<Rightarrow> 'a word" where
  "sat_mul a b = (if unat a * unat b < 2 ^ LENGTH('a) then a * b else - 1)"

definition chk_add :: "'a::len word \<Rightarrow> 'a word \<Rightarrow> 'a word option" where
  "chk_add a b = (if unat a + unat b < 2 ^ LENGTH('a) then Some (a + b) else None)"

definition chk_sub :: "'a::len word \<Rightarrow> 'a word \<Rightarrow> 'a word option" where
  "chk_sub a b = (if b \<le> a then Some (a - b) else None)"

lemma unat_max_word [simp]: "unat (- 1 :: 'a::len word) = 2 ^ LENGTH('a) - 1"
  by (simp add: unsigned_minus_1_eq_mask mask_eq_exp_minus_1)

lemma unat_sat_add [sat_simps]:
  "unat (sat_add a b) = min (unat a + unat b) (2 ^ LENGTH('a) - 1)" for a b :: "'a::len word"
  by (auto simp: sat_add_def unat_word_ariths min_def)

lemma unat_sat_sub [sat_simps]: "unat (sat_sub a b) = unat a - unat b"
  by (auto simp: sat_sub_def unat_sub word_le_nat_alt)

lemma unat_sat_mul [sat_simps]:
  "unat (sat_mul a b) = min (unat a * unat b) (2 ^ LENGTH('a) - 1)" for a b :: "'a::len word"
proof (cases "unat a * unat b < 2 ^ LENGTH('a)")
  case True
  then have "unat a * unat b \<le> 2 ^ LENGTH('a) - 1" by linarith
  with True show ?thesis by (simp add: sat_mul_def unat_word_ariths min_absorb1)
next
  case False
  then show ?thesis by (simp add: sat_mul_def min_absorb2)
qed

lemma unat_chk_add: "chk_add a b = Some c \<Longrightarrow> unat c = unat a + unat b"
  by (auto simp: chk_add_def unat_word_ariths split: if_splits)

lemma unat_chk_sub: "chk_sub a b = Some c \<Longrightarrow> unat c = unat a - unat b \<and> b \<le> a"
  by (auto simp: chk_sub_def unat_sub split: if_splits)

text \<open>Machine comparisons that decide the overflow tests, for evaluation.\<close>

lemma no_overflow_nat: "a \<le> a + b \<longleftrightarrow> unat a + unat b < 2 ^ LENGTH('a)"
  for a b :: "'a::len word"
proof -
  have "a \<le> a + b \<longleftrightarrow> uint a + uint b < 2 ^ LENGTH('a)" by (rule no_olen_add)
  also have "\<dots> \<longleftrightarrow> int (unat a + unat b) < int (2 ^ LENGTH('a))" by simp
  finally show ?thesis by (simp only: of_nat_less_iff)
qed

lemma sat_add_code [code]: "sat_add a b = (let c = a + b in if a \<le> c then c else - 1)"
  for a b :: "'a::len word"
  by (simp add: sat_add_def no_overflow_nat)

lemma chk_add_code [code]: "chk_add a b = (let c = a + b in if a \<le> c then Some c else None)"
  for a b :: "'a::len word"
  by (simp add: chk_add_def no_overflow_nat)

lemma sat_add_ge1: "a \<le> sat_add a b" for a :: "'a::len word"
proof -
  have "unat a < 2 ^ LENGTH('a)" by (rule unsigned_less)
  then show ?thesis unfolding word_le_nat_alt unat_sat_add by linarith
qed

lemma sat_add_one_gt: "a \<noteq> - 1 \<Longrightarrow> a < sat_add a 1" for a :: "'a::len word"
proof -
  assume "a \<noteq> - 1"
  then have "unat a \<noteq> 2 ^ LENGTH('a) - 1"
    by (metis unat_max_word word_unat_eq_iff)
  then have "unat a + 1 < 2 ^ LENGTH('a)"
    using unsigned_less [of a, where ?'a = nat] by linarith
  then show ?thesis
    unfolding word_less_nat_alt unat_sat_add by (simp add: min_def)
qed

lemma sat_sub_self [simp]: "sat_sub a a = 0"
  by (simp add: sat_sub_def)

lemma sat_sub_zero_left [simp]: "a \<le> b \<Longrightarrow> sat_sub a b = 0"
  by (auto simp: sat_sub_def)

lemma sat_sub_le_mono: "a \<le> b \<Longrightarrow> sat_sub a c \<le> sat_sub b c"
  unfolding word_le_nat_alt unat_sat_sub by simp

subsection \<open>Results\<close>

text \<open>A \<open>Result\<close> is a value of the sum type, \<open>Inl\<close> the error. \<open>rbind\<close> is the \<open>?\<close> operator:
  it passes an error through and continues with a value.\<close>

type_synonym ('e, 'a) result = "'e + 'a"

definition rbind :: "('e, 'a) result \<Rightarrow> ('a \<Rightarrow> ('e, 'b) result) \<Rightarrow> ('e, 'b) result" where
  "rbind r f = (case r of Inl e \<Rightarrow> Inl e | Inr a \<Rightarrow> f a)"

definition is_ok :: "('e, 'a) result \<Rightarrow> bool" where
  "is_ok r = (case r of Inl _ \<Rightarrow> False | Inr _ \<Rightarrow> True)"

definition ensure :: "bool \<Rightarrow> 'e \<Rightarrow> ('e, unit) result" where
  "ensure b e = (if b then Inr () else Inl e)"

lemma rbind_simps [simp]: "rbind (Inl e) f = Inl e" "rbind (Inr a) f = f a"
  by (simp_all add: rbind_def)

lemma rbind_Inr_iff [simp]: "rbind r f = Inr b \<longleftrightarrow> (\<exists>a. r = Inr a \<and> f a = Inr b)"
  by (cases r) simp_all

lemma rbind_InrE:
  assumes "rbind r f = Inr b"
  obtains a where "r = Inr a" "f a = Inr b"
  using assms by auto

lemma rbind_Inl_iff: "rbind r f = Inl e \<longleftrightarrow> r = Inl e \<or> (\<exists>a. r = Inr a \<and> f a = Inl e)"
  by (cases r) simp_all

lemma is_ok_simps [simp]: "is_ok (Inr a)" "\<not> is_ok (Inl e)"
  by (simp_all add: is_ok_def)

lemma is_ok_iff: "is_ok r \<longleftrightarrow> (\<exists>a. r = Inr a)"
  by (cases r) simp_all

lemma ensure_simps [simp]:
  "ensure b e = Inr u \<longleftrightarrow> b" "ensure b e = Inl e' \<longleftrightarrow> \<not> b \<and> e' = e"
  by (auto simp: ensure_def)

lemma ensure_True [simp]: "ensure True e = Inr ()"
  by (simp add: ensure_def)

lemma ensure_False [simp]: "ensure False e = Inl e"
  by (simp add: ensure_def)

subsection \<open>Durations and instants\<close>

text \<open>
  A \<open>Duration\<close> is a count of nanoseconds below \<open>2\<^sup>6\<^sup>4\<close> seconds; an \<open>Instant\<close> is a reading of the
  monotonic clock, a nanosecond count whose seconds fit a signed 64-bit integer.
\<close>

type_synonym duration = nat
type_synonym instant = nat

definition duration_max :: duration where
  "duration_max = 2 ^ 64 * 1000000000 - 1"

definition instant_max :: instant where
  "instant_max = 2 ^ 63 * 1000000000 - 1"

definition from_millis :: "u64 \<Rightarrow> duration" where
  "from_millis ms = unat ms * 1000000"

definition from_secs :: "u64 \<Rightarrow> duration" where
  "from_secs s = unat s * 1000000000"

definition dur_checked_add :: "duration \<Rightarrow> duration \<Rightarrow> duration option" where
  "dur_checked_add a b = (if a + b \<le> duration_max then Some (a + b) else None)"

definition dur_checked_mul :: "duration \<Rightarrow> u32 \<Rightarrow> duration option" where
  "dur_checked_mul a k = (if a * unat k \<le> duration_max then Some (a * unat k) else None)"

definition dur_saturating_add :: "duration \<Rightarrow> duration \<Rightarrow> duration" where
  "dur_saturating_add a b = min (a + b) duration_max"

definition dur_saturating_mul :: "duration \<Rightarrow> u32 \<Rightarrow> duration" where
  "dur_saturating_mul a k = min (a * unat k) duration_max"

definition inst_checked_add :: "instant \<Rightarrow> duration \<Rightarrow> instant option" where
  "inst_checked_add t d = (if t + d \<le> instant_max then Some (t + d) else None)"

text \<open>\<open>Instant::duration_since\<close> and \<open>elapsed\<close> saturate at zero.\<close>

definition duration_since :: "instant \<Rightarrow> instant \<Rightarrow> duration" where
  "duration_since now t = now - t"

lemmas [duration_simps] =
  dur_checked_add_def dur_checked_mul_def dur_saturating_add_def dur_saturating_mul_def
  inst_checked_add_def duration_since_def

lemma inst_checked_add_Some [simp]:
  "inst_checked_add t d = Some u \<longleftrightarrow> u = t + d \<and> t + d \<le> instant_max"
  by (auto simp: inst_checked_add_def)

lemma dur_checked_add_Some [simp]:
  "dur_checked_add a b = Some c \<longleftrightarrow> c = a + b \<and> a + b \<le> duration_max"
  by (auto simp: dur_checked_add_def)

lemma dur_checked_mul_Some [simp]:
  "dur_checked_mul a k = Some c \<longleftrightarrow> c = a * unat k \<and> a * unat k \<le> duration_max"
  by (auto simp: dur_checked_mul_def)

subsection \<open>Lists and sets\<close>

text \<open>Strictly ascending lists without repetition are determined by their elements.\<close>

lemma strict_sorted_unique:
  fixes xs ys :: "'a::linorder list"
  assumes "sorted_wrt (<) xs" "sorted_wrt (<) ys" "set xs = set ys"
  shows "xs = ys"
  using assms by (metis strict_sorted_equal)

lemma fold_option_stop [simp]: "fold (\<lambda>x acc. case acc of None \<Rightarrow> None | Some a \<Rightarrow> f x a) xs None = None"
  by (induction xs) auto

lemma sum_list_replace:
  fixes f :: "'a \<Rightarrow> nat"
  assumes "i < length xs"
  shows "sum_list (map f (xs[i := y])) + f (xs ! i) = sum_list (map f xs) + f y"
  using assms
proof (induction xs arbitrary: i)
  case (Cons x xs)
  then show ?case by (cases i) auto
qed simp

text \<open>Two sets that each hold more than half of a finite set meet.\<close>

lemma majorities_meet:
  assumes "finite C" "A \<subseteq> C" "B \<subseteq> C" "card C div 2 < card A" "card C div 2 < card B"
  shows "A \<inter> B \<noteq> {}"
proof
  assume disj: "A \<inter> B = {}"
  have fin: "finite A" "finite B"
    using assms(1,2,3) by (auto dest: finite_subset)
  have "card A + card B = card (A \<union> B)"
    using fin disj by (simp add: card_Un_disjoint)
  also have "\<dots> \<le> card C"
    using assms(1,2,3) by (intro card_mono) auto
  finally show False using assms(4,5) by linarith
qed

end
