(* ===== verification/BTree_Map.thy ===== *)
theory BTree_Map
  imports Kaf_Prelude
begin

text \<open>
  \<open>std::collections::BTreeMap\<close>: a finite map whose entries are kept in strictly ascending key
  order. The type is the set of strictly key-sorted association lists, so two maps are equal
  exactly when they hold the same entries, as \<open>PartialEq\<close> of a \<open>BTreeMap\<close> has it, and the
  iteration order of the source is the order of the list. \<open>BTreeSet\<close> is a finite HOL set;
  its ascending iteration is \<^const>\<open>sorted_list_of_set\<close>.
\<close>

typedef (overloaded) ('k::linorder, 'v) btree_map =
  "{xs :: ('k \<times> 'v) list. sorted_wrt (<) (map fst xs)}"
  morphisms entries BTreeMap
proof -
  have "[] \<in> {xs :: ('k \<times> 'v) list. sorted_wrt (<) (map fst xs)}"
    by simp
  then show ?thesis ..
qed

setup_lifting type_definition_btree_map

subsection \<open>Sorted association lists\<close>

fun al_insert :: "'k::linorder \<Rightarrow> 'v \<Rightarrow> ('k \<times> 'v) list \<Rightarrow> ('k \<times> 'v) list" where
  "al_insert k v [] = [(k, v)]"
| "al_insert k v ((k', v') # xs) =
     (if k < k' then (k, v) # (k', v') # xs
      else if k = k' then (k, v) # xs
      else (k', v') # al_insert k v xs)"

definition al_remove :: "'k \<Rightarrow> ('k \<times> 'v) list \<Rightarrow> ('k \<times> 'v) list" where
  "al_remove k xs = filter (\<lambda>(k', _). k' \<noteq> k) xs"

lemma set_keys_al_insert [simp]: "fst ` set (al_insert k v xs) = insert k (fst ` set xs)"
  by (induction k v xs rule: al_insert.induct) auto

lemma sorted_al_insert:
  "sorted_wrt (<) (map fst xs) \<Longrightarrow> sorted_wrt (<) (map fst (al_insert k v xs))"
proof (induction k v xs rule: al_insert.induct)
  case (2 k v k' v' xs)
  have "\<forall>x \<in> fst ` set (al_insert k v xs). k' < x" if "k' < k"
    using that "2.prems" by auto
  with 2 show ?case by auto
qed simp

lemma map_of_al_insert:
  "sorted_wrt (<) (map fst xs) \<Longrightarrow> map_of (al_insert k v xs) = (map_of xs)(k \<mapsto> v)"
  by (induction k v xs rule: al_insert.induct) (auto simp: fun_eq_iff)

lemma sorted_filter_fst:
  "sorted_wrt (<) (map fst xs) \<Longrightarrow> sorted_wrt (<) (map fst (filter P xs))"
  by (induction xs) auto

lemma map_of_al_remove: "map_of (al_remove k xs) = (map_of xs)(k := None)"
  unfolding al_remove_def by (induction xs) (auto simp: fun_eq_iff)

lemma sorted_distinct_keys:
  "sorted_wrt (<) (map fst xs) \<Longrightarrow> distinct (map fst xs)" for xs :: "('k::linorder \<times> 'v) list"
  by (simp add: strict_sorted_iff)

subsection \<open>The operations of the map\<close>

lift_definition bm_empty :: "('k::linorder, 'v) btree_map" is "[]"
  by simp

lift_definition bm_get :: "('k::linorder, 'v) btree_map \<Rightarrow> 'k \<Rightarrow> 'v option" is map_of .

lift_definition bm_insert :: "'k::linorder \<Rightarrow> 'v \<Rightarrow> ('k, 'v) btree_map \<Rightarrow> ('k, 'v) btree_map"
  is al_insert by (rule sorted_al_insert)

lift_definition bm_remove :: "'k::linorder \<Rightarrow> ('k, 'v) btree_map \<Rightarrow> ('k, 'v) btree_map"
  is al_remove unfolding al_remove_def by (rule sorted_filter_fst)

text \<open>\<open>retain\<close> keeps the entries a predicate accepts, in order.\<close>

lift_definition bm_retain ::
  "('k::linorder \<Rightarrow> 'v \<Rightarrow> bool) \<Rightarrow> ('k, 'v) btree_map \<Rightarrow> ('k, 'v) btree_map"
  is "\<lambda>P. filter (\<lambda>(k, v). P k v)" by (rule sorted_filter_fst)

text \<open>\<open>iter().map(\<dots>).collect()\<close> with the keys kept.\<close>

lift_definition bm_map :: "('v \<Rightarrow> 'w) \<Rightarrow> ('k::linorder, 'v) btree_map \<Rightarrow> ('k, 'w) btree_map"
  is "\<lambda>f. map (\<lambda>(k, v). (k, f v))" by (simp add: comp_def case_prod_beta)

definition bm_keys :: "('k::linorder, 'v) btree_map \<Rightarrow> 'k list" where
  "bm_keys m = map fst (entries m)"

definition bm_values :: "('k::linorder, 'v) btree_map \<Rightarrow> 'v list" where
  "bm_values m = map snd (entries m)"

definition bm_contains :: "('k::linorder, 'v) btree_map \<Rightarrow> 'k \<Rightarrow> bool" where
  "bm_contains m k = (bm_get m k \<noteq> None)"

text \<open>\<open>collect()\<close> of key-value pairs: a later pair replaces an earlier one of the same key.\<close>

definition bm_collect :: "('k::linorder \<times> 'v) list \<Rightarrow> ('k, 'v) btree_map" where
  "bm_collect kvs = fold (\<lambda>(k, v). bm_insert k v) kvs bm_empty"

definition bm_remove_all :: "'k::linorder list \<Rightarrow> ('k, 'v) btree_map \<Rightarrow> ('k, 'v) btree_map" where
  "bm_remove_all ks m = fold bm_remove ks m"

subsection \<open>Lookup laws\<close>

lemma bm_get_empty [simp]: "bm_get bm_empty k = None"
  by transfer simp

lemma bm_get_insert: "bm_get (bm_insert k v m) = (bm_get m)(k \<mapsto> v)"
  by transfer (rule map_of_al_insert)

lemma bm_get_insert' [simp]: "bm_get (bm_insert k v m) k' = (if k' = k then Some v else bm_get m k')"
  by (simp add: bm_get_insert)

lemma bm_get_remove: "bm_get (bm_remove k m) = (bm_get m)(k := None)"
  by transfer (rule map_of_al_remove)

lemma bm_get_remove' [simp]: "bm_get (bm_remove k m) k' = (if k' = k then None else bm_get m k')"
  by (simp add: bm_get_remove)

lemma map_of_filter_sorted:
  "distinct (map fst xs) \<Longrightarrow>
   map_of (filter (\<lambda>(k, v). P k v) xs) k =
     (case map_of xs k of None \<Rightarrow> None | Some v \<Rightarrow> if P k v then Some v else None)"
  by (induction xs) (auto split: option.splits dest: map_of_SomeD simp: image_iff)

lemma bm_get_retain [simp]:
  "bm_get (bm_retain P m) k =
     (case bm_get m k of None \<Rightarrow> None | Some v \<Rightarrow> if P k v then Some v else None)"
  by transfer (simp add: map_of_filter_sorted sorted_distinct_keys)

lemma bm_get_map [simp]: "bm_get (bm_map f m) k = map_option f (bm_get m k)"
  by transfer (simp add: map_of_map)

lemma entries_sorted: "sorted_wrt (<) (map fst (entries m))"
  using entries [of m] by simp

lemma entries_distinct [simp]: "distinct (map fst (entries m))"
  by (rule sorted_distinct_keys) (rule entries_sorted)

lemma in_entries_iff: "(k, v) \<in> set (entries m) \<longleftrightarrow> bm_get m k = Some v"
  by transfer (simp add: sorted_distinct_keys)

lemma set_bm_keys: "set (bm_keys m) = dom (bm_get m)"
  unfolding bm_keys_def by (force simp: in_entries_iff [symmetric])

lemma set_bm_values: "set (bm_values m) = ran (bm_get m)"
  unfolding bm_values_def ran_def by (force simp: in_entries_iff [symmetric])

lemma bm_keys_sorted: "sorted_wrt (<) (bm_keys m)"
  by (simp add: bm_keys_def entries_sorted)

lemma bm_finite [simp]: "finite (dom (bm_get m))"
  by (simp flip: set_bm_keys)

lemma bm_keys_eq: "bm_keys m = sorted_list_of_set (dom (bm_get m))"
  by (rule strict_sorted_unique) (simp_all add: bm_keys_sorted set_bm_keys)

lemma bm_contains_iff [simp]: "bm_contains m k \<longleftrightarrow> k \<in> dom (bm_get m)"
  by (auto simp: bm_contains_def)

text \<open>A map is determined by its lookups.\<close>

lemma entries_eqI:
  assumes "set (entries m) = set (entries m')"
  shows "entries m = entries m'"
proof (rule map_sorted_distinct_set_unique [where f = fst])
  show "inj_on fst (set (entries m) \<union> set (entries m'))"
    using assms entries_distinct [of m] by (simp add: distinct_map)
qed (use assms entries_sorted [of m] entries_sorted [of m'] in \<open>simp_all add: strict_sorted_iff\<close>)

lemma bm_eqI: "(\<And>k. bm_get m k = bm_get m' k) \<Longrightarrow> m = m'"
proof -
  assume eq: "\<And>k. bm_get m k = bm_get m' k"
  have "set (entries m) = set (entries m')"
    using eq by (force simp: in_entries_iff)
  then show ?thesis by (metis entries_eqI entries_inject)
qed

lemma bm_eq_iff: "m = m' \<longleftrightarrow> (\<forall>k. bm_get m k = bm_get m' k)"
  by (auto intro: bm_eqI)

subsection \<open>Computing entry lists\<close>

lemma entries_empty [simp, map_eval]: "entries bm_empty = []"
  by (rule bm_empty.rep_eq)

lemma entries_insert [map_eval]: "entries (bm_insert k v m) = al_insert k v (entries m)"
  by (rule bm_insert.rep_eq)

lemma entries_remove [map_eval]: "entries (bm_remove k m) = al_remove k (entries m)"
  by (rule bm_remove.rep_eq)

lemma entries_retain [map_eval]: "entries (bm_retain P m) = filter (\<lambda>(k, v). P k v) (entries m)"
  by (rule bm_retain.rep_eq)

lemma entries_map [map_eval]: "entries (bm_map f m) = map (\<lambda>(k, v). (k, f v)) (entries m)"
  by (rule bm_map.rep_eq)

lemma bm_get_entries: "bm_get m k = map_of (entries m) k"
  by (simp add: bm_get.rep_eq)

lemmas [map_eval] = al_remove_def bm_keys_def bm_values_def bm_collect_def

subsection \<open>Derived operations\<close>

lemma bm_insert_same: "bm_get m k = Some v \<Longrightarrow> bm_insert k v m = m"
  by (rule bm_eqI) auto

lemma bm_remove_absent: "bm_get m k = None \<Longrightarrow> bm_remove k m = m"
  by (rule bm_eqI) auto

lemma bm_get_remove_all [simp]:
  "bm_get (bm_remove_all ks m) k = (if k \<in> set ks then None else bm_get m k)"
  unfolding bm_remove_all_def by (induction ks arbitrary: m) auto

lemma bm_get_fold_insert:
  "bm_get (fold (\<lambda>(k, v). bm_insert k v) kvs m) k =
     (case map_of (rev kvs) k of None \<Rightarrow> bm_get m k | Some v \<Rightarrow> Some v)"
  by (induction kvs arbitrary: m) (auto simp: map_add_def split: option.splits)

lemma bm_get_collect: "bm_get (bm_collect kvs) k = map_of (rev kvs) k"
  unfolding bm_collect_def by (simp add: bm_get_fold_insert split: option.splits)

text \<open>The sum of a measure over the values, and how one update changes it.\<close>

definition bm_sum :: "('v \<Rightarrow> nat) \<Rightarrow> ('k::linorder, 'v) btree_map \<Rightarrow> nat" where
  "bm_sum f m = (\<Sum>k \<in> dom (bm_get m). f (the (bm_get m k)))"

lemma bm_sum_insert:
  assumes "bm_get m k = Some v"
  shows "bm_sum f (bm_insert k w m) + f v = bm_sum f m + f w"
proof -
  let ?D = "dom (bm_get m)" and ?rest = "\<Sum>j \<in> dom (bm_get m) - {k}. f (the (bm_get m j))"
  have k: "k \<in> ?D" and dom': "dom (bm_get (bm_insert k w m)) = ?D"
    using assms by (auto simp: bm_get_insert)
  have "bm_sum f (bm_insert k w m) = f w + ?rest"
    unfolding bm_sum_def dom' sum.remove [OF bm_finite k] by (auto intro!: sum.cong)
  moreover have "bm_sum f m = f v + ?rest"
    unfolding bm_sum_def sum.remove [OF bm_finite k] using assms by simp
  ultimately show ?thesis by simp
qed

end
