(* ===== verification/Byte_Codec.thy ===== *)
theory Byte_Codec
  imports Kaf_Prelude
begin

text \<open>
  Fixed-width positional notation, shared by every byte encoding of the program: the
  big-endian bytes of \<open>to_be_bytes\<close> and \<open>from_be_bytes\<close>, and the zero-padded hexadecimal of
  \<open>{:016x}\<close> and \<open>{:02x}\<close> with \<open>from_str_radix(_, 16)\<close> as its reader.
\<close>

subsection \<open>Digits of a number\<close>

primrec digits :: "nat \<Rightarrow> nat \<Rightarrow> nat \<Rightarrow> nat list" where
  "digits b 0 v = []"
| "digits b (Suc n) v = digits b n (v div b) @ [v mod b]"

definition undigits :: "nat \<Rightarrow> nat list \<Rightarrow> nat" where
  "undigits b ds = foldl (\<lambda>acc d. acc * b + d) 0 ds"

lemma length_digits [simp]: "length (digits b n v) = n"
  by (induction n arbitrary: v) auto

lemma digits_less: "0 < b \<Longrightarrow> d \<in> set (digits b n v) \<Longrightarrow> d < b"
  by (induction n arbitrary: v) auto

lemma undigits_Nil [simp]: "undigits b [] = 0"
  by (simp add: undigits_def)

lemma undigits_snoc [simp]: "undigits b (ds @ [d]) = undigits b ds * b + d"
  by (simp add: undigits_def)

lemma undigits_digits: "undigits b (digits b n v) = v mod b ^ n"
proof (induction n arbitrary: v)
  case (Suc n)
  have "v mod b ^ Suc n = b * (v div b mod b ^ n) + v mod b"
    by (simp add: mod_mult2_eq)
  with Suc show ?case by (simp add: algebra_simps)
qed simp

lemma undigits_digits_id: "v < b ^ n \<Longrightarrow> undigits b (digits b n v) = v"
  by (simp add: undigits_digits)

lemma undigits_bound: "\<forall>d \<in> set ds. d < b \<Longrightarrow> undigits b ds < b ^ length ds"
proof (induction ds rule: rev_induct)
  case (snoc d ds)
  then have u: "Suc (undigits b ds) \<le> b ^ length ds" and "d < b" by auto
  then have "undigits b ds * b + d < Suc (undigits b ds) * b" by simp
  also have "\<dots> \<le> b ^ length ds * b" using u by (rule mult_le_mono1)
  finally show ?case by (simp add: mult.commute)
qed simp

lemma digits_undigits: "\<forall>d \<in> set ds. d < b \<Longrightarrow> digits b (length ds) (undigits b ds) = ds"
proof (induction ds rule: rev_induct)
  case (snoc d ds)
  then show ?case by (cases "b = 0") auto
qed simp

lemma digits_inject: "v < b ^ n \<Longrightarrow> w < b ^ n \<Longrightarrow> digits b n v = digits b n w \<longleftrightarrow> v = w"
  by (metis undigits_digits_id)

subsection \<open>Big-endian bytes\<close>

definition be_bytes :: "nat \<Rightarrow> 'a::len word \<Rightarrow> u8 list" where
  "be_bytes n w = map of_nat (digits 256 n (unat w))"

definition from_be_bytes :: "u8 list \<Rightarrow> 'a::len word" where
  "from_be_bytes bs = of_nat (undigits 256 (map unat bs))"

lemma length_be_bytes [simp]: "length (be_bytes n w) = n"
  by (simp add: be_bytes_def)

lemma unat_of_nat_digits: "map unat (map of_nat (digits 256 n v) :: u8 list) = digits 256 n v"
proof -
  have "unat (of_nat d :: u8) = d" if "d \<in> set (digits 256 n v)" for d
    using digits_less [OF _ that] by (simp add: unat_of_nat)
  then show ?thesis by (simp add: map_idI)
qed

lemma from_be_bytes_be_bytes:
  fixes w :: "'a::len word"
  assumes "LENGTH('a) \<le> 8 * n"
  shows "from_be_bytes (be_bytes n w) = w"
proof -
  have "unat w < 2 ^ LENGTH('a)" by (rule unsigned_less)
  also have "(2::nat) ^ LENGTH('a) \<le> 2 ^ (8 * n)" using assms by (simp add: power_increasing)
  also have "(2::nat) ^ (8 * n) = 256 ^ n" by (simp add: power_mult)
  finally show ?thesis
    by (simp add: from_be_bytes_def be_bytes_def unat_of_nat_digits undigits_digits
        del: map_map)
qed

lemma be_bytes_inject:
  fixes v w :: "'a::len word"
  shows "LENGTH('a) \<le> 8 * n \<Longrightarrow> be_bytes n v = be_bytes n w \<longleftrightarrow> v = w"
  by (metis from_be_bytes_be_bytes)

subsection \<open>Hexadecimal text\<close>

definition hex_char :: "nat \<Rightarrow> char" where
  "hex_char d = ''0123456789abcdef'' ! d"

text \<open>\<open>{:0width$x}\<close> of a number that fits the width.\<close>

definition hex_fmt :: "nat \<Rightarrow> nat \<Rightarrow> string" where
  "hex_fmt width v = map hex_char (digits 16 width v)"

text \<open>The value of one character of \<open>0..9a..f\<close>; the source admits no upper-case digit.\<close>

definition hex_digit :: "char \<Rightarrow> nat option" where
  "hex_digit c =
     (let n = of_char c in
      if 48 \<le> n \<and> n \<le> 57 then Some (n - 48)
      else if 97 \<le> n \<and> n \<le> 102 then Some (n - 87)
      else None)"

definition hex_parse :: "string \<Rightarrow> nat option" where
  "hex_parse cs =
     (if cs \<noteq> [] \<and> (\<forall>c \<in> set cs. hex_digit c \<noteq> None)
      then Some (undigits 16 (map (the \<circ> hex_digit) cs)) else None)"

lemma hex_digit_char [simp]: "d < 16 \<Longrightarrow> hex_digit (hex_char d) = Some d"
proof -
  have "\<forall>d \<in> set [0..<16]. hex_digit (hex_char d) = Some d"
    by code_simp
  then show "d < 16 \<Longrightarrow> ?thesis" by simp
qed

lemma hex_digit_less: "hex_digit c = Some d \<Longrightarrow> d < 16"
  by (auto simp: hex_digit_def Let_def split: if_splits)

lemma hex_char_low: "d < 10 \<Longrightarrow> hex_char d = char_of (48 + d)"
proof -
  have "\<forall>d \<in> set [0..<10]. hex_char d = char_of (48 + d)"
    by code_simp
  then show "d < 10 \<Longrightarrow> ?thesis" by simp
qed

lemma hex_char_high: "d < 6 \<Longrightarrow> hex_char (10 + d) = char_of (97 + d)"
proof -
  have "\<forall>d \<in> set [0..<6]. hex_char (10 + d) = char_of (97 + d)"
    by code_simp
  then show "d < 6 \<Longrightarrow> ?thesis" by simp
qed

lemma hex_char_digit:
  assumes "hex_digit c = Some d"
  shows "hex_char d = c"
proof -
  let ?n = "of_char c :: nat"
  have c: "c = char_of ?n" by simp
  consider "48 \<le> ?n" "?n \<le> 57" "d = ?n - 48" | "97 \<le> ?n" "?n \<le> 102" "d = ?n - 87"
    using assms by (auto simp: hex_digit_def Let_def split: if_splits)
  then show ?thesis
  proof cases
    case 1
    then have "d < 10" "?n = 48 + d" by linarith+
    then show ?thesis using hex_char_low c by metis
  next
    case 2
    then have "d - 10 < 6" "?n = 97 + (d - 10)" "d = 10 + (d - 10)" by linarith+
    then show ?thesis using hex_char_high c by metis
  qed
qed

lemma length_hex_fmt [simp]: "length (hex_fmt n v) = n"
  by (simp add: hex_fmt_def)

lemma hex_fmt_digits: "c \<in> set (hex_fmt n v) \<Longrightarrow> \<exists>d. hex_digit c = Some d"
  using digits_less [of 16] by (force simp: hex_fmt_def)

lemma map_hex_digit_hex_fmt: "map (the \<circ> hex_digit) (hex_fmt n v) = digits 16 n v"
  unfolding hex_fmt_def by (auto simp: digits_less intro!: map_idI)

lemma hex_parse_fmt:
  assumes "0 < n" "v < 16 ^ n"
  shows "hex_parse (hex_fmt n v) = Some v"
proof -
  have "hex_fmt n v \<noteq> []" using assms(1) by (metis length_hex_fmt less_numeral_extra(3) list.size(3))
  moreover have "\<forall>c \<in> set (hex_fmt n v). hex_digit c \<noteq> None"
    using hex_fmt_digits by fastforce
  ultimately show ?thesis
    using assms(2) by (simp add: hex_parse_def map_hex_digit_hex_fmt undigits_digits_id)
qed

lemma hex_fmt_parse:
  assumes "hex_parse cs = Some v"
  shows "hex_fmt (length cs) v = cs \<and> v < 16 ^ length cs"
proof -
  have dig: "\<forall>c \<in> set cs. hex_digit c \<noteq> None" and v: "v = undigits 16 (map (the \<circ> hex_digit) cs)"
    using assms by (auto simp: hex_parse_def split: if_splits)
  then have lt: "\<forall>d \<in> set (map (the \<circ> hex_digit) cs). d < 16"
    using hex_digit_less by fastforce
  have "digits 16 (length cs) v = map (the \<circ> hex_digit) cs"
    using digits_undigits [OF lt] v by simp
  then have "hex_fmt (length cs) v = map (hex_char \<circ> the \<circ> hex_digit) cs"
    by (simp add: hex_fmt_def)
  also have "\<dots> = cs"
    using dig hex_char_digit by (force intro!: map_idI)
  finally show ?thesis using undigits_bound [OF lt] v by simp
qed

end
