(* ===== verification/Kaf_Types.thy ===== *)
theory Kaf_Types
  imports BTree_Map Byte_Codec
begin

text \<open>
  The data that travels through the program: addresses, exact-boot replica identities with
  their text form, genesis and join records with the byte strings their digests are taken of,
  the commands of the replicated log and the responses (\<open>src/raft/types.rs\<close>,
  \<open>src/raft/admission.rs\<close>, \<open>src/raft/admission/membership.rs\<close>,
  \<open>src/raft/admission/controller/bootstrap.rs\<close>).

  Two crates outside the repository appear as parameters. SHA-256 is an argument \<open>sha\<close> of the
  digest functions. A \<open>Membership\<close> of openraft is the record of what the program reads of
  it (the voters it iterates, the joint configuration, the node ids, the learner ids), with no
  relation between them assumed; where a property needs one, it is the hypothesis
  \<open>membership_ok\<close>, which states openraft's documented meaning of these accessors.
\<close>

subsection \<open>Addresses\<close>

datatype ip_addr = V4 u32 | V6 u128

text \<open>\<open>IpAddr\<close> is ordered as the derived order of the enum: IPv4 first, then by value.\<close>

instantiation ip_addr :: linorder
begin

fun less_eq_ip_addr :: "ip_addr \<Rightarrow> ip_addr \<Rightarrow> bool" where
  "less_eq_ip_addr (V4 a) (V4 b) = (a \<le> b)"
| "less_eq_ip_addr (V4 a) (V6 b) = True"
| "less_eq_ip_addr (V6 a) (V4 b) = False"
| "less_eq_ip_addr (V6 a) (V6 b) = (a \<le> b)"

definition less_ip_addr :: "ip_addr \<Rightarrow> ip_addr \<Rightarrow> bool" where
  "less_ip_addr a b = (a \<le> b \<and> \<not> b \<le> a)"

instance
proof
  fix x y z :: ip_addr
  show "(x < y) = (x \<le> y \<and> \<not> y \<le> x)" by (rule less_ip_addr_def)
  show "x \<le> x" by (cases x) auto
  show "x \<le> y \<Longrightarrow> y \<le> z \<Longrightarrow> x \<le> z" by (cases x; cases y; cases z) auto
  show "x \<le> y \<Longrightarrow> y \<le> x \<Longrightarrow> x = y" by (cases x; cases y) auto
  show "x \<le> y \<or> y \<le> x" by (cases x; cases y) auto
qed

end

lemma less_ip_addr_simps [simp]:
  "V4 a < V4 b \<longleftrightarrow> a < b" "V4 a < V6 d" "\<not> V6 c < V4 b" "V6 c < V6 d \<longleftrightarrow> c < d"
  by (auto simp: less_ip_addr_def)

record vip_addr =
  vip_ip :: ip_addr
  vip_prefix :: u8

type_synonym vip_table = "(vip_addr \<times> string) list"

subsection \<open>Replica identities\<close>

datatype replica_id = ReplicaId (physical_id: u64) (boot_nonce: bytes32)

instantiation replica_id :: linorder
begin

definition less_eq_replica_id :: "replica_id \<Rightarrow> replica_id \<Rightarrow> bool" where
  "less_eq_replica_id a b =
     (physical_id a < physical_id b \<or>
      physical_id a = physical_id b \<and> boot_nonce a \<le> boot_nonce b)"

definition less_replica_id :: "replica_id \<Rightarrow> replica_id \<Rightarrow> bool" where
  "less_replica_id a b = (a \<le> b \<and> \<not> b \<le> a)"

instance
  by standard (auto simp: less_eq_replica_id_def less_replica_id_def replica_id.expand)

end

datatype admission_denied = AdmissionDenied string

type_synonym 'a admitted = "(admission_denied, 'a) result"

text \<open>\<open>Display\<close>: sixteen hexadecimal digits, a colon, two digits for each byte of the nonce.\<close>

definition replica_display :: "replica_id \<Rightarrow> string" where
  "replica_display r =
     hex_fmt 16 (unat (physical_id r)) @ '':'' @
     concat (map (\<lambda>byte. hex_fmt 2 (unat byte)) (be_bytes 32 (boot_nonce r)))"

definition lower_hex :: "char \<Rightarrow> bool" where
  "lower_hex c = (hex_digit c \<noteq> None)"

text \<open>The loop of \<open>from_str\<close> that reads the nonce, two characters to a byte.\<close>

fun read_nonce :: "nat \<Rightarrow> string \<Rightarrow> u8 list admitted" where
  "read_nonce 0 cs = Inr []"
| "read_nonce (Suc n) cs =
     (case hex_parse (take 2 cs) of
        None \<Rightarrow> Inl (AdmissionDenied ''invalid boot identity'')
      | Some v \<Rightarrow> rbind (read_nonce n (drop 2 cs)) (\<lambda>bs. Inr (of_nat v # bs)))"

definition replica_from_str :: "string \<Rightarrow> replica_id admitted" where
  "replica_from_str value =
     (if length value \<noteq> 81 \<or> value ! 16 \<noteq> CHR '':'' \<or>
         (\<exists>i < length value. i \<noteq> 16 \<and> \<not> lower_hex (value ! i))
      then Inl (AdmissionDenied ''noncanonical replica identity'')
      else (case hex_parse (take 16 value) of
              None \<Rightarrow> Inl (AdmissionDenied ''invalid physical identity'')
            | Some pid \<Rightarrow>
                rbind (read_nonce 32 (drop 17 value))
                  (\<lambda>bs. Inr (ReplicaId (of_nat pid) (from_be_bytes bs)))))"

text \<open>\<open>TryFrom<u64>\<close>: a physical identity alone is never a replica identity.\<close>

definition replica_try_from :: "u64 \<Rightarrow> replica_id admitted" where
  "replica_try_from _ = Inl (AdmissionDenied ''physical-only Raft identity has no boot authority'')"

subsection \<open>Log identifiers and memberships of openraft\<close>

datatype leader_id = LeaderId (leader_term: u64) (leader_node: replica_id)

record log_id =
  committed_leader_id :: leader_id
  index :: u64

text \<open>A membership is what its accessors answer; \<open>node_addresses\<close> are the addresses of \<open>nodes\<close>, in their order.\<close>

record membership =
  voter_ids :: "replica_id list"
  get_joint_config :: "replica_id set list"
  nodes :: "replica_id list"
  learner_ids :: "replica_id list"
  node_addresses :: "string list"

record stored_membership =
  sm_log_id :: "log_id option"
  sm_membership :: membership

definition membership_ok :: "membership \<Rightarrow> bool" where
  "membership_ok m =
     (distinct (voter_ids m) \<and>
      set (voter_ids m) = \<Union> (set (get_joint_config m)) \<and>
      set (voter_ids m) \<subseteq> set (nodes m) \<and>
      set (learner_ids m) = set (nodes m) - set (voter_ids m))"

definition empty_membership :: membership where
  "empty_membership = \<lparr>voter_ids = [], get_joint_config = [], nodes = [], learner_ids = [], node_addresses = []\<rparr>"

subsection \<open>Genesis\<close>

record config_fingerprint =
  fp_version :: u8
  fp_digest :: bytes32

record genesis =
  g_config :: config_fingerprint
  g_epoch :: u128
  g_voters :: "replica_id set"

definition ascii :: "string \<Rightarrow> u8 list" where
  "ascii s = map of_char s"

definition replica_bytes :: "replica_id \<Rightarrow> u8 list" where
  "replica_bytes r = be_bytes 8 (physical_id r) @ be_bytes 32 (boot_nonce r)"

text \<open>A voter set in a digest: its size as eight bytes, then its members in ascending order.\<close>

definition voters_bytes :: "replica_id set \<Rightarrow> u8 list" where
  "voters_bytes vs =
     be_bytes 8 (of_nat (card vs) :: u64) @ concat (map replica_bytes (sorted_list_of_set vs))"

definition genesis_preimage :: "genesis \<Rightarrow> u8 list" where
  "genesis_preimage g =
     ascii ''keepafloatd-admission-genesis'' @ [0] @ [3, 1, fp_version (g_config g)] @
     be_bytes 32 (fp_digest (g_config g)) @ be_bytes 16 (g_epoch g) @ voters_bytes (g_voters g)"

definition genesis_digest :: "(u8 list \<Rightarrow> bytes32) \<Rightarrow> genesis \<Rightarrow> bytes32" where
  "genesis_digest sha g = sha (genesis_preimage g)"

definition validate_roster :: "genesis \<Rightarrow> u64 set \<Rightarrow> unit admitted" where
  "validate_roster g configured =
     (let physical = physical_id ` g_voters g in
      if card physical \<noteq> card (g_voters g) \<or> \<not> physical \<subseteq> configured \<or>
         card physical \<le> card configured div 2
      then Inl (AdmissionDenied ''genesis is not a distinct configured physical majority'')
      else Inr ())"

record admission_context =
  ctx_local_replica :: replica_id
  ctx_genesis :: genesis

subsection \<open>Health progress and learner joins\<close>

record health_progress =
  hp_node_id :: u64
  hp_healthy :: "bool option"
  hp_replica :: replica_id
  hp_epoch :: u128
  hp_request_nonce :: bytes32
  hp_genesis :: genesis

definition validate_progress :: "health_progress \<Rightarrow> unit admitted" where
  "validate_progress p =
     (if hp_node_id p \<noteq> physical_id (hp_replica p) \<or> hp_epoch p \<noteq> g_epoch (hp_genesis p)
      then Inl (AdmissionDenied ''progress identity or epoch mismatch'') else Inr ())"

record applied_health_progress =
  ap_request :: health_progress
  ap_log_id :: log_id

record join_plan =
  jp_genesis :: genesis
  jp_consumer :: replica_id
  jp_request_nonce :: bytes32
  jp_previous_voters :: "replica_id set"
  jp_next_voters :: "replica_id set"

definition validate_plan :: "join_plan \<Rightarrow> unit admitted" where
  "validate_plan p =
     (let expected = insert (jp_consumer p)
            (Set.filter (\<lambda>r. physical_id r \<noteq> physical_id (jp_consumer p)) (jp_previous_voters p));
          physical = physical_id ` jp_previous_voters p in
      if jp_previous_voters p = {} \<or> card physical \<noteq> card (jp_previous_voters p) \<or>
         jp_consumer p \<in> jp_previous_voters p \<or> jp_next_voters p \<noteq> expected
      then Inl (AdmissionDenied ''join plan is not one exact boot replacement'') else Inr ())"

record prepared_join =
  pj_plan :: join_plan
  pj_prepared :: log_id
  pj_learner_applied :: "log_id option"

record completed_join =
  cj_prepared :: prepared_join
  cj_promoted :: log_id

datatype admission_command =
    PrepareJoin join_plan
  | CancelJoin join_plan log_id
  | LearnerApplied replica_id bytes32 log_id

record join_binding =
  jb_log_id :: log_id
  jb_plan_digest :: bytes32

definition plan_preimage :: "(u8 list \<Rightarrow> bytes32) \<Rightarrow> join_plan \<Rightarrow> u8 list" where
  "plan_preimage sha p =
     ascii ''keepafloatd-admission-join-plan-v1'' @ [0] @
     be_bytes 32 (genesis_digest sha (jp_genesis p)) @ replica_bytes (jp_consumer p) @
     be_bytes 32 (jp_request_nonce p) @
     voters_bytes (jp_previous_voters p) @ voters_bytes (jp_next_voters p)"

definition plan_digest :: "(u8 list \<Rightarrow> bytes32) \<Rightarrow> join_plan \<Rightarrow> bytes32" where
  "plan_digest sha p = sha (plan_preimage sha p)"

definition from_prepared :: "(u8 list \<Rightarrow> bytes32) \<Rightarrow> prepared_join \<Rightarrow> join_binding" where
  "from_prepared sha pj =
     \<lparr>jb_log_id = pj_prepared pj, jb_plan_digest = plan_digest sha (pj_plan pj)\<rparr>"

subsection \<open>Commands and responses of the replicated log\<close>

datatype failover_semantics = Legacy | FailoverV2

datatype kaf_request =
    HealthProgress health_progress
  | AdmissionGenesis genesis
  | AdmissionMembership admission_command
  | HealthUpdate u64 bool
  | VipReleased u64 ip_addr u64
  | ClusterFormed u128 failover_semantics bool
  | EnableFailoverSemanticsV2
  | EnableConfigIdentityV1

datatype kaf_response = Ok | Rejected string

fun request_node_id :: "kaf_request \<Rightarrow> u64 option" where
  "request_node_id (HealthProgress p) = Some (hp_node_id p)"
| "request_node_id (AdmissionGenesis _) = None"
| "request_node_id (AdmissionMembership _) = None"
| "request_node_id (HealthUpdate n _) = Some n"
| "request_node_id (VipReleased n _ _) = Some n"
| "request_node_id (ClusterFormed _ _ _) = None"
| "request_node_id EnableFailoverSemanticsV2 = None"
| "request_node_id EnableConfigIdentityV1 = None"

text \<open>A log entry of openraft: its identifier and one of the three payloads.\<close>

datatype entry_payload = Blank | Normal kaf_request | MembershipEntry membership

record log_entry =
  e_log_id :: log_id
  e_payload :: entry_payload

end
