(* ===== verification/Identity_Encoding.thy ===== *)
theory Identity_Encoding
  imports Kaf_Types
begin

text \<open>
  The text form of a replica identity and the byte strings that genesis and join-plan digests
  are taken of: the text form reads back to the same identity and only canonical text is
  accepted; the byte strings determine the records they encode, so two records with one digest
  are a collision of the hash function and nothing else.
\<close>

subsection \<open>Text form of a replica identity\<close>

lemma read_nonce_hex:
  "read_nonce (length bs) (concat (map (\<lambda>byte. hex_fmt 2 (unat byte)) bs)) = Inr bs"
proof (induction bs)
  case (Cons b bs)
  have "hex_parse (hex_fmt 2 (unat b)) = Some (unat b)"
    using unsigned_less [of b, where ?'a = nat] by (intro hex_parse_fmt) auto
  with Cons show ?case by simp
qed simp

lemma length_concat_hex2 [simp]:
  "length (concat (map (\<lambda>byte. hex_fmt 2 (unat byte)) bs)) = 2 * length bs"
  by (induction bs) auto

lemma length_replica_display [simp]: "length (replica_display r) = 81"
  by (simp add: replica_display_def)

lemma concat_hex2_lower:
  "c \<in> set (concat (map (\<lambda>byte. hex_fmt 2 (unat byte)) bs)) \<Longrightarrow> lower_hex c"
  using hex_fmt_digits by (force simp: lower_hex_def)

lemma replica_display_lower:
  assumes "i < 81" "i \<noteq> 16"
  shows "lower_hex (replica_display r ! i)"
proof (cases "i < 16")
  case True
  then have "replica_display r ! i = hex_fmt 16 (unat (physical_id r)) ! i"
    by (simp add: replica_display_def nth_append)
  then show ?thesis
    using True hex_fmt_digits [OF nth_mem, of i 16] by (auto simp: lower_hex_def)
next
  case False
  let ?n = "concat (map (\<lambda>byte. hex_fmt 2 (unat byte)) (be_bytes 32 (boot_nonce r)))"
  have "17 \<le> i" using False assms(2) by linarith
  then obtain j where j: "i = 17 + j" by (metis le_Suc_ex)
  then have "replica_display r ! i = ?n ! j"
    by (simp add: replica_display_def nth_append)
  moreover have "j < length ?n" using j assms(1) by simp
  ultimately show ?thesis using concat_hex2_lower nth_mem by metis
qed

lemma read_nonce_Inr:
  "read_nonce n cs = Inr bs \<Longrightarrow> length cs = 2 * n \<Longrightarrow>
   length bs = n \<and> concat (map (\<lambda>byte. hex_fmt 2 (unat byte)) bs) = cs"
proof (induction n arbitrary: cs bs)
  case (Suc n)
  from Suc.prems obtain v bs' where v: "hex_parse (take 2 cs) = Some v"
    and rest: "read_nonce n (drop 2 cs) = Inr bs'" and bs: "bs = of_nat v # bs'"
    by (auto split: option.splits)
  have len2: "length (take 2 cs) = 2" using Suc.prems by simp
  have hex: "hex_fmt 2 v = take 2 cs" "v < 256"
    using hex_fmt_parse [OF v] len2 by auto
  have "length bs' = n \<and> concat (map (\<lambda>byte. hex_fmt 2 (unat byte)) bs') = drop 2 cs"
    using Suc.IH [OF rest] Suc.prems by simp
  with hex bs show ?case by (simp add: unat_of_nat)
qed simp

lemma be_bytes_from_be_bytes:
  assumes "length bs = n" "8 * n \<le> LENGTH('a)"
  shows "be_bytes n (from_be_bytes bs :: 'a::len word) = bs"
proof -
  let ?ds = "map unat bs"
  have lt: "\<forall>d \<in> set ?ds. d < 256"
    using unsigned_less [where ?'b = 8 and ?'a = nat] by auto
  have "undigits 256 ?ds < 256 ^ length ?ds" by (rule undigits_bound [OF lt])
  also have "(256::nat) ^ length ?ds = 2 ^ (8 * n)" using assms(1) by (simp add: power_mult)
  also have "\<dots> \<le> 2 ^ LENGTH('a)" using assms(2) by (simp add: power_increasing)
  finally have "unat (from_be_bytes bs :: 'a word) = undigits 256 ?ds"
    by (simp add: from_be_bytes_def unat_of_nat)
  then have "be_bytes n (from_be_bytes bs :: 'a word) = map of_nat (digits 256 (length ?ds) (undigits 256 ?ds))"
    using assms(1) by (simp add: be_bytes_def)
  also have "\<dots> = bs" unfolding digits_undigits [OF lt] by (simp add: map_idI)
  finally show ?thesis .
qed

lemma hex_parse_lower:
  "cs \<noteq> [] \<Longrightarrow> \<forall>c \<in> set cs. lower_hex c \<Longrightarrow> \<exists>v. hex_parse cs = Some v"
  by (auto simp: hex_parse_def lower_hex_def)

lemma replica_from_display: "replica_from_str (replica_display r) = Inr r"
proof -
  let ?d = "replica_display r"
  let ?n = "concat (map (\<lambda>byte. hex_fmt 2 (unat byte)) (be_bytes 32 (boot_nonce r)))"
  have colon: "?d ! 16 = CHR '':''" by (simp add: replica_display_def nth_append)
  have canonical: "\<not> (length ?d \<noteq> 81 \<or> ?d ! 16 \<noteq> CHR '':'' \<or>
      (\<exists>i < length ?d. i \<noteq> 16 \<and> \<not> lower_hex (?d ! i)))"
    using replica_display_lower colon by auto
  have parts: "take 16 ?d = hex_fmt 16 (unat (physical_id r))" "drop 17 ?d = ?n"
    by (simp_all add: replica_display_def)
  have id16: "unat (physical_id r) < 16 ^ 16"
    using unsigned_less [of "physical_id r", where ?'a = nat] by simp
  have pid: "hex_parse (hex_fmt 16 (unat (physical_id r))) = Some (unat (physical_id r))"
    by (rule hex_parse_fmt [OF _ id16]) simp
  have nonce: "read_nonce 32 ?n = Inr (be_bytes 32 (boot_nonce r))"
    using read_nonce_hex [of "be_bytes 32 (boot_nonce r)"] by simp
  have inv: "from_be_bytes (be_bytes 32 (boot_nonce r)) = boot_nonce r"
    by (rule from_be_bytes_be_bytes) simp
  show ?thesis
    unfolding replica_from_str_def parts pid nonce if_not_P [OF canonical] by (simp add: inv)
qed

lemma replica_display_from_str:
  assumes "replica_from_str s = Inr r"
  shows "replica_display r = s"
proof -
  have len: "length s = 81" and colon: "s ! 16 = CHR '':''"
    using assms by (auto simp: replica_from_str_def split: if_splits)
  obtain v bs where v: "hex_parse (take 16 s) = Some v" and bs: "read_nonce 32 (drop 17 s) = Inr bs"
    and r: "r = ReplicaId (of_nat v) (from_be_bytes bs)"
    using assms by (auto simp: replica_from_str_def split: if_splits option.splits)
  have v16: "hex_fmt 16 v = take 16 s" "v < 16 ^ 16"
    using hex_fmt_parse [OF v] len by auto
  have nonce: "length bs = 32" "concat (map (\<lambda>byte. hex_fmt 2 (unat byte)) bs) = drop 17 s"
    using read_nonce_Inr [OF bs] len by auto
  have "unat (of_nat v :: u64) = v" using v16(2) by (simp add: unat_of_nat)
  moreover have "be_bytes 32 (from_be_bytes bs :: bytes32) = bs"
    using nonce(1) by (intro be_bytes_from_be_bytes) auto
  ultimately have "replica_display r = take 16 s @ [s ! 16] @ drop 17 s"
    using v16 nonce(2) colon by (simp add: replica_display_def r)
  also have "\<dots> = s" using len id_take_nth_drop [of 16 s] by simp
  finally show ?thesis .
qed

subsection \<open>Digest preimages\<close>

lemma length_replica_bytes [simp]: "length (replica_bytes r) = 40"
  by (simp add: replica_bytes_def)

lemma replica_bytes_inject [simp]: "replica_bytes a = replica_bytes b \<longleftrightarrow> a = b"
  by (cases a; cases b) (auto simp: replica_bytes_def be_bytes_inject)

lemma concat_replica_bytes_inject:
  "length xs = length ys \<Longrightarrow>
   concat (map replica_bytes xs) @ us = concat (map replica_bytes ys) @ vs \<longleftrightarrow> xs = ys \<and> us = vs"
proof (induction xs ys rule: list_induct2)
  case (Cons x xs y ys)
  then show ?case by (auto simp: append_eq_append_conv)
qed simp

text \<open>Sets smaller than \<open>2\<^sup>6\<^sup>4\<close>, as every set in memory is, are read back from their bytes even
  when more bytes follow.\<close>

lemma voters_bytes_inject:
  assumes fin: "finite A" "finite B" and small: "card A < 2 ^ 64" "card B < 2 ^ 64"
  shows "voters_bytes A @ us = voters_bytes B @ vs \<longleftrightarrow> A = B \<and> us = vs"
proof
  assume eq: "voters_bytes A @ us = voters_bytes B @ vs"
  then have "be_bytes 8 (of_nat (card A) :: u64) = be_bytes 8 (of_nat (card B) :: u64)"
    and rest: "concat (map replica_bytes (sorted_list_of_set A)) @ us =
               concat (map replica_bytes (sorted_list_of_set B)) @ vs"
    by (simp_all add: voters_bytes_def)
  then have "(of_nat (card A) :: u64) = of_nat (card B)" by (simp add: be_bytes_inject)
  then have "unat (of_nat (card A) :: u64) = unat (of_nat (card B) :: u64)" by simp
  then have "card A = card B" using small by (simp add: unat_of_nat)
  then have "length (sorted_list_of_set A) = length (sorted_list_of_set B)" by simp
  from concat_replica_bytes_inject [OF this] rest
  have "sorted_list_of_set A = sorted_list_of_set B" "us = vs" by blast+
  then show "A = B \<and> us = vs" using fin by (metis set_sorted_list_of_set)
qed simp

definition small_genesis :: "genesis \<Rightarrow> bool" where
  "small_genesis g = (finite (g_voters g) \<and> card (g_voters g) < 2 ^ 64)"

definition small_plan :: "join_plan \<Rightarrow> bool" where
  "small_plan p =
     (small_genesis (jp_genesis p) \<and>
      finite (jp_previous_voters p) \<and> card (jp_previous_voters p) < 2 ^ 64 \<and>
      finite (jp_next_voters p) \<and> card (jp_next_voters p) < 2 ^ 64)"

lemma genesis_preimage_inject:
  assumes "small_genesis g" "small_genesis h"
  shows "genesis_preimage g = genesis_preimage h \<longleftrightarrow> g = h"
proof
  assume eq: "genesis_preimage g = genesis_preimage h"
  then have "fp_version (g_config g) = fp_version (g_config h)"
    and "fp_digest (g_config g) = fp_digest (g_config h)" and "g_epoch g = g_epoch h"
    and "voters_bytes (g_voters g) = voters_bytes (g_voters h)"
    by (simp_all add: genesis_preimage_def be_bytes_inject)
  moreover have "g_voters g = g_voters h"
    using voters_bytes_inject [of "g_voters g" "g_voters h" "[]" "[]"] assms calculation(4)
    by (simp add: small_genesis_def)
  ultimately show "g = h" by simp
qed simp

lemma plan_preimage_inject:
  assumes small: "small_plan p" "small_plan q" and eq: "plan_preimage sha p = plan_preimage sha q"
  shows "genesis_digest sha (jp_genesis p) = genesis_digest sha (jp_genesis q) \<and>
         jp_consumer p = jp_consumer q \<and> jp_request_nonce p = jp_request_nonce q \<and>
         jp_previous_voters p = jp_previous_voters q \<and> jp_next_voters p = jp_next_voters q"
proof -
  have head: "be_bytes 32 (genesis_digest sha (jp_genesis p)) =
              be_bytes 32 (genesis_digest sha (jp_genesis q))"
    "replica_bytes (jp_consumer p) = replica_bytes (jp_consumer q)"
    "be_bytes 32 (jp_request_nonce p) = be_bytes 32 (jp_request_nonce q)"
    and tail: "voters_bytes (jp_previous_voters p) @ voters_bytes (jp_next_voters p) =
               voters_bytes (jp_previous_voters q) @ voters_bytes (jp_next_voters q)"
    using eq by (simp_all add: plan_preimage_def)
  have prev: "jp_previous_voters p = jp_previous_voters q"
    and next_eq: "voters_bytes (jp_next_voters p) = voters_bytes (jp_next_voters q)"
    using voters_bytes_inject [of "jp_previous_voters p" "jp_previous_voters q"] tail small
    by (auto simp: small_plan_def)
  have "jp_next_voters p = jp_next_voters q"
    using voters_bytes_inject [of "jp_next_voters p" "jp_next_voters q" "[]" "[]"] next_eq small
    by (simp add: small_plan_def)
  with head prev show ?thesis by (simp add: be_bytes_inject)
qed

text \<open>With a hash that does not collide on the two inputs at hand, equal bindings name the same
  committed plan at the same log position.\<close>

lemma from_prepared_inject:
  assumes small: "small_plan (pj_plan a)" "small_plan (pj_plan b)"
    and hash: "inj_on sha {genesis_preimage (jp_genesis (pj_plan a)), genesis_preimage (jp_genesis (pj_plan b))}"
      "inj_on sha {plan_preimage sha (pj_plan a), plan_preimage sha (pj_plan b)}"
    and eq: "from_prepared sha a = from_prepared sha b"
  shows "pj_plan a = pj_plan b \<and> pj_prepared a = pj_prepared b"
proof -
  have "sha (plan_preimage sha (pj_plan a)) = sha (plan_preimage sha (pj_plan b))"
    and log: "pj_prepared a = pj_prepared b"
    using eq by (simp_all add: from_prepared_def plan_digest_def)
  then have "plan_preimage sha (pj_plan a) = plan_preimage sha (pj_plan b)"
    by (blast intro: inj_onD [OF hash(2)])
  note parts = plan_preimage_inject [OF small this]
  then have "sha (genesis_preimage (jp_genesis (pj_plan a))) =
             sha (genesis_preimage (jp_genesis (pj_plan b)))"
    by (simp add: genesis_digest_def)
  then have "genesis_preimage (jp_genesis (pj_plan a)) = genesis_preimage (jp_genesis (pj_plan b))"
    by (blast intro: inj_onD [OF hash(1)])
  then have "jp_genesis (pj_plan a) = jp_genesis (pj_plan b)"
    using genesis_preimage_inject small by (simp add: small_plan_def)
  with parts log show ?thesis by simp
qed

subsection \<open>Properties\<close>

text \<open>The text form of a replica identity is canonical: a string parses to an identity exactly when it is
  the string that identity is displayed as.\<close>

theorem replica_text_canonical: "replica_from_str s = Inr r \<longleftrightarrow> s = replica_display r"
  using replica_from_display replica_display_from_str by auto

text \<open>C30. A join binding names its plan: with a hash that does not collide on the inputs at hand, two prepared
  joins with equal bindings have the same plan and were prepared at the same log position, so
  genesis, consumer boot, nonce and both voter sets are all covered by the digest.\<close>

theorem join_binding_names_plan:
  assumes "small_plan (pj_plan a)" "small_plan (pj_plan b)"
    "inj_on sha {genesis_preimage (jp_genesis (pj_plan a)), genesis_preimage (jp_genesis (pj_plan b))}"
    "inj_on sha {plan_preimage sha (pj_plan a), plan_preimage sha (pj_plan b)}"
    "from_prepared sha a = from_prepared sha b"
  shows "pj_plan a = pj_plan b \<and> pj_prepared a = pj_prepared b"
  by (rule from_prepared_inject [OF assms])

definition sample_prepared :: "log_id option \<Rightarrow> prepared_join" where
  "sample_prepared ack =
     \<lparr>pj_plan = \<lparr>jp_genesis = \<lparr>g_config = \<lparr>fp_version = 1, fp_digest = 0\<rparr>, g_epoch = 3, g_voters = {}\<rparr>,
                 jp_consumer = ReplicaId 2 5, jp_request_nonce = 8,
                 jp_previous_voters = {ReplicaId 1 4}, jp_next_voters = {ReplicaId 1 4, ReplicaId 2 5}\<rparr>,
      pj_prepared = \<lparr>committed_leader_id = LeaderId 1 (ReplicaId 1 4), index = 7\<rparr>, pj_learner_applied = ack\<rparr>"

theorem join_binding_names_plan_witness:
  "pj_plan (sample_prepared None) =
   pj_plan (sample_prepared (Some \<lparr>committed_leader_id = LeaderId 1 (ReplicaId 1 4), index = 9\<rparr>))"
proof -
  have small: "small_plan (pj_plan (sample_prepared ack))" for ack
    by (simp add: sample_prepared_def small_plan_def small_genesis_def)
  have "from_prepared (\<lambda>_. 0) (sample_prepared a) = from_prepared (\<lambda>_. 0) (sample_prepared b)" for a b
    by (simp add: from_prepared_def sample_prepared_def plan_digest_def)
  then show ?thesis
    by (intro join_binding_names_plan [where sha = "\<lambda>_. 0", THEN conjunct1] small)
       (simp_all add: sample_prepared_def)
qed

end
