(* ===== verification/Storage_State.thy ===== *)
theory Storage_State
  imports Kaf_Types
begin

text \<open>
  The shared in-memory Raft state (\<open>src/raft/store/state.rs\<close>): the fenced assignment of a
  VIP, the storage record that the log half and the state-machine half both point at, its
  snapshot, and the guard of the storage boundary (\<open>src/raft/store/authority.rs\<close>).

  The local admission session (\<open>AdmissionSession\<close> of \<open>src/raft/admission.rs\<close>) holds a context
  and a handle on the runtime's fence. The storage record keeps the context; what the fence
  answers and what the clock reads at the moment of a check is the argument \<open>fv\<close> of every
  operation that checks. \<open>serde_json\<close> is the pair of arguments \<open>to_vec\<close> and \<open>from_slice\<close>.
\<close>

subsection \<open>Admission sessions\<close>

datatype io_kind =
    PermissionDenied | NotFound | InvalidData | InvalidInput | OtherKind
  | UnexpectedEof | ConnectionReset | ConnectionAborted | ConnectionRefused | BrokenPipe
  | NotConnected | TimedOut | HostUnreachable | NetworkUnreachable | NetworkDown | Interrupted

text \<open>An \<open>io::Error\<close> carries a message, or the marker of \<open>src/process.rs\<close> for a missed deadline.\<close>

datatype io_error =
    IoError (io_error_kind: io_kind) string
  | DeadlineMissed (io_error_kind: io_kind) string

type_synonym 'a io = "(io_error, 'a) result"

record fence_view =
  fv_check :: "admission_context \<Rightarrow> instant admitted"
  fv_now :: instant

definition session_check :: "fence_view \<Rightarrow> admission_context \<Rightarrow> instant admitted" where
  "session_check fv ctx =
     rbind (fv_check fv ctx)
       (\<lambda>deadline. if deadline \<le> fv_now fv
                   then Inl (AdmissionDenied ''admission deadline expired'')
                   else Inr deadline)"

definition session_new :: "replica_id \<Rightarrow> fence_view \<Rightarrow> admission_context \<Rightarrow> admission_context admitted" where
  "session_new fence_local fv ctx =
     (if fence_local \<noteq> ctx_local_replica ctx
      then Inl (AdmissionDenied ''runtime boot differs from admission context'')
      else rbind (session_check fv ctx) (\<lambda>_. Inr ctx))"

subsection \<open>Assignments, storage and snapshots\<close>

definition OWNERSHIP_ACTIVATION_HOLDOFF_TICKS :: u64 where
  "OWNERSHIP_ACTIVATION_HOLDOFF_TICKS = 1"

record vip_assignment =
  holder :: u64
  generation :: u64
  previous_holder :: "u64 option"
  previous_holder_released :: bool
  activation_tick :: u64

record kaf_snapshot =
  snap_prepared_join :: "prepared_join option"
  snap_completed_joins :: "(u64, completed_join) btree_map"
  snap_genesis :: "genesis option"
  snap_applied_progress :: "(u64, applied_health_progress) btree_map"
  snap_last_applied :: "log_id option"
  snap_last_membership :: stored_membership
  snap_node_health :: "(u64, bool) btree_map"
  snap_node_probe_ticks :: "(u64, u64) btree_map"
  snap_latest_probe_tick :: u64
  snap_vip_assignments :: "(ip_addr, vip_assignment) btree_map"
  snap_vip_generation :: "(ip_addr, u64) btree_map"
  snap_vip_last_holder :: "(ip_addr, u64) btree_map"
  snap_cluster_epoch :: "u128 option"
  snap_node_recovery_tick :: "(u64, u64) btree_map"
  snap_node_failback_blocked :: "u64 set"
  snap_failover_semantics :: failover_semantics
  snap_config_identity_enforced :: bool
  snap_node_nopreempt :: "u64 set"
  snap_node_recovery_pending :: "u64 set"

text \<open>A vote of openraft. The store copies it and never looks into it; the network checks its leader.\<close>

datatype raft_vote = RaftVote (vote_leader: leader_id) (vote_committed: bool)

record kaf_storage_state =
  prepared_join :: "prepared_join option"
  completed_joins :: "(u64, completed_join) btree_map"
  genesis :: "genesis option"
  applied_progress :: "(u64, applied_health_progress) btree_map"
  admission :: "admission_context option"
  admission_required :: bool
  last_purged_log_id :: "log_id option"
  log :: "(u64, log_entry) btree_map"
  vote :: "raft_vote option"
  committed :: "log_id option"
  last_applied_log :: "log_id option"
  last_membership :: stored_membership
  node_health :: "(u64, bool) btree_map"
  node_probe_ticks :: "(u64, u64) btree_map"
  latest_probe_tick :: u64
  vip_assignments :: "(ip_addr, vip_assignment) btree_map"
  vip_generation :: "(ip_addr, u64) btree_map"
  vip_last_holder :: "(ip_addr, u64) btree_map"
  cluster_epoch :: "u128 option"
  vip_list :: vip_table
  stale_missed_probes :: u64
  failback :: bool
  failback_delay_ticks :: u64
  node_recovery_tick :: "(u64, u64) btree_map"
  node_failback_blocked :: "u64 set"
  failover_semantics :: failover_semantics
  config_identity_enforced :: bool
  node_nopreempt :: "u64 set"
  node_recovery_pending :: "u64 set"
  current_snapshot :: "kaf_snapshot option"

definition default_stored_membership :: stored_membership where
  "default_stored_membership = \<lparr>sm_log_id = None, sm_membership = empty_membership\<rparr>"

definition new_storage :: "vip_table \<Rightarrow> u64 \<Rightarrow> bool \<Rightarrow> u64 \<Rightarrow> kaf_storage_state" where
  "new_storage vips stale fb delay =
     \<lparr>prepared_join = None, completed_joins = bm_empty, genesis = None,
      applied_progress = bm_empty, admission = None, admission_required = True,
      last_purged_log_id = None, log = bm_empty, vote = None, committed = None,
      last_applied_log = None, last_membership = default_stored_membership,
      node_health = bm_empty, node_probe_ticks = bm_empty, latest_probe_tick = 0,
      vip_assignments = bm_empty, vip_generation = bm_empty, vip_last_holder = bm_empty,
      cluster_epoch = None, vip_list = vips, stale_missed_probes = stale, failback = fb,
      failback_delay_ticks = delay, node_recovery_tick = bm_empty,
      node_failback_blocked = {}, failover_semantics = Legacy,
      config_identity_enforced = False, node_nopreempt = {}, node_recovery_pending = {},
      current_snapshot = None\<rparr>"

text \<open>\<open>new_admitted_store\<close> builds the shared state of the two storage halves.\<close>

definition new_store_inner :: "vip_table \<Rightarrow> u64 \<Rightarrow> bool \<Rightarrow> u64 \<Rightarrow> bool \<Rightarrow> kaf_storage_state" where
  "new_store_inner vips stale fb delay required =
     (new_storage vips stale fb delay)\<lparr>admission_required := required\<rparr>"

definition new_admitted_store :: "vip_table \<Rightarrow> u64 \<Rightarrow> bool \<Rightarrow> u64 \<Rightarrow> kaf_storage_state" where
  "new_admitted_store vips stale fb delay = new_store_inner vips stale fb delay True"

definition bind_admission ::
  "fence_view \<Rightarrow> admission_context \<Rightarrow> kaf_storage_state \<Rightarrow> kaf_storage_state admitted" where
  "bind_admission fv session st =
     rbind (session_check fv session) (\<lambda>_.
       if admission st \<noteq> None then Inl (AdmissionDenied ''admission context is already bound'')
       else if (case genesis st of None \<Rightarrow> False | Some g \<Rightarrow> g \<noteq> ctx_genesis session)
       then Inl (AdmissionDenied ''admission genesis differs from applied history'')
       else Inr (st\<lparr>admission := Some session\<rparr>))"

definition snapshot_of :: "kaf_storage_state \<Rightarrow> kaf_snapshot" where
  "snapshot_of st =
     \<lparr>snap_prepared_join = prepared_join st, snap_completed_joins = completed_joins st,
      snap_genesis = genesis st, snap_applied_progress = applied_progress st,
      snap_last_applied = last_applied_log st, snap_last_membership = last_membership st,
      snap_node_health = node_health st, snap_node_probe_ticks = node_probe_ticks st,
      snap_latest_probe_tick = latest_probe_tick st, snap_vip_assignments = vip_assignments st,
      snap_vip_generation = vip_generation st, snap_vip_last_holder = vip_last_holder st,
      snap_cluster_epoch = cluster_epoch st, snap_node_recovery_tick = node_recovery_tick st,
      snap_node_failback_blocked = node_failback_blocked st,
      snap_failover_semantics = failover_semantics st,
      snap_config_identity_enforced = config_identity_enforced st,
      snap_node_nopreempt = node_nopreempt st,
      snap_node_recovery_pending = node_recovery_pending st\<rparr>"

text \<open>The last lines of \<open>restore_into\<close>: the failback sets are reconciled against the local
  configuration instead of copied.\<close>

definition reconcile_failback :: "kaf_snapshot \<Rightarrow> kaf_storage_state \<Rightarrow> kaf_storage_state" where
  "reconcile_failback snap st =
     (case failover_semantics st of
        Legacy \<Rightarrow>
          if failback st then st\<lparr>node_failback_blocked := {}\<rparr>
          else st\<lparr>node_failback_blocked := snap_node_failback_blocked snap\<rparr>
      | FailoverV2 \<Rightarrow>
          if failback st then st\<lparr>node_failback_blocked := {}, node_nopreempt := {}\<rparr>
          else st\<lparr>node_failback_blocked := {}, node_recovery_pending := {},
                  node_recovery_tick := bm_empty\<rparr>)"

definition restore_into :: "kaf_snapshot \<Rightarrow> kaf_storage_state \<Rightarrow> kaf_storage_state" where
  "restore_into snap st =
     reconcile_failback snap
       (st\<lparr>prepared_join := snap_prepared_join snap,
           completed_joins := snap_completed_joins snap,
           genesis := snap_genesis snap,
           applied_progress := snap_applied_progress snap,
           last_applied_log := snap_last_applied snap,
           last_membership := snap_last_membership snap,
           node_health := snap_node_health snap,
           node_probe_ticks := snap_node_probe_ticks snap,
           latest_probe_tick := snap_latest_probe_tick snap,
           vip_assignments := snap_vip_assignments snap,
           vip_generation := snap_vip_generation snap,
           vip_last_holder := snap_vip_last_holder snap,
           cluster_epoch := snap_cluster_epoch snap,
           node_recovery_tick := snap_node_recovery_tick snap,
           failover_semantics := snap_failover_semantics snap,
           config_identity_enforced := snap_config_identity_enforced snap,
           node_nopreempt := snap_node_nopreempt snap,
           node_recovery_pending := snap_node_recovery_pending snap\<rparr>)"

record snapshot_meta =
  meta_last_log_id :: "log_id option"
  meta_last_membership :: stored_membership

definition snapshot_at ::
  "(kaf_snapshot \<Rightarrow> u8 list io) \<Rightarrow> log_id \<Rightarrow> kaf_storage_state \<Rightarrow> (snapshot_meta \<times> u8 list) io" where
  "snapshot_at to_vec last_applied st =
     rbind (to_vec ((snapshot_of st)\<lparr>snap_last_applied := Some last_applied\<rparr>)) (\<lambda>data.
       Inr (\<lparr>meta_last_log_id = Some last_applied, meta_last_membership = last_membership st\<rparr>, data))"

subsection \<open>The storage boundary\<close>

text \<open>The model is of the production build, in which \<open>cfg!(test)\<close> is false.\<close>

definition cfg_test :: bool where
  "cfg_test = False"

definition check_mutation :: "fence_view \<Rightarrow> kaf_storage_state \<Rightarrow> unit io" where
  "check_mutation fv st =
     (if \<not> admission_required st \<and> cfg_test then Inr ()
      else (case admission st of
              None \<Rightarrow> Inl (IoError PermissionDenied ''storage requires local admission'')
            | Some ctx \<Rightarrow>
                (case session_check fv ctx of
                   Inl (AdmissionDenied e) \<Rightarrow> Inl (IoError PermissionDenied e)
                 | Inr _ \<Rightarrow> Inr ())))"

lemma check_mutation_ok:
  "check_mutation fv st = Inr u \<longleftrightarrow>
   (\<exists>ctx deadline. admission st = Some ctx \<and> fv_check fv ctx = Inr deadline \<and> fv_now fv < deadline)"
  by (auto simp: check_mutation_def cfg_test_def session_check_def
      split: option.splits sum.splits admission_denied.splits if_splits)

lemma check_mutation_denied:
  "check_mutation fv st = Inl e \<Longrightarrow> \<exists>msg. e = IoError PermissionDenied msg"
  by (auto simp: check_mutation_def cfg_test_def
      split: option.splits sum.splits admission_denied.splits)

lemma session_check_Inr [simp]:
  "session_check fv ctx = Inr d \<longleftrightarrow> fv_check fv ctx = Inr d \<and> fv_now fv < d"
  by (auto simp: session_check_def not_le split: if_splits intro: exI [of _ d])

text \<open>The part of the storage that the replicated log determines: all fields a snapshot carries.\<close>

definition same_config :: "kaf_storage_state \<Rightarrow> kaf_storage_state \<Rightarrow> bool" where
  "same_config a b =
     (vip_list a = vip_list b \<and> stale_missed_probes a = stale_missed_probes b \<and>
      failback a = failback b \<and> failback_delay_ticks a = failback_delay_ticks b)"

definition replica_equiv :: "kaf_storage_state \<Rightarrow> kaf_storage_state \<Rightarrow> bool" where
  "replica_equiv a b = (snapshot_of a = snapshot_of b \<and> same_config a b)"

text \<open>What every reachable state has of the failback bookkeeping: each semantics keeps empty the
  sets that only the other one, or the other failback setting, fills.\<close>

definition failback_inv :: "kaf_storage_state \<Rightarrow> bool" where
  "failback_inv st =
     (case failover_semantics st of
        Legacy \<Rightarrow>
          node_nopreempt st = {} \<and> node_recovery_pending st = {} \<and>
          (failback st \<longrightarrow> node_failback_blocked st = {})
      | FailoverV2 \<Rightarrow>
          node_failback_blocked st = {} \<and>
          (if failback st then node_nopreempt st = {}
           else node_recovery_pending st = {} \<and> node_recovery_tick st = bm_empty))"

lemma failback_inv_new: "failback_inv (new_storage vips stale fb delay)"
  by (simp add: failback_inv_def new_storage_def)

text \<open>Restoring a snapshot gives a replica the sender's replicated state and leaves the local
  configuration, the log, the vote and the admission alone.\<close>

lemma snapshot_of_restore:
  assumes "failback_inv s" "failback s = failback t"
  shows "snapshot_of (restore_into (snapshot_of s) t) = snapshot_of s"
  using assms
  by (auto simp: failback_inv_def restore_into_def reconcile_failback_def snapshot_of_def
      split: failover_semantics.splits if_splits)

lemma restore_into_frame:
  "admission (restore_into snap st) = admission st"
  "admission_required (restore_into snap st) = admission_required st"
  "log (restore_into snap st) = log st"
  "vote (restore_into snap st) = vote st"
  "committed (restore_into snap st) = committed st"
  "last_purged_log_id (restore_into snap st) = last_purged_log_id st"
  "vip_list (restore_into snap st) = vip_list st"
  "stale_missed_probes (restore_into snap st) = stale_missed_probes st"
  "failback (restore_into snap st) = failback st"
  "failback_delay_ticks (restore_into snap st) = failback_delay_ticks st"
  "current_snapshot (restore_into snap st) = current_snapshot st"
  by (simp_all add: restore_into_def reconcile_failback_def split: failover_semantics.splits)

lemma failback_inv_restore:
  "failback_inv s \<Longrightarrow> failback s = failback t \<Longrightarrow> failback_inv (restore_into (snapshot_of s) t)"
  by (auto simp: failback_inv_def restore_into_def reconcile_failback_def snapshot_of_def
      split: failover_semantics.splits)

lemma replica_equiv_restore:
  assumes "failback_inv s" "same_config s t"
  shows "replica_equiv (restore_into (snapshot_of s) t) s"
  using assms
  by (simp add: replica_equiv_def snapshot_of_restore same_config_def restore_into_frame)

end
