(* ===== verification/Vip_Logic.thy ===== *)
theory Vip_Logic
  imports Storage_State
begin

text \<open>
  VIP eligibility and assignment (\<open>src/raft/store/vip_logic.rs\<close>) with the voter view it is
  computed from (\<open>unique_voters\<close> of \<open>src/raft/store/membership.rs\<close>): who may hold a VIP, the
  three-pass minimal-movement placement, and the merge of a new holder map into the fenced
  assignments.

  \<open>BTreeMap<u64, usize>\<close> load counters are natural numbers: a counter never exceeds the
  number of VIPs, so \<open>usize\<close> does not overflow, and the decrement of pass three happens at a
  load of at least two.
\<close>

subsection \<open>The voters of a membership\<close>

definition unique_voters :: "membership \<Rightarrow> (u64, replica_id) btree_map" where
  "unique_voters m =
     (let (voters, ambiguous) =
        fold (\<lambda>replica (voters, ambiguous).
                (bm_insert (physical_id replica) replica voters,
                 if bm_contains voters (physical_id replica)
                 then insert (physical_id replica) ambiguous else ambiguous))
             (voter_ids m) (bm_empty, {})
      in bm_retain (\<lambda>i _. i \<notin> ambiguous) voters)"

subsection \<open>Eligibility\<close>

record eligibility_inputs =
  ei_node_health :: "(u64, bool) btree_map"
  ei_node_probe_ticks :: "(u64, u64) btree_map"
  ei_latest_probe_tick :: u64
  ei_stale_missed_probes :: u64
  ei_failback_delay_ticks :: u64
  ei_node_recovery_tick :: "(u64, u64) btree_map"

definition eligibility_of :: "kaf_storage_state \<Rightarrow> eligibility_inputs" where
  "eligibility_of st =
     \<lparr>ei_node_health = node_health st, ei_node_probe_ticks = node_probe_ticks st,
      ei_latest_probe_tick = latest_probe_tick st,
      ei_stale_missed_probes = stale_missed_probes st,
      ei_failback_delay_ticks = failback_delay_ticks st,
      ei_node_recovery_tick = node_recovery_tick st\<rparr>"

definition is_node_probe_fresh :: "u64 \<Rightarrow> (u64, u64) btree_map \<Rightarrow> u64 \<Rightarrow> u64 \<Rightarrow> bool" where
  "is_node_probe_fresh node_id ticks latest stale =
     (case bm_get ticks node_id of
        None \<Rightarrow> False
      | Some last_tick \<Rightarrow> sat_sub latest last_tick \<le> stale)"

definition is_node_base_eligible ::
  "u64 \<Rightarrow> (u64, bool) btree_map \<Rightarrow> (u64, u64) btree_map \<Rightarrow> u64 \<Rightarrow> u64 \<Rightarrow> bool" where
  "is_node_base_eligible node_id health ticks latest stale =
     (if \<not> (case bm_get health node_id of None \<Rightarrow> False | Some h \<Rightarrow> h) then False
      else is_node_probe_fresh node_id ticks latest stale)"

definition is_node_eligible :: "u64 \<Rightarrow> eligibility_inputs \<Rightarrow> u64 set \<Rightarrow> bool" where
  "is_node_eligible node_id inputs blocked =
     (if node_id \<in> blocked then False
      else if \<not> is_node_base_eligible node_id (ei_node_health inputs) (ei_node_probe_ticks inputs)
                 (ei_latest_probe_tick inputs) (ei_stale_missed_probes inputs) then False
      else (case bm_get (ei_node_recovery_tick inputs) node_id of
              None \<Rightarrow> True
            | Some recovery_tick \<Rightarrow>
                \<not> sat_sub (ei_latest_probe_tick inputs) recovery_tick < ei_failback_delay_ticks inputs))"

definition next_probe_tick :: "u64 option \<Rightarrow> u64 \<Rightarrow> u64" where
  "next_probe_tick prev latest = max (sat_add (case prev of None \<Rightarrow> 0 | Some t \<Rightarrow> t) 1) latest"

definition eligible_nodes :: "stored_membership \<Rightarrow> eligibility_inputs \<Rightarrow> u64 set \<Rightarrow> u64 list" where
  "eligible_nodes sm inputs blocked =
     filter (\<lambda>i. is_node_eligible i inputs blocked)
       (sort (bm_keys (unique_voters (sm_membership sm))))"

subsection \<open>Placement\<close>

text \<open>The test oracle of the source: round-robin over the eligible nodes in list order.\<close>

definition assign_vips_round_robin_eligible ::
  "u64 list \<Rightarrow> ip_addr list \<Rightarrow> (ip_addr, u64) btree_map" where
  "assign_vips_round_robin_eligible eligible vips =
     (if eligible = [] then bm_empty
      else fold (\<lambda>(i, vip). bm_insert vip (eligible ! (i mod length eligible)))
             (List.enumerate 0 vips) bm_empty)"

definition extreme_loaded_node ::
  "(u64, nat) btree_map \<Rightarrow> (nat \<Rightarrow> nat \<Rightarrow> bool) \<Rightarrow> (u64 \<times> nat) option" where
  "extreme_loaded_node load keep_current =
     fold (\<lambda>(i, l) best.
             case best of
               Some (_, bl) \<Rightarrow> if keep_current l bl then best else Some (i, l)
             | None \<Rightarrow> Some (i, l))
       (entries load) None"

definition least_loaded_node :: "(u64, nat) btree_map \<Rightarrow> (u64 \<times> nat) option" where
  "least_loaded_node load = extreme_loaded_node load (\<lambda>l bl. bl \<le> l)"

definition most_loaded_node :: "(u64, nat) btree_map \<Rightarrow> (u64 \<times> nat) option" where
  "most_loaded_node load = extreme_loaded_node load (\<lambda>l bl. l \<le> bl)"

text \<open>The three mutable maps of the placement: the result, the load of each eligible node and
  the VIPs placed on each node. \<open>place\<close> is the three updates that follow every placement.\<close>

record placement =
  out :: "(ip_addr, u64) btree_map"
  load :: "(u64, nat) btree_map"
  held :: "(u64, ip_addr set) btree_map"

definition held_at :: "placement \<Rightarrow> u64 \<Rightarrow> ip_addr set" where
  "held_at p n = (case bm_get (held p) n of None \<Rightarrow> {} | Some s \<Rightarrow> s)"

definition load_at :: "placement \<Rightarrow> u64 \<Rightarrow> nat" where
  "load_at p n = (case bm_get (load p) n of None \<Rightarrow> 0 | Some l \<Rightarrow> l)"

definition place :: "ip_addr \<Rightarrow> u64 \<Rightarrow> placement \<Rightarrow> placement" where
  "place vip node p =
     p\<lparr>out := bm_insert vip node (out p),
       load := bm_insert node (load_at p node + 1) (load p),
       held := bm_insert node (insert vip (held_at p node)) (held p)\<rparr>"

text \<open>Pass one keeps the VIPs whose holder is still eligible and collects the others.\<close>

definition keep_step ::
  "u64 set \<Rightarrow> (ip_addr, u64) btree_map \<Rightarrow> ip_addr \<Rightarrow> placement \<times> ip_addr list \<Rightarrow> placement \<times> ip_addr list" where
  "keep_step eligible_set current vip = (\<lambda>(p, orphans).
     case bm_get current vip of
       Some h \<Rightarrow> if h \<in> eligible_set then (place vip h p, orphans) else (p, orphans @ [vip])
     | None \<Rightarrow> (p, orphans @ [vip]))"

text \<open>Pass two places each orphan on the least-loaded eligible node.\<close>

fun place_orphans :: "ip_addr list \<Rightarrow> placement \<Rightarrow> placement" where
  "place_orphans [] p = p"
| "place_orphans (vip # vips) p =
     (case least_loaded_node (load p) of
        None \<Rightarrow> p
      | Some (target, _) \<Rightarrow> place_orphans vips (place vip target p))"

text \<open>The updates that end an iteration of pass three: the VIP leaves the donor for the
  recipient.\<close>

definition move_vip :: "ip_addr \<Rightarrow> u64 \<Rightarrow> u64 \<Rightarrow> placement \<Rightarrow> placement" where
  "move_vip vip donor recv p =
     (let p1 = p\<lparr>out := bm_insert vip recv (out p),
                 held := bm_insert donor (held_at p donor - {vip}) (held p)\<rparr>;
          p2 = p1\<lparr>held := bm_insert recv (insert vip (held_at p1 recv)) (held p1),
                  load := bm_insert donor (load_at p1 donor - 1) (load p1)\<rparr>
      in p2\<lparr>load := bm_insert recv (load_at p2 recv + 1) (load p2)\<rparr>)"

text \<open>One iteration of pass three: \<open>None\<close> when the loop ends.\<close>

definition rebalance_step :: "u64 set \<Rightarrow> placement \<Rightarrow> placement option" where
  "rebalance_step receivers p =
     (case most_loaded_node (load p) of
        None \<Rightarrow> None
      | Some (donor, donor_load) \<Rightarrow>
          (case least_loaded_node (bm_retain (\<lambda>i _. i \<in> receivers) (load p)) of
             None \<Rightarrow> None
           | Some (recv, recv_load) \<Rightarrow>
               if donor_load - recv_load \<le> 1 then None
               else if held_at p donor = {} then None
               else Some (move_vip (Max (held_at p donor)) donor recv p)))"

definition load_energy :: "placement \<Rightarrow> nat" where
  "load_energy p = bm_sum (\<lambda>l. l * l) (load p)"

subsection \<open>Extreme loads\<close>

lemma extreme_fold:
  assumes "transp keep" "\<And>a b. keep a b \<or> keep b a"
  shows "fold (\<lambda>(i, l) best. case best of
                 Some (_, bl) \<Rightarrow> if keep l bl then best else Some (i, l)
               | None \<Rightarrow> Some (i, l)) xs (Some (j, m)) = Some (i', l') \<Longrightarrow>
         ((i', l') = (j, m) \<or> (i', l') \<in> set xs) \<and> keep m l' \<and> (\<forall>(i, l) \<in> set xs. keep l l')"
proof (induction xs arbitrary: j m)
  case Nil
  then show ?case using assms(2) [of l' l'] by auto
next
  case (Cons x xs)
  obtain i l where x: "x = (i, l)" by (cases x)
  show ?case
  proof (cases "keep l m")
    case True
    then have IH: "((i', l') = (j, m) \<or> (i', l') \<in> set xs) \<and> keep m l' \<and> (\<forall>(i, l) \<in> set xs. keep l l')"
      using Cons x by simp
    then have "keep l l'" using True assms(1) by (meson transpE)
    with IH x show ?thesis by auto
  next
    case False
    then have IH: "((i', l') = (i, l) \<or> (i', l') \<in> set xs) \<and> keep l l' \<and> (\<forall>(i, l) \<in> set xs. keep l l')"
      using Cons x by simp
    have "keep m l" using False assms(2) by blast
    then have "keep m l'" using IH assms(1) by (meson transpE)
    with IH x show ?thesis by auto
  qed
qed

lemma extreme_loaded_node_Some:
  assumes keep: "transp keep" "\<And>a b. keep a b \<or> keep b a"
    and ext: "extreme_loaded_node m keep = Some (i, l)"
  shows "bm_get m i = Some l \<and> (\<forall>j k. bm_get m j = Some k \<longrightarrow> keep k l)"
proof -
  obtain x xs where xs: "entries m = x # xs"
    using ext by (cases "entries m") (auto simp: extreme_loaded_node_def)
  obtain i0 l0 where x: "x = (i0, l0)" by (cases x)
  have "((i, l) = (i0, l0) \<or> (i, l) \<in> set xs) \<and> keep l0 l \<and> (\<forall>(i, k) \<in> set xs. keep k l)"
    using ext extreme_fold [OF keep] by (simp add: extreme_loaded_node_def xs x)
  then have "(i, l) \<in> set (entries m)" "\<forall>(j, k) \<in> set (entries m). keep k l"
    using xs x by auto
  then show ?thesis by (auto simp: in_entries_iff)
qed

text \<open>Among nodes at the extreme the one with the lowest identifier is chosen.\<close>

lemma extreme_fold_lowest:
  fixes j i' :: u64
  assumes "transp keep" "\<And>a b. keep a b \<or> keep b a" "sorted_wrt (<) (j # map fst xs)"
    "fold (\<lambda>(i, l) best. case best of
                 Some (_, bl) \<Rightarrow> if keep l bl then best else Some (i, l)
               | None \<Rightarrow> Some (i, l)) xs (Some (j, m)) = Some (i', l')"
  shows "(keep l' m \<longrightarrow> i' \<le> j) \<and> (\<forall>(i, l) \<in> set xs. keep l' l \<longrightarrow> i' \<le> i)"
  using assms(3,4)
proof (induction xs arbitrary: j m)
  case (Cons x xs)
  obtain i l where x: "x = (i, l)" by (cases x)
  show ?case
  proof (cases "keep l m")
    case True
    then have IH: "(keep l' m \<longrightarrow> i' \<le> j) \<and> (\<forall>(i, l) \<in> set xs. keep l' l \<longrightarrow> i' \<le> i)"
      using Cons.IH [of j m] Cons.prems x by simp
    have "i' \<le> i" if "keep l' l"
    proof -
      have "keep l' m" using that True assms(1) by (meson transpE)
      then show ?thesis using IH Cons.prems(1) x by auto
    qed
    with IH x show ?thesis by auto
  next
    case False
    then have step: "fold (\<lambda>(i, l) best. case best of
                 Some (_, bl) \<Rightarrow> if keep l bl then best else Some (i, l)
               | None \<Rightarrow> Some (i, l)) xs (Some (i, l)) = Some (i', l')"
      using Cons.prems x by simp
    have IH: "(keep l' l \<longrightarrow> i' \<le> i) \<and> (\<forall>(i, l) \<in> set xs. keep l' l \<longrightarrow> i' \<le> i)"
      using Cons.IH [OF _ step] Cons.prems(1) x by simp
    have "keep l l'" using extreme_fold [OF assms(1,2) step] by blast
    then have "\<not> keep l' m" using False assms(1) by (meson transpE)
    with IH x show ?thesis by auto
  qed
qed (use assms in auto)

lemma fold_extreme_Some:
  "\<exists>y. fold (\<lambda>(i, l) best. case best of
          Some (_, bl) \<Rightarrow> if keep l bl then best else Some (i, l)
        | None \<Rightarrow> Some (i, l)) xs (Some z) = Some y"
proof (induction xs arbitrary: z)
  case (Cons x xs)
  then show ?case by (cases x; cases z) auto
qed simp

lemma extreme_loaded_node_None [simp]:
  "extreme_loaded_node m keep = None \<longleftrightarrow> m = bm_empty"
proof
  assume none: "extreme_loaded_node m keep = None"
  have "entries m = []"
  proof (cases "entries m")
    case (Cons x xs)
    obtain i l where "x = (i, l)" by (cases x)
    then show ?thesis
      using none fold_extreme_Some [of keep xs "(i, l)"] by (auto simp: extreme_loaded_node_def Cons)
  qed
  then show "m = bm_empty" by (metis entries_empty entries_inject)
qed (simp add: extreme_loaded_node_def)

lemma least_loaded_nodeD:
  "least_loaded_node m = Some (i, l) \<Longrightarrow> bm_get m i = Some l \<and> (\<forall>j k. bm_get m j = Some k \<longrightarrow> l \<le> k)"
  unfolding least_loaded_node_def
  by (drule extreme_loaded_node_Some [rotated 2]) (auto simp: transp_def)

lemma least_loaded_node_lowest:
  assumes "least_loaded_node m = Some (i, l)" "bm_get m j = Some l"
  shows "i \<le> j"
proof -
  let ?keep = "\<lambda>l bl::nat. bl \<le> l"
  obtain x xs where xs: "entries m = x # xs"
    using assms(1) by (cases "entries m") (auto simp: least_loaded_node_def extreme_loaded_node_def)
  obtain i0 l0 where x: "x = (i0, l0)" by (cases x)
  have "sorted_wrt (<) (i0 # map fst xs)" using entries_sorted [of m] by (simp add: xs x)
  then have "(?keep l l0 \<longrightarrow> i \<le> i0) \<and> (\<forall>(j, k) \<in> set xs. ?keep l k \<longrightarrow> i \<le> j)"
    using assms(1)
    by (intro extreme_fold_lowest [where keep = ?keep])
       (auto simp: least_loaded_node_def extreme_loaded_node_def xs x transp_def)
  then show ?thesis using assms(2) xs x by (auto simp flip: in_entries_iff)
qed

lemma most_loaded_nodeD:
  "most_loaded_node m = Some (i, l) \<Longrightarrow> bm_get m i = Some l \<and> (\<forall>j k. bm_get m j = Some k \<longrightarrow> k \<le> l)"
  unfolding most_loaded_node_def
  by (drule extreme_loaded_node_Some [rotated 2]) (auto simp: transp_def)

subsection \<open>Termination of the rebalancing loop\<close>

lemma move_vip_sel:
  assumes "donor \<noteq> recv"
  shows "out (move_vip vip donor recv p) = bm_insert vip recv (out p)"
    and "load (move_vip vip donor recv p) =
           bm_insert recv (load_at p recv + 1) (bm_insert donor (load_at p donor - 1) (load p))"
    and "held (move_vip vip donor recv p) =
           bm_insert recv (insert vip (held_at p recv)) (bm_insert donor (held_at p donor - {vip}) (held p))"
  using assms by (simp_all add: move_vip_def Let_def load_at_def held_at_def)

lemma rebalance_stepE:
  assumes "rebalance_step receivers p = Some p'"
  obtains donor dl recv rl where
    "most_loaded_node (load p) = Some (donor, dl)"
    "bm_get (load p) donor = Some dl" "bm_get (load p) recv = Some rl"
    "recv \<in> receivers" "rl + 2 \<le> dl" "donor \<noteq> recv" "held_at p donor \<noteq> {}"
    "\<And>j k. bm_get (load p) j = Some k \<Longrightarrow> j \<in> receivers \<Longrightarrow> rl \<le> k"
    "\<And>j k. bm_get (load p) j = Some k \<Longrightarrow> k \<le> dl"
    "p' = move_vip (Max (held_at p donor)) donor recv p"
proof -
  obtain donor dl where d: "most_loaded_node (load p) = Some (donor, dl)"
    using assms by (auto simp: rebalance_step_def split: option.splits)
  obtain recv rl where r: "least_loaded_node (bm_retain (\<lambda>i _. i \<in> receivers) (load p)) = Some (recv, rl)"
    using assms d by (auto simp: rebalance_step_def split: option.splits)
  have step: "rl + 2 \<le> dl" "held_at p donor \<noteq> {}" "p' = move_vip (Max (held_at p donor)) donor recv p"
    using assms d r by (auto simp: rebalance_step_def split: if_splits)
  have gd: "bm_get (load p) donor = Some dl" "\<And>j k. bm_get (load p) j = Some k \<Longrightarrow> k \<le> dl"
    using most_loaded_nodeD [OF d] by blast+
  have gr: "bm_get (load p) recv = Some rl" "recv \<in> receivers"
    using least_loaded_nodeD [OF r] by (auto split: option.splits if_splits)
  have least: "rl \<le> k" if "bm_get (load p) j = Some k" "j \<in> receivers" for j k
  proof -
    have "bm_get (bm_retain (\<lambda>i _. i \<in> receivers) (load p)) j = Some k" using that by simp
    then show ?thesis using least_loaded_nodeD [OF r] by blast
  qed
  have "donor \<noteq> recv" using gd(1) gr(1) step(1) by auto
  then show thesis using that d gd gr step least by blast
qed

lemma rebalance_step_energy:
  assumes "rebalance_step receivers p = Some p'"
  shows "load_energy p' < load_energy p"
proof -
  obtain donor dl recv rl where g: "bm_get (load p) donor = Some dl" "bm_get (load p) recv = Some rl"
    and gap: "rl + 2 \<le> dl" and ne: "donor \<noteq> recv"
    and p': "p' = move_vip (Max (held_at p donor)) donor recv p"
    using assms by (rule rebalance_stepE)
  have l': "load p' = bm_insert recv (rl + 1) (bm_insert donor (dl - 1) (load p))"
    using g by (simp add: p' move_vip_sel [OF ne] load_at_def)
  let ?f = "\<lambda>l::nat. l * l" and ?m = "bm_insert donor (dl - 1) (load p)"
  have "bm_sum ?f ?m + ?f dl = bm_sum ?f (load p) + ?f (dl - 1)"
    by (rule bm_sum_insert [OF g(1)])
  moreover have "bm_sum ?f (load p') + ?f rl = bm_sum ?f ?m + ?f (rl + 1)"
    unfolding l' using g(2) ne by (intro bm_sum_insert) simp
  moreover obtain k where k: "dl = rl + 2 + k" using gap by (metis le_Suc_ex)
  then have "?f (dl - 1) + ?f (rl + 1) < ?f dl + ?f rl"
    by (simp add: algebra_simps)
  ultimately show ?thesis unfolding load_energy_def by linarith
qed

function rebalance :: "u64 set \<Rightarrow> placement \<Rightarrow> placement" where
  "rebalance receivers p =
     (case rebalance_step receivers p of None \<Rightarrow> p | Some p' \<Rightarrow> rebalance receivers p')"
  by pat_completeness auto
termination
  by (relation "measure (\<lambda>(_, p). load_energy p)") (auto simp: rebalance_step_energy)

declare rebalance.simps [simp del]

definition assign_vips_minimal_movement_with_receivers ::
  "u64 list \<Rightarrow> u64 list \<Rightarrow> ip_addr list \<Rightarrow> (ip_addr, u64) btree_map \<Rightarrow> (ip_addr, u64) btree_map" where
  "assign_vips_minimal_movement_with_receivers eligible receivers vips current =
     (if eligible = [] then bm_empty
      else let p0 = \<lparr>out = bm_empty, load = bm_collect (map (\<lambda>i. (i, 0)) eligible), held = bm_empty\<rparr>;
               (p1, orphans) = fold (keep_step (set eligible) current) (sort vips) (p0, []);
               p2 = place_orphans orphans p1
           in out (rebalance (set receivers) p2))"

definition assign_vips_minimal_movement ::
  "u64 list \<Rightarrow> ip_addr list \<Rightarrow> (ip_addr, u64) btree_map \<Rightarrow> (ip_addr, u64) btree_map" where
  "assign_vips_minimal_movement eligible vips current =
     assign_vips_minimal_movement_with_receivers eligible eligible vips current"

definition vip_ips :: "vip_table \<Rightarrow> ip_addr list" where
  "vip_ips vips = map (\<lambda>(v, _). vip_ip v) vips"

definition recompute_vip_holder ::
  "stored_membership \<Rightarrow> eligibility_inputs \<Rightarrow> u64 set \<Rightarrow> vip_table \<Rightarrow>
   (ip_addr, u64) btree_map \<Rightarrow> (ip_addr, u64) btree_map" where
  "recompute_vip_holder sm inputs blocked vips current =
     assign_vips_minimal_movement (eligible_nodes sm inputs blocked) (vip_ips vips) current"

definition recompute_vip_holder_v2 ::
  "stored_membership \<Rightarrow> eligibility_inputs \<Rightarrow> u64 set \<Rightarrow> vip_table \<Rightarrow>
   (ip_addr, u64) btree_map \<Rightarrow> (ip_addr, u64) btree_map" where
  "recompute_vip_holder_v2 sm inputs nopreempt vips current =
     (let eligible = eligible_nodes sm inputs {};
          receivers = filter (\<lambda>i. i \<notin> nopreempt) eligible
      in assign_vips_minimal_movement_with_receivers eligible receivers (vip_ips vips) current)"

subsection \<open>Merging a holder map into the fenced assignments\<close>

text \<open>The mutable maps of \<open>reconcile_vip_assignments\<close>: the three it is handed and the
  assignments it builds.\<close>

record reconcile_acc =
  rc_assignments :: "(ip_addr, vip_assignment) btree_map"
  rc_generation :: "(ip_addr, u64) btree_map"
  rc_last_holder :: "(ip_addr, u64) btree_map"
  rc_next :: "(ip_addr, vip_assignment) btree_map"

text \<open>The assignment a VIP gets when \<open>next_holder\<close> takes over from another node, and when it gets a
  holder while it has no assignment.\<close>

definition moved_assignment :: "u64 \<Rightarrow> u64 \<Rightarrow> u64 \<Rightarrow> u64 \<Rightarrow> vip_assignment" where
  "moved_assignment latest current_generation old_holder next_holder =
     \<lparr>holder = next_holder, generation = sat_add current_generation 1,
      previous_holder = Some old_holder, previous_holder_released = False,
      activation_tick = sat_add latest OWNERSHIP_ACTIVATION_HOLDOFF_TICKS\<rparr>"

definition fresh_assignment :: "u64 \<Rightarrow> u64 \<Rightarrow> u64 option \<Rightarrow> u64 \<Rightarrow> vip_assignment" where
  "fresh_assignment latest current_generation last_holder next_holder =
     \<lparr>holder = next_holder, generation = sat_add current_generation 1,
      previous_holder = last_holder, previous_holder_released = (last_holder = None),
      activation_tick = (if current_generation = 0 then latest
                         else sat_add latest OWNERSHIP_ACTIVATION_HOLDOFF_TICKS)\<rparr>"

definition reconcile_vip ::
  "(ip_addr, u64) btree_map \<Rightarrow> u64 \<Rightarrow> ip_addr \<Rightarrow> reconcile_acc \<Rightarrow> reconcile_acc" where
  "reconcile_vip new_holders latest vip acc =
     (let old = bm_get (rc_assignments acc) vip;
          current_generation = (case bm_get (rc_generation acc) vip of None \<Rightarrow> 0 | Some g \<Rightarrow> g);
          acc1 = acc\<lparr>rc_assignments := bm_remove vip (rc_assignments acc),
                     rc_last_holder := (case old of
                         None \<Rightarrow> rc_last_holder acc
                       | Some a \<Rightarrow> bm_insert vip (holder a) (rc_last_holder acc))\<rparr>
      in case bm_get new_holders vip of
           None \<Rightarrow> acc1
         | Some next_holder \<Rightarrow>
             let (assignment, gens) =
               (case old of
                  Some existing \<Rightarrow>
                    if holder existing = next_holder then (existing, rc_generation acc1)
                    else (moved_assignment latest current_generation (holder existing) next_holder,
                          bm_insert vip (sat_add current_generation 1) (rc_generation acc1))
                | None \<Rightarrow>
                    (fresh_assignment latest current_generation (bm_get (rc_last_holder acc1) vip) next_holder,
                     bm_insert vip (sat_add current_generation 1) (rc_generation acc1)))
             in acc1\<lparr>rc_generation := gens,
                     rc_last_holder := bm_insert vip next_holder (rc_last_holder acc1),
                     rc_next := bm_insert vip assignment (rc_next acc1)\<rparr>)"

definition reconcile_vip_assignments ::
  "(ip_addr, u64) btree_map \<Rightarrow> u64 \<Rightarrow> vip_table \<Rightarrow>
   (ip_addr, vip_assignment) btree_map \<Rightarrow> (ip_addr, u64) btree_map \<Rightarrow> (ip_addr, u64) btree_map \<Rightarrow>
   (ip_addr, vip_assignment) btree_map \<times> (ip_addr, u64) btree_map \<times> (ip_addr, u64) btree_map" where
  "reconcile_vip_assignments new_holders latest vips assignments gens last_holders =
     (let acc = fold (reconcile_vip new_holders latest) (vip_ips vips)
            \<lparr>rc_assignments = assignments, rc_generation = gens, rc_last_holder = last_holders,
             rc_next = bm_empty\<rparr>
      in (rc_next acc, rc_generation acc, rc_last_holder acc))"

end
