(* ===== verification/Vip_Placement.thy ===== *)
theory Vip_Placement
  imports Vip_Logic
begin

text \<open>
  Correctness of the three-pass placement of \<open>src/raft/store/vip_logic.rs\<close>: a placement keeps
  its three maps consistent, gives every VIP to an eligible node, spreads the load to within one
  VIP, moves as few VIPs as any even placement can, settles in one run and agrees with
  round-robin on a cold start.
\<close>

subsection \<open>The placement invariant\<close>

text \<open>The VIPs a holder map gives to a node.\<close>

definition vips_on :: "(ip_addr, u64) btree_map \<Rightarrow> u64 \<Rightarrow> ip_addr set" where
  "vips_on m n = {v. bm_get m v = Some n}"

definition placed :: "u64 set \<Rightarrow> ip_addr set \<Rightarrow> placement \<Rightarrow> bool" where
  "placed E V p =
     (dom (bm_get (load p)) = E \<and> dom (bm_get (out p)) = V \<and> ran (bm_get (out p)) \<subseteq> E \<and>
      (\<forall>n. held_at p n = vips_on (out p) n) \<and>
      (\<forall>n \<in> E. load_at p n = card (vips_on (out p) n)))"

text \<open>An assignment is even over a set of nodes when their loads differ by at most one.\<close>

definition even_spread :: "u64 set \<Rightarrow> u64 set \<Rightarrow> (ip_addr, u64) btree_map \<Rightarrow> bool" where
  "even_spread E R m =
     (\<forall>n \<in> E. \<forall>r \<in> R \<inter> E. card (vips_on m n) \<le> card (vips_on m r) + 1)"

lemma finite_vips_on [simp]: "finite (vips_on m n)"
  by (rule finite_subset [OF _ bm_finite [of m]]) (auto simp: vips_on_def)

lemma vips_on_insert:
  "vips_on (bm_insert v n m) k = (if k = n then insert v (vips_on m k) else vips_on m k - {v})"
  by (auto simp: vips_on_def)

lemma placedD:
  assumes "placed E V p"
  shows "dom (bm_get (load p)) = E" "dom (bm_get (out p)) = V" "ran (bm_get (out p)) \<subseteq> E"
    "held_at p n = vips_on (out p) n" "n \<in> E \<Longrightarrow> load_at p n = card (vips_on (out p) n)"
  using assms by (auto simp: placed_def)

lemma placed_load: "placed E V p \<Longrightarrow> bm_get (load p) n = Some l \<longleftrightarrow> n \<in> E \<and> l = card (vips_on (out p) n)"
  by (auto simp: placed_def load_at_def dom_def split: option.splits)

lemma placed_init:
  "placed (set eligible) {} \<lparr>out = bm_empty, load = bm_collect (map (\<lambda>i. (i, 0)) eligible), held = bm_empty\<rparr>"
proof -
  have "map_of (rev (map (\<lambda>i. (i, 0::nat)) eligible)) i = (if i \<in> set eligible then Some 0 else None)" for i
    by (induction eligible rule: rev_induct) auto
  then show ?thesis
    by (auto simp: placed_def bm_get_collect vips_on_def held_at_def load_at_def dom_def ran_def
        split: if_splits)
qed

lemma place_sel [simp]:
  "out (place v n p) = bm_insert v n (out p)"
  "load (place v n p) = bm_insert n (load_at p n + 1) (load p)"
  "held_at (place v n p) k = (if k = n then insert v (held_at p n) else held_at p k)"
  "load_at (place v n p) k = (if k = n then load_at p n + 1 else load_at p k)"
  by (simp_all add: place_def held_at_def load_at_def)

lemma placed_place:
  assumes "placed E V p" "n \<in> E" "v \<notin> V"
  shows "placed E (insert v V) (place v n p)"
proof -
  have v: "v \<notin> vips_on (out p) k" for k
    using assms(1,3) by (auto simp: placed_def vips_on_def)
  have "ran (bm_get (bm_insert v n (out p))) \<subseteq> E"
    using assms(1,2) by (auto simp: placed_def ran_def split: if_splits)
  then show ?thesis
    using assms v by (auto simp: placed_def vips_on_insert bm_get_insert)
qed

lemma held_at_move:
  "donor \<noteq> recv \<Longrightarrow>
   held_at (move_vip v donor recv p) k =
     (if k = recv then insert v (held_at p recv)
      else if k = donor then held_at p donor - {v} else held_at p k)"
  "donor \<noteq> recv \<Longrightarrow>
   load_at (move_vip v donor recv p) k =
     (if k = recv then load_at p recv + 1
      else if k = donor then load_at p donor - 1 else load_at p k)"
  by (simp_all add: held_at_def load_at_def move_vip_sel)

lemma placed_move:
  assumes "placed E V p" "donor \<in> E" "recv \<in> E" "donor \<noteq> recv" "v \<in> held_at p donor"
  shows "placed E V (move_vip v donor recv p)"
proof -
  have v: "bm_get (out p) v = Some donor" using assms by (simp add: placed_def vips_on_def)
  then have other: "v \<notin> vips_on (out p) k" if "k \<noteq> donor" for k
    using that by (auto simp: vips_on_def)
  have "ran (bm_get (bm_insert v recv (out p))) \<subseteq> E"
    using assms(1,3) by (auto simp: placed_def ran_def split: if_splits)
  moreover have "v \<in> vips_on (out p) donor" using v by (simp add: vips_on_def)
  ultimately show ?thesis
    using assms(1-4) v other
    by (auto simp: placed_def move_vip_sel held_at_move vips_on_insert bm_get_insert card_insert_if
        card_Diff_singleton)
qed

subsection \<open>The passes\<close>

definition kept_holder :: "u64 set \<Rightarrow> (ip_addr, u64) btree_map \<Rightarrow> ip_addr \<Rightarrow> bool" where
  "kept_holder E current v = (case bm_get current v of None \<Rightarrow> False | Some h \<Rightarrow> h \<in> E)"

lemma keep_pass:
  "fold (keep_step E current) vs (p, os) =
     (fold (\<lambda>v. place v (the (bm_get current v))) (filter (kept_holder E current) vs) p,
      os @ filter (\<lambda>v. \<not> kept_holder E current v) vs)"
  by (induction vs arbitrary: p os) (auto simp: keep_step_def kept_holder_def split: option.splits)

lemma placed_keep:
  assumes "placed E V p" "distinct vs" "set vs \<inter> V = {}" "\<forall>v \<in> set vs. kept_holder E current v"
  shows "placed E (V \<union> set vs) (fold (\<lambda>v. place v (the (bm_get current v))) vs p)"
  using assms
proof (induction vs arbitrary: V p)
  case (Cons v vs)
  have "placed E (insert v V) (place v (the (bm_get current v)) p)"
    using Cons.prems by (intro placed_place) (auto simp: kept_holder_def split: option.splits)
  from Cons.IH [OF this] Cons.prems show ?case by auto
qed simp

lemma out_keep:
  "bm_get (out (fold (\<lambda>v. place v (f v)) vs p)) v = (if v \<in> set vs then Some (f v) else bm_get (out p) v)"
  by (induction vs arbitrary: p) auto

lemma least_loaded_placed:
  assumes "placed E V p" "E \<noteq> {}"
  obtains t l where "least_loaded_node (load p) = Some (t, l)" "t \<in> E"
    "\<And>n. n \<in> E \<Longrightarrow> load_at p t \<le> load_at p n"
proof (cases "least_loaded_node (load p)")
  case None
  then have "load p = bm_empty" by (simp add: least_loaded_node_def)
  then show ?thesis using assms by (auto simp: placed_def)
next
  case (Some x)
  obtain t l where x: "x = (t, l)" by (cases x)
  have "bm_get (load p) t = Some l" "\<And>j k. bm_get (load p) j = Some k \<Longrightarrow> l \<le> k"
    using least_loaded_nodeD Some x by blast+
  with Some x assms(1) show ?thesis
    by (intro that [of t l]) (auto simp: placed_load placedD)
qed

lemma placed_orphans:
  assumes "placed E V p" "E \<noteq> {}" "distinct os" "set os \<inter> V = {}"
  shows "placed E (V \<union> set os) (place_orphans os p)"
  using assms
proof (induction os arbitrary: V p)
  case (Cons v os)
  obtain t l where t: "least_loaded_node (load p) = Some (t, l)" "t \<in> E"
    using least_loaded_placed [OF Cons.prems(1,2)] by metis
  have "placed E (insert v V) (place v t p)"
    using Cons.prems t by (intro placed_place) auto
  from Cons.IH [OF this] Cons.prems t show ?case by auto
qed simp

lemma out_orphans: "v \<notin> set os \<Longrightarrow> bm_get (out (place_orphans os p)) v = bm_get (out p) v"
  by (induction os p rule: place_orphans.induct) (auto split: option.splits)

lemma placed_step:
  assumes "placed E V p" "rebalance_step R p = Some p'"
  shows "placed E V p'"
proof -
  obtain donor dl recv rl where m: "bm_get (load p) donor = Some dl" "bm_get (load p) recv = Some rl"
      "donor \<noteq> recv" "held_at p donor \<noteq> {}" "p' = move_vip (Max (held_at p donor)) donor recv p"
    using assms(2) by (rule rebalance_stepE)
  have "Max (held_at p donor) \<in> held_at p donor"
    using m(4) assms(1) by (intro Max_in) (simp_all add: placed_def)
  then show ?thesis
    using assms(1) m by (auto simp: placed_load intro!: placed_move)
qed

lemma rebalance_induct [consumes 1, case_names stop]:
  assumes "I p" "\<And>q q'. I q \<Longrightarrow> rebalance_step R q = Some q' \<Longrightarrow> I q'"
  shows "I (rebalance R p) \<and> rebalance_step R (rebalance R p) = None"
  using assms
proof (induction R p rule: rebalance.induct)
  case (1 R p)
  then show ?case
    by (cases "rebalance_step R p") (simp_all add: rebalance.simps [of R p])
qed

lemma rebalance_stop_even:
  assumes "placed E V p" "rebalance_step R p = None"
  shows "even_spread E R (out p)"
  unfolding even_spread_def
proof (intro ballI)
  fix n r
  assume n: "n \<in> E" and r: "r \<in> R \<inter> E"
  let ?L = "bm_retain (\<lambda>i _. i \<in> R) (load p)"
  have load: "bm_get (load p) k = Some (card (vips_on (out p) k))" if "k \<in> E" for k
    using placed_load [OF assms(1)] that by simp
  then have "load p \<noteq> bm_empty" "?L \<noteq> bm_empty"
    using n r by (auto simp: bm_eq_iff split: option.splits intro!: exI [of _ r])
  then obtain d dl t tl where d: "most_loaded_node (load p) = Some (d, dl)"
    and t: "least_loaded_node ?L = Some (t, tl)"
    by (metis extreme_loaded_node_None least_loaded_node_def most_loaded_node_def not_Some_eq surj_pair)
  have d': "bm_get (load p) d = Some dl" "card (vips_on (out p) n) \<le> dl"
    using most_loaded_nodeD [OF d] load [OF n] by auto
  have "bm_get ?L r = Some (card (vips_on (out p) r))" using load r by simp
  then have t': "tl \<le> card (vips_on (out p) r)"
    using least_loaded_nodeD [OF t] by blast
  have "dl - tl \<le> 1 \<or> held_at p d = {}"
    using assms(2) d t by (auto simp: rebalance_step_def split: if_splits)
  moreover have "dl = card (held_at p d)"
    using d'(1) placed_load [OF assms(1)] placedD(4) [OF assms(1)] by metis
  ultimately show "card (vips_on (out p) n) \<le> card (vips_on (out p) r) + 1"
    using d'(2) t' by auto
qed

text \<open>A VIP that pass three moves ends on a receiver.\<close>

lemma rebalance_moves_to_receivers:
  "bm_get (out (rebalance R p)) v = bm_get (out p) v \<or> (\<exists>r \<in> R. bm_get (out (rebalance R p)) v = Some r)"
proof -
  let ?I = "\<lambda>q. bm_get (out q) v = bm_get (out p) v \<or> (\<exists>r \<in> R. bm_get (out q) v = Some r)"
  have "?I q'" if "?I q" "rebalance_step R q = Some q'" for q q'
    using that(2) by (rule rebalance_stepE) (use that(1) in \<open>auto simp: move_vip_sel\<close>)
  then show ?thesis using rebalance_induct [of ?I p R] by blast
qed

lemma placed_rebalance: "placed E V p \<Longrightarrow> placed E V (rebalance R p)"
  using rebalance_induct [of "placed E V" p R] placed_step by blast

lemma rebalance_even: "placed E V p \<Longrightarrow> even_spread E R (out (rebalance R p))"
  using rebalance_induct [of "placed E V" p R] placed_step rebalance_stop_even by blast

lemma rebalance_even_id:
  assumes "placed E V p" "even_spread E R (out p)"
  shows "rebalance R p = p"
proof (cases "rebalance_step R p")
  case (Some p')
  then obtain donor dl recv rl where "bm_get (load p) donor = Some dl" "bm_get (load p) recv = Some rl"
      "recv \<in> R" "rl + 2 \<le> dl"
    by (rule rebalance_stepE)
  then have "donor \<in> E" "recv \<in> E" "dl = card (vips_on (out p) donor)" "rl = card (vips_on (out p) recv)"
    using placed_load [OF assms(1)] by auto
  then show ?thesis
    using assms(2) \<open>recv \<in> R\<close> \<open>rl + 2 \<le> dl\<close> by (force simp: even_spread_def)
qed (simp add: rebalance.simps)

text \<open>The placement after the first two passes.\<close>

definition before_rebalance ::
  "u64 list \<Rightarrow> ip_addr list \<Rightarrow> (ip_addr, u64) btree_map \<Rightarrow> placement" where
  "before_rebalance eligible vips current =
     place_orphans (filter (\<lambda>v. \<not> kept_holder (set eligible) current v) (sort vips))
       (fold (\<lambda>v. place v (the (bm_get current v)))
         (filter (kept_holder (set eligible) current) (sort vips))
         \<lparr>out = bm_empty, load = bm_collect (map (\<lambda>i. (i, 0)) eligible), held = bm_empty\<rparr>)"

lemma assign_eq:
  "assign_vips_minimal_movement_with_receivers eligible receivers vips current =
     (if eligible = [] then bm_empty
      else out (rebalance (set receivers) (before_rebalance eligible vips current)))"
  by (simp add: assign_vips_minimal_movement_with_receivers_def before_rebalance_def keep_pass Let_def)

lemma placed_before_rebalance:
  assumes "distinct vips" "eligible \<noteq> []"
  shows "placed (set eligible) (set vips) (before_rebalance eligible vips current)"
proof -
  let ?K = "kept_holder (set eligible) current"
  have "placed (set eligible) ({} \<union> set (filter ?K (sort vips)) \<union> set (filter (\<lambda>v. \<not> ?K v) (sort vips)))
          (before_rebalance eligible vips current)"
    unfolding before_rebalance_def using assms
    by (intro placed_orphans placed_keep placed_init) auto
  moreover have "{} \<union> set (filter ?K (sort vips)) \<union> set (filter (\<lambda>v. \<not> ?K v) (sort vips)) = set vips"
    by auto
  ultimately show ?thesis by simp
qed

lemma out_before_rebalance:
  assumes "v \<in> set vips" "bm_get current v = Some h" "h \<in> set eligible"
  shows "bm_get (out (before_rebalance eligible vips current)) v = Some h"
  using assms by (simp add: before_rebalance_def out_orphans out_keep kept_holder_def)

subsection \<open>Minimal movement\<close>

text \<open>
  \<open>kept E V current\<close> restricts the current holders to the VIPs that have to be placed and whose
  holder may keep them; these are the VIPs a placement can move. Relative to it a node has given
  VIPs away or received some. While passes two and three run no node does both, givers end at
  least as loaded as receivers, and a receiver is never more than one above any node.
\<close>

definition kept_on :: "ip_addr set \<Rightarrow> (ip_addr, u64) btree_map \<Rightarrow> u64 \<Rightarrow> ip_addr set" where
  "kept_on V current n = {v \<in> V. bm_get current v = Some n}"

definition moved :: "u64 set \<Rightarrow> ip_addr set \<Rightarrow> (ip_addr, u64) btree_map \<Rightarrow> (ip_addr, u64) btree_map \<Rightarrow> ip_addr set" where
  "moved E V current m = {v \<in> V. \<exists>n \<in> E. bm_get current v = Some n \<and> bm_get m v \<noteq> Some n}"

definition frugal :: "u64 set \<Rightarrow> (u64 \<Rightarrow> ip_addr set) \<Rightarrow> (u64 \<Rightarrow> ip_addr set) \<Rightarrow> bool" where
  "frugal E K h =
     ((\<forall>n \<in> E. h n \<subseteq> K n \<or> K n \<subseteq> h n) \<and>
      (\<forall>m \<in> E. \<not> h m \<subseteq> K m \<longrightarrow> (\<forall>n \<in> E. card (h m) \<le> card (h n) + 1)) \<and>
      (\<forall>n \<in> E. \<not> K n \<subseteq> h n \<longrightarrow> (\<forall>m \<in> E. card (h m) \<le> card (h n) + 1)) \<and>
      (\<forall>n \<in> E. \<forall>m \<in> E. \<not> K n \<subseteq> h n \<longrightarrow> \<not> h m \<subseteq> K m \<longrightarrow> card (h m) \<le> card (h n)))"

lemma frugalD:
  assumes "frugal E K h"
  shows "n \<in> E \<Longrightarrow> h n \<subseteq> K n \<or> K n \<subseteq> h n"
    "m \<in> E \<Longrightarrow> n \<in> E \<Longrightarrow> \<not> h m \<subseteq> K m \<Longrightarrow> card (h m) \<le> card (h n) + 1"
    "m \<in> E \<Longrightarrow> n \<in> E \<Longrightarrow> \<not> K n \<subseteq> h n \<Longrightarrow> card (h m) \<le> card (h n) + 1"
    "m \<in> E \<Longrightarrow> n \<in> E \<Longrightarrow> \<not> K n \<subseteq> h n \<Longrightarrow> \<not> h m \<subseteq> K m \<Longrightarrow> card (h m) \<le> card (h n)"
  using assms by (auto simp: frugal_def)

lemma frugalI:
  assumes "\<And>n. n \<in> E \<Longrightarrow> h n \<subseteq> K n \<or> K n \<subseteq> h n"
    "\<And>m n. m \<in> E \<Longrightarrow> n \<in> E \<Longrightarrow> \<not> h m \<subseteq> K m \<Longrightarrow> card (h m) \<le> card (h n) + 1"
    "\<And>m n. m \<in> E \<Longrightarrow> n \<in> E \<Longrightarrow> \<not> K n \<subseteq> h n \<Longrightarrow> card (h m) \<le> card (h n) + 1"
    "\<And>m n. m \<in> E \<Longrightarrow> n \<in> E \<Longrightarrow> \<not> K n \<subseteq> h n \<Longrightarrow> \<not> h m \<subseteq> K m \<Longrightarrow> card (h m) \<le> card (h n)"
  shows "frugal E K h"
  using assms by (simp add: frugal_def)

text \<open>A frugal placement moves no more VIPs than any even one that places the same VIPs.\<close>

lemma frugal_optimal:
  fixes K f h :: "u64 \<Rightarrow> ip_addr set"
  assumes fin: "finite E" "\<And>n. finite (K n)" "\<And>n. finite (f n)" "\<And>n. finite (h n)"
    and frugal: "frugal E K h"
    and even: "\<And>n m. n \<in> E \<Longrightarrow> m \<in> E \<Longrightarrow> card (f n) \<le> card (f m) + 1"
    and total: "(\<Sum>n \<in> E. card (f n)) = (\<Sum>n \<in> E. card (h n))"
  shows "(\<Sum>n \<in> E. card (K n - h n)) \<le> (\<Sum>n \<in> E. card (K n - f n))"
proof -
  let ?k = "\<lambda>n. int (card (K n))" and ?h = "\<lambda>n. int (card (h n))" and ?f = "\<lambda>n. int (card (f n))"
  let ?D = "{n \<in> E. \<not> K n \<subseteq> h n}"
  have h_loss: "int (card (K n - h n)) = (if n \<in> ?D then ?k n - ?h n else 0)" if "n \<in> E" for n
    using frugalD(1) [OF frugal that] that fin
    by (auto simp: card_Diff_subset of_nat_diff card_mono Diff_eq_empty_iff)
  have f_loss: "?k n - ?f n \<le> int (card (K n - f n))" for n
    using diff_card_le_card_Diff [of "f n" "K n"] fin(3) [of n] by linarith
  have sum_h: "(\<Sum>n \<in> E. int (card (K n - h n))) = (\<Sum>n \<in> ?D. ?k n - ?h n)"
    using fin(1) by (simp add: h_loss sum.inter_filter [symmetric] cong: sum.cong)
  have split: "(\<Sum>n \<in> E. g n) = (\<Sum>n \<in> ?D. g n) + (\<Sum>n \<in> E - ?D. g n)" for g :: "u64 \<Rightarrow> int"
    using fin(1) by (subst sum.subset_diff [of ?D]) auto
  have "(\<Sum>n \<in> ?D. ?k n - ?h n) \<le> (\<Sum>n \<in> E. int (card (K n - f n)))"
  proof (cases "\<exists>n \<in> ?D. ?h n < ?f n")
    case False
    have "?k n - ?h n \<le> int (card (K n - f n))" if "n \<in> ?D" for n
    proof -
      have "?f n \<le> ?h n" using False that by (meson not_less)
      then show ?thesis using f_loss [of n] by linarith
    qed
    then have "(\<Sum>n \<in> ?D. ?k n - ?h n) \<le> (\<Sum>n \<in> ?D. int (card (K n - f n)))"
      by (rule sum_mono)
    also have "\<dots> \<le> (\<Sum>n \<in> E. int (card (K n - f n)))"
      using fin(1) by (intro sum_mono2) auto
    finally show ?thesis .
  next
    case True
    then obtain d where d: "d \<in> ?D" "?h d < ?f d" by blast
    have rest: "?h n - ?f n \<le> int (card (K n - f n))" if n: "n \<in> E - ?D" for n
    proof (cases "h n \<subseteq> K n")
      case True
      then have "h n = K n" using n by auto
      then show ?thesis using f_loss [of n] by simp
    next
      case False
      then have "card (h n) \<le> card (h d)" using frugalD(4) [OF frugal, of n d] n d by auto
      moreover have "card (f d) \<le> card (f n) + 1" using even n d by auto
      ultimately show ?thesis using d(2) by linarith
    qed
    have "(\<Sum>n \<in> ?D. ?k n - ?h n) = (\<Sum>n \<in> ?D. ?k n - ?f n) + (\<Sum>n \<in> E - ?D. ?h n - ?f n)"
      using total split [of ?h] split [of ?f] by (simp add: sum_subtractf flip: of_nat_sum)
    also have "\<dots> \<le> (\<Sum>n \<in> ?D. int (card (K n - f n))) + (\<Sum>n \<in> E - ?D. int (card (K n - f n)))"
      by (intro add_mono sum_mono) (use f_loss rest in auto)
    finally show ?thesis using split by simp
  qed
  then show ?thesis unfolding sum_h [symmetric] by (simp flip: of_nat_sum)
qed

text \<open>Pass two starts from the kept VIPs and only adds to a least-loaded node.\<close>

lemma frugal_gain:
  "(\<And>n. n \<in> E \<Longrightarrow> K n \<subseteq> h n) \<Longrightarrow>
   frugal E K h \<longleftrightarrow> (\<forall>m \<in> E. h m \<noteq> K m \<longrightarrow> (\<forall>n \<in> E. card (h m) \<le> card (h n) + 1))"
  by (auto simp: frugal_def)

lemma frugal_place:
  assumes "frugal E K h" "\<And>n. finite (h n)" and sub: "\<And>n. n \<in> E \<Longrightarrow> K n \<subseteq> h n"
    and t: "t \<in> E" "\<And>n. n \<in> E \<Longrightarrow> card (h t) \<le> card (h n)" "v \<notin> h t"
  shows "frugal E K (h(t := insert v (h t)))"
proof -
  let ?h = "h(t := insert v (h t))"
  have grow: "card (h n) \<le> card (?h n)" for n using assms(2) by (simp add: card_insert_if)
  have "card (?h m) \<le> card (?h n) + 1" if "m \<in> E" "n \<in> E" "?h m \<noteq> K m" for m n
  proof (cases "m = t")
    case True
    then show ?thesis using t that(2) assms(2) grow [of n] by (auto intro: le_trans)
  next
    case False
    then have "card (h m) \<le> card (h n) + 1"
      using that assms(1) frugal_gain [of E K h] sub by auto
    then show ?thesis using False grow [of n] by auto
  qed
  moreover have "K n \<subseteq> ?h n" if "n \<in> E" for n using sub [OF that] by auto
  ultimately show ?thesis by (subst frugal_gain) blast+
qed

text \<open>Pass three takes a VIP from a most-loaded node and gives it to a least-loaded one.\<close>

lemma frugal_move:
  assumes fr: "frugal E K h" and fin: "\<And>n. finite (h n)"
    and d: "d \<in> E" "\<And>n. n \<in> E \<Longrightarrow> card (h n) \<le> card (h d)"
    and r: "r \<in> E" "\<And>n. n \<in> E \<Longrightarrow> card (h r) \<le> card (h n)"
    and gap: "card (h r) + 2 \<le> card (h d)" and v: "v \<in> h d" "v \<notin> h r"
  shows "frugal E K (h(d := h d - {v}, r := insert v (h r)))"
proof -
  let ?h = "h(d := h d - {v}, r := insert v (h r))"
  have ne: "d \<noteq> r" using gap by auto
  have dK: "h d \<subseteq> K d" using frugalD(2) [OF fr, of d r] d(1) r(1) gap by linarith
  have rK: "K r \<subseteq> h r" using frugalD(3) [OF fr, of d r] d(1) r(1) gap by linarith
  have card_h: "card (?h n) = (if n = r then card (h r) + 1 else if n = d then card (h d) - 1 else card (h n))" for n
    using fin v ne by (simp add: card_Diff_singleton)
  have lo: "card (h r) \<le> card (?h n)" if "n \<in> E" for n
    using r(2) [OF that] gap unfolding card_h by auto
  have hi: "card (?h n) \<le> card (h d)" if "n \<in> E" for n
    using d(2) [OF that] gap unfolding card_h by simp
  have gain: "card (?h m) \<le> card (h r) + 1" if "m \<in> E" "\<not> ?h m \<subseteq> K m" for m
  proof (cases "m = r")
    case False
    then have "m \<noteq> d" "\<not> h m \<subseteq> K m" using that dK by (auto split: if_splits)
    then show ?thesis using frugalD(2) [OF fr that(1) r(1)] False unfolding card_h by simp
  qed (unfold card_h, simp)
  have loss: "card (h d) \<le> card (?h n) + 1" if "n \<in> E" "\<not> K n \<subseteq> ?h n" for n
  proof (cases "n = d")
    case False
    then have "n \<noteq> r" "\<not> K n \<subseteq> h n" using that rK by (auto split: if_splits)
    then show ?thesis using frugalD(3) [OF fr d(1) that(1)] False unfolding card_h by simp
  qed (use ne in \<open>unfold card_h, simp\<close>)
  show ?thesis
  proof (rule frugalI)
    show "?h n \<subseteq> K n \<or> K n \<subseteq> ?h n" if "n \<in> E" for n
      using frugalD(1) [OF fr that] dK rK by (cases "n = r"; cases "n = d") auto
    show "card (?h m) \<le> card (?h n) + 1" if "m \<in> E" "n \<in> E" "\<not> ?h m \<subseteq> K m" for m n
      using gain [OF that(1,3)] lo [OF that(2)] by linarith
    show "card (?h m) \<le> card (?h n) + 1" if "m \<in> E" "n \<in> E" "\<not> K n \<subseteq> ?h n" for m n
      using loss [OF that(2,3)] hi [OF that(1)] by linarith
    show "card (?h m) \<le> card (?h n)" if "m \<in> E" "n \<in> E" "\<not> K n \<subseteq> ?h n" "\<not> ?h m \<subseteq> K m" for m n
      using loss [OF that(2,3)] gain [OF that(1,4)] gap by linarith
  qed
qed

lemma vips_on_place:
  "v \<notin> dom (bm_get m) \<Longrightarrow> vips_on (bm_insert v t m) = (vips_on m)(t := insert v (vips_on m t))"
  by (auto simp: vips_on_def fun_eq_iff)

lemma vips_on_move:
  "v \<in> vips_on m d \<Longrightarrow> d \<noteq> r \<Longrightarrow>
   vips_on (bm_insert v r m) = (vips_on m)(d := vips_on m d - {v}, r := insert v (vips_on m r))"
  by (auto simp: vips_on_def fun_eq_iff)

lemma frugal_orphans:
  assumes "placed E V p" "E \<noteq> {}" "distinct os" "set os \<inter> V = {}"
    and "frugal E K (vips_on (out p))" "\<And>n. n \<in> E \<Longrightarrow> K n \<subseteq> vips_on (out p) n"
  shows "frugal E K (vips_on (out (place_orphans os p)))"
  using assms
proof (induction os arbitrary: V p)
  case (Cons v os)
  obtain t l where t: "least_loaded_node (load p) = Some (t, l)" "t \<in> E"
    and least: "\<And>n. n \<in> E \<Longrightarrow> load_at p t \<le> load_at p n"
    using least_loaded_placed [OF Cons.prems(1,2)] by blast
  have v: "v \<notin> dom (bm_get (out p))" using Cons.prems(1,4) by (simp add: placed_def)
  have least': "card (vips_on (out p) t) \<le> card (vips_on (out p) n)" if "n \<in> E" for n
    using least [OF that] t(2) that placedD(5) [OF Cons.prems(1)] by simp
  have placed': "placed E (insert v V) (place v t p)"
    using Cons.prems t by (intro placed_place) auto
  have "v \<notin> vips_on (out p) t" using v by (auto simp: vips_on_def)
  then have "frugal E K ((vips_on (out p))(t := insert v (vips_on (out p) t)))"
    by (intro frugal_place Cons.prems t least') simp_all
  then have frugal': "frugal E K (vips_on (out (place v t p)))" using v by (simp add: vips_on_place)
  have grow: "K n \<subseteq> vips_on (out (place v t p)) n" if "n \<in> E" for n
    using Cons.prems(6) [OF that] v by (auto simp: vips_on_place)
  have "distinct os" "set os \<inter> insert v V = {}" using Cons.prems(3,4) by auto
  then have "frugal E K (vips_on (out (place_orphans os (place v t p))))"
    by (rule Cons.IH [OF placed' Cons.prems(2) _ _ frugal' grow])
  then show ?case using t by simp
qed simp

lemma frugal_step:
  assumes p: "placed E V p" and fr: "frugal E K (vips_on (out p))"
    and step: "rebalance_step E p = Some p'"
  shows "frugal E K (vips_on (out p'))"
  using step
proof (rule rebalance_stepE)
  fix d dl r rl
  let ?h = "vips_on (out p)" and ?v = "Max (held_at p d)"
  assume d: "bm_get (load p) d = Some dl" and r: "bm_get (load p) r = Some rl"
    and gap: "rl + 2 \<le> dl" and ne: "d \<noteq> r" and held: "held_at p d \<noteq> {}"
    and lo: "\<And>j k. bm_get (load p) j = Some k \<Longrightarrow> j \<in> E \<Longrightarrow> rl \<le> k"
    and hi: "\<And>j k. bm_get (load p) j = Some k \<Longrightarrow> k \<le> dl"
    and p': "p' = move_vip ?v d r p"
  have E: "d \<in> E" "r \<in> E" and cards: "dl = card (?h d)" "rl = card (?h r)"
    using d r placed_load [OF p] by auto
  have "?v \<in> held_at p d" using held placedD(4) [OF p, of d] by (intro Max_in) simp_all
  then have v: "?v \<in> ?h d" using placedD(4) [OF p] by simp
  then have "?v \<notin> ?h r" using ne by (auto simp: vips_on_def)
  moreover have "card (?h r) \<le> card (?h n)" "card (?h n) \<le> card (?h d)" if "n \<in> E" for n
    using lo [of n] hi [of n] that placed_load [OF p] cards by auto
  ultimately have "frugal E K (?h(d := ?h d - {?v}, r := insert ?v (?h r)))"
    using fr E gap cards v by (intro frugal_move) auto
  then show ?thesis using v ne by (simp add: p' move_vip_sel vips_on_move)
qed

lemma frugal_rebalance:
  assumes "placed E V p" "frugal E K (vips_on (out p))"
  shows "frugal E K (vips_on (out (rebalance E p)))"
  using rebalance_induct [of "\<lambda>p. placed E V p \<and> frugal E K (vips_on (out p))" p E]
    assms placed_step frugal_step by meson

lemma frugal_before_rebalance:
  assumes "distinct vips" "eligible \<noteq> []"
  shows "frugal (set eligible) (kept_on (set vips) current)
           (vips_on (out (before_rebalance eligible vips current)))"
proof -
  let ?E = "set eligible" and ?K = "kept_holder (set eligible) current"
  let ?p0 = "\<lparr>out = bm_empty, load = bm_collect (map (\<lambda>i. (i, 0)) eligible), held = bm_empty\<rparr>"
  let ?p1 = "fold (\<lambda>v. place v (the (bm_get current v))) (filter ?K (sort vips)) ?p0"
  have p1: "placed ?E ({} \<union> set (filter ?K (sort vips))) ?p1"
    using assms(1) by (intro placed_keep placed_init) auto
  have "vips_on (out ?p1) n = kept_on (set vips) current n" if "n \<in> ?E" for n
    using that by (auto simp: vips_on_def kept_on_def out_keep kept_holder_def split: option.splits if_splits)
  then have "frugal ?E (kept_on (set vips) current) (vips_on (out ?p1))"
    "\<And>n. n \<in> ?E \<Longrightarrow> kept_on (set vips) current n \<subseteq> vips_on (out ?p1) n"
    by (simp_all add: frugal_def)
  then show ?thesis
    unfolding before_rebalance_def using assms
    by (intro frugal_orphans [OF p1]) (simp_all add: disjoint_iff)
qed

subsection \<open>Counting\<close>

lemma card_by_node:
  assumes "finite E" "dom (bm_get m) = V" "ran (bm_get m) \<subseteq> E"
  shows "(\<Sum>n \<in> E. card (vips_on m n)) = card V"
proof -
  have "V = (\<Union>n \<in> E. vips_on m n)"
    using assms(2,3) by (auto simp: vips_on_def ran_def dom_def)
  moreover have "card (\<Union>n \<in> E. vips_on m n) = (\<Sum>n \<in> E. card (vips_on m n))"
    using assms(1) by (intro card_UN_disjoint ballI impI finite_vips_on) (auto simp: vips_on_def)
  ultimately show ?thesis by simp
qed

lemma finite_kept_on: "finite V \<Longrightarrow> finite (kept_on V current n)"
  by (simp add: kept_on_def)

lemma card_moved:
  assumes "finite E" "finite V"
  shows "card (moved E V current m) = (\<Sum>n \<in> E. card (kept_on V current n - vips_on m n))"
proof -
  have "moved E V current m = (\<Union>n \<in> E. kept_on V current n - vips_on m n)"
    by (auto simp: moved_def kept_on_def vips_on_def)
  moreover have "card (\<Union>n \<in> E. kept_on V current n - vips_on m n)
      = (\<Sum>n \<in> E. card (kept_on V current n - vips_on m n))"
    using assms by (intro card_UN_disjoint) (auto simp: kept_on_def)
  ultimately show ?thesis by simp
qed

subsection \<open>Cold start\<close>

text \<open>The loads after round-robin has placed \<open>i\<close> VIPs.\<close>

definition rr_loads :: "u64 list \<Rightarrow> nat \<Rightarrow> placement \<Rightarrow> bool" where
  "rr_loads es i p =
     (\<forall>j < length es. load_at p (es ! j) =
        i div length es + (if j < i mod length es then 1 else 0))"

lemma rr_least:
  assumes "sorted_wrt (<) es" "es \<noteq> []" "placed (set es) V p" "rr_loads es i p"
  shows "\<exists>l. least_loaded_node (load p) = Some (es ! (i mod length es), l)"
proof -
  let ?m = "length es" and ?j = "i mod length es"
  have j: "?j < ?m" using assms(2) by simp
  obtain t l where t: "least_loaded_node (load p) = Some (t, l)" "t \<in> set es"
    and least: "\<And>n. n \<in> set es \<Longrightarrow> load_at p t \<le> load_at p n"
    using least_loaded_placed [OF assms(3)] assms(2) by auto
  obtain k where k: "k < ?m" "t = es ! k" using t(2) by (metis in_set_conv_nth)
  have "load_at p t \<le> load_at p (es ! ?j)" using least j by simp
  then have "i div ?m + (if k < ?j then 1 else 0) \<le> i div ?m"
    using assms(4) k j by (simp add: rr_loads_def)
  then have le: "?j \<le> k" by (auto split: if_splits)
  have "load_at p t = load_at p (es ! ?j)"
    using assms(4) k j le by (simp add: rr_loads_def)
  moreover have "bm_get (load p) t = Some l" using least_loaded_nodeD [OF t(1)] by blast
  ultimately have "bm_get (load p) (es ! ?j) = Some l"
    using placed_load [OF assms(3)] placedD(5) [OF assms(3)] t(2) j by (metis nth_mem)
  then have "t \<le> es ! ?j" using least_loaded_node_lowest [OF t(1)] by blast
  moreover have "es ! ?j \<le> es ! k" if "?j \<noteq> k"
    using that le k(1) assms(1) by (simp add: sorted_wrt_nth_less less_imp_le)
  ultimately show ?thesis using t(1) k(2) by (metis antisym)
qed

lemma rr_loads_even:
  assumes "rr_loads es i p" "n \<in> set es" "r \<in> set es"
  shows "load_at p n \<le> load_at p r + 1"
  using assms by (force simp: rr_loads_def in_set_conv_nth)

lemma rr_loads_Suc:
  assumes "distinct es" "es \<noteq> []" "rr_loads es i p"
  shows "rr_loads es (Suc i) (place v (es ! (i mod length es)) p)"
  unfolding rr_loads_def
proof (intro allI impI)
  fix j
  let ?m = "length es" and ?t = "i mod length es"
  assume j: "j < ?m"
  have t: "?t < ?m" using assms(2) by simp
  have "load_at (place v (es ! ?t) p) (es ! j) = load_at p (es ! j) + (if j = ?t then 1 else 0)"
    using nth_eq_iff_index_eq [OF assms(1) j t] by auto
  also have "load_at p (es ! j) = i div ?m + (if j < ?t then 1 else 0)"
    using assms(3) j by (simp add: rr_loads_def)
  finally show "load_at (place v (es ! ?t) p) (es ! j) =
      Suc i div ?m + (if j < Suc i mod ?m then 1 else 0)"
    using j t by (auto simp: div_Suc mod_Suc)
qed

lemma rr_orphans:
  assumes "sorted_wrt (<) es" "es \<noteq> []" "distinct os"
    "placed (set es) V p" "set os \<inter> V = {}" "rr_loads es i p"
  shows "out (place_orphans os p) =
           fold (\<lambda>(k, v). bm_insert v (es ! (k mod length es))) (List.enumerate i os) (out p) \<and>
         rr_loads es (i + length os) (place_orphans os p)"
  using assms(3-6)
proof (induction os arbitrary: V p i)
  case (Cons v os)
  let ?t = "es ! (i mod length es)"
  obtain l where l: "least_loaded_node (load p) = Some (?t, l)"
    using rr_least [OF assms(1,2) Cons.prems(2,4)] by blast
  have t: "?t \<in> set es" using assms(2) by simp
  have "placed (set es) (insert v V) (place v ?t p)"
    using Cons.prems t by (intro placed_place) auto
  moreover have "rr_loads es (Suc i) (place v ?t p)"
    using assms(1,2) Cons.prems(4) by (intro rr_loads_Suc) (simp_all add: strict_sorted_iff)
  moreover have "distinct os" "set os \<inter> insert v V = {}" using Cons.prems(1,3) by auto
  ultimately show ?case using Cons.IH [of "insert v V" "place v ?t p" "Suc i"] l by simp
qed simp

subsection \<open>The properties of the placement\<close>

lemma assign_outcome:
  assumes "distinct vips" "eligible \<noteq> []"
  shows "placed (set eligible) (set vips) (rebalance (set receivers) (before_rebalance eligible vips current))"
  by (rule placed_rebalance [OF placed_before_rebalance [OF assms]])

lemma assign_dom:
  "distinct vips \<Longrightarrow>
   dom (bm_get (assign_vips_minimal_movement_with_receivers eligible receivers vips current)) =
     (if eligible = [] then {} else set vips)"
  using assign_outcome [of vips eligible] by (auto simp: assign_eq placed_def)

lemma assign_ran:
  "distinct vips \<Longrightarrow>
   ran (bm_get (assign_vips_minimal_movement_with_receivers eligible receivers vips current)) \<subseteq> set eligible"
  using assign_outcome [of vips eligible] by (auto simp: assign_eq placed_def ran_def)

lemma assign_even_spread:
  assumes "distinct vips"
  shows "even_spread (set eligible) (set receivers)
           (assign_vips_minimal_movement_with_receivers eligible receivers vips current)"
proof (cases "eligible = []")
  case False
  then show ?thesis
    using rebalance_even [OF placed_before_rebalance [OF assms False]] by (simp add: assign_eq)
qed (simp add: even_spread_def)

text \<open>Every configured VIP gets a holder when some node is eligible and none gets one otherwise; a
  holder is always an eligible node.\<close>

theorem assign_total:
  assumes "distinct vips"
  shows "let m = assign_vips_minimal_movement_with_receivers eligible receivers vips current in
         dom (bm_get m) = (if eligible = [] then {} else set vips) \<and> ran (bm_get m) \<subseteq> set eligible"
  using assign_dom [OF assms] assign_ran [OF assms] by (simp add: Let_def)

theorem assign_total_witness:
  "distinct [V4 1, V4 2, V4 3] \<and>
   (let m = assign_vips_minimal_movement_with_receivers [1, 2] [2] [V4 1, V4 2, V4 3]
              (bm_insert (V4 1) 1 bm_empty) in
    dom (bm_get m) = {V4 1, V4 2, V4 3} \<and> ran (bm_get m) \<subseteq> {1, 2})"
  using assign_total [of "[V4 1, V4 2, V4 3]" "[1, 2]" "[2]" "bm_insert (V4 1) 1 bm_empty"]
  by (simp add: Let_def)

text \<open>C27. The placement is as even as the receivers allow: no node holds more than one VIP above any node
  that may receive in a rebalance.\<close>

theorem assign_even:
  assumes "distinct vips"
  shows "even_spread (set eligible) (set receivers)
           (assign_vips_minimal_movement_with_receivers eligible receivers vips current)"
  by (rule assign_even_spread [OF assms])

theorem assign_even_witness:
  "distinct [V4 1, V4 2] \<and>
   even_spread {1, 2} {2} (assign_vips_minimal_movement_with_receivers [1, 2] [2] [V4 1, V4 2]
      (bm_insert (V4 1) 1 (bm_insert (V4 2) 1 bm_empty)))"
  using assign_even [of "[V4 1, V4 2]" "[1, 2]" "[2]" "bm_insert (V4 1) 1 (bm_insert (V4 2) 1 bm_empty)"]
  by simp

text \<open>C28. A VIP whose holder is still eligible stays there or goes to a node that may receive in a
  rebalance: a node that must not preempt takes no VIP from a live holder.\<close>

theorem assign_nopreempt:
  assumes "v \<in> set vips" "bm_get current v = Some h" "h \<in> set eligible"
  shows "let m = assign_vips_minimal_movement_with_receivers eligible receivers vips current in
         bm_get m v = Some h \<or> (\<exists>r \<in> set receivers. bm_get m v = Some r)"
  using rebalance_moves_to_receivers [of "set receivers" "before_rebalance eligible vips current" v]
    out_before_rebalance [OF assms] assms(3)
  by (auto simp: assign_eq Let_def)

theorem assign_nopreempt_witness:
  "V4 2 \<in> set [V4 1, V4 2] \<and> bm_get (bm_insert (V4 2) 1 bm_empty) (V4 2) = Some 1 \<and>
   bm_get (assign_vips_minimal_movement_with_receivers [1, 2] [] [V4 1, V4 2]
      (bm_insert (V4 2) 1 bm_empty)) (V4 2) = Some 1"
  using assign_nopreempt [of "V4 2" "[V4 1, V4 2]" "bm_insert (V4 2) 1 bm_empty" 1 "[1, 2]" "[]"]
  by simp

lemma assign_keeps_even:
  assumes "distinct vips" "eligible \<noteq> []" "dom (bm_get m) = set vips" "ran (bm_get m) \<subseteq> set eligible"
    "even_spread (set eligible) (set receivers) m"
  shows "assign_vips_minimal_movement_with_receivers eligible receivers vips m = m"
proof -
  let ?p = "before_rebalance eligible vips m"
  have placed: "placed (set eligible) (set vips) ?p" by (rule placed_before_rebalance [OF assms(1,2)])
  have "bm_get (out ?p) v = bm_get m v" for v
  proof (cases "v \<in> set vips")
    case True
    then obtain h where "bm_get m v = Some h" "h \<in> set eligible"
      using assms(3,4) by (force simp: dom_def ran_def)
    then show ?thesis using out_before_rebalance [OF True] by simp
  next
    case False
    then show ?thesis using assms(3) placedD(2) [OF placed] by (metis domIff)
  qed
  then have "out ?p = m" by (rule bm_eqI)
  then show ?thesis
    using rebalance_even_id [OF placed] assms(2,5) by (simp add: assign_eq)
qed

lemma assign_assign:
  assumes "distinct vips"
  shows "assign_vips_minimal_movement_with_receivers eligible receivers vips
           (assign_vips_minimal_movement_with_receivers eligible receivers vips current) =
         assign_vips_minimal_movement_with_receivers eligible receivers vips current"
proof (cases "eligible = []")
  case False
  then show ?thesis
    using assign_dom [OF assms] assign_ran [OF assms] assign_even_spread [OF assms]
    by (intro assign_keeps_even [OF assms False]) simp_all
qed (simp add: assign_eq)

text \<open>The placement settles in one run: run again on its own result it makes no move.\<close>

theorem assign_idempotent:
  assumes "distinct vips"
  shows "assign_vips_minimal_movement_with_receivers eligible receivers vips
           (assign_vips_minimal_movement_with_receivers eligible receivers vips current) =
         assign_vips_minimal_movement_with_receivers eligible receivers vips current"
  by (rule assign_assign [OF assms])

theorem assign_idempotent_witness:
  "distinct [V4 1, V4 2] \<and>
   assign_vips_minimal_movement_with_receivers [1, 2] [1, 2] [V4 1, V4 2]
     (assign_vips_minimal_movement_with_receivers [1, 2] [1, 2] [V4 1, V4 2] (bm_insert (V4 1) 3 bm_empty)) =
   assign_vips_minimal_movement_with_receivers [1, 2] [1, 2] [V4 1, V4 2] (bm_insert (V4 1) 3 bm_empty)"
  using assign_idempotent [of "[V4 1, V4 2]" "[1, 2]" "[1, 2]" "bm_insert (V4 1) 3 bm_empty"] by simp

lemma even_example:
  "even_spread {1, 2} {1, 2} (bm_insert (V4 2) 2 (bm_insert (V4 1) 1 bm_empty))"
  "dom (bm_get (bm_insert (V4 2) 2 (bm_insert (V4 1) 1 bm_empty))) = {V4 1, V4 2}"
  "ran (bm_get (bm_insert (V4 2) (2 :: u64) (bm_insert (V4 1) 1 bm_empty))) \<subseteq> {1, 2}"
  by (auto simp: even_spread_def vips_on_insert vips_on_def [of bm_empty] dom_def ran_def split: if_splits)

text \<open>C5. Movement is minimal: among all even assignments of the same VIPs to the eligible nodes, none
  takes fewer VIPs away from an eligible holder than the computed one does.\<close>

theorem assign_minimal:
  assumes "distinct vips" "dom (bm_get m) = set vips" "ran (bm_get m) \<subseteq> set eligible"
    "even_spread (set eligible) (set eligible) m"
  shows "card (moved (set eligible) (set vips) current (assign_vips_minimal_movement eligible vips current))
         \<le> card (moved (set eligible) (set vips) current m)"
proof (cases "eligible = []")
  case False
  let ?E = "set eligible" and ?V = "set vips"
  let ?p = "rebalance ?E (before_rebalance eligible vips current)"
  have "placed ?E ?V ?p" by (rule assign_outcome [OF assms(1) False])
  then have "(\<Sum>n \<in> ?E. card (vips_on (out ?p) n)) = card ?V"
    by (intro card_by_node) (simp_all add: placed_def)
  moreover have "(\<Sum>n \<in> ?E. card (vips_on m n)) = card ?V"
    using assms(2,3) by (intro card_by_node) simp_all
  ultimately have total: "(\<Sum>n \<in> ?E. card (vips_on m n)) = (\<Sum>n \<in> ?E. card (vips_on (out ?p) n))"
    by simp
  have frugal: "frugal ?E (kept_on ?V current) (vips_on (out ?p))"
    by (rule frugal_rebalance [OF placed_before_rebalance frugal_before_rebalance]) (fact assms(1) False)+
  have even: "card (vips_on m n) \<le> card (vips_on m k) + 1" if "n \<in> ?E" "k \<in> ?E" for n k
    using assms(4) that by (simp add: even_spread_def)
  have "(\<Sum>n \<in> ?E. card (kept_on ?V current n - vips_on (out ?p) n))
      \<le> (\<Sum>n \<in> ?E. card (kept_on ?V current n - vips_on m n))"
    by (rule frugal_optimal [OF _ _ _ _ frugal even total]) (simp_all add: finite_kept_on)
  then show ?thesis
    using False by (simp add: card_moved assign_vips_minimal_movement_def assign_eq)
qed (simp add: moved_def)

theorem assign_minimal_witness:
  "distinct [V4 1, V4 2] \<and>
   card (moved {1, 2} {V4 1, V4 2} (bm_insert (V4 2) 1 (bm_insert (V4 1) 1 bm_empty))
     (assign_vips_minimal_movement [1, 2] [V4 1, V4 2] (bm_insert (V4 2) 1 (bm_insert (V4 1) 1 bm_empty))))
   \<le> card (moved {1, 2} {V4 1, V4 2} (bm_insert (V4 2) 1 (bm_insert (V4 1) 1 bm_empty))
            (bm_insert (V4 2) 2 (bm_insert (V4 1) 1 bm_empty)))"
  using assign_minimal [of "[V4 1, V4 2]" "bm_insert (V4 2) 2 (bm_insert (V4 1) 1 bm_empty)" "[1, 2]"
      "bm_insert (V4 2) 1 (bm_insert (V4 1) 1 bm_empty)"] even_example
  by simp

text \<open>With no prior holders the three passes are round-robin over the sorted VIPs, the test oracle of
  the source.\<close>

theorem assign_cold_start:
  assumes "sorted_wrt (<) eligible" "distinct vips"
  shows "assign_vips_minimal_movement eligible vips bm_empty =
         assign_vips_round_robin_eligible eligible (sort vips)"
proof (cases "eligible = []")
  case False
  let ?E = "set eligible" and ?m = "length eligible"
  let ?init = "\<lparr>out = bm_empty, load = bm_collect (map (\<lambda>i. (i, 0)) eligible), held = bm_empty\<rparr>"
  let ?p = "before_rebalance eligible vips bm_empty"
  have p0: "placed ?E {} ?init" by (rule placed_init)
  have p: "?p = place_orphans (sort vips) ?init" by (simp add: before_rebalance_def kept_holder_def)
  have "rr_loads eligible 0 ?init"
    using placedD(5) [OF p0] by (simp add: rr_loads_def vips_on_def)
  then have rr: "out ?p = fold (\<lambda>(k, v). bm_insert v (eligible ! (k mod ?m))) (List.enumerate 0 (sort vips)) bm_empty"
    "rr_loads eligible (0 + length (sort vips)) ?p"
    using rr_orphans [OF assms(1) False _ p0, of "sort vips" 0] assms(2) unfolding p by simp_all
  have placed: "placed ?E (set vips) ?p" by (rule placed_before_rebalance [OF assms(2) False])
  have "card (vips_on (out ?p) n) \<le> card (vips_on (out ?p) r) + 1" if "n \<in> ?E" "r \<in> ?E" for n r
    using rr_loads_even [OF rr(2) that] that placedD(5) [OF placed] by simp
  then have "rebalance ?E ?p = ?p" by (intro rebalance_even_id [OF placed]) (simp add: even_spread_def)
  then show ?thesis
    using False rr(1)
    by (simp add: assign_vips_minimal_movement_def assign_eq assign_vips_round_robin_eligible_def)
qed (simp add: assign_vips_minimal_movement_def assign_eq assign_vips_round_robin_eligible_def)

theorem assign_cold_start_witness:
  "sorted_wrt (<) [1, 2 :: u64] \<and> distinct [V4 3, V4 1, V4 2] \<and>
   assign_vips_minimal_movement [1, 2] [V4 3, V4 1, V4 2] bm_empty =
   assign_vips_round_robin_eligible [1, 2] (sort [V4 3, V4 1, V4 2])"
  using assign_cold_start [of "[1, 2]" "[V4 3, V4 1, V4 2]"] by simp

end
