(* ===== verification/Vip_Fencing.thy ===== *)
theory Vip_Fencing
  imports Vip_Placement
begin

text \<open>
  The fencing data of an assignment through \<open>reconcile_vip_assignments\<close>
  (\<open>src/raft/store/vip_logic.rs\<close>). The loop treats each VIP of the table on its own; the lemmas
  read off what it leaves for one VIP, and the voter view of
  \<open>src/raft/store/membership.rs\<close> gets its characterisation.
\<close>

subsection \<open>One VIP at a time\<close>

definition gen_of :: "(ip_addr, u64) btree_map \<Rightarrow> ip_addr \<Rightarrow> u64" where
  "gen_of gens v = (case bm_get gens v of None \<Rightarrow> 0 | Some g \<Rightarrow> g)"

text \<open>The last holder of a VIP once its present assignment is recorded.\<close>

definition recorded_holder :: "vip_assignment option \<Rightarrow> u64 option \<Rightarrow> u64 option" where
  "recorded_holder old lh = (case old of None \<Rightarrow> lh | Some a \<Rightarrow> Some (holder a))"

definition next_assignment ::
  "u64 option \<Rightarrow> u64 \<Rightarrow> vip_assignment option \<Rightarrow> u64 \<Rightarrow> u64 option \<Rightarrow> vip_assignment option" where
  "next_assignment next latest old gen lh =
     (case next of
        None \<Rightarrow> None
      | Some h \<Rightarrow>
          Some (case old of
                  Some a \<Rightarrow> if holder a = h then a else moved_assignment latest gen (holder a) h
                | None \<Rightarrow> fresh_assignment latest gen lh h))"

definition holder_changes :: "u64 option \<Rightarrow> vip_assignment option \<Rightarrow> bool" where
  "holder_changes next old = (next \<noteq> None \<and> map_option holder old \<noteq> next)"

lemma reconcile_vip_next:
  "bm_get (rc_next (reconcile_vip nh latest v acc)) w =
     (if w = v then
        (case next_assignment (bm_get nh v) latest (bm_get (rc_assignments acc) v)
                (gen_of (rc_generation acc) v) (bm_get (rc_last_holder acc) v) of
           None \<Rightarrow> bm_get (rc_next acc) v | Some a \<Rightarrow> Some a)
      else bm_get (rc_next acc) w)"
  by (auto simp: reconcile_vip_def Let_def next_assignment_def gen_of_def split: option.splits)

lemma reconcile_vip_generation:
  "bm_get (rc_generation (reconcile_vip nh latest v acc)) w =
     (if w = v \<and> holder_changes (bm_get nh v) (bm_get (rc_assignments acc) v)
      then Some (sat_add (gen_of (rc_generation acc) v) 1) else bm_get (rc_generation acc) w)"
  by (auto simp: reconcile_vip_def Let_def holder_changes_def gen_of_def split: option.splits)

lemma reconcile_vip_last_holder:
  "bm_get (rc_last_holder (reconcile_vip nh latest v acc)) w =
     (if w = v then
        (case bm_get nh v of
           None \<Rightarrow> recorded_holder (bm_get (rc_assignments acc) v) (bm_get (rc_last_holder acc) v)
         | Some h \<Rightarrow> Some h)
      else bm_get (rc_last_holder acc) w)"
  by (auto simp: reconcile_vip_def Let_def recorded_holder_def split: option.splits)

lemma reconcile_vip_assignments_other:
  "bm_get (rc_assignments (reconcile_vip nh latest v acc)) w =
     (if w = v then None else bm_get (rc_assignments acc) w)"
  by (auto simp: reconcile_vip_def Let_def split: option.splits)

lemmas reconcile_vip_gets =
  reconcile_vip_next reconcile_vip_generation reconcile_vip_last_holder reconcile_vip_assignments_other

lemma reconcile_fold_other:
  assumes "w \<notin> set vs"
  shows "bm_get (rc_next (fold (reconcile_vip nh latest) vs acc)) w = bm_get (rc_next acc) w"
    "bm_get (rc_generation (fold (reconcile_vip nh latest) vs acc)) w = bm_get (rc_generation acc) w"
    "bm_get (rc_last_holder (fold (reconcile_vip nh latest) vs acc)) w = bm_get (rc_last_holder acc) w"
    "bm_get (rc_assignments (fold (reconcile_vip nh latest) vs acc)) w = bm_get (rc_assignments acc) w"
  using assms by (induction vs arbitrary: acc) (auto simp: reconcile_vip_gets)

lemma reconcile_fold_in:
  assumes "v \<in> set vs" "distinct vs"
  obtains acc' where
    "bm_get (rc_assignments acc') v = bm_get (rc_assignments acc) v"
    "bm_get (rc_generation acc') v = bm_get (rc_generation acc) v"
    "bm_get (rc_last_holder acc') v = bm_get (rc_last_holder acc) v"
    "bm_get (rc_next acc') v = bm_get (rc_next acc) v"
    "bm_get (rc_next (fold (reconcile_vip nh latest) vs acc)) v =
       bm_get (rc_next (reconcile_vip nh latest v acc')) v"
    "bm_get (rc_generation (fold (reconcile_vip nh latest) vs acc)) v =
       bm_get (rc_generation (reconcile_vip nh latest v acc')) v"
    "bm_get (rc_last_holder (fold (reconcile_vip nh latest) vs acc)) v =
       bm_get (rc_last_holder (reconcile_vip nh latest v acc')) v"
proof -
  obtain xs ys where vs: "vs = xs @ v # ys" using assms(1) by (meson split_list)
  then have out: "v \<notin> set xs" "v \<notin> set ys" using assms(2) by auto
  show thesis
    by (rule that [of "fold (reconcile_vip nh latest) xs acc"])
       (simp_all add: vs reconcile_fold_other out)
qed

lemma reconcile_get:
  assumes "reconcile_vip_assignments nh latest vips as gens lasts = (as', gens', lasts')"
    "distinct (vip_ips vips)" "v \<in> set (vip_ips vips)"
  shows "bm_get as' v = next_assignment (bm_get nh v) latest (bm_get as v) (gen_of gens v) (bm_get lasts v)"
    "gen_of gens' v =
       (if holder_changes (bm_get nh v) (bm_get as v) then sat_add (gen_of gens v) 1 else gen_of gens v)"
    "bm_get lasts' v =
       (case bm_get nh v of None \<Rightarrow> recorded_holder (bm_get as v) (bm_get lasts v) | Some h \<Rightarrow> Some h)"
proof -
  let ?acc = "\<lparr>rc_assignments = as, rc_generation = gens, rc_last_holder = lasts, rc_next = bm_empty\<rparr>"
  let ?res = "fold (reconcile_vip nh latest) (vip_ips vips) ?acc"
  have res: "as' = rc_next ?res" "gens' = rc_generation ?res" "lasts' = rc_last_holder ?res"
    using assms(1) by (simp_all add: reconcile_vip_assignments_def Let_def)
  obtain acc' where acc':
    "bm_get (rc_assignments acc') v = bm_get as v" "bm_get (rc_generation acc') v = bm_get gens v"
    "bm_get (rc_last_holder acc') v = bm_get lasts v" "bm_get (rc_next acc') v = None"
    "bm_get as' v = bm_get (rc_next (reconcile_vip nh latest v acc')) v"
    "bm_get gens' v = bm_get (rc_generation (reconcile_vip nh latest v acc')) v"
    "bm_get lasts' v = bm_get (rc_last_holder (reconcile_vip nh latest v acc')) v"
    using reconcile_fold_in [OF assms(3,2), of ?acc nh latest thesis] unfolding res by simp
  have gen: "gen_of (rc_generation acc') v = gen_of gens v" using acc'(2) by (simp add: gen_of_def)
  show "bm_get as' v = next_assignment (bm_get nh v) latest (bm_get as v) (gen_of gens v) (bm_get lasts v)"
    using acc' gen by (simp add: reconcile_vip_next split: option.splits)
  show "gen_of gens' v =
       (if holder_changes (bm_get nh v) (bm_get as v) then sat_add (gen_of gens v) 1 else gen_of gens v)"
    using acc' gen by (simp add: reconcile_vip_generation gen_of_def [of gens'] gen_of_def [of gens])
  show "bm_get lasts' v =
       (case bm_get nh v of None \<Rightarrow> recorded_holder (bm_get as v) (bm_get lasts v) | Some h \<Rightarrow> Some h)"
    using acc' by (simp add: reconcile_vip_last_holder split: option.split)
qed

lemma reconcile_other:
  assumes "reconcile_vip_assignments nh latest vips as gens lasts = (as', gens', lasts')"
    "v \<notin> set (vip_ips vips)"
  shows "bm_get as' v = None" "bm_get gens' v = bm_get gens v" "bm_get lasts' v = bm_get lasts v"
  using assms by (auto simp: reconcile_vip_assignments_def Let_def reconcile_fold_other)

subsection \<open>The voter view\<close>

text \<open>Exactly the physical nodes with one voting boot are in the view.\<close>

lemma unique_voters_fold:
  "fold (\<lambda>replica (voters, ambiguous).
           (bm_insert (physical_id replica) replica voters,
            if bm_contains voters (physical_id replica)
            then insert (physical_id replica) ambiguous else ambiguous)) rs (voters, amb) = (voters', amb') \<Longrightarrow>
   bm_get voters' i =
     (let same = filter (\<lambda>r. physical_id r = i) rs in if same = [] then bm_get voters i else Some (last same)) \<and>
   (i \<in> amb' \<longleftrightarrow> i \<in> amb \<or>
      2 \<le> length (filter (\<lambda>r. physical_id r = i) rs) + (if bm_contains voters i then 1 else 0) \<and>
      filter (\<lambda>r. physical_id r = i) rs \<noteq> [])"
proof (induction rs arbitrary: voters amb)
  case (Cons r rs)
  show ?case
    using Cons.IH [of "bm_insert (physical_id r) r voters"
        "if bm_contains voters (physical_id r) then insert (physical_id r) amb else amb"] Cons.prems
    by (auto simp: Let_def Suc_le_eq)
qed simp

lemma unique_voters_get:
  assumes "distinct (voter_ids m)"
  shows "bm_get (unique_voters m) i = Some r \<longleftrightarrow>
         r \<in> set (voter_ids m) \<and> physical_id r = i \<and>
         (\<forall>r' \<in> set (voter_ids m). physical_id r' = i \<longrightarrow> r' = r)"
proof -
  let ?same = "filter (\<lambda>r. physical_id r = i) (voter_ids m)"
  let ?step = "\<lambda>replica (voters, ambiguous).
                (bm_insert (physical_id replica) replica voters,
                 if bm_contains voters (physical_id replica)
                 then insert (physical_id replica) ambiguous else ambiguous)"
  obtain voters amb where f: "fold ?step (voter_ids m) (bm_empty, {}) = (voters, amb)"
    by (cases "fold ?step (voter_ids m) (bm_empty, {})")
  have get: "bm_get (unique_voters m) i = (if length ?same = 1 then Some (hd ?same) else None)"
    using unique_voters_fold [OF f, of i] unfolding unique_voters_def f
    by (cases ?same) (auto simp: Let_def Suc_le_eq)
  have "distinct ?same" using assms by simp
  moreover have "set ?same = {r' \<in> set (voter_ids m). physical_id r' = i}" by auto
  ultimately show ?thesis unfolding get
    by (cases ?same; cases "tl ?same") (auto split: if_splits)
qed

end
