(* ===== verification/Membership_History.thy ===== *)
theory Membership_History
  imports Vip_Logic
begin

text \<open>
  Admission history and exact-boot membership transitions of the state machine
  (\<open>src/raft/store/membership.rs\<close>): the commands that prepare, acknowledge and cancel a learner
  join, and the application of a membership entry, which forgets the health of every physical node
  whose boot changes and completes a join that reached its voters.
\<close>

subsection \<open>Admission commands\<close>

fun apply_admission_membership ::
  "admission_command \<Rightarrow> log_id \<Rightarrow> kaf_storage_state \<Rightarrow> kaf_storage_state \<times> kaf_response" where
  "apply_admission_membership (CancelJoin plan prepared) lid st =
     (let m = sm_membership (last_membership st) in
      case prepared_join st of
        None \<Rightarrow> (st, Rejected ''no join is pending'')
      | Some pending \<Rightarrow>
          if pj_plan pending \<noteq> plan \<or> pj_prepared pending \<noteq> prepared \<or>
             genesis st \<noteq> Some (jp_genesis plan) \<or> index lid \<le> index prepared \<or>
             length (get_joint_config m) \<noteq> 1 \<or> set (voter_ids m) \<noteq> jp_previous_voters plan \<or>
             jp_consumer plan \<in> set (nodes m)
          then (st, Rejected ''cancellation requires the exact pending join and removed learner'')
          else (st\<lparr>prepared_join := None\<rparr>, Ok))"
| "apply_admission_membership (PrepareJoin plan) lid st =
     (let m = sm_membership (last_membership st) in
      if \<not> is_ok (validate_plan plan) \<or> genesis st \<noteq> Some (jp_genesis plan)
      then (st, Rejected ''join plan differs from immutable genesis or replacement'')
      else (case prepared_join st of
              Some pending \<Rightarrow>
                (st, if pj_plan pending = plan then Ok else Rejected ''another join is pending'')
            | None \<Rightarrow>
                if length (get_joint_config m) \<noteq> 1 \<or> set (voter_ids m) \<noteq> jp_previous_voters plan
                then (st, Rejected ''join requires the exact stable applied voter set'')
                else (st\<lparr>prepared_join :=
                           Some \<lparr>pj_plan = plan, pj_prepared = lid, pj_learner_applied = None\<rparr>\<rparr>, Ok)))"
| "apply_admission_membership (LearnerApplied consumer nonce prepared) lid st =
     (let m = sm_membership (last_membership st) in
      case prepared_join st of
        None \<Rightarrow> (st, Rejected ''no join is pending'')
      | Some pending \<Rightarrow>
          if jp_consumer (pj_plan pending) \<noteq> consumer \<or> jp_request_nonce (pj_plan pending) \<noteq> nonce \<or>
             pj_prepared pending \<noteq> prepared \<or> genesis st \<noteq> Some (jp_genesis (pj_plan pending))
          then (st, Rejected ''learner acknowledgement differs from prepared join'')
          else if pj_learner_applied pending \<noteq> None then (st, Ok)
          else if consumer \<notin> set (learner_ids m) \<or> length (get_joint_config m) \<noteq> 1 \<or>
                  set (voter_ids m) \<noteq> jp_previous_voters (pj_plan pending) \<or> index lid \<le> index prepared
          then (st, Rejected ''acknowledgement requires the prepared learner stage'')
          else (st\<lparr>prepared_join := Some (pending\<lparr>pj_learner_applied := Some lid\<rparr>)\<rparr>, Ok))"

subsection \<open>Membership entries\<close>

text \<open>The loop over the physical identities of both voter views.\<close>

definition drop_changed_boot ::
  "(u64, replica_id) btree_map \<Rightarrow> (u64, replica_id) btree_map \<Rightarrow> u64 \<Rightarrow> kaf_storage_state \<Rightarrow> kaf_storage_state" where
  "drop_changed_boot before after i st =
     (if genesis st \<noteq> None \<and> bm_get before i \<noteq> bm_get after i
      then st\<lparr>node_health := bm_remove i (node_health st),
              node_probe_ticks := bm_remove i (node_probe_ticks st),
              node_recovery_tick := bm_remove i (node_recovery_tick st),
              applied_progress := bm_remove i (applied_progress st)\<rparr>
      else st)"

definition complete_join :: "membership \<Rightarrow> log_id \<Rightarrow> kaf_storage_state \<Rightarrow> kaf_storage_state" where
  "complete_join m lid st =
     (case prepared_join st of
        None \<Rightarrow> st
      | Some pending \<Rightarrow>
          if (case pj_learner_applied pending of None \<Rightarrow> False | Some ack \<Rightarrow> index ack < index lid) \<and>
             length (get_joint_config m) = 1 \<and> set (voter_ids m) = jp_next_voters (pj_plan pending)
          then st\<lparr>completed_joins :=
                    bm_insert (physical_id (jp_consumer (pj_plan pending)))
                      \<lparr>cj_prepared = pending, cj_promoted = lid\<rparr> (completed_joins st),
                  prepared_join := None\<rparr>
          else st)"

definition apply_membership :: "membership \<Rightarrow> log_id \<Rightarrow> kaf_storage_state \<Rightarrow> kaf_storage_state" where
  "apply_membership m lid st =
     (let before = unique_voters (sm_membership (last_membership st));
          after = unique_voters m;
          physical = sorted_list_of_set (set (bm_keys before) \<union> set (bm_keys after));
          st1 = fold (drop_changed_boot before after) physical st;
          st2 = st1\<lparr>applied_progress :=
                      bm_retain (\<lambda>_ progress. hp_replica (ap_request progress) \<in> set (nodes m))
                        (applied_progress st1)\<rparr>
      in (complete_join m lid st2)\<lparr>last_membership := \<lparr>sm_log_id = Some lid, sm_membership = m\<rparr>\<rparr>)"

end
