(* ===== verification/State_Machine.thy ===== *)
theory State_Machine
  imports Vip_Fencing Membership_History
begin

text \<open>
  The replicated state machine (\<open>src/raft/store/state_machine.rs\<close>): the effect of one committed
  entry with the recomputation of VIP ownership that follows it, the stream of entries that
  openraft hands to \<open>apply\<close>, and building and installing snapshots.
\<close>

subsection \<open>Failover semantics\<close>

definition activate_v2 :: "kaf_storage_state \<Rightarrow> kaf_storage_state" where
  "activate_v2 st =
     (if failover_semantics st = FailoverV2 then st
      else let st1 = st\<lparr>failover_semantics := FailoverV2\<rparr>;
               st2 = (if failback st1
                      then st1\<lparr>node_recovery_pending :=
                                 node_recovery_pending st1 \<union> set (bm_keys (node_recovery_tick st1))\<rparr>
                      else st1\<lparr>node_nopreempt := node_nopreempt st1 \<union> node_failback_blocked st1,
                               node_recovery_tick := bm_empty\<rparr>)
           in st2\<lparr>node_failback_blocked := {}\<rparr>)"

text \<open>A node that votes under exactly one boot and whose probes are healthy and fresh.\<close>

definition v2_alive :: "kaf_storage_state \<Rightarrow> u64 \<Rightarrow> bool" where
  "v2_alive st i =
     (bm_contains (unique_voters (sm_membership (last_membership st))) i \<and>
      is_node_base_eligible i (node_health st) (node_probe_ticks st) (latest_probe_tick st)
        (stale_missed_probes st))"

text \<open>The loop over the nodes with a pending recovery: it keeps the recovery ticks and collects
  the nodes whose delay has passed.\<close>

definition recovery_step ::
  "kaf_storage_state \<Rightarrow> u64 \<Rightarrow> (u64, u64) btree_map \<times> u64 list \<Rightarrow> (u64, u64) btree_map \<times> u64 list" where
  "recovery_step st i = (\<lambda>(ticks, completed).
     if \<not> v2_alive st i then (bm_remove i ticks, completed)
     else let (recovery_tick, ticks') =
                (case bm_get ticks i of
                   None \<Rightarrow> (latest_probe_tick st, bm_insert i (latest_probe_tick st) ticks)
                 | Some t \<Rightarrow> (t, ticks))
          in if failback_delay_ticks st \<le> sat_sub (latest_probe_tick st) recovery_tick
             then (ticks', completed @ [i]) else (ticks', completed))"

definition update_v2_failback_tracking :: "kaf_storage_state \<Rightarrow> kaf_storage_state" where
  "update_v2_failback_tracking st =
     (let failed_owners =
            Set.filter (\<lambda>i. \<not> v2_alive st i) (holder ` set (bm_values (vip_assignments st)))
      in if \<not> failback st
         then st\<lparr>node_nopreempt := node_nopreempt st \<union> failed_owners,
                 node_recovery_pending := {}, node_recovery_tick := bm_empty\<rparr>
         else let pending = node_recovery_pending st \<union> failed_owners;
                  ticks = bm_remove_all (sorted_list_of_set failed_owners) (node_recovery_tick st);
                  (ticks', completed) =
                    fold (recovery_step st) (sorted_list_of_set pending) (ticks, [])
              in st\<lparr>node_nopreempt := {},
                    node_recovery_pending := pending - set completed,
                    node_recovery_tick := bm_remove_all completed ticks'\<rparr>)"

definition apply_health :: "u64 \<Rightarrow> bool \<Rightarrow> kaf_storage_state \<Rightarrow> kaf_storage_state" where
  "apply_health node_id healthy st =
     (let previous_health = bm_get (node_health st) node_id;
          next_tick = next_probe_tick (bm_get (node_probe_ticks st) node_id) (latest_probe_tick st);
          st1 = st\<lparr>node_health := bm_insert node_id healthy (node_health st),
                   node_probe_ticks := bm_insert node_id next_tick (node_probe_ticks st),
                   latest_probe_tick := next_tick\<rparr>
      in if failover_semantics st1 = Legacy \<and> healthy then
           (if failback st1 \<and> previous_health = Some False
            then st1\<lparr>node_recovery_tick := bm_insert node_id next_tick (node_recovery_tick st1)\<rparr>
            else st1)
         else if failover_semantics st1 = Legacy then
           (let st2 = st1\<lparr>node_recovery_tick := bm_remove node_id (node_recovery_tick st1)\<rparr>
            in if \<not> failback st2 \<and> previous_health = Some True
               then st2\<lparr>node_failback_blocked := insert node_id (node_failback_blocked st2)\<rparr>
               else st2)
         else st1)"

subsection \<open>Recomputing VIP ownership\<close>

definition recompute :: "kaf_storage_state \<Rightarrow> kaf_storage_state" where
  "recompute st0 =
     (let st = (if failover_semantics st0 = FailoverV2 then update_v2_failback_tracking st0 else st0);
          latest = latest_probe_tick st;
          eligibility = eligibility_of st;
          current_holders = bm_map holder (vip_assignments st);
          vip_holder =
            (case failover_semantics st of
               Legacy \<Rightarrow> recompute_vip_holder (last_membership st) eligibility
                           (node_failback_blocked st) (vip_list st) current_holders
             | FailoverV2 \<Rightarrow> recompute_vip_holder_v2 (last_membership st) eligibility
                           (node_nopreempt st) (vip_list st) current_holders);
          (assignments, gens, lasts) =
            reconcile_vip_assignments vip_holder latest (vip_list st)
              (vip_assignments st) (vip_generation st) (vip_last_holder st)
      in st\<lparr>vip_assignments := assignments, vip_generation := gens, vip_last_holder := lasts\<rparr>)"

subsection \<open>Applying committed entries\<close>

text \<open>The dispatch on a request: the state, the response and whether ownership is recomputed. The
  two early returns of the source are the branches that answer \<open>Rejected\<close> without recomputing.\<close>

fun apply_request ::
  "kaf_request \<Rightarrow> log_id \<Rightarrow> kaf_storage_state \<Rightarrow> kaf_storage_state \<times> kaf_response \<times> bool" where
  "apply_request (AdmissionMembership command) lid st =
     (let (st', resp) = apply_admission_membership command lid st in (st', resp, False))"
| "apply_request (AdmissionGenesis g) lid st =
     (if (case genesis st of None \<Rightarrow> False | Some current \<Rightarrow> current \<noteq> g) \<or>
         (case cluster_epoch st of None \<Rightarrow> False | Some epoch \<Rightarrow> epoch \<noteq> g_epoch g)
      then (st, Rejected ''immutable genesis mismatch'', False)
      else let (st1, rec) =
             (if genesis st = None
              then ((activate_v2 (st\<lparr>node_health := bm_empty, node_probe_ticks := bm_empty,
                                     node_recovery_tick := bm_empty, applied_progress := bm_empty\<rparr>))
                      \<lparr>config_identity_enforced := True\<rparr>, True)
              else (st, False))
           in (st1\<lparr>genesis := Some g, cluster_epoch := Some (g_epoch g)\<rparr>, Ok, rec))"
| "apply_request (HealthProgress p) lid st =
     (if \<not> is_ok (validate_progress p) \<or> genesis st \<noteq> Some (hp_genesis p) \<or>
         hp_replica p \<notin> set (nodes (sm_membership (last_membership st)))
      then (st, Rejected ''progress context differs from committed genesis'', False)
      else let voters = unique_voters (sm_membership (last_membership st));
               st1 = st\<lparr>applied_progress :=
                          bm_insert (hp_node_id p) \<lparr>ap_request = p, ap_log_id = lid\<rparr> (applied_progress st)\<rparr>
           in case hp_healthy p of
                None \<Rightarrow> (st1, Ok, False)
              | Some healthy \<Rightarrow>
                  (let eligible = (bm_get voters (hp_node_id p) = Some (hp_replica p))
                   in (apply_health (hp_node_id p) (healthy \<and> eligible) st1, Ok, True)))"
| "apply_request (HealthUpdate node_id healthy) lid st =
     (if genesis st \<noteq> None then (st, Rejected ''physical-only health has no boot authority'', False)
      else (apply_health node_id healthy st, Ok, True))"
| "apply_request (VipReleased node_id vip gen) lid st =
     (case bm_get (vip_assignments st) vip of
        None \<Rightarrow> (st, Ok, False)
      | Some a \<Rightarrow>
          if generation a = gen \<and> previous_holder a = Some node_id
          then (st\<lparr>vip_assignments :=
                     bm_insert vip (a\<lparr>previous_holder_released := True\<rparr>) (vip_assignments st)\<rparr>, Ok, False)
          else (st, Ok, False))"
| "apply_request (ClusterFormed cluster_id semantics enforced) lid st =
     (if cluster_epoch st = None
      then let st1 = st\<lparr>cluster_epoch := Some cluster_id,
                        config_identity_enforced := (config_identity_enforced st \<or> enforced)\<rparr>
           in if semantics = FailoverV2 then (activate_v2 st1, Ok, True) else (st1, Ok, False)
      else (st, Ok, False))"
| "apply_request EnableFailoverSemanticsV2 lid st = (activate_v2 st, Ok, True)"
| "apply_request EnableConfigIdentityV1 lid st = (st\<lparr>config_identity_enforced := True\<rparr>, Ok, False)"

fun apply_payload ::
  "entry_payload \<Rightarrow> log_id \<Rightarrow> kaf_storage_state \<Rightarrow> kaf_storage_state \<times> kaf_response \<times> bool" where
  "apply_payload Blank lid st = (st, Ok, False)"
| "apply_payload (Normal req) lid st = apply_request req lid st"
| "apply_payload (MembershipEntry m) lid st = (apply_membership m lid st, Ok, True)"

definition apply_one :: "log_entry \<Rightarrow> kaf_storage_state \<Rightarrow> kaf_storage_state \<times> kaf_response" where
  "apply_one entry st =
     (let (st1, resp, should_recompute) =
            apply_payload (e_payload entry) (e_log_id entry)
              (st\<lparr>last_applied_log := Some (e_log_id entry)\<rparr>)
      in (if should_recompute then recompute st1 else st1, resp))"

text \<open>An item of the stream that openraft passes to \<open>apply\<close>: a read error, or an entry and
  whether somebody waits for its response.\<close>

datatype stream_item = StreamErr io_error | StreamEntry log_entry bool

fun apply_stream ::
  "(fence_view \<times> stream_item) list \<Rightarrow> kaf_storage_state \<Rightarrow>
   kaf_storage_state \<times> kaf_response list \<times> unit io" where
  "apply_stream [] st = (st, [], Inr ())"
| "apply_stream ((_, StreamErr e) # items) st = (st, [], Inl e)"
| "apply_stream ((fv, StreamEntry entry responder) # items) st =
     (case check_mutation fv st of
        Inl e \<Rightarrow> (st, [], Inl e)
      | Inr _ \<Rightarrow>
          (let (st1, resp) = apply_one entry st;
               (st2, sent, res) = apply_stream items st1
           in (st2, (if responder then resp # sent else sent), res)))"

subsection \<open>Snapshots\<close>

definition applied_state :: "kaf_storage_state \<Rightarrow> log_id option \<times> stored_membership" where
  "applied_state st = (last_applied_log st, last_membership st)"

definition build_snapshot ::
  "(kaf_snapshot \<Rightarrow> u8 list io) \<Rightarrow> kaf_storage_state \<Rightarrow> (snapshot_meta \<times> u8 list) io" where
  "build_snapshot to_vec st =
     (case last_applied_log st of
        None \<Rightarrow> Inl (IoError NotFound ''no applied logs'')
      | Some last_applied \<Rightarrow> snapshot_at to_vec last_applied st)"

definition get_current_snapshot ::
  "(kaf_snapshot \<Rightarrow> u8 list io) \<Rightarrow> kaf_storage_state \<Rightarrow> (snapshot_meta \<times> u8 list) option io" where
  "get_current_snapshot to_vec st =
     (case last_applied_log st of
        None \<Rightarrow> Inr None
      | Some last_applied \<Rightarrow> rbind (snapshot_at to_vec last_applied st) (\<lambda>s. Inr (Some s)))"

text \<open>\<open>Option\<close> of an index ordered as Rust orders it, \<open>None\<close> first.\<close>

fun opt_less :: "u64 option \<Rightarrow> u64 option \<Rightarrow> bool" where
  "opt_less _ None = False"
| "opt_less None (Some _) = True"
| "opt_less (Some a) (Some b) = (a < b)"

text \<open>The log of a process that installs a snapshot drops what the snapshot covers.\<close>

definition drop_covered :: "kaf_snapshot \<Rightarrow> kaf_storage_state \<Rightarrow> kaf_storage_state" where
  "drop_covered snap st =
     (case snap_last_applied snap of
        None \<Rightarrow> st
      | Some snap_last \<Rightarrow>
          (let stale = filter (\<lambda>k. k \<le> index snap_last) (bm_keys (log st));
               st' = st\<lparr>log := bm_remove_all stale (log st)\<rparr>
           in if opt_less (map_option index (last_purged_log_id st')) (Some (index snap_last))
              then st'\<lparr>last_purged_log_id := Some snap_last\<rparr> else st'))"

definition install_snapshot ::
  "(snapshot_meta \<Rightarrow> string) \<Rightarrow> (u8 list \<Rightarrow> string + kaf_snapshot) \<Rightarrow> fence_view \<Rightarrow>
   snapshot_meta \<Rightarrow> u8 list \<Rightarrow> kaf_storage_state \<Rightarrow> kaf_storage_state \<times> unit io" where
  "install_snapshot show_meta from_slice fv meta data st =
     (case from_slice data of
        Inl e \<Rightarrow> (st, Inl (IoError InvalidData (''install_snapshot '' @ show_meta meta @ '': '' @ e)))
      | Inr snap \<Rightarrow>
          if (case genesis st of None \<Rightarrow> False | Some g \<Rightarrow> snap_genesis snap \<noteq> Some g) \<or>
             (case admission st of None \<Rightarrow> False | Some ctx \<Rightarrow> snap_genesis snap \<noteq> Some (ctx_genesis ctx))
          then (st, Inl (IoError InvalidData ''snapshot admission genesis mismatch''))
          else (case check_mutation fv st of
                  Inl e \<Rightarrow> (st, Inl e)
                | Inr _ \<Rightarrow>
                    ((drop_covered snap (restore_into snap st))\<lparr>current_snapshot := Some snap\<rparr>, Inr ())))"

end
