(* ===== verification/Replication.thy ===== *)
theory Replication
  imports State_Machine
begin

text \<open>
  What the replicated log determines. Applying an entry reads and writes only the fields a
  snapshot carries and the shared configuration: it commutes with replacing everything local to a
  process, and replicas that agree on the replicated part stay in agreement. Hence a process that
  installs a snapshot and applies the rest of the log is where a process is that applied all of it.
\<close>

subsection \<open>Local fields\<close>

definition with_local :: "kaf_storage_state \<Rightarrow> kaf_storage_state \<Rightarrow> kaf_storage_state" where
  "with_local st l =
     st\<lparr>admission := admission l, admission_required := admission_required l,
        last_purged_log_id := last_purged_log_id l, log := log l, vote := vote l,
        committed := committed l, current_snapshot := current_snapshot l\<rparr>"

named_theorems local_simps \<open>an operation commutes with replacing the local fields\<close>

lemma with_local_self [simp]: "with_local st st = st"
  by (simp add: with_local_def)

lemma with_local_sel [simp]:
  "prepared_join (with_local st l) = prepared_join st"
  "completed_joins (with_local st l) = completed_joins st"
  "genesis (with_local st l) = genesis st"
  "applied_progress (with_local st l) = applied_progress st"
  "last_applied_log (with_local st l) = last_applied_log st"
  "last_membership (with_local st l) = last_membership st"
  "node_health (with_local st l) = node_health st"
  "node_probe_ticks (with_local st l) = node_probe_ticks st"
  "latest_probe_tick (with_local st l) = latest_probe_tick st"
  "vip_assignments (with_local st l) = vip_assignments st"
  "vip_generation (with_local st l) = vip_generation st"
  "vip_last_holder (with_local st l) = vip_last_holder st"
  "cluster_epoch (with_local st l) = cluster_epoch st"
  "vip_list (with_local st l) = vip_list st"
  "stale_missed_probes (with_local st l) = stale_missed_probes st"
  "failback (with_local st l) = failback st"
  "failback_delay_ticks (with_local st l) = failback_delay_ticks st"
  "node_recovery_tick (with_local st l) = node_recovery_tick st"
  "node_failback_blocked (with_local st l) = node_failback_blocked st"
  "failover_semantics (with_local st l) = failover_semantics st"
  "config_identity_enforced (with_local st l) = config_identity_enforced st"
  "node_nopreempt (with_local st l) = node_nopreempt st"
  "node_recovery_pending (with_local st l) = node_recovery_pending st"
  by (simp_all add: with_local_def)

lemma replica_equiv_with_local: "replica_equiv a b \<longleftrightarrow> b = with_local a b"
  by (cases a; cases b)
     (auto simp: replica_equiv_def snapshot_of_def same_config_def with_local_def)

subsection \<open>Every operation commutes with the local fields\<close>

lemma with_local_upd [local_simps]:
  "(with_local st l)\<lparr>applied_progress := p\<rparr> = with_local (st\<lparr>applied_progress := p\<rparr>) l"
  "(with_local st l)\<lparr>last_membership := m\<rparr> = with_local (st\<lparr>last_membership := m\<rparr>) l"
  "(with_local st l)\<lparr>last_applied_log := i\<rparr> = with_local (st\<lparr>last_applied_log := i\<rparr>) l"
  "(with_local st l)\<lparr>vip_assignments := as\<rparr> = with_local (st\<lparr>vip_assignments := as\<rparr>) l"
  "(with_local st l)\<lparr>config_identity_enforced := e\<rparr> = with_local (st\<lparr>config_identity_enforced := e\<rparr>) l"
  "(with_local st l)\<lparr>genesis := g\<rparr> = with_local (st\<lparr>genesis := g\<rparr>) l"
  "(with_local st l)\<lparr>cluster_epoch := ce\<rparr> = with_local (st\<lparr>cluster_epoch := ce\<rparr>) l"
  "(with_local st l)\<lparr>node_health := nh\<rparr> = with_local (st\<lparr>node_health := nh\<rparr>) l"
  "(with_local st l)\<lparr>node_probe_ticks := pt\<rparr> = with_local (st\<lparr>node_probe_ticks := pt\<rparr>) l"
  "(with_local st l)\<lparr>node_recovery_tick := rt\<rparr> = with_local (st\<lparr>node_recovery_tick := rt\<rparr>) l"
  "(with_local st l)\<lparr>vip_generation := vg\<rparr> = with_local (st\<lparr>vip_generation := vg\<rparr>) l"
  "(with_local st l)\<lparr>vip_last_holder := lh\<rparr> = with_local (st\<lparr>vip_last_holder := lh\<rparr>) l"
  by (simp_all add: with_local_def)

lemma activate_v2_local [local_simps]:
  "activate_v2 (with_local st l) = with_local (activate_v2 st) l"
  by (simp add: activate_v2_def with_local_def Let_def)

lemma v2_alive_local [local_simps]: "v2_alive (with_local st l) = v2_alive st"
  by (simp add: v2_alive_def fun_eq_iff)

lemma recovery_step_local [local_simps]: "recovery_step (with_local st l) = recovery_step st"
  by (simp add: recovery_step_def local_simps fun_eq_iff split: option.split)

lemma update_v2_local [local_simps]:
  "update_v2_failback_tracking (with_local st l) = with_local (update_v2_failback_tracking st) l"
  by (simp add: update_v2_failback_tracking_def local_simps Let_def case_prod_beta)
     (simp add: with_local_def)

lemma apply_health_local [local_simps]:
  "apply_health n h (with_local st l) = with_local (apply_health n h st) l"
  by (simp add: apply_health_def with_local_def Let_def)

lemma eligibility_of_local [local_simps]: "eligibility_of (with_local st l) = eligibility_of st"
  by (simp add: eligibility_of_def)

lemma recompute_local [local_simps]: "recompute (with_local st l) = with_local (recompute st) l"
  by (cases "failover_semantics st") (simp_all add: recompute_def local_simps Let_def case_prod_beta
      split: failover_semantics.split)

lemma apply_admission_local [local_simps]:
  "apply_admission_membership c lid (with_local st l) =
     map_prod (\<lambda>s. with_local s l) id (apply_admission_membership c lid st)"
  by (cases c) (auto simp: Let_def with_local_def split: option.split)

lemma drop_changed_local [local_simps]:
  "drop_changed_boot b a i (with_local st l) = with_local (drop_changed_boot b a i st) l"
  by (simp add: drop_changed_boot_def with_local_def)

lemma fold_drop_changed_local [local_simps]:
  "fold (drop_changed_boot b a) is (with_local st l) = with_local (fold (drop_changed_boot b a) is st) l"
  by (induction "is" arbitrary: st) (simp_all add: local_simps)

lemma complete_join_local [local_simps]:
  "complete_join m lid (with_local st l) = with_local (complete_join m lid st) l"
  by (simp add: complete_join_def with_local_def split: option.split)

lemma apply_membership_local [local_simps]:
  "apply_membership m lid (with_local st l) = with_local (apply_membership m lid st) l"
  by (simp add: apply_membership_def local_simps Let_def)

lemma apply_request_local [local_simps]:
  "apply_request req lid (with_local st l) =
     map_prod (\<lambda>s. with_local s l) id (apply_request req lid st)"
  by (cases req) (simp_all add: local_simps Let_def case_prod_beta split: option.split)

lemma apply_payload_local [local_simps]:
  "apply_payload pl lid (with_local st l) =
     map_prod (\<lambda>s. with_local s l) id (apply_payload pl lid st)"
  by (cases pl) (simp_all add: local_simps)

lemma apply_one_local [local_simps]:
  "apply_one e (with_local st l) = map_prod (\<lambda>s. with_local s l) id (apply_one e st)"
  by (simp add: apply_one_def local_simps Let_def case_prod_beta)

subsection \<open>Configuration\<close>

named_theorems config_simps \<open>an operation keeps the configuration\<close>

lemma same_config_refl [simp]: "same_config st st"
  by (simp add: same_config_def)

lemma same_config_trans: "same_config a b \<Longrightarrow> same_config b c \<Longrightarrow> same_config a c"
  by (simp add: same_config_def)

lemma same_config_health: "same_config (apply_health n h st) st"
  by (simp add: same_config_def apply_health_def Let_def)

lemma same_config_activate: "same_config (activate_v2 st) st"
  by (simp add: same_config_def activate_v2_def Let_def)

lemma same_config_update: "same_config (update_v2_failback_tracking st) st"
  by (simp add: same_config_def update_v2_failback_tracking_def Let_def case_prod_beta)

lemma same_config_recompute: "same_config (recompute st) st"
  using same_config_update [of st]
  by (simp add: same_config_def recompute_def Let_def case_prod_beta)

lemma same_config_admission: "same_config (fst (apply_admission_membership c lid st)) st"
  by (cases c) (auto simp: same_config_def Let_def split: option.split)

lemma same_config_drop: "same_config (fold (drop_changed_boot b a) is st) st"
proof (induction "is" arbitrary: st)
  case (Cons i "is")
  have "same_config (drop_changed_boot b a i st) st" by (simp add: same_config_def drop_changed_boot_def)
  then show ?case using Cons same_config_trans by simp blast
qed simp

lemma same_config_membership: "same_config (apply_membership m lid st) st"
  using same_config_drop [of "unique_voters (sm_membership (last_membership st))" "unique_voters m"]
  by (simp add: same_config_def apply_membership_def complete_join_def Let_def split: option.split)

lemmas same_config_ops =
  same_config_health [unfolded same_config_def] same_config_activate [unfolded same_config_def]

lemma same_config_request: "same_config (fst (apply_request req lid st)) st"
proof (cases req)
  case (AdmissionMembership c)
  then show ?thesis using same_config_admission [of c lid st] by (simp add: case_prod_beta)
qed (simp_all add: Let_def same_config_def same_config_ops split: option.split)

lemma apply_one_cases:
  obtains st1 resp where
    "apply_payload (e_payload e) (e_log_id e) (st\<lparr>last_applied_log := Some (e_log_id e)\<rparr>) = (st1, resp, False)"
    "apply_one e st = (st1, resp)"
  | st1 resp where
    "apply_payload (e_payload e) (e_log_id e) (st\<lparr>last_applied_log := Some (e_log_id e)\<rparr>) = (st1, resp, True)"
    "apply_one e st = (recompute st1, resp)"
proof -
  obtain st1 resp r where
    r: "apply_payload (e_payload e) (e_log_id e) (st\<lparr>last_applied_log := Some (e_log_id e)\<rparr>) = (st1, resp, r)"
    by (rule prod_cases3)
  then show thesis by (cases r) (simp_all add: apply_one_def that)
qed

lemma same_config_payload: "same_config (fst (apply_payload pl lid st)) st"
  by (cases pl) (simp_all add: same_config_request same_config_membership del: apply_request.simps)

lemma same_config_one: "same_config (fst (apply_one e st)) st"
proof -
  let ?st = "st\<lparr>last_applied_log := Some (e_log_id e)\<rparr>"
  have payload: "same_config (fst (apply_payload (e_payload e) (e_log_id e) ?st)) ?st"
    by (rule same_config_payload)
  have init: "same_config ?st st" by (simp add: same_config_def)
  show ?thesis
  proof (cases rule: apply_one_cases [of e st])
    case (1 st1 resp)
    then show ?thesis using payload init by (auto intro: same_config_trans)
  next
    case (2 st1 resp)
    then show ?thesis
      using payload init same_config_recompute [of st1] by (auto intro: same_config_trans)
  qed
qed

subsection \<open>Failback bookkeeping\<close>

lemma bm_remove_empty [simp]: "bm_remove k bm_empty = bm_empty"
  by (simp add: bm_remove_absent)

lemma failback_inv_health: "failback_inv st \<Longrightarrow> failback_inv (apply_health n h st)"
  by (auto simp: failback_inv_def apply_health_def Let_def split: failover_semantics.splits)

lemma failback_inv_activate: "failback_inv st \<Longrightarrow> failback_inv (activate_v2 st)"
  by (auto simp: failback_inv_def activate_v2_def Let_def split: failover_semantics.splits)

lemma failback_inv_update:
  "failback_inv st \<Longrightarrow> failover_semantics st = FailoverV2 \<Longrightarrow> failback_inv (update_v2_failback_tracking st)"
  by (simp add: failback_inv_def update_v2_failback_tracking_def Let_def case_prod_beta)

lemma failover_semantics_update [simp]:
  "failover_semantics (update_v2_failback_tracking st) = failover_semantics st"
  by (simp add: update_v2_failback_tracking_def Let_def case_prod_beta)

text \<open>The bookkeeping is a function of six fields.\<close>

lemma failback_inv_cong:
  assumes "failover_semantics a = failover_semantics b" "failback a = failback b"
    "node_nopreempt a = node_nopreempt b" "node_recovery_pending a = node_recovery_pending b"
    "node_failback_blocked a = node_failback_blocked b" "node_recovery_tick a = node_recovery_tick b"
  shows "failback_inv a = failback_inv b"
  by (simp only: failback_inv_def assms)

lemma failback_inv_upd [simp]:
  "failback_inv (st\<lparr>genesis := g\<rparr>) = failback_inv st"
  "failback_inv (st\<lparr>cluster_epoch := e\<rparr>) = failback_inv st"
  "failback_inv (st\<lparr>config_identity_enforced := b\<rparr>) = failback_inv st"
  "failback_inv (st\<lparr>applied_progress := ps\<rparr>) = failback_inv st"
  "failback_inv (st\<lparr>vip_assignments := as\<rparr>) = failback_inv st"
  "failback_inv (st\<lparr>last_applied_log := i\<rparr>) = failback_inv st"
  "failback_inv (st\<lparr>node_health := h\<rparr>) = failback_inv st"
  "failback_inv (st\<lparr>prepared_join := pj\<rparr>) = failback_inv st"
  "failback_inv (st\<lparr>node_probe_ticks := t\<rparr>) = failback_inv st"
  by (rule failback_inv_cong; simp)+

lemma failback_inv_recompute:
  assumes "failback_inv st"
  shows "failback_inv (recompute st)"
proof -
  let ?st = "if failover_semantics st = FailoverV2 then update_v2_failback_tracking st else st"
  have "failback_inv ?st" using assms failback_inv_update by simp
  moreover have "failback_inv (recompute st) = failback_inv ?st"
    by (rule failback_inv_cong) (simp_all add: recompute_def Let_def case_prod_beta)
  ultimately show ?thesis by simp
qed

lemma failback_inv_admission:
  "failback_inv (fst (apply_admission_membership c lid st)) = failback_inv st"
  by (cases c) (simp_all add: Let_def split: option.split)

lemma failback_inv_drop:
  "failback_inv st \<Longrightarrow> failback_inv (fold (drop_changed_boot b a) is st)"
proof (induction "is" arbitrary: st)
  case (Cons i "is")
  then have "failback_inv (drop_changed_boot b a i st)"
    by (auto simp: drop_changed_boot_def failback_inv_def split: failover_semantics.splits)
  then show ?case using Cons.IH by simp
qed simp

lemma failback_inv_membership:
  assumes "failback_inv st"
  shows "failback_inv (apply_membership m lid st)"
proof -
  let ?b = "unique_voters (sm_membership (last_membership st))" and ?a = "unique_voters m"
  let ?st = "fold (drop_changed_boot ?b ?a) (sorted_list_of_set (set (bm_keys ?b) \<union> set (bm_keys ?a))) st"
  have "failback_inv (apply_membership m lid st) = failback_inv ?st"
    by (rule failback_inv_cong)
       (simp_all add: apply_membership_def complete_join_def Let_def split: option.split)
  then show ?thesis using failback_inv_drop assms by simp
qed

lemma failback_inv_request:
  assumes "failback_inv st"
  shows "failback_inv (fst (apply_request req lid st))"
proof (cases req)
  case (AdmissionMembership c)
  then show ?thesis using failback_inv_admission [of c lid st] assms by (simp add: case_prod_beta)
next
  case (AdmissionGenesis g)
  have "failback_inv (activate_v2 (st\<lparr>node_health := bm_empty, node_probe_ticks := bm_empty,
      node_recovery_tick := bm_empty, applied_progress := bm_empty\<rparr>))"
    using assms
    by (intro failback_inv_activate) (auto simp: failback_inv_def split: failover_semantics.splits)
  then show ?thesis using AdmissionGenesis assms by simp
next
  case (HealthProgress p)
  then show ?thesis using assms by (simp add: failback_inv_health Let_def split: option.split)
next
  case (HealthUpdate n h)
  then show ?thesis using assms by (simp add: failback_inv_health)
next
  case (VipReleased n v g)
  then show ?thesis using assms by (simp split: option.split)
next
  case (ClusterFormed i sem enf)
  then show ?thesis using assms by (simp add: failback_inv_activate Let_def)
next
  case EnableFailoverSemanticsV2
  then show ?thesis using assms by (simp add: failback_inv_activate)
next
  case EnableConfigIdentityV1
  then show ?thesis using assms by simp
qed

lemma failback_inv_one:
  assumes "failback_inv st"
  shows "failback_inv (fst (apply_one e st))"
proof -
  let ?st = "st\<lparr>last_applied_log := Some (e_log_id e)\<rparr>"
  have "failback_inv (fst (apply_payload (e_payload e) (e_log_id e) ?st))"
    using assms
    by (cases "e_payload e")
       (simp_all add: failback_inv_request failback_inv_membership del: apply_request.simps)
  then show ?thesis
    by (cases rule: apply_one_cases [of e st]) (simp_all add: failback_inv_recompute)
qed

subsection \<open>Logs and snapshots\<close>

definition apply_log :: "log_entry list \<Rightarrow> kaf_storage_state \<Rightarrow> kaf_storage_state" where
  "apply_log es st = fold (\<lambda>e s. fst (apply_one e s)) es st"

lemma apply_log_simps [simp]:
  "apply_log [] st = st" "apply_log (e # es) st = apply_log es (fst (apply_one e st))"
  "apply_log (es @ es') st = apply_log es' (apply_log es st)"
  by (simp_all add: apply_log_def)

text \<open>An invariant of one entry is an invariant of a log.\<close>

lemma apply_log_invariant:
  assumes "I st" "\<And>e s. I s \<Longrightarrow> I (fst (apply_one e s))"
  shows "I (apply_log es st)"
  using assms(1) by (induction es arbitrary: st) (simp_all add: assms(2))

lemma apply_log_local: "apply_log es (with_local st l) = with_local (apply_log es st) l"
  by (induction es arbitrary: st) (simp_all add: local_simps)

lemma failback_inv_log: "failback_inv st \<Longrightarrow> failback_inv (apply_log es st)"
  by (erule apply_log_invariant) (rule failback_inv_one)

lemma same_config_log: "same_config (apply_log es st) st"
  by (rule apply_log_invariant [of "\<lambda>s. same_config s st"])
     (auto intro: same_config_trans same_config_one)

text \<open>Replicas that agree stay in agreement and give the same answers.\<close>

lemma replica_equiv_one:
  assumes "replica_equiv a b"
  shows "replica_equiv (fst (apply_one e a)) (fst (apply_one e b)) \<and>
         snd (apply_one e a) = snd (apply_one e b)"
proof -
  have b: "b = with_local a b" using assms by (simp add: replica_equiv_with_local)
  have "apply_one e b = map_prod (\<lambda>s. with_local s b) id (apply_one e a)"
    by (subst b) (rule apply_one_local)
  then show ?thesis
    by (simp add: replica_equiv_def snapshot_of_def same_config_def)
qed

lemma replica_equiv_log: "replica_equiv a b \<Longrightarrow> replica_equiv (apply_log es a) (apply_log es b)"
  by (induction es arbitrary: a b) (simp_all add: replica_equiv_one)

text \<open>Installing a snapshot that a replica built.\<close>

lemma snapshot_at_data:
  assumes "build_snapshot to_vec s = Inr (meta, data)"
  shows "to_vec (snapshot_of s) = Inr data"
proof -
  obtain l where l: "last_applied_log s = Some l"
    using assms by (auto simp: build_snapshot_def split: option.splits)
  then have "(snapshot_of s)\<lparr>snap_last_applied := Some l\<rparr> = snapshot_of s"
    by (simp add: snapshot_of_def)
  then show ?thesis using assms l by (auto simp: build_snapshot_def snapshot_at_def)
qed

lemma install_snapshot_Inr:
  assumes "install_snapshot show_meta from_slice fv meta data st = (st', Inr ())"
  obtains snap where "from_slice data = Inr snap" "snapshot_of st' = snapshot_of (restore_into snap st)"
    "same_config st' st" "check_mutation fv st = Inr ()"
    "\<And>l k. snap_last_applied snap = Some l \<Longrightarrow> bm_get (log st') k = (if k \<le> index l then None else bm_get (log st) k)"
    "\<And>l. snap_last_applied snap = Some l \<Longrightarrow> \<exists>p. last_purged_log_id st' = Some p \<and> index l \<le> index p"
proof -
  obtain snap where snap: "from_slice data = Inr snap"
    using assms by (auto simp: install_snapshot_def split: sum.splits)
  have ok: "check_mutation fv st = Inr ()"
    using assms snap by (auto simp: install_snapshot_def split: sum.splits if_splits)
  have st': "st' = (drop_covered snap (restore_into snap st))\<lparr>current_snapshot := Some snap\<rparr>"
    using assms snap ok by (simp add: install_snapshot_def split: if_splits)
  have "snapshot_of st' = snapshot_of (restore_into snap st)" "same_config st' st"
    unfolding st'
    by (simp_all add: snapshot_of_def same_config_def restore_into_frame drop_covered_def Let_def
        split: option.split)
  moreover have "bm_get (log st') k = (if k \<le> index l then None else bm_get (log st) k)"
    if "snap_last_applied snap = Some l" for l k
    using that unfolding st'
    by (auto simp: drop_covered_def Let_def restore_into_frame set_bm_keys)
  moreover have "\<exists>p. last_purged_log_id st' = Some p \<and> index l \<le> index p"
    if "snap_last_applied snap = Some l" for l
    using that unfolding st'
    by (cases "last_purged_log_id st") (auto simp: drop_covered_def Let_def restore_into_frame not_less)
  ultimately show thesis using that snap ok by blast
qed

end
