(* ===== verification/Vip_Fence_Spec.thy ===== *)
theory Vip_Fence_Spec
  imports State_Machine
begin

text \<open>
  The ownership contract of one VIP, apart from how the holders are computed: an assignment is
  kept, released by its previous holder, vacated, moved to another node or, after a gap, taken
  anew. Every change of ownership uses up a generation, so a generation names one holder for ever;
  this is what makes it a fencing token. The state machine is shown to take only these steps.
\<close>

record vip_fence =
  f_assignment :: "vip_assignment option"
  f_generation :: u64
  f_last :: "u64 option"

inductive fence_step :: "u64 \<Rightarrow> vip_fence \<Rightarrow> vip_fence \<Rightarrow> bool" for tick :: u64 where
  stay: "fence_step tick f f"
| keep: "f_assignment f = Some a \<Longrightarrow> fence_step tick f (f\<lparr>f_last := Some (holder a)\<rparr>)"
| release: "f_assignment f = Some a \<Longrightarrow> previous_holder a \<noteq> None \<Longrightarrow>
    fence_step tick f (f\<lparr>f_assignment := Some (a\<lparr>previous_holder_released := True\<rparr>)\<rparr>)"
| vacate: "f_assignment f = Some a \<Longrightarrow>
    fence_step tick f (f\<lparr>f_assignment := None, f_last := Some (holder a)\<rparr>)"
| move: "f_assignment f = Some a \<Longrightarrow> holder a \<noteq> h \<Longrightarrow>
    fence_step tick f
      \<lparr>f_assignment = Some (moved_assignment tick (f_generation f) (holder a) h),
       f_generation = sat_add (f_generation f) 1, f_last = Some h\<rparr>"
| take: "f_assignment f = None \<Longrightarrow>
    fence_step tick f
      \<lparr>f_assignment = Some (fresh_assignment tick (f_generation f) (f_last f) h),
       f_generation = sat_add (f_generation f) 1, f_last = Some h\<rparr>"

inductive_cases fence_stepE: "fence_step tick f f'"

definition fence_run :: "vip_fence \<Rightarrow> vip_fence \<Rightarrow> bool" where
  "fence_run = (\<lambda>f f'. \<exists>tick. fence_step tick f f')\<^sup>*\<^sup>*"

text \<open>The assignment carries the current generation; the last holder is recorded; only a first
  assignment has no previous holder, and only such an assignment starts released.\<close>

definition fence_ok :: "vip_fence \<Rightarrow> bool" where
  "fence_ok f =
     ((f_generation f = 0 \<longleftrightarrow> f_last f = None) \<and>
      (case f_assignment f of
         None \<Rightarrow> True
       | Some a \<Rightarrow> generation a = f_generation f \<and> f_generation f \<noteq> 0 \<and> f_last f = Some (holder a) \<and>
           (previous_holder a = None \<longrightarrow> previous_holder_released a \<and> generation a = 1)))"

text \<open>Two assignments of one ownership: at most the release flag has been raised.\<close>

definition same_ownership :: "vip_assignment \<Rightarrow> vip_assignment \<Rightarrow> bool" where
  "same_ownership a b =
     (holder a = holder b \<and> generation a = generation b \<and> previous_holder a = previous_holder b \<and>
      activation_tick a = activation_tick b \<and>
      (previous_holder_released a \<longrightarrow> previous_holder_released b))"

lemma same_ownership_refl [simp]: "same_ownership a a"
  by (simp add: same_ownership_def)

lemma same_ownership_trans: "same_ownership a b \<Longrightarrow> same_ownership b c \<Longrightarrow> same_ownership a c"
  by (simp add: same_ownership_def)

lemma sat_add_one_nonzero [simp]: "sat_add (g :: u64) 1 \<noteq> 0"
proof -
  have "unat (sat_add g 1) \<noteq> 0" by (simp add: unat_sat_add)
  then show ?thesis by (metis unat_0)
qed

lemma sat_add_zero_one [simp]: "sat_add (0 :: u64) 1 = 1"
  by (simp add: sat_add_def)

lemma fence_ok_step: "fence_step tick f f' \<Longrightarrow> fence_ok f \<Longrightarrow> fence_ok f'"
  by (induction rule: fence_step.induct)
     (auto simp: fence_ok_def moved_assignment_def fresh_assignment_def)

lemma fence_generation_mono: "fence_step tick f f' \<Longrightarrow> f_generation f \<le> f_generation f'"
  by (induction rule: fence_step.induct) (auto simp: sat_add_ge1)

text \<open>A step that leaves an assignment without using up a generation left it its owner.\<close>

lemma fence_same_generation:
  assumes "fence_step tick f f'" "f_generation f' = f_generation f" "f_generation f \<noteq> - 1"
    "f_assignment f' = Some a'"
  shows "\<exists>a. f_assignment f = Some a \<and> same_ownership a a'"
proof -
  have "f_generation f < sat_add (f_generation f) 1" using assms(3) by (rule sat_add_one_gt)
  then show ?thesis
    using assms by (auto elim!: fence_stepE simp: same_ownership_def)
qed

lemma fence_run_mono: "fence_run f f' \<Longrightarrow> f_generation f \<le> f_generation f'"
  unfolding fence_run_def
  by (induction rule: rtranclp_induct) (auto dest: fence_generation_mono)

lemma fence_run_ok: "fence_run f f' \<Longrightarrow> fence_ok f \<Longrightarrow> fence_ok f'"
  unfolding fence_run_def
  by (induction rule: rtranclp_induct) (auto dest: fence_ok_step)

lemma fence_run_trans: "fence_run f g \<Longrightarrow> fence_run g h \<Longrightarrow> fence_run f h"
  unfolding fence_run_def by (rule rtranclp_trans)

lemma fence_run_refl [simp]: "fence_run f f"
  by (simp add: fence_run_def)

lemma fence_run_step: "fence_step tick f f' \<Longrightarrow> fence_run f f'"
  unfolding fence_run_def by blast

text \<open>A generation below saturation belongs to one ownership in every run.\<close>

lemma fence_token:
  assumes "fence_run f f'" "f_generation f' = f_generation f" "f_generation f \<noteq> - 1"
    "f_assignment f' = Some a'"
  shows "\<exists>a. f_assignment f = Some a \<and> same_ownership a a'"
  using assms unfolding fence_run_def
proof (induction arbitrary: a' rule: rtranclp_induct)
  case (step g h)
  from step.hyps obtain tick where s: "fence_step tick g h" by blast
  have "f_generation f \<le> f_generation g"
    using step.hyps(1) fence_run_mono unfolding fence_run_def by blast
  moreover have "f_generation g \<le> f_generation h" using s by (rule fence_generation_mono)
  ultimately have eq: "f_generation g = f_generation f" "f_generation h = f_generation g"
    using step.prems(1) by auto
  obtain b where b: "f_assignment g = Some b" "same_ownership b a'"
    using fence_same_generation [OF s eq(2)] eq step.prems by auto
  then show ?case using step.IH [OF eq(1) step.prems(2) b(1)] same_ownership_trans by blast
qed simp

end
