(* ===== verification/Ownership.thy ===== *)
theory Ownership
  imports Replication Vip_Fence_Spec
begin

text \<open>
  VIP ownership through the replicated log: every applied entry takes each VIP one step of the
  ownership contract, and after a recomputation the holders are voting, healthy, fresh nodes over
  which the VIPs are spread.
\<close>

subsection \<open>The state machine takes steps of the contract\<close>

definition fence_of :: "kaf_storage_state \<Rightarrow> ip_addr \<Rightarrow> vip_fence" where
  "fence_of st v =
     \<lparr>f_assignment = bm_get (vip_assignments st) v, f_generation = gen_of (vip_generation st) v,
      f_last = bm_get (vip_last_holder st) v\<rparr>"

lemma fence_of_eqI:
  "vip_assignments a = vip_assignments b \<Longrightarrow> vip_generation a = vip_generation b \<Longrightarrow>
   vip_last_holder a = vip_last_holder b \<Longrightarrow> fence_of a v = fence_of b v"
  by (simp add: fence_of_def)

lemma reconcile_fence_step:
  assumes "reconcile_vip_assignments nh latest vips as gens lasts = (as', gens', lasts')"
    "distinct (vip_ips vips)" "v \<in> set (vip_ips vips)"
  shows "fence_step latest
           \<lparr>f_assignment = bm_get as v, f_generation = gen_of gens v, f_last = bm_get lasts v\<rparr>
           \<lparr>f_assignment = bm_get as' v, f_generation = gen_of gens' v, f_last = bm_get lasts' v\<rparr>"
    (is "fence_step _ ?f ?f'")
proof (cases "bm_get nh v")
  case None
  show ?thesis
  proof (cases "bm_get as v")
    case None
    with \<open>bm_get nh v = None\<close> have "?f' = ?f"
      using reconcile_get [OF assms] by (simp add: next_assignment_def holder_changes_def recorded_holder_def)
    then show ?thesis using fence_step.stay [of latest ?f] by simp
  next
    case (Some a)
    with None have "?f' = ?f\<lparr>f_assignment := None, f_last := Some (holder a)\<rparr>"
      using reconcile_get [OF assms] by (simp add: next_assignment_def holder_changes_def recorded_holder_def)
    then show ?thesis using fence_step.vacate [of ?f a latest] Some by simp
  qed
next
  case (Some h)
  show ?thesis
  proof (cases "bm_get as v")
    case None
    then show ?thesis
      using reconcile_get [OF assms] Some fence_step.take [of ?f latest h]
      by (simp add: next_assignment_def holder_changes_def)
  next
    case (Some a)
    then show ?thesis
      using reconcile_get [OF assms] \<open>bm_get nh v = Some h\<close>
        fence_step.move [of ?f a h latest] fence_step.keep [of ?f a latest]
      by (cases "holder a = h") (auto simp: next_assignment_def holder_changes_def)
  qed
qed

text \<open>The holders a recomputation arrives at.\<close>

definition tracked :: "kaf_storage_state \<Rightarrow> kaf_storage_state" where
  "tracked st = (if failover_semantics st = FailoverV2 then update_v2_failback_tracking st else st)"

definition new_holders :: "kaf_storage_state \<Rightarrow> (ip_addr, u64) btree_map" where
  "new_holders st =
     (case failover_semantics st of
        Legacy \<Rightarrow> recompute_vip_holder (last_membership st) (eligibility_of st)
                    (node_failback_blocked st) (vip_list st) (bm_map holder (vip_assignments st))
      | FailoverV2 \<Rightarrow> recompute_vip_holder_v2 (last_membership st) (eligibility_of st)
                    (node_nopreempt st) (vip_list st) (bm_map holder (vip_assignments st)))"

lemma tracked_frame [simp]:
  "vip_assignments (tracked st) = vip_assignments st" "vip_generation (tracked st) = vip_generation st"
  "vip_last_holder (tracked st) = vip_last_holder st" "vip_list (tracked st) = vip_list st"
  "latest_probe_tick (tracked st) = latest_probe_tick st" "last_membership (tracked st) = last_membership st"
  "failover_semantics (tracked st) = failover_semantics st" "node_health (tracked st) = node_health st"
  "node_probe_ticks (tracked st) = node_probe_ticks st" "failback (tracked st) = failback st"
  "stale_missed_probes (tracked st) = stale_missed_probes st"
  "failback_delay_ticks (tracked st) = failback_delay_ticks st"
  "genesis (tracked st) = genesis st" "cluster_epoch (tracked st) = cluster_epoch st"
  by (simp_all add: tracked_def update_v2_failback_tracking_def Let_def case_prod_beta)

lemma recompute_eq:
  "recompute st =
     (let (as, gens, lasts) = reconcile_vip_assignments (new_holders (tracked st)) (latest_probe_tick st)
            (vip_list st) (vip_assignments st) (vip_generation st) (vip_last_holder st)
      in (tracked st)\<lparr>vip_assignments := as, vip_generation := gens, vip_last_holder := lasts\<rparr>)"
proof -
  have "recompute st =
     (let (as, gens, lasts) = reconcile_vip_assignments (new_holders (tracked st)) (latest_probe_tick (tracked st))
            (vip_list (tracked st)) (vip_assignments (tracked st)) (vip_generation (tracked st)) (vip_last_holder (tracked st))
      in (tracked st)\<lparr>vip_assignments := as, vip_generation := gens, vip_last_holder := lasts\<rparr>)"
    unfolding recompute_def new_holders_def tracked_def [symmetric] Let_def by (rule refl)
  then show ?thesis by simp
qed

lemma recompute_reconciles:
  "reconcile_vip_assignments (new_holders (tracked st)) (latest_probe_tick st) (vip_list st)
     (vip_assignments st) (vip_generation st) (vip_last_holder st) =
   (vip_assignments (recompute st), vip_generation (recompute st), vip_last_holder (recompute st))"
  by (simp add: recompute_eq case_prod_beta Let_def)

lemma recompute_frame [simp]:
  "vip_list (recompute st) = vip_list st" "latest_probe_tick (recompute st) = latest_probe_tick st"
  "last_membership (recompute st) = last_membership st" "node_health (recompute st) = node_health st"
  "node_probe_ticks (recompute st) = node_probe_ticks st"
  "failover_semantics (recompute st) = failover_semantics st"
  "genesis (recompute st) = genesis st" "cluster_epoch (recompute st) = cluster_epoch st"
  "failback (recompute st) = failback st" "stale_missed_probes (recompute st) = stale_missed_probes st"
  "failback_delay_ticks (recompute st) = failback_delay_ticks st"
  by (simp_all add: recompute_eq Let_def case_prod_beta)

lemma recompute_fence_step:
  assumes "distinct (vip_ips (vip_list st))" "v \<in> set (vip_ips (vip_list st))"
  shows "fence_step (latest_probe_tick st) (fence_of st v) (fence_of (recompute st) v)"
  using reconcile_fence_step [OF recompute_reconciles assms] by (simp add: fence_of_def)

text \<open>What an entry does to the assignments before the recomputation: nothing, or a release.\<close>

definition released_by :: "entry_payload \<Rightarrow> ip_addr \<Rightarrow> vip_assignment \<Rightarrow> bool" where
  "released_by pl v a =
     (\<exists>n. previous_holder a = Some n \<and> pl = Normal (VipReleased n v (generation a)))"

lemma drop_changed_frame:
  "vip_assignments (fold (drop_changed_boot b a) is st) = vip_assignments st"
  "vip_generation (fold (drop_changed_boot b a) is st) = vip_generation st"
  "vip_last_holder (fold (drop_changed_boot b a) is st) = vip_last_holder st"
  "genesis (fold (drop_changed_boot b a) is st) = genesis st"
  "cluster_epoch (fold (drop_changed_boot b a) is st) = cluster_epoch st"
  "latest_probe_tick (fold (drop_changed_boot b a) is st) = latest_probe_tick st"
  "vip_list (fold (drop_changed_boot b a) is st) = vip_list st"
  by (induction "is" arbitrary: st) (simp_all add: drop_changed_boot_def)

lemma apply_membership_frame [simp]:
  "vip_assignments (apply_membership m lid st) = vip_assignments st"
  "vip_generation (apply_membership m lid st) = vip_generation st"
  "vip_last_holder (apply_membership m lid st) = vip_last_holder st"
  "genesis (apply_membership m lid st) = genesis st"
  "cluster_epoch (apply_membership m lid st) = cluster_epoch st"
  "latest_probe_tick (apply_membership m lid st) = latest_probe_tick st"
  by (simp_all add: apply_membership_def complete_join_def Let_def drop_changed_frame split: option.split)

lemma activate_v2_frame [simp]:
  "vip_assignments (activate_v2 st) = vip_assignments st"
  "vip_generation (activate_v2 st) = vip_generation st"
  "vip_last_holder (activate_v2 st) = vip_last_holder st"
  "genesis (activate_v2 st) = genesis st" "cluster_epoch (activate_v2 st) = cluster_epoch st"
  "latest_probe_tick (activate_v2 st) = latest_probe_tick st"
  by (simp_all add: activate_v2_def Let_def)

lemma apply_health_frame [simp]:
  "vip_assignments (apply_health n h st) = vip_assignments st"
  "vip_generation (apply_health n h st) = vip_generation st"
  "vip_last_holder (apply_health n h st) = vip_last_holder st"
  "genesis (apply_health n h st) = genesis st" "cluster_epoch (apply_health n h st) = cluster_epoch st"
  by (simp_all add: apply_health_def Let_def)

lemma apply_admission_frame [simp]:
  "vip_assignments (fst (apply_admission_membership c lid st)) = vip_assignments st"
  "vip_generation (fst (apply_admission_membership c lid st)) = vip_generation st"
  "vip_last_holder (fst (apply_admission_membership c lid st)) = vip_last_holder st"
  "genesis (fst (apply_admission_membership c lid st)) = genesis st"
  "cluster_epoch (fst (apply_admission_membership c lid st)) = cluster_epoch st"
  "latest_probe_tick (fst (apply_admission_membership c lid st)) = latest_probe_tick st"
  by (cases c; simp add: Let_def split: option.split)+

lemma apply_request_fences:
  assumes "apply_request req lid st = (st1, resp, r)"
  shows "vip_generation st1 = vip_generation st \<and> vip_last_holder st1 = vip_last_holder st \<and>
         (vip_assignments st1 = vip_assignments st \<or>
          (\<exists>v a. \<not> r \<and> bm_get (vip_assignments st) v = Some a \<and> released_by (Normal req) v a \<and>
             vip_assignments st1 = bm_insert v (a\<lparr>previous_holder_released := True\<rparr>) (vip_assignments st)))"
proof (cases req)
  case (AdmissionMembership c)
  then show ?thesis
    using assms apply_admission_frame [of c lid st] by (auto simp: case_prod_beta)
next
  case (VipReleased n v g)
  then show ?thesis
    using assms by (auto simp: released_by_def split: option.splits if_splits)
next
  case (HealthProgress p)
  then show ?thesis using assms by (auto simp: Let_def split: option.splits if_splits)
qed (use assms in \<open>auto simp: Let_def split: if_splits\<close>)

lemma apply_payload_fences:
  assumes "apply_payload pl lid st = (st1, resp, r)"
  shows "vip_generation st1 = vip_generation st \<and> vip_last_holder st1 = vip_last_holder st \<and>
         (vip_assignments st1 = vip_assignments st \<or>
          (\<exists>v a. \<not> r \<and> bm_get (vip_assignments st) v = Some a \<and> released_by pl v a \<and>
             vip_assignments st1 = bm_insert v (a\<lparr>previous_holder_released := True\<rparr>) (vip_assignments st)))"
proof (cases pl)
  case (Normal req)
  then show ?thesis using apply_request_fences [of req lid st] assms by simp
qed (use assms in auto)

lemma vip_list_payload: "vip_list (fst (apply_payload pl lid st)) = vip_list st"
  using same_config_payload [of pl lid st] by (simp add: same_config_def)

text \<open>One entry is one step of the contract for every configured VIP, and it raises a release flag
  only when it is the release of exactly that handoff.\<close>

lemma apply_one_fence_step:
  assumes "distinct (vip_ips (vip_list st))" "v \<in> set (vip_ips (vip_list st))"
  shows "\<exists>tick. fence_step tick (fence_of st v) (fence_of (fst (apply_one e st)) v)"
proof (cases rule: apply_one_cases [of e st])
  case (1 st1 resp)
  let ?st = "st\<lparr>last_applied_log := Some (e_log_id e)\<rparr>"
  have f: "vip_generation st1 = vip_generation st" "vip_last_holder st1 = vip_last_holder st"
    using apply_payload_fences [OF 1(1)] by simp_all
  show ?thesis
  proof (cases "vip_assignments st1 = vip_assignments st")
    case True
    then have "fence_of (fst (apply_one e st)) v = fence_of st v" using f 1 by (simp add: fence_of_def)
    then show ?thesis using fence_step.stay by metis
  next
    case False
    then obtain w a where a: "bm_get (vip_assignments st) w = Some a" "released_by (e_payload e) w a"
      and as: "vip_assignments st1 = bm_insert w (a\<lparr>previous_holder_released := True\<rparr>) (vip_assignments st)"
      using apply_payload_fences [OF 1(1)] by auto
    show ?thesis
    proof (cases "w = v")
      case True
      then have "fence_of (fst (apply_one e st)) v =
          (fence_of st v)\<lparr>f_assignment := Some (a\<lparr>previous_holder_released := True\<rparr>)\<rparr>"
        using f as 1 by (simp add: fence_of_def)
      moreover have "f_assignment (fence_of st v) = Some a" "previous_holder a \<noteq> None"
        using a True by (auto simp: fence_of_def released_by_def)
      ultimately show ?thesis using fence_step.release by metis
    next
      case False
      then have "fence_of (fst (apply_one e st)) v = fence_of st v" using f as 1 by (simp add: fence_of_def)
      then show ?thesis using fence_step.stay by metis
    qed
  qed
next
  case (2 st1 resp)
  have "fence_of st1 v = fence_of st v"
    using apply_payload_fences [OF 2(1)] by (simp add: fence_of_def)
  moreover have "vip_list st1 = vip_list st"
    using vip_list_payload [of "e_payload e" "e_log_id e" "st\<lparr>last_applied_log := Some (e_log_id e)\<rparr>"] 2(1)
    by simp
  ultimately show ?thesis
    using recompute_fence_step [of st1 v] assms 2(2) by auto
qed

lemma vip_list_one: "vip_list (fst (apply_one e st)) = vip_list st"
  using same_config_one [of e st] by (simp add: same_config_def)

lemma apply_log_fence_run:
  assumes "distinct (vip_ips (vip_list st))" "v \<in> set (vip_ips (vip_list st))"
  shows "fence_run (fence_of st v) (fence_of (apply_log es st) v)"
  using assms
proof (induction es arbitrary: st)
  case (Cons e es)
  obtain tick where "fence_step tick (fence_of st v) (fence_of (fst (apply_one e st)) v)"
    using apply_one_fence_step [OF Cons.prems] by blast
  moreover have "fence_run (fence_of (fst (apply_one e st)) v) (fence_of (apply_log es (fst (apply_one e st))) v)"
    using Cons by (simp add: vip_list_one)
  ultimately show ?case using fence_run_step fence_run_trans by simp blast
qed simp

lemma fence_ok_new: "fence_ok (fence_of (new_storage vips stale fb delay) v)"
  by (simp add: fence_ok_def fence_of_def new_storage_def gen_of_def)

lemma release_only_by_previous_holder:
  assumes "distinct (vip_ips (vip_list st))" "v \<in> set (vip_ips (vip_list st))"
    and "bm_get (vip_assignments st) v = Some a" "\<not> previous_holder_released a"
    and "bm_get (vip_assignments (fst (apply_one e st))) v = Some a'" "previous_holder_released a'"
    and "generation a' = generation a" "generation a \<noteq> - 1" "fence_ok (fence_of st v)"
  shows "released_by (e_payload e) v a"
proof (cases rule: apply_one_cases [of e st])
  case (1 st1 resp)
  then show ?thesis
    using apply_payload_fences [OF 1(1)] assms(3-6) by (auto split: if_splits)
next
  case (2 st1 resp)
  have same: "vip_assignments st1 = vip_assignments st" "vip_generation st1 = vip_generation st"
      "vip_last_holder st1 = vip_last_holder st"
    using apply_payload_fences [OF 2(1)] by auto
  have vl: "vip_list st1 = vip_list st"
    using vip_list_payload [of "e_payload e" "e_log_id e" "st\<lparr>last_applied_log := Some (e_log_id e)\<rparr>"] 2(1)
    by simp
  have a': "bm_get (vip_assignments (recompute st1)) v =
      next_assignment (bm_get (new_holders (tracked st1)) v) (latest_probe_tick st1) (Some a)
        (gen_of (vip_generation st) v) (bm_get (vip_last_holder st) v)"
    using reconcile_get(1) [OF recompute_reconciles, of st1 v] assms(1-3) same vl by simp
  have "gen_of (vip_generation st) v = generation a"
    using assms(3,9) by (simp add: fence_ok_def fence_of_def)
  then have "a' = a"
    using a' 2(2) assms(4-8)
    by (auto simp: next_assignment_def moved_assignment_def split: option.splits if_splits)
  then show ?thesis using assms(4,6) by simp
qed

subsection \<open>Holders after a recomputation\<close>

text \<open>The nodes that may hold a VIP, and those that a rebalance may move one to.\<close>

definition candidates :: "kaf_storage_state \<Rightarrow> u64 list" where
  "candidates st = eligible_nodes (last_membership st) (eligibility_of st)
     (case failover_semantics st of Legacy \<Rightarrow> node_failback_blocked st | FailoverV2 \<Rightarrow> {})"

definition preempting :: "kaf_storage_state \<Rightarrow> u64 list" where
  "preempting st = (case failover_semantics st of
      Legacy \<Rightarrow> candidates st | FailoverV2 \<Rightarrow> filter (\<lambda>i. i \<notin> node_nopreempt st) (candidates st))"

lemma new_holders_eq:
  "new_holders st = assign_vips_minimal_movement_with_receivers (candidates st) (preempting st)
     (vip_ips (vip_list st)) (bm_map holder (vip_assignments st))"
  by (simp add: new_holders_def candidates_def preempting_def recompute_vip_holder_def
      recompute_vip_holder_v2_def assign_vips_minimal_movement_def Let_def split: failover_semantics.split)

lemma set_eligible_nodes:
  "set (eligible_nodes sm inputs blocked) =
     {i. bm_contains (unique_voters (sm_membership sm)) i \<and> is_node_eligible i inputs blocked}"
  by (auto simp: eligible_nodes_def set_bm_keys)

lemma candidate_alive: "i \<in> set (candidates st) \<Longrightarrow> v2_alive st i"
  by (auto simp: candidates_def set_eligible_nodes v2_alive_def is_node_eligible_def eligibility_of_def
      split: if_splits)

lemma recompute_holder:
  assumes "distinct (vip_ips (vip_list st))"
  shows "map_option holder (bm_get (vip_assignments (recompute st)) v) = bm_get (new_holders (tracked st)) v"
proof (cases "v \<in> set (vip_ips (vip_list st))")
  case True
  then show ?thesis
    using reconcile_get(1) [OF recompute_reconciles assms True]
    by (auto simp: next_assignment_def moved_assignment_def fresh_assignment_def split: option.splits)
next
  case False
  then have "v \<notin> dom (bm_get (new_holders (tracked st)))"
    using assign_dom [OF assms] by (simp add: new_holders_eq)
  then show ?thesis using reconcile_other(1) [OF recompute_reconciles False] by (simp add: domIff)
qed

lemma recompute_holders_map:
  "distinct (vip_ips (vip_list st)) \<Longrightarrow>
   bm_map holder (vip_assignments (recompute st)) = new_holders (tracked st)"
  by (rule bm_eqI) (simp add: recompute_holder)

lemma recompute_holder_candidate:
  assumes "distinct (vip_ips (vip_list st))" "bm_get (vip_assignments (recompute st)) v = Some a"
  shows "holder a \<in> set (candidates (tracked st))"
proof -
  have "bm_get (new_holders (tracked st)) v = Some (holder a)"
    using recompute_holder [OF assms(1), of v] assms(2) by simp
  then have "holder a \<in> ran (bm_get (new_holders (tracked st)))" by (rule ranI)
  then show ?thesis using assign_ran [of "vip_ips (vip_list st)"] assms(1) by (auto simp: new_holders_eq)
qed

subsection \<open>A recomputation settles\<close>

definition recovery_tick_of :: "kaf_storage_state \<Rightarrow> (u64, u64) btree_map \<Rightarrow> u64 \<Rightarrow> u64" where
  "recovery_tick_of st ticks i = (case bm_get ticks i of None \<Rightarrow> latest_probe_tick st | Some t \<Rightarrow> t)"

definition recovery_done :: "kaf_storage_state \<Rightarrow> (u64, u64) btree_map \<Rightarrow> u64 \<Rightarrow> bool" where
  "recovery_done st ticks i =
     (v2_alive st i \<and>
      failback_delay_ticks st \<le> sat_sub (latest_probe_tick st) (recovery_tick_of st ticks i))"

lemma recovery_fold:
  assumes "fold (recovery_step st) is (ticks, cs) = (ticks', cs')" "distinct is"
  shows "bm_get ticks' i =
           (if i \<in> set is then if v2_alive st i then Some (recovery_tick_of st ticks i) else None
            else bm_get ticks i) \<and>
         set cs' = set cs \<union> {j \<in> set is. recovery_done st ticks j}"
  using assms
proof (induction "is" arbitrary: ticks cs)
  case (Cons j js)
  obtain t c where step: "recovery_step st j (ticks, cs) = (t, c)" by (cases "recovery_step st j (ticks, cs)")
  have t: "bm_get t k = (if k = j then if v2_alive st j then Some (recovery_tick_of st ticks j) else None
            else bm_get ticks k)" for k
    using step by (auto simp: recovery_step_def recovery_tick_of_def split: option.splits if_splits)
  have c: "set c = set cs \<union> {k. k = j \<and> recovery_done st ticks j}"
    using step by (auto simp: recovery_step_def recovery_done_def recovery_tick_of_def split: option.splits if_splits)
  have same: "recovery_tick_of st t k = recovery_tick_of st ticks k" if "k \<in> set js" for k
    using that Cons.prems(2) by (auto simp: recovery_tick_of_def t)
  have IH: "bm_get ticks' i =
           (if i \<in> set js then if v2_alive st i then Some (recovery_tick_of st t i) else None
            else bm_get t i) \<and>
         set cs' = set c \<union> {j \<in> set js. recovery_done st t j}"
    using Cons.IH [of t c] Cons.prems step by simp
  have done_: "recovery_done st t k = recovery_done st ticks k" if "k \<in> set js" for k
    using same [OF that] by (simp add: recovery_done_def)
  show ?case
  proof
    show "bm_get ticks' i =
        (if i \<in> set (j # js) then if v2_alive st i then Some (recovery_tick_of st ticks i) else None
         else bm_get ticks i)"
      using IH t same [of i] Cons.prems(2) by auto
    show "set cs' = set cs \<union> {k \<in> set (j # js). recovery_done st ticks k}"
      using IH c done_ by auto
  qed
qed simp

lemma finite_pending: "finite (node_recovery_pending st) \<Longrightarrow> finite (node_recovery_pending (update_v2_failback_tracking st))"
  by (auto simp: update_v2_failback_tracking_def Let_def case_prod_beta)

lemma v2_alive_cong:
  "last_membership a = last_membership b \<Longrightarrow> node_health a = node_health b \<Longrightarrow>
   node_probe_ticks a = node_probe_ticks b \<Longrightarrow> latest_probe_tick a = latest_probe_tick b \<Longrightarrow>
   stale_missed_probes a = stale_missed_probes b \<Longrightarrow> v2_alive a = v2_alive b"
  by (simp add: v2_alive_def fun_eq_iff)

text \<open>With failback on, what the tracking leaves: nodes whose recovery still has to last.\<close>

lemma update_v2_failback:
  assumes "failback st" "finite (node_recovery_pending st)"
    "i \<in> node_recovery_pending (update_v2_failback_tracking st)"
  shows "bm_get (node_recovery_tick (update_v2_failback_tracking st)) i =
           (if v2_alive st i
            then Some (recovery_tick_of st (node_recovery_tick (update_v2_failback_tracking st)) i) else None)"
    and "\<not> recovery_done st (node_recovery_tick (update_v2_failback_tracking st)) i"
proof -
  let ?failed = "Set.filter (\<lambda>i. \<not> v2_alive st i) (holder ` set (bm_values (vip_assignments st)))"
  let ?pending = "node_recovery_pending st \<union> ?failed"
  let ?ticks = "bm_remove_all (sorted_list_of_set ?failed) (node_recovery_tick st)"
  obtain ticks' cs where f: "fold (recovery_step st) (sorted_list_of_set ?pending) (?ticks, []) = (ticks', cs)"
    by (cases "fold (recovery_step st) (sorted_list_of_set ?pending) (?ticks, [])")
  have fin: "finite ?pending" using assms(2) by simp
  have u: "update_v2_failback_tracking st = st\<lparr>node_nopreempt := {},
      node_recovery_pending := ?pending - set cs, node_recovery_tick := bm_remove_all cs ticks'\<rparr>"
    unfolding update_v2_failback_tracking_def Let_def f using assms(1) by simp
  have i: "i \<in> ?pending" "i \<notin> set cs" using assms(3) unfolding u by simp_all
  have r: "bm_get ticks' i = (if v2_alive st i then Some (recovery_tick_of st ?ticks i) else None)"
      "set cs = {j \<in> ?pending. recovery_done st ?ticks j}"
    using recovery_fold [OF f, of i] i(1) fin by simp_all
  have get: "bm_get (bm_remove_all cs ticks') i = bm_get ticks' i" using i(2) by simp
  have tick: "v2_alive st i \<Longrightarrow> recovery_tick_of st (bm_remove_all cs ticks') i = recovery_tick_of st ?ticks i"
    using get r(1) by (simp add: recovery_tick_of_def)
  show "bm_get (node_recovery_tick (update_v2_failback_tracking st)) i =
           (if v2_alive st i
            then Some (recovery_tick_of st (node_recovery_tick (update_v2_failback_tracking st)) i) else None)"
    unfolding u using get r(1) tick by simp
  show "\<not> recovery_done st (node_recovery_tick (update_v2_failback_tracking st)) i"
    unfolding u using tick r(2) i by (auto simp: recovery_done_def)
qed

lemma update_v2_settled:
  assumes fin: "finite (node_recovery_pending st)" and sem: "failover_semantics st = FailoverV2"
    and st': "st' = (update_v2_failback_tracking st)\<lparr>vip_assignments := as, vip_generation := gs, vip_last_holder := ls\<rparr>"
    and alive: "\<And>v a. bm_get as v = Some a \<Longrightarrow> v2_alive st (holder a)"
  shows "update_v2_failback_tracking st' = st'"
proof -
  let ?u = "update_v2_failback_tracking st"
  have va: "v2_alive st' = v2_alive st"
    unfolding st' by (rule v2_alive_cong) (simp_all add: update_v2_failback_tracking_def Let_def case_prod_beta)
  have failed: "Set.filter (\<lambda>i. \<not> v2_alive st' i) (holder ` set (bm_values (vip_assignments st'))) = {}"
    unfolding va using alive st' by (auto simp: set_bm_values ran_def)
  show ?thesis
  proof (cases "failback st")
    case False
    then have "failback st' = False" "node_recovery_pending st' = {}" "node_recovery_tick st' = bm_empty"
      by (simp_all add: st' update_v2_failback_tracking_def)
    then show ?thesis unfolding update_v2_failback_tracking_def failed by simp
  next
    case True
    let ?P = "node_recovery_pending st'" and ?T = "node_recovery_tick st'"
    have fb: "failback st' = True" "node_nopreempt st' = {}"
      "latest_probe_tick st' = latest_probe_tick st" "failback_delay_ticks st' = failback_delay_ticks st"
      using True by (simp_all add: st' update_v2_failback_tracking_def Let_def case_prod_beta)
    obtain ticks' cs where f: "fold (recovery_step st') (sorted_list_of_set ?P) (?T, []) = (ticks', cs)"
      by (cases "fold (recovery_step st') (sorted_list_of_set ?P) (?T, [])")
    have finP: "finite ?P" using finite_pending [OF fin] by (simp add: st')
    have tick: "recovery_tick_of st' = recovery_tick_of st"
      by (simp add: recovery_tick_of_def fb fun_eq_iff split: option.split)
    then have "recovery_done st' = recovery_done st"
      by (simp add: recovery_done_def va fb fun_eq_iff)
    note rt = tick this
    have rest: "bm_get ?T i = (if v2_alive st i then Some (recovery_tick_of st ?T i) else None)"
        "\<not> recovery_done st ?T i" if "i \<in> ?P" for i
      using update_v2_failback [OF True fin, of i] that by (simp_all add: st')
    have "bm_get ticks' i = bm_get ?T i" for i
      using recovery_fold [OF f, of i] rest(1) [of i] finP by (simp add: va rt)
    then have "ticks' = ?T" by (rule bm_eqI)
    moreover have "set cs = {}" using recovery_fold [OF f] rest(2) finP by (auto simp: rt)
    ultimately show ?thesis
      unfolding update_v2_failback_tracking_def failed Let_def using f fb by (simp add: bm_remove_all_def)
  qed
qed

lemma reconcile_fold_settled:
  assumes "\<And>v. bm_get nh v = map_option holder (bm_get (rc_assignments acc) v) \<or> v \<notin> set vs" "distinct vs"
  shows "rc_generation (fold (reconcile_vip nh latest) vs acc) = rc_generation acc"
  using assms
proof (induction vs arbitrary: acc)
  case (Cons v vs)
  have "rc_generation (reconcile_vip nh latest v acc) = rc_generation acc"
  proof (rule bm_eqI)
    fix w
    have "\<not> holder_changes (bm_get nh v) (bm_get (rc_assignments acc) v)"
      using Cons.prems(1) [of v] by (auto simp: holder_changes_def)
    then show "bm_get (rc_generation (reconcile_vip nh latest v acc)) w = bm_get (rc_generation acc) w"
      by (simp add: reconcile_vip_generation)
  qed
  moreover have "bm_get nh w = map_option holder (bm_get (rc_assignments (reconcile_vip nh latest v acc)) w) \<or>
      w \<notin> set vs" for w
    using Cons.prems(1) [of w] Cons.prems(2) by (auto simp: reconcile_vip_assignments_other)
  ultimately show ?case using Cons.IH [of "reconcile_vip nh latest v acc"] Cons.prems(2) by simp
qed simp

text \<open>A second recomputation on the same inputs changes nothing: no VIP is moved twice and no
  generation is used up.\<close>

lemma reconcile_settled:
  assumes "distinct (vip_ips vips)" "bm_map holder as = nh" "dom (bm_get as) \<subseteq> set (vip_ips vips)"
    "\<And>v a. bm_get as v = Some a \<Longrightarrow> bm_get ls v = Some (holder a)"
  shows "reconcile_vip_assignments nh latest vips as gs ls = (as, gs, ls)"
proof -
  obtain as' gs' ls' where r: "reconcile_vip_assignments nh latest vips as gs ls = (as', gs', ls')"
    by (rule prod_cases3)
  have nh: "bm_get nh v = map_option holder (bm_get as v)" for v using assms(2) by auto
  have "bm_get as' v = bm_get as v \<and> bm_get ls' v = bm_get ls v" for v
  proof (cases "v \<in> set (vip_ips vips)")
    case True
    then show ?thesis
      using reconcile_get(1,3) [OF r assms(1) True] assms(4) [of v]
      by (auto simp: nh next_assignment_def recorded_holder_def split: option.splits)
  next
    case False
    then show ?thesis using reconcile_other [OF r False] assms(3) by (metis domIff subsetD)
  qed
  moreover have "bm_get gs' v = bm_get gs v" for v
    using r nh assms(1)
    by (auto simp: reconcile_vip_assignments_def Let_def reconcile_fold_settled)
  ultimately show ?thesis using r by (auto intro: bm_eqI)
qed

lemma tracked_recompute:
  assumes "distinct (vip_ips (vip_list st))" "finite (node_recovery_pending st)"
  shows "tracked (recompute st) = recompute st"
proof (cases "failover_semantics st")
  case FailoverV2
  have alive: "v2_alive st (holder a)" if "bm_get (vip_assignments (recompute st)) v = Some a" for v a
  proof -
    have "v2_alive (tracked st) = v2_alive st" by (rule v2_alive_cong) simp_all
    then show ?thesis using candidate_alive [OF recompute_holder_candidate [OF assms(1) that]] by simp
  qed
  have "recompute st = (update_v2_failback_tracking st)\<lparr>vip_assignments := vip_assignments (recompute st),
      vip_generation := vip_generation (recompute st), vip_last_holder := vip_last_holder (recompute st)\<rparr>"
    using FailoverV2 by (simp add: recompute_eq tracked_def Let_def case_prod_beta)
  then have "update_v2_failback_tracking (recompute st) = recompute st"
    by (rule update_v2_settled [OF assms(2) FailoverV2]) (rule alive)
  then show ?thesis using FailoverV2 by (simp add: tracked_def)
qed (simp add: tracked_def)

lemma recompute_tracking:
  "node_nopreempt (recompute st) = node_nopreempt (tracked st)"
  "node_failback_blocked (recompute st) = node_failback_blocked (tracked st)"
  "node_recovery_tick (recompute st) = node_recovery_tick (tracked st)"
  by (simp_all add: recompute_eq Let_def case_prod_beta)

lemma recompute_candidates:
  "candidates (recompute st) = candidates (tracked st)" "preempting (recompute st) = preempting (tracked st)"
  by (simp_all add: candidates_def preempting_def eligibility_of_def recompute_tracking
      split: failover_semantics.split)

lemma recompute_settles:
  assumes "distinct (vip_ips (vip_list st))" "finite (node_recovery_pending st)"
  shows "recompute (recompute st) = recompute st"
proof -
  let ?st = "recompute st"
  have track: "tracked ?st = ?st" by (rule tracked_recompute [OF assms])
  have holders: "bm_map holder (vip_assignments ?st) = new_holders (tracked st)"
    by (rule recompute_holders_map [OF assms(1)])
  have nh: "new_holders (tracked ?st) = new_holders (tracked st)"
    unfolding track new_holders_eq [of ?st] holders recompute_candidates
    by (simp add: new_holders_eq assign_assign [OF assms(1)])
  have "bm_get (vip_assignments ?st) v = None" if "v \<notin> set (vip_ips (vip_list st))" for v
    by (rule reconcile_other(1) [OF recompute_reconciles that])
  then have "dom (bm_get (vip_assignments ?st)) \<subseteq> set (vip_ips (vip_list st))" by (metis domIff subsetI)
  moreover have "bm_get (vip_last_holder ?st) v = Some (holder a)" if a: "bm_get (vip_assignments ?st) v = Some a" for v a
  proof -
    have v: "v \<in> set (vip_ips (vip_list st))" using a calculation by blast
    have "bm_get (new_holders (tracked st)) v = Some (holder a)"
      using recompute_holder [OF assms(1), of v] a by simp
    then show ?thesis using reconcile_get(3) [OF recompute_reconciles assms(1) v] by simp
  qed
  ultimately have "reconcile_vip_assignments (new_holders (tracked st)) (latest_probe_tick ?st) (vip_list ?st)
      (vip_assignments ?st) (vip_generation ?st) (vip_last_holder ?st) =
      (vip_assignments ?st, vip_generation ?st, vip_last_holder ?st)"
    using assms(1) holders by (intro reconcile_settled) simp_all
  then show ?thesis
    unfolding recompute_eq [of ?st] track nh [unfolded track] by (simp del: recompute_frame)
qed

end
