(* ===== verification/Log_History.thy ===== *)
theory Log_History
  imports Ownership
begin

text \<open>
  What a log of committed entries can and cannot do to the history the state machine keeps:
  genesis and epoch are set once, probe ticks follow the frontier, a boot that replaces another
  starts without health, and a learner join goes through its stages in order.
\<close>

subsection \<open>Genesis and epoch\<close>

definition epoch_ok :: "kaf_storage_state \<Rightarrow> bool" where
  "epoch_ok st = (\<forall>g. genesis st = Some g \<longrightarrow> cluster_epoch st = Some (g_epoch g))"

lemma apply_request_identity:
  assumes "apply_request req lid st = (st1, resp, r)" "epoch_ok st"
  shows "epoch_ok st1 \<and> (genesis st = Some g \<longrightarrow> genesis st1 = Some g) \<and>
         (cluster_epoch st = Some ep \<longrightarrow> cluster_epoch st1 = Some ep)"
proof (cases req)
  case (AdmissionMembership c)
  then show ?thesis
    using assms apply_admission_frame [of c lid st] by (auto simp: case_prod_beta epoch_ok_def)
next
  case (AdmissionGenesis g')
  then show ?thesis using assms by (auto simp: epoch_ok_def split: option.splits if_splits)
next
  case (HealthProgress p)
  then show ?thesis using assms by (auto simp: Let_def epoch_ok_def split: option.splits if_splits)
next
  case (VipReleased n v g)
  then show ?thesis using assms by (auto simp: epoch_ok_def split: option.splits if_splits)
qed (use assms in \<open>auto simp: Let_def epoch_ok_def split: if_splits\<close>)

lemma apply_one_identity:
  assumes "epoch_ok st"
  shows "epoch_ok (fst (apply_one e st)) \<and>
         (genesis st = Some g \<longrightarrow> genesis (fst (apply_one e st)) = Some g) \<and>
         (cluster_epoch st = Some ep \<longrightarrow> cluster_epoch (fst (apply_one e st)) = Some ep)"
proof -
  have "epoch_ok st1 \<and> (genesis st = Some g \<longrightarrow> genesis st1 = Some g) \<and>
      (cluster_epoch st = Some ep \<longrightarrow> cluster_epoch st1 = Some ep)"
    if "apply_payload (e_payload e) (e_log_id e) (st\<lparr>last_applied_log := Some (e_log_id e)\<rparr>) = (st1, resp, r)"
    for st1 resp r
    using that apply_request_identity [of _ "e_log_id e" "st\<lparr>last_applied_log := Some (e_log_id e)\<rparr>"] assms
    by (cases "e_payload e") (auto simp: epoch_ok_def)
  then show ?thesis
    by (cases rule: apply_one_cases [of e st]) (auto simp: epoch_ok_def)
qed

lemma apply_log_identity:
  assumes "epoch_ok st"
  shows "epoch_ok (apply_log es st) \<and>
         (genesis st = Some g \<longrightarrow> genesis (apply_log es st) = Some g) \<and>
         (cluster_epoch st = Some ep \<longrightarrow> cluster_epoch (apply_log es st) = Some ep)"
  using assms
proof (induction es arbitrary: st)
  case (Cons e es)
  show ?case
    using Cons.IH [of "fst (apply_one e st)"] apply_one_identity [OF Cons.prems, of e g ep] by auto
qed simp

subsection \<open>Probe ticks\<close>

definition ticks_ok :: "kaf_storage_state \<Rightarrow> bool" where
  "ticks_ok st = (\<forall>n t. bm_get (node_probe_ticks st) n = Some t \<longrightarrow> t \<le> latest_probe_tick st)"

lemma next_probe_tick_ge: "latest \<le> next_probe_tick prev latest"
  by (simp add: next_probe_tick_def)

lemma apply_health_ticks:
  "latest_probe_tick (apply_health n h st) =
     next_probe_tick (bm_get (node_probe_ticks st) n) (latest_probe_tick st)"
  "bm_get (node_probe_ticks (apply_health n h st)) m =
     (if m = n then Some (latest_probe_tick (apply_health n h st)) else bm_get (node_probe_ticks st) m)"
  "bm_get (node_health (apply_health n h st)) m =
     (if m = n then Some h else bm_get (node_health st) m)"
  by (simp_all add: apply_health_def Let_def)

lemma apply_health_ticks_ok:
  assumes "ticks_ok st"
  shows "ticks_ok (apply_health n h st)" "latest_probe_tick st \<le> latest_probe_tick (apply_health n h st)"
  using assms next_probe_tick_ge [of "latest_probe_tick st" "bm_get (node_probe_ticks st) n"]
  by (auto simp: ticks_ok_def apply_health_ticks intro: order_trans)

text \<open>A membership entry forgets exactly the nodes whose boot changes.\<close>

definition boot_changes :: "membership \<Rightarrow> kaf_storage_state \<Rightarrow> u64 \<Rightarrow> bool" where
  "boot_changes m st i =
     (genesis st \<noteq> None \<and>
      bm_get (unique_voters (sm_membership (last_membership st))) i \<noteq> bm_get (unique_voters m) i)"

lemma drop_changed_get:
  "bm_get (node_health (fold (drop_changed_boot b a) is st)) n =
     (if genesis st \<noteq> None \<and> n \<in> set is \<and> bm_get b n \<noteq> bm_get a n then None else bm_get (node_health st) n)"
  "bm_get (node_probe_ticks (fold (drop_changed_boot b a) is st)) n =
     (if genesis st \<noteq> None \<and> n \<in> set is \<and> bm_get b n \<noteq> bm_get a n then None else bm_get (node_probe_ticks st) n)"
  by (induction "is" arbitrary: st) (auto simp: drop_changed_boot_def)

lemma apply_membership_health:
  "bm_get (node_health (apply_membership m lid st)) i =
     (if boot_changes m st i then None else bm_get (node_health st) i)"
  "bm_get (node_probe_ticks (apply_membership m lid st)) i =
     (if boot_changes m st i then None else bm_get (node_probe_ticks st) i)"
proof -
  have "i \<in> dom (bm_get (unique_voters (sm_membership (last_membership st)))) \<union> dom (bm_get (unique_voters m))"
    if "boot_changes m st i"
    using that by (auto simp: boot_changes_def domIff)
  then show "bm_get (node_health (apply_membership m lid st)) i =
      (if boot_changes m st i then None else bm_get (node_health st) i)"
    "bm_get (node_probe_ticks (apply_membership m lid st)) i =
      (if boot_changes m st i then None else bm_get (node_probe_ticks st) i)"
    by (auto simp: apply_membership_def complete_join_def Let_def drop_changed_get set_bm_keys
        boot_changes_def split: option.split)
qed

lemma ticks_ok_membership: "ticks_ok st \<Longrightarrow> ticks_ok (apply_membership m lid st)"
  by (auto simp: ticks_ok_def apply_membership_health)

lemma apply_payload_ticks:
  assumes "ticks_ok st"
  shows "ticks_ok (fst (apply_payload pl lid st)) \<and>
         latest_probe_tick st \<le> latest_probe_tick (fst (apply_payload pl lid st))"
proof -
  have frame: "ticks_ok (activate_v2 s) = ticks_ok s" "ticks_ok (s\<lparr>vip_assignments := as\<rparr>) = ticks_ok s"
    "ticks_ok (s\<lparr>applied_progress := p\<rparr>) = ticks_ok s" "ticks_ok (s\<lparr>config_identity_enforced := b\<rparr>) = ticks_ok s"
    "ticks_ok (s\<lparr>genesis := g\<rparr>) = ticks_ok s" "ticks_ok (s\<lparr>cluster_epoch := ep\<rparr>) = ticks_ok s"
    "ticks_ok (s\<lparr>prepared_join := pj\<rparr>) = ticks_ok s"
    for s as p b g ep pj by (simp_all add: ticks_ok_def activate_v2_def Let_def)
  have adm: "ticks_ok (fst (apply_admission_membership c lid st))" for c
    using assms by (cases c) (simp_all add: Let_def frame split: option.split)
  have health: "ticks_ok (apply_health n h (st\<lparr>applied_progress := p\<rparr>)) \<and>
      latest_probe_tick st \<le> latest_probe_tick (apply_health n h (st\<lparr>applied_progress := p\<rparr>))" for n h p
    using apply_health_ticks_ok [of "st\<lparr>applied_progress := p\<rparr>"] assms by (simp add: frame)
  have cleared: "ticks_ok (s\<lparr>node_probe_ticks := bm_empty\<rparr>)" for s by (simp add: ticks_ok_def)
  show ?thesis
  proof (cases pl)
    case (Normal req)
    then show ?thesis
    proof (cases req)
      case (AdmissionMembership c)
      then show ?thesis using Normal adm by (simp add: case_prod_beta)
    next
      case (AdmissionGenesis g)
      then show ?thesis using Normal assms by (simp add: frame) (simp add: ticks_ok_def)
    next
      case (HealthProgress p)
      then show ?thesis using Normal assms health by (simp add: Let_def frame split: option.split)
    next
      case (HealthUpdate n h)
      then show ?thesis using Normal assms by (simp add: apply_health_ticks_ok)
    next
      case (VipReleased n v g)
      then show ?thesis using Normal assms by (simp add: frame split: option.split)
    qed (use Normal assms in \<open>simp_all add: frame Let_def\<close>)
  qed (use assms in \<open>simp_all add: ticks_ok_membership\<close>)
qed

lemma apply_one_ticks:
  assumes "ticks_ok st"
  shows "ticks_ok (fst (apply_one e st)) \<and> latest_probe_tick st \<le> latest_probe_tick (fst (apply_one e st))"
proof -
  let ?st = "st\<lparr>last_applied_log := Some (e_log_id e)\<rparr>"
  have "ticks_ok ?st" using assms by (simp add: ticks_ok_def)
  then have "ticks_ok (fst (apply_payload (e_payload e) (e_log_id e) ?st)) \<and>
      latest_probe_tick st \<le> latest_probe_tick (fst (apply_payload (e_payload e) (e_log_id e) ?st))"
    using apply_payload_ticks [of ?st] by simp
  then show ?thesis
    by (cases rule: apply_one_cases [of e st]) (simp_all add: ticks_ok_def)
qed

lemma apply_log_ticks:
  "ticks_ok st \<Longrightarrow> ticks_ok (apply_log es st) \<and> latest_probe_tick st \<le> latest_probe_tick (apply_log es st)"
proof (induction es arbitrary: st)
  case (Cons e es)
  then show ?case using apply_one_ticks [OF Cons.prems, of e] order_trans by auto
qed simp

text \<open>A node that keeps publishing moves the frontier, so a silent node falls behind it.\<close>

definition publish :: "u64 \<Rightarrow> bool list \<Rightarrow> kaf_storage_state \<Rightarrow> kaf_storage_state" where
  "publish m hs st = fold (apply_health m) hs st"

lemma publish_other:
  "n \<noteq> m \<Longrightarrow> bm_get (node_probe_ticks (publish m hs st)) n = bm_get (node_probe_ticks st) n"
  unfolding publish_def by (induction hs arbitrary: st) (simp_all add: apply_health_ticks)

lemma publish_at_frontier:
  assumes "bm_get (node_probe_ticks st) m = Some (latest_probe_tick st)"
  shows "unat (latest_probe_tick (publish m hs st)) = min (unat (latest_probe_tick st) + length hs) (2 ^ 64 - 1)"
  using assms
proof (induction hs arbitrary: st)
  case Nil
  then show ?case
    using unsigned_less [of "latest_probe_tick st", where ?'a = nat] by (simp add: publish_def)
next
  case (Cons h hs)
  let ?st = "apply_health m h st"
  have latest: "latest_probe_tick ?st = sat_add (latest_probe_tick st) 1"
    using Cons.prems sat_add_ge1 [of "latest_probe_tick st" 1]
    by (simp add: apply_health_ticks next_probe_tick_def max_absorb1)
  have "bm_get (node_probe_ticks ?st) m = Some (latest_probe_tick ?st)"
    by (simp add: apply_health_ticks(2))
  then have "unat (latest_probe_tick (publish m hs ?st)) = min (unat (latest_probe_tick ?st) + length hs) (2 ^ 64 - 1)"
    by (rule Cons.IH)
  then show ?case by (simp add: publish_def latest unat_sat_add)
qed

lemma publish_frontier:
  assumes "ticks_ok st"
  shows "min (unat (latest_probe_tick st) + length hs) (2 ^ 64 - 1)
         \<le> unat (latest_probe_tick (publish m (h # hs) st))"
proof -
  let ?st = "apply_health m h st"
  have "unat (latest_probe_tick (publish m hs ?st)) = min (unat (latest_probe_tick ?st) + length hs) (2 ^ 64 - 1)"
    by (rule publish_at_frontier) (simp add: apply_health_ticks(2))
  moreover have "unat (latest_probe_tick st) \<le> unat (latest_probe_tick ?st)"
    using apply_health_ticks_ok(2) [OF assms, of m h] by (simp add: word_le_nat_alt)
  ultimately show ?thesis by (simp add: publish_def)
qed

lemma silent_node_stale:
  assumes "ticks_ok st" "n \<noteq> m" "unat (stale_missed_probes st) + 2 \<le> length hs"
    "unat (latest_probe_tick st) + length hs \<le> 2 ^ 64"
  shows "\<not> is_node_probe_fresh n (node_probe_ticks (publish m hs st))
           (latest_probe_tick (publish m hs st)) (stale_missed_probes st)"
proof (cases "bm_get (node_probe_ticks st) n")
  case None
  then show ?thesis by (simp add: is_node_probe_fresh_def publish_other [OF assms(2)])
next
  case (Some t)
  obtain h hs' where hs: "hs = h # hs'" using assms(3) by (cases hs) auto
  have "unat t \<le> unat (latest_probe_tick st)" using assms(1) Some by (simp add: ticks_ok_def word_le_nat_alt)
  moreover have "unat (latest_probe_tick st) + length hs' \<le> unat (latest_probe_tick (publish m hs st))"
    using publish_frontier [OF assms(1), of hs' m h] assms(4) by (simp add: hs)
  ultimately have "unat (stale_missed_probes st) < unat (sat_sub (latest_probe_tick (publish m hs st)) t)"
    using assms(3) by (simp add: unat_sat_sub hs)
  then show ?thesis
    using Some by (simp add: is_node_probe_fresh_def publish_other [OF assms(2)] not_le word_less_nat_alt)
qed

subsection \<open>Learner joins\<close>

text \<open>A pending join is a valid exact replacement under the immutable genesis; an acknowledged one
  was acknowledged after it was prepared; a completed one was promoted after that.\<close>

definition join_pending_ok :: "kaf_storage_state \<Rightarrow> prepared_join \<Rightarrow> bool" where
  "join_pending_ok st pj =
     (is_ok (validate_plan (pj_plan pj)) \<and> genesis st = Some (jp_genesis (pj_plan pj)) \<and>
      (\<forall>ack. pj_learner_applied pj = Some ack \<longrightarrow> index (pj_prepared pj) < index ack))"

definition join_done_ok :: "kaf_storage_state \<Rightarrow> u64 \<Rightarrow> completed_join \<Rightarrow> bool" where
  "join_done_ok st i cj =
     (join_pending_ok st (cj_prepared cj) \<and> i = physical_id (jp_consumer (pj_plan (cj_prepared cj))) \<and>
      (\<exists>ack. pj_learner_applied (cj_prepared cj) = Some ack \<and> index ack < index (cj_promoted cj)))"

definition joins_ok :: "kaf_storage_state \<Rightarrow> bool" where
  "joins_ok st =
     ((\<forall>pj. prepared_join st = Some pj \<longrightarrow> join_pending_ok st pj) \<and>
      (\<forall>i cj. bm_get (completed_joins st) i = Some cj \<longrightarrow> join_done_ok st i cj))"

lemma joins_ok_cong:
  "prepared_join a = prepared_join b \<Longrightarrow> completed_joins a = completed_joins b \<Longrightarrow> genesis a = genesis b \<Longrightarrow>
   joins_ok a = joins_ok b"
  by (simp add: joins_ok_def join_pending_ok_def join_done_ok_def)

lemma joins_ok_admission:
  assumes "joins_ok st"
  shows "joins_ok (fst (apply_admission_membership c lid st))"
proof (cases c)
  case (PrepareJoin plan)
  then show ?thesis
    using assms by (auto simp: Let_def joins_ok_def join_pending_ok_def join_done_ok_def split: option.split)
next
  case (CancelJoin plan prepared)
  then show ?thesis
    using assms by (auto simp: Let_def joins_ok_def join_pending_ok_def join_done_ok_def split: option.split)
next
  case (LearnerApplied consumer nonce prepared)
  then show ?thesis
    using assms by (auto simp: Let_def joins_ok_def join_pending_ok_def join_done_ok_def split: option.split)
qed

lemma drop_changed_joins:
  "prepared_join (fold (drop_changed_boot b a) is st) = prepared_join st"
  "completed_joins (fold (drop_changed_boot b a) is st) = completed_joins st"
  by (induction "is" arbitrary: st) (simp_all add: drop_changed_boot_def)

lemma joins_ok_membership:
  assumes "joins_ok st"
  shows "joins_ok (apply_membership m lid st)"
proof -
  let ?b = "unique_voters (sm_membership (last_membership st))" and ?a = "unique_voters m"
  let ?st = "fold (drop_changed_boot ?b ?a) (sorted_list_of_set (set (bm_keys ?b) \<union> set (bm_keys ?a))) st"
  let ?st2 = "?st\<lparr>applied_progress := bm_retain (\<lambda>_ progress. hp_replica (ap_request progress) \<in> set (nodes m))
                        (applied_progress ?st)\<rparr>"
  have "joins_ok ?st2 = joins_ok st"
    by (rule joins_ok_cong) (simp_all add: drop_changed_joins drop_changed_frame)
  then have "joins_ok (complete_join m lid ?st2)"
    using assms by (auto simp: complete_join_def joins_ok_def join_pending_ok_def join_done_ok_def
        split: option.splits)
  moreover have "joins_ok (apply_membership m lid st) = joins_ok (complete_join m lid ?st2)"
    by (rule joins_ok_cong) (simp_all add: apply_membership_def Let_def)
  ultimately show ?thesis by simp
qed

lemma joins_ok_genesis:
  "joins_ok st \<Longrightarrow> genesis st \<in> {None, Some g} \<Longrightarrow> joins_ok (st\<lparr>genesis := Some g\<rparr>)"
  by (auto simp: joins_ok_def join_pending_ok_def join_done_ok_def)

lemma joins_frame:
  "prepared_join (activate_v2 st) = prepared_join st" "completed_joins (activate_v2 st) = completed_joins st"
  "prepared_join (apply_health n h st) = prepared_join st"
  "completed_joins (apply_health n h st) = completed_joins st"
  "prepared_join (tracked st) = prepared_join st" "completed_joins (tracked st) = completed_joins st"
  "prepared_join (recompute st) = prepared_join st" "completed_joins (recompute st) = completed_joins st"
  by (simp_all add: activate_v2_def apply_health_def tracked_def update_v2_failback_tracking_def recompute_eq
      Let_def case_prod_beta)

lemma joins_ok_request:
  assumes "joins_ok st"
  shows "joins_ok (fst (apply_request req lid st))"
proof (cases req)
  case (AdmissionMembership c)
  then show ?thesis using joins_ok_admission [OF assms] by (simp add: case_prod_beta)
next
  case (AdmissionGenesis g)
  let ?ok = "\<lambda>st'. prepared_join st' = prepared_join st \<and> completed_joins st' = completed_joins st \<and>
      (genesis st' = genesis st \<or> genesis st = None \<and> genesis st' = Some g)"
  have "?ok (fst (apply_request req lid st))"
    using AdmissionGenesis by (auto simp: joins_frame split: option.splits)
  then show ?thesis using assms by (auto simp: joins_ok_def join_pending_ok_def join_done_ok_def)
next
  case (HealthProgress p)
  have "joins_ok (fst (apply_request req lid st)) = joins_ok st"
    using HealthProgress by (intro joins_ok_cong) (simp_all add: joins_frame Let_def split: option.split)
  then show ?thesis using assms by simp
next
  case (VipReleased n v g)
  have "joins_ok (fst (apply_request req lid st)) = joins_ok st"
    using VipReleased by (intro joins_ok_cong) (simp_all split: option.split)
  then show ?thesis using assms by simp
next
  case (HealthUpdate n h)
  have "joins_ok (fst (apply_request req lid st)) = joins_ok st"
    using HealthUpdate by (intro joins_ok_cong) (simp_all add: joins_frame)
  then show ?thesis using assms by simp
next
  case (ClusterFormed i sem enf)
  have "joins_ok (fst (apply_request req lid st)) = joins_ok st"
    using ClusterFormed by (intro joins_ok_cong) (simp_all add: joins_frame Let_def)
  then show ?thesis using assms by simp
next
  case EnableFailoverSemanticsV2
  have "joins_ok (fst (apply_request req lid st)) = joins_ok st"
    using EnableFailoverSemanticsV2 by (intro joins_ok_cong) (simp_all add: joins_frame)
  then show ?thesis using assms by simp
next
  case EnableConfigIdentityV1
  have "joins_ok (fst (apply_request req lid st)) = joins_ok st"
    using EnableConfigIdentityV1 by (intro joins_ok_cong) simp_all
  then show ?thesis using assms by simp
qed

lemma joins_ok_one:
  assumes "joins_ok st"
  shows "joins_ok (fst (apply_one e st))"
proof -
  let ?st = "st\<lparr>last_applied_log := Some (e_log_id e)\<rparr>"
  have "joins_ok ?st = joins_ok st" by (rule joins_ok_cong) simp_all
  then have "joins_ok (fst (apply_payload (e_payload e) (e_log_id e) ?st))"
    using assms
    by (cases "e_payload e")
       (simp_all add: joins_ok_request joins_ok_membership del: apply_request.simps)
  moreover have "joins_ok (recompute s) = joins_ok s" for s
    by (rule joins_ok_cong) (simp_all add: joins_frame)
  ultimately show ?thesis by (cases rule: apply_one_cases [of e st]) simp_all
qed

lemma joins_ok_log: "joins_ok st \<Longrightarrow> joins_ok (apply_log es st)"
  by (erule apply_log_invariant) (rule joins_ok_one)

lemma joins_ok_new: "joins_ok (new_storage vips stale fb delay)"
  by (simp add: joins_ok_def new_storage_def)

lemma ticks_ok_new: "ticks_ok (new_storage vips stale fb delay)"
  by (simp add: ticks_ok_def new_storage_def)

lemma epoch_ok_new: "epoch_ok (new_storage vips stale fb delay)"
  by (simp add: epoch_ok_def new_storage_def)

text \<open>A boot that takes the place of another holds nothing after the entry that admits it.\<close>

lemma changed_boot_holds_nothing:
  assumes "distinct (vip_ips (vip_list st))" "boot_changes m st i" "e_payload e = MembershipEntry m"
    "bm_get (vip_assignments (fst (apply_one e st))) v = Some a"
  shows "holder a \<noteq> i"
proof
  assume i: "holder a = i"
  let ?st = "apply_membership m (e_log_id e) (st\<lparr>last_applied_log := Some (e_log_id e)\<rparr>)"
  have one: "fst (apply_one e st) = recompute ?st" using assms(3) by (simp add: apply_one_def)
  have vl: "vip_list ?st = vip_list st"
    using same_config_membership [of m "e_log_id e" "st\<lparr>last_applied_log := Some (e_log_id e)\<rparr>"]
    by (simp add: same_config_def)
  have "holder a \<in> set (candidates (tracked ?st))"
    using recompute_holder_candidate [of ?st v a] assms(1,4) one vl by simp
  then have "v2_alive (tracked ?st) i" using candidate_alive i by blast
  moreover have "bm_get (node_health ?st) i = None"
    using assms(2) by (simp add: apply_membership_health boot_changes_def)
  ultimately show False by (simp add: v2_alive_def is_node_base_eligible_def)
qed

lemma applied_frame:
  "last_applied_log (tracked st) = last_applied_log st" "last_applied_log (recompute st) = last_applied_log st"
  "last_applied_log (fold (drop_changed_boot before after) is st) = last_applied_log st"
proof -
  show "last_applied_log (tracked st) = last_applied_log st" "last_applied_log (recompute st) = last_applied_log st"
    by (simp_all add: tracked_def update_v2_failback_tracking_def recompute_eq Let_def case_prod_beta)
  show "last_applied_log (fold (drop_changed_boot before after) is st) = last_applied_log st"
    by (induction "is" arbitrary: st) (simp_all add: drop_changed_boot_def)
qed

text \<open>The fields that a join goes through, entry by entry.\<close>

lemma join_fields:
  "\<lbrakk>e_payload e = Normal (AdmissionMembership c);
    apply_admission_membership c (e_log_id e) (st\<lparr>last_applied_log := Some (e_log_id e)\<rparr>) = (st', r)\<rbrakk> \<Longrightarrow>
   fst (apply_one e st) = st'"
  "e_payload e = MembershipEntry m \<Longrightarrow>
   genesis (fst (apply_one e st)) = genesis st \<and>
   last_membership (fst (apply_one e st)) = \<lparr>sm_log_id = Some (e_log_id e), sm_membership = m\<rparr> \<and>
   prepared_join (fst (apply_one e st)) = prepared_join (complete_join m (e_log_id e) st) \<and>
   completed_joins (fst (apply_one e st)) = completed_joins (complete_join m (e_log_id e) st) \<and>
   last_applied_log (fst (apply_one e st)) = Some (e_log_id e)"
  by (simp_all add: apply_one_def joins_frame applied_frame apply_membership_def complete_join_def Let_def
      drop_changed_joins drop_changed_frame split: option.split)

end
