(* ===== verification/Log_Store.thy ===== *)
theory Log_Store
  imports Log_History
begin

text \<open>
  The log half of the store (\<open>src/raft/store/log.rs\<close>): reading ranges of entries, the vote and the
  committed frontier, appending, truncating and purging, with the guards that keep the purge floor
  and the entries of a diskless log consistent.

  \<open>BTreeMap::range\<close> panics on an inverted range, as its documentation says; a panic is the value
  \<open>None\<close>. Additions are those of a release build, where \<open>index + 1\<close> wraps.
\<close>

subsection \<open>Reading\<close>

datatype bound = Included u64 | Excluded u64 | Unbounded

fun above :: "bound \<Rightarrow> u64 \<Rightarrow> bool" where
  "above (Included s) k = (s \<le> k)"
| "above (Excluded s) k = (s < k)"
| "above Unbounded k = True"

fun below :: "bound \<Rightarrow> u64 \<Rightarrow> bool" where
  "below (Included e) k = (k \<le> e)"
| "below (Excluded e) k = (k < e)"
| "below Unbounded k = True"

text \<open>The two documented panics of \<open>BTreeMap::range\<close>: a start above the end, and an excluded start
  equal to an excluded end. This is the documented contract, for every map; the current implementation returns
  no entries instead of panicking for a map that never held an entry.\<close>

fun range_panics :: "bound \<Rightarrow> bound \<Rightarrow> bool" where
  "range_panics (Included s) (Included e) = (e < s)"
| "range_panics (Included s) (Excluded e) = (e < s)"
| "range_panics (Excluded s) (Included e) = (e < s)"
| "range_panics (Excluded s) (Excluded e) = (e \<le> s)"
| "range_panics _ _ = False"

definition bm_range :: "bound \<Rightarrow> bound \<Rightarrow> (u64, 'v) btree_map \<Rightarrow> (u64 \<times> 'v) list option" where
  "bm_range lo hi m =
     (if range_panics lo hi then None
      else Some (filter (\<lambda>(k, _). above lo k \<and> below hi k) (entries m)))"

definition try_get_log_entries :: "bound \<Rightarrow> bound \<Rightarrow> kaf_storage_state \<Rightarrow> log_entry list option" where
  "try_get_log_entries lo hi st =
     (let start = (case lo of Included i \<Rightarrow> Some i | Excluded i \<Rightarrow> chk_add i 1 | Unbounded \<Rightarrow> None);
          stop = (case hi of Included i \<Rightarrow> Some i | Excluded i \<Rightarrow> chk_sub i 1 | Unbounded \<Rightarrow> None)
      in if (case (start, stop) of (Some s, Some e) \<Rightarrow> e < s | _ \<Rightarrow> False) then Some []
         else map_option (map snd) (bm_range lo hi (log st)))"

definition read_vote :: "kaf_storage_state \<Rightarrow> raft_vote option" where
  "read_vote st = vote st"

definition log_tail :: "kaf_storage_state \<Rightarrow> log_id option" where
  "log_tail st = (if entries (log st) = [] then None else Some (e_log_id (snd (last (entries (log st))))))"

text \<open>The comparison \<open>best.map(index).unwrap_or(0) < l.index() || best.is_none()\<close>.\<close>

definition raises :: "log_id option \<Rightarrow> log_id \<Rightarrow> bool" where
  "raises best l = ((case best of None \<Rightarrow> 0 | Some b \<Rightarrow> index b) < index l \<or> best = None)"

definition read_committed :: "kaf_storage_state \<Rightarrow> log_id option" where
  "read_committed st =
     (let best = (case last_applied_log st of
                    None \<Rightarrow> committed st
                  | Some applied \<Rightarrow> if raises (committed st) applied then Some applied else committed st)
      in case last_purged_log_id st of
           None \<Rightarrow> best
         | Some purged \<Rightarrow>
             let log_covers_floor =
                   (case log_tail st of None \<Rightarrow> False | Some t \<Rightarrow> index purged \<le> index t)
             in if log_covers_floor \<and> raises best purged then Some purged else best)"

record log_state =
  ls_last_purged_log_id :: "log_id option"
  ls_last_log_id :: "log_id option"

definition get_log_state :: "kaf_storage_state \<Rightarrow> log_state" where
  "get_log_state st =
     \<lparr>ls_last_purged_log_id =
        (case last_purged_log_id st of
           Some p \<Rightarrow> Some p
         | None \<Rightarrow>
             (case entries (log st) of
                [] \<Rightarrow> None
              | (idx, e) # _ \<Rightarrow>
                  if 1 < idx
                  then Some \<lparr>committed_leader_id = committed_leader_id (e_log_id e), index = idx - 1\<rparr>
                  else None)),
      ls_last_log_id = log_tail st\<rparr>"

subsection \<open>Writing\<close>

definition save_vote :: "fence_view \<Rightarrow> raft_vote \<Rightarrow> kaf_storage_state \<Rightarrow> kaf_storage_state \<times> unit io" where
  "save_vote fv v st =
     (case check_mutation fv st of Inl e \<Rightarrow> (st, Inl e) | Inr _ \<Rightarrow> (st\<lparr>vote := Some v\<rparr>, Inr ()))"

definition save_committed ::
  "fence_view \<Rightarrow> log_id option \<Rightarrow> kaf_storage_state \<Rightarrow> kaf_storage_state \<times> unit io" where
  "save_committed fv c st =
     (case check_mutation fv st of Inl e \<Rightarrow> (st, Inl e) | Inr _ \<Rightarrow> (st\<lparr>committed := c\<rparr>, Inr ()))"

text \<open>One entry of an append, past the admission check. \<open>purged\<close> is the floor read at the start.\<close>

definition append_entry :: "u64 option \<Rightarrow> log_entry \<Rightarrow> kaf_storage_state \<Rightarrow> kaf_storage_state" where
  "append_entry purged entry st =
     (if (case purged of None \<Rightarrow> False | Some p \<Rightarrow> index (e_log_id entry) \<le> p) then st
      else let st1 = (if last_purged_log_id st = None \<and> log st = bm_empty \<and> 1 < index (e_log_id entry)
                      then st\<lparr>last_purged_log_id :=
                                Some \<lparr>committed_leader_id = committed_leader_id (e_log_id entry),
                                      index = index (e_log_id entry) - 1\<rparr>\<rparr>
                      else st)
           in st1\<lparr>log := bm_insert (index (e_log_id entry)) entry (log st1)\<rparr>)"

fun append_loop ::
  "u64 option \<Rightarrow> (fence_view \<times> log_entry) list \<Rightarrow> kaf_storage_state \<Rightarrow> kaf_storage_state \<times> unit io" where
  "append_loop purged [] st = (st, Inr ())"
| "append_loop purged ((fv, entry) # rest) st =
     (case check_mutation fv st of
        Inl e \<Rightarrow> (st, Inl e)
      | Inr _ \<Rightarrow> append_loop purged rest (append_entry purged entry st))"

text \<open>The result goes to the flush callback and to the caller.\<close>

definition append_entries ::
  "fence_view \<Rightarrow> (fence_view \<times> log_entry) list \<Rightarrow> kaf_storage_state \<Rightarrow>
   kaf_storage_state \<times> unit io \<times> unit io" where
  "append_entries fv items st =
     (let (st', result) =
            (case check_mutation fv st of
               Inl e \<Rightarrow> (st, Inl e)
             | Inr _ \<Rightarrow> append_loop (map_option index (last_purged_log_id st)) items st)
      in (st', result, result))"

definition truncate_after ::
  "fence_view \<Rightarrow> log_id option \<Rightarrow> kaf_storage_state \<Rightarrow> kaf_storage_state \<times> unit io" where
  "truncate_after fv last_log_id st =
     (let start = (case last_log_id of None \<Rightarrow> 0 | Some l \<Rightarrow> index l + 1);
          rm = filter (\<lambda>k. start \<le> k) (bm_keys (log st))
      in case check_mutation fv st of
           Inl e \<Rightarrow> (st, Inl e)
         | Inr _ \<Rightarrow>
             (let st1 = st\<lparr>log := bm_remove_all rm (log st)\<rparr>;
                  kept_upto = map_option index last_log_id
              in (if opt_less kept_upto (map_option index (last_purged_log_id st1))
                  then st1\<lparr>last_purged_log_id := last_log_id\<rparr> else st1, Inr ())))"

definition purge :: "fence_view \<Rightarrow> log_id \<Rightarrow> kaf_storage_state \<Rightarrow> kaf_storage_state \<times> unit io" where
  "purge fv lid st =
     (let rm = filter (\<lambda>k. k \<le> index lid) (bm_keys (log st))
      in case check_mutation fv st of
           Inl e \<Rightarrow> (st, Inl e)
         | Inr _ \<Rightarrow>
             (let st1 = st\<lparr>log := bm_remove_all rm (log st)\<rparr>
              in (if opt_less (map_option index (last_purged_log_id st1)) (Some (index lid))
                  then st1\<lparr>last_purged_log_id := Some lid\<rparr> else st1, Inr ())))"

subsection \<open>Range reads\<close>

definition start_of :: "bound \<Rightarrow> u64 option" where
  "start_of lo = (case lo of Included i \<Rightarrow> Some i | Excluded i \<Rightarrow> chk_add i 1 | Unbounded \<Rightarrow> None)"

definition stop_of :: "bound \<Rightarrow> u64 option" where
  "stop_of hi = (case hi of Included i \<Rightarrow> Some i | Excluded i \<Rightarrow> chk_sub i 1 | Unbounded \<Rightarrow> None)"

lemma start_of_above: "start_of lo = Some s \<Longrightarrow> above lo k \<longleftrightarrow> s \<le> k"
  by (cases lo) (auto simp: start_of_def word_le_nat_alt word_less_nat_alt dest!: unat_chk_add)

lemma stop_of_below: "stop_of hi = Some e \<Longrightarrow> below hi k \<longleftrightarrow> k \<le> e"
proof (cases hi)
  case (Excluded i)
  assume "stop_of hi = Some e"
  then have "unat e = unat i - 1" "1 \<le> unat i"
    using Excluded unat_chk_sub [of i 1 e] by (auto simp: stop_of_def word_le_nat_alt)
  then show ?thesis by (auto simp: Excluded word_le_nat_alt word_less_nat_alt)
qed (auto simp: stop_of_def)

lemma try_get_eq:
  "try_get_log_entries lo hi st =
     (if \<exists>s e. start_of lo = Some s \<and> stop_of hi = Some e \<and> e < s then Some []
      else map_option (map snd) (bm_range lo hi (log st)))"
  by (auto simp: try_get_log_entries_def start_of_def [symmetric] stop_of_def [symmetric] Let_def
      split: option.split)

lemma try_get_log_entries_result:
  assumes "try_get_log_entries lo hi st = Some es"
  shows "es = map snd (filter (\<lambda>(k, _). above lo k \<and> below hi k) (entries (log st)))"
proof (cases "\<exists>s e. start_of lo = Some s \<and> stop_of hi = Some e \<and> e < s")
  case True
  then have "\<not> (above lo k \<and> below hi k)" for k
    using start_of_above stop_of_below by fastforce
  then show ?thesis using assms True by (auto simp: try_get_eq filter_empty_conv)
next
  case False
  then show ?thesis using assms by (auto simp: try_get_eq bm_range_def split: if_splits)
qed

text \<open>The ranges that pass the guard and still panic.\<close>

fun unguarded :: "bound \<Rightarrow> bound \<Rightarrow> bool" where
  "unguarded (Included s) (Excluded e) = (e = 0 \<and> 0 < s)"
| "unguarded (Excluded s) (Excluded e) = (e = 0 \<or> s = - 1)"
| "unguarded (Excluded s) (Included e) = (s = - 1 \<and> e \<noteq> - 1)"
| "unguarded _ _ = False"

lemma chk_add_one_None: "chk_add s 1 = None \<longleftrightarrow> s = - 1" for s :: u64
  using unsigned_less [of s, where ?'a = nat]
  by (auto simp: chk_add_def word_unat_eq_iff split: if_splits)

lemma chk_sub_one_None: "chk_sub e 1 = None \<longleftrightarrow> e = 0" for e :: u64
  by (auto simp: chk_sub_def word_le_nat_alt unat_eq_0 Suc_le_eq unat_gt_0)

lemma word_not_less_zero [simp]: "\<not> (s :: u64) < 0"
  by (simp add: word_less_nat_alt)

lemma word_le_max [simp]: "(s :: u64) \<le> - 1"
  by (simp add: word_order.extremum)

lemma chk_sub_one_Some:
  fixes b :: u64
  assumes "b \<noteq> 0"
  obtains c where "chk_sub b 1 = Some c" "unat c = unat b - 1" "1 \<le> unat b"
proof -
  obtain c where c: "chk_sub b 1 = Some c" using assms chk_sub_one_None by fastforce
  then show thesis using that unat_chk_sub [OF c] by (simp add: word_le_nat_alt)
qed

lemma chk_add_one_Some:
  fixes a :: u64
  assumes "a \<noteq> - 1"
  obtains c where "chk_add a 1 = Some c" "unat c = unat a + 1"
proof -
  obtain c where c: "chk_add a 1 = Some c" using assms chk_add_one_None by fastforce
  then show thesis using that unat_chk_add [OF c] by simp
qed

lemma range_panic_guarded:
  assumes "range_panics lo hi" "\<not> unguarded lo hi"
  shows "\<exists>s e. start_of lo = Some s \<and> stop_of hi = Some e \<and> e < s"
proof (cases hi)
  case hi: (Excluded e)
  show ?thesis
  proof (cases lo)
    case (Included s)
    then have e: "e < s" "e \<noteq> 0" using assms hi by (auto simp: word_gt_0)
    obtain c where c: "chk_sub e 1 = Some c" "unat c = unat e - 1" "1 \<le> unat e"
      using chk_sub_one_Some [OF e(2)] by blast
    then have "c < s" using e(1) by (simp add: word_less_nat_alt)
    then show ?thesis using c(1) hi Included by (simp add: start_of_def stop_of_def)
  next
    case (Excluded s)
    then have e: "e \<le> s" "e \<noteq> 0" "s \<noteq> - 1" using assms hi by auto
    obtain c where c: "chk_sub e 1 = Some c" "unat c = unat e - 1" "1 \<le> unat e"
      using chk_sub_one_Some [OF e(2)] by blast
    obtain d where d: "chk_add s 1 = Some d" "unat d = unat s + 1"
      using chk_add_one_Some [OF e(3)] by blast
    have "c < d" using c d e(1) by (simp add: word_less_nat_alt word_le_nat_alt)
    then show ?thesis using c(1) d(1) hi Excluded by (simp add: start_of_def stop_of_def)
  qed (use assms hi in simp)
next
  case hi: (Included e)
  show ?thesis
  proof (cases lo)
    case (Included s)
    then show ?thesis using assms hi by (simp add: start_of_def stop_of_def)
  next
    case (Excluded s)
    then have e: "e < s" "s \<noteq> - 1" using assms hi by auto
    obtain d where d: "chk_add s 1 = Some d" "unat d = unat s + 1"
      using chk_add_one_Some [OF e(2)] by blast
    have "e < d" using d e(1) by (simp add: word_less_nat_alt)
    then show ?thesis using d(1) hi Excluded by (simp add: start_of_def stop_of_def)
  qed (use assms hi in simp)
qed (use assms in \<open>cases lo; simp\<close>)

lemma unguarded_panics:
  assumes "unguarded lo hi"
  shows "range_panics lo hi \<and> \<not> (\<exists>s e. start_of lo = Some s \<and> stop_of hi = Some e \<and> e < s)"
proof -
  have "chk_sub (0 :: u64) 1 = None" "chk_add (- 1 :: u64) 1 = None"
    by (simp_all add: chk_sub_one_None chk_add_one_None)
  moreover have "e < - 1" if "e \<noteq> - 1" for e :: u64
    using that by (simp add: word_order.not_eq_extremum)
  ultimately show ?thesis
    using assms by (cases lo; cases hi) (auto simp: start_of_def stop_of_def)
qed

lemma try_get_None_iff: "try_get_log_entries lo hi st = None \<longleftrightarrow> unguarded lo hi"
proof -
  have "try_get_log_entries lo hi st = None \<longleftrightarrow>
      range_panics lo hi \<and> \<not> (\<exists>s e. start_of lo = Some s \<and> stop_of hi = Some e \<and> e < s)"
    by (simp add: try_get_eq bm_range_def)
  then show ?thesis using range_panic_guarded [of lo hi] unguarded_panics [of lo hi] by blast
qed

subsection \<open>The log and its purge floor\<close>

text \<open>Entries are filed under their index, and none is at or below the purge floor.\<close>

definition log_ok :: "kaf_storage_state \<Rightarrow> bool" where
  "log_ok st =
     (\<forall>k e. bm_get (log st) k = Some e \<longrightarrow>
        index (e_log_id e) = k \<and> (\<forall>p. last_purged_log_id st = Some p \<longrightarrow> index p < k))"

lemma log_ok_cong: "log a = log b \<Longrightarrow> last_purged_log_id a = last_purged_log_id b \<Longrightarrow> log_ok a = log_ok b"
  by (simp add: log_ok_def)

lemma log_ok_new: "log_ok (new_storage vips stale fb delay)"
  by (simp add: log_ok_def new_storage_def)

lemma log_ok_remove: "log_ok st \<Longrightarrow> log_ok (st\<lparr>log := bm_remove_all ks (log st)\<rparr>)"
  by (auto simp: log_ok_def split: if_splits)

lemma bm_get_remove_filter:
  "bm_get (bm_remove_all (filter P (bm_keys m)) m) k = (if P k then None else bm_get m k)"
  by (auto simp: set_bm_keys)

lemma opt_less_iff: "opt_less a (Some b) \<longleftrightarrow> a = None \<or> (\<exists>x. a = Some x \<and> x < b)"
  by (cases a) auto

lemma truncate_log_ok:
  assumes "log_ok st"
  shows "log_ok (fst (truncate_after fv l st))"
proof (cases "check_mutation fv st")
  case (Inr u)
  let ?start = "case l of None \<Rightarrow> 0 | Some l \<Rightarrow> index l + 1"
  let ?st = "st\<lparr>log := bm_remove_all (filter (\<lambda>k. ?start \<le> k) (bm_keys (log st))) (log st)\<rparr>"
  have st: "log_ok ?st" using assms by (rule log_ok_remove)
  have kept: "k \<in> dom (bm_get (log st)) \<and> k < ?start" if "k \<in> dom (bm_get (log ?st))" for k
    using that by (auto simp: dom_def set_bm_keys not_le split: if_splits)
  show ?thesis
  proof (cases "opt_less (map_option index l) (map_option index (last_purged_log_id st))")
    case True
    then obtain p where p: "last_purged_log_id st = Some p" by (cases "last_purged_log_id st") auto
    have "dom (bm_get (log ?st)) = {}"
    proof (rule ccontr)
      assume "dom (bm_get (log ?st)) \<noteq> {}"
      then obtain k where k: "k \<in> dom (bm_get (log ?st))" by blast
      then have "index p < k" "k < ?start" using kept [OF k] assms p by (auto simp: log_ok_def)
      then show False using True p
        by (cases l) (auto simp: word_less_nat_alt unat_word_ariths split: if_splits)
    qed
    then have "log_ok (?st\<lparr>last_purged_log_id := l\<rparr>)"
      using st by (simp add: log_ok_def domIff)
    then show ?thesis using True Inr by (simp add: truncate_after_def Let_def)
  next
    case False
    then show ?thesis using st Inr by (simp add: truncate_after_def Let_def)
  qed
qed (simp add: truncate_after_def assms)

lemma purge_floor_ok:
  assumes "log_ok st"
  shows "log_ok (let st1 = st\<lparr>log := bm_remove_all (filter (\<lambda>k. k \<le> index l) (bm_keys (log st))) (log st)\<rparr>
                 in if opt_less (map_option index (last_purged_log_id st1)) (Some (index l))
                    then st1\<lparr>last_purged_log_id := Some l\<rparr> else st1)"
  using assms by (auto simp: log_ok_def Let_def opt_less_iff set_bm_keys dom_def not_le split: if_splits)

lemma purge_log_ok: "log_ok st \<Longrightarrow> log_ok (fst (purge fv l st))"
  using purge_floor_ok [of st l]
  by (simp add: purge_def Let_def split: sum.split)

lemma drop_covered_log_ok: "log_ok st \<Longrightarrow> log_ok (drop_covered snap st)"
  using purge_floor_ok [of st]
  by (simp add: drop_covered_def Let_def split: option.split)

lemma append_entry_ok:
  assumes "log_ok st" "\<forall>p. last_purged_log_id st = Some p \<longrightarrow> index p < index (e_log_id e) \<or>
      (\<exists>f. purged = Some f \<and> index (e_log_id e) \<le> f)"
  shows "log_ok (append_entry purged e st)"
  using assms
  by (auto simp: log_ok_def append_entry_def Let_def word_less_nat_alt unat_sub_if_size split: option.splits if_splits)

definition entry_index :: "log_entry \<Rightarrow> u64" where
  "entry_index e = index (e_log_id e)"

text \<open>What the floor may be while the entries \<open>es\<close> are still to come.\<close>

definition floor_ok :: "u64 option \<Rightarrow> log_entry list \<Rightarrow> kaf_storage_state \<Rightarrow> bool" where
  "floor_ok purged es st =
     (\<forall>p e. last_purged_log_id st = Some p \<longrightarrow> e \<in> set es \<longrightarrow>
        index p < entry_index e \<or> (\<exists>f. purged = Some f \<and> entry_index e \<le> f))"

lemma floor_ok_append_entry:
  assumes "floor_ok purged (e # es) st" "\<And>e'. e' \<in> set es \<Longrightarrow> entry_index e < entry_index e'"
  shows "floor_ok purged es (append_entry purged e st)"
proof -
  have "index (e_log_id e) - 1 < entry_index e'" if "e' \<in> set es" "1 < index (e_log_id e)" for e'
    using assms(2) [OF that(1)] that(2)
    by (simp add: entry_index_def word_less_nat_alt unat_sub_if_size word_le_nat_alt)
  then show ?thesis
    using assms(1) by (auto simp: floor_ok_def append_entry_def Let_def)
qed

lemma append_loop_ok:
  assumes "log_ok st" "floor_ok purged (map snd items) st" "sorted_wrt (<) (map (entry_index \<circ> snd) items)"
  shows "log_ok (fst (append_loop purged items st))"
  using assms
proof (induction items arbitrary: st)
  case (Cons item items)
  obtain fv e where item: "item = (fv, e)" by (cases item)
  show ?case
  proof (cases "check_mutation fv st")
    case (Inr u)
    have "log_ok (append_entry purged e st)"
      using Cons.prems item by (intro append_entry_ok) (auto simp: floor_ok_def entry_index_def)
    moreover have "floor_ok purged (map snd items) (append_entry purged e st)"
      using Cons.prems item by (intro floor_ok_append_entry) auto
    ultimately show ?thesis using Cons item Inr by simp
  qed (use Cons item in simp)
qed simp

lemma append_log_ok:
  assumes "log_ok st" "sorted_wrt (<) (map (entry_index \<circ> snd) items)"
  shows "log_ok (fst (append_entries fv items st))"
proof -
  have "floor_ok (map_option index (last_purged_log_id st)) (map snd items) st"
    by (auto simp: floor_ok_def)
  then show ?thesis
    using append_loop_ok [OF assms(1) _ assms(2)] assms(1)
    by (simp add: append_entries_def case_prod_beta Let_def split: sum.split)
qed

lemma append_loop_get:
  assumes "append_loop purged items st = (st', Inr ())" "distinct (map (entry_index \<circ> snd) items)"
  shows "bm_get (log st') k =
           (case map_of (map (\<lambda>(_, e). (entry_index e, e)) items) k of
              None \<Rightarrow> bm_get (log st) k
            | Some e \<Rightarrow> if \<exists>f. purged = Some f \<and> k \<le> f then bm_get (log st) k else Some e)"
  using assms
proof (induction items arbitrary: st)
  case (Cons item items)
  obtain fv e where item: "item = (fv, e)" by (cases item)
  have ok: "append_loop purged items (append_entry purged e st) = (st', Inr ())"
    using Cons.prems(1) item by (auto split: sum.splits)
  have new: "entry_index e \<notin> set (map (entry_index \<circ> snd) items)" using Cons.prems(2) item by simp
  then have none: "map_of (map (\<lambda>(_, e). (entry_index e, e)) items) (entry_index e) = None"
    by (force simp: map_of_eq_None_iff)
  have get: "bm_get (log (append_entry purged e st)) k =
      (if k = entry_index e \<and> \<not> (\<exists>f. purged = Some f \<and> k \<le> f) then Some e else bm_get (log st) k)"
    by (auto simp: append_entry_def Let_def entry_index_def split: option.splits)
  show ?case
    using Cons.IH [OF ok] Cons.prems(2) get none item by (auto split: option.splits)
qed simp

subsection \<open>What the store reports\<close>

lemma last_entry_max:
  assumes "entries m \<noteq> []"
  shows "k \<in> dom (bm_get m) \<Longrightarrow> k \<le> fst (last (entries m))"
    and "bm_get m (fst (last (entries m))) = Some (snd (last (entries m)))"
proof -
  have srt: "sorted_wrt (<) (map fst (entries m))" by (rule entries_sorted)
  have le: "j \<le> last ks" if "sorted_wrt (<) ks" "j \<in> set ks" for ks :: "'a list" and j
    using that by (induction ks) (auto split: if_splits intro: less_imp_le)
  show "k \<le> fst (last (entries m))" if "k \<in> dom (bm_get m)"
    using le [OF srt, of k] that assms set_bm_keys [of m] by (simp add: last_map bm_keys_def)
  show "bm_get m (fst (last (entries m))) = Some (snd (last (entries m)))"
    using assms by (simp flip: in_entries_iff)
qed

lemma log_tail_max:
  assumes "log_ok st" "log_tail st = Some t"
  shows "\<exists>e. bm_get (log st) (index t) = Some e \<and> e_log_id e = t"
    and "k \<in> dom (bm_get (log st)) \<Longrightarrow> k \<le> index t"
proof -
  have ne: "entries (log st) \<noteq> []" and t: "t = e_log_id (snd (last (entries (log st))))"
    using assms(2) by (auto simp: log_tail_def split: if_splits)
  have last_get: "bm_get (log st) (fst (last (entries (log st)))) = Some (snd (last (entries (log st))))"
    by (rule last_entry_max(2) [OF ne])
  then have idx: "index t = fst (last (entries (log st)))" using assms(1) t by (simp add: log_ok_def)
  then show "\<exists>e. bm_get (log st) (index t) = Some e \<and> e_log_id e = t" using last_get t by simp
  show "k \<le> index t" if "k \<in> dom (bm_get (log st))"
    using last_entry_max(1) [OF ne that] idx by simp
qed

lemma hd_entry_min:
  assumes "entries m = (i, e) # xs" "k \<in> dom (bm_get m)"
  shows "i \<le> k"
  using assms entries_sorted [of m] by (auto simp flip: set_bm_keys simp: bm_keys_def less_imp_le)

lemma get_log_state_floor:
  assumes "log_ok st" "ls_last_purged_log_id (get_log_state st) = Some p" "k \<in> dom (bm_get (log st))"
  shows "index p < k"
proof (cases "last_purged_log_id st")
  case None
  then obtain i e xs where xs: "entries (log st) = (i, e) # xs" and i: "1 < i" "index p = i - 1"
    using assms(2) by (auto simp: get_log_state_def split: list.splits if_splits)
  have "i \<le> k" by (rule hd_entry_min [OF xs assms(3)])
  then show ?thesis using i by (simp add: word_less_nat_alt word_le_nat_alt unat_sub_if_size)
next
  case (Some q)
  then show ?thesis using assms by (auto simp: get_log_state_def log_ok_def)
qed

lemma read_committed_bounds:
  "\<And>c. committed st = Some c \<Longrightarrow> \<exists>b. read_committed st = Some b \<and> index c \<le> index b"
  "\<And>a. last_applied_log st = Some a \<Longrightarrow> \<exists>b. read_committed st = Some b \<and> index a \<le> index b"
  by (auto simp: read_committed_def raises_def Let_def not_less split: option.splits)

lemma read_committed_servable:
  assumes "read_committed st = Some b" "log_ok st"
  shows "committed st = Some b \<or> last_applied_log st = Some b \<or>
         (last_purged_log_id st = Some b \<and> (\<exists>k \<in> dom (bm_get (log st)). index b < k))"
proof -
  have "\<exists>k \<in> dom (bm_get (log st)). index p < k"
    if "last_purged_log_id st = Some p" "log_tail st = Some t" for p t
    using log_tail_max(1) [OF assms(2) that(2)] that(1) assms(2) by (fastforce simp: log_ok_def)
  then show ?thesis
    using assms(1) by (auto simp: read_committed_def Let_def split: option.splits if_splits)
qed

end
