(* ===== verification/Storage_System.thy ===== *)
theory Storage_System
  imports Log_Store
begin

text \<open>
  The store as openraft drives it: a process starts with an empty store, binds its admission, and
  the calls of the log half and of the state-machine half come in any order, with snapshots built
  by any other process of the cluster. Every state so reached satisfies the invariants of the
  components.
\<close>

subsection \<open>Reachable stores\<close>

inductive reachable :: "vip_table \<Rightarrow> u64 \<Rightarrow> bool \<Rightarrow> u64 \<Rightarrow> kaf_storage_state \<Rightarrow> bool"
  for vips :: vip_table and stale :: u64 and fb :: bool and delay :: u64 where
  init: "reachable vips stale fb delay (new_admitted_store vips stale fb delay)"
| bind: "reachable vips stale fb delay st \<Longrightarrow> bind_admission fv ctx st = Inr st' \<Longrightarrow>
    reachable vips stale fb delay st'"
| vote: "reachable vips stale fb delay st \<Longrightarrow> reachable vips stale fb delay (fst (save_vote fv v st))"
| commit: "reachable vips stale fb delay st \<Longrightarrow>
    reachable vips stale fb delay (fst (save_committed fv c st))"
| appended: "reachable vips stale fb delay st \<Longrightarrow> sorted_wrt (<) (map (entry_index \<circ> snd) items) \<Longrightarrow>
    reachable vips stale fb delay (fst (append_entries fv items st))"
| truncated: "reachable vips stale fb delay st \<Longrightarrow>
    reachable vips stale fb delay (fst (truncate_after fv l st))"
| purged: "reachable vips stale fb delay st \<Longrightarrow> reachable vips stale fb delay (fst (purge fv lid st))"
| applied: "reachable vips stale fb delay st \<Longrightarrow>
    reachable vips stale fb delay (fst (apply_stream items st))"
| installed: "reachable vips stale fb delay st \<Longrightarrow> reachable vips stale fb delay s \<Longrightarrow>
    from_slice data = Inr (snapshot_of s) \<Longrightarrow>
    reachable vips stale fb delay (fst (install_snapshot show_meta from_slice fv meta data st))"

subsection \<open>The invariant\<close>

text \<open>The part of the invariant that a snapshot carries, and all of it.\<close>

definition replica_ok :: "vip_table \<Rightarrow> kaf_storage_state \<Rightarrow> bool" where
  "replica_ok vips st =
     (failback_inv st \<and> epoch_ok st \<and> ticks_ok st \<and> joins_ok st \<and>
      (\<forall>v \<in> set (vip_ips vips). fence_ok (fence_of st v)))"

definition configured :: "vip_table \<Rightarrow> u64 \<Rightarrow> bool \<Rightarrow> u64 \<Rightarrow> kaf_storage_state \<Rightarrow> bool" where
  "configured vips stale fb delay st =
     (vip_list st = vips \<and> stale_missed_probes st = stale \<and> failback st = fb \<and>
      failback_delay_ticks st = delay)"

definition store_ok :: "vip_table \<Rightarrow> u64 \<Rightarrow> bool \<Rightarrow> u64 \<Rightarrow> kaf_storage_state \<Rightarrow> bool" where
  "store_ok vips stale fb delay st =
     (replica_ok vips st \<and> log_ok st \<and> configured vips stale fb delay st)"

lemma replica_ok_snapshot:
  assumes "snapshot_of a = snapshot_of b" "failback a = failback b"
  shows "replica_ok vips a = replica_ok vips b"
proof -
  have eq: "failover_semantics a = failover_semantics b" "node_nopreempt a = node_nopreempt b"
    "node_recovery_pending a = node_recovery_pending b" "node_failback_blocked a = node_failback_blocked b"
    "node_recovery_tick a = node_recovery_tick b" "genesis a = genesis b" "cluster_epoch a = cluster_epoch b"
    "node_probe_ticks a = node_probe_ticks b" "latest_probe_tick a = latest_probe_tick b"
    "prepared_join a = prepared_join b" "completed_joins a = completed_joins b"
    "vip_assignments a = vip_assignments b" "vip_generation a = vip_generation b"
    "vip_last_holder a = vip_last_holder b"
    using assms(1) by (simp_all add: snapshot_of_def)
  have "failback_inv a = failback_inv b" using eq assms(2) by (intro failback_inv_cong)
  moreover have "joins_ok a = joins_ok b" using eq by (intro joins_ok_cong)
  moreover have "fence_of a v = fence_of b v" for v using eq by (intro fence_of_eqI)
  ultimately show ?thesis using eq by (simp add: replica_ok_def epoch_ok_def ticks_ok_def)
qed

lemma replica_ok_one:
  assumes "replica_ok vips st" "distinct (vip_ips vips)" "vip_list st = vips"
  shows "replica_ok vips (fst (apply_one e st))"
proof -
  have "fence_ok (fence_of (fst (apply_one e st)) v)" if v: "v \<in> set (vip_ips vips)" for v
  proof -
    obtain tick where "fence_step tick (fence_of st v) (fence_of (fst (apply_one e st)) v)"
      using apply_one_fence_step [of st v e] v assms(2,3) by blast
    then show ?thesis using fence_ok_step assms(1) v by (auto simp: replica_ok_def)
  qed
  then show ?thesis
    using assms(1) failback_inv_one apply_one_identity apply_one_ticks joins_ok_one
    by (auto simp: replica_ok_def)
qed

text \<open>Applying an entry leaves the log half alone.\<close>

lemma with_local_fields:
  "log (with_local st l) = log l" "last_purged_log_id (with_local st l) = last_purged_log_id l"
  "admission (with_local st l) = admission l" "vote (with_local st l) = vote l"
  "committed (with_local st l) = committed l"
  by (simp_all add: with_local_def)

lemma apply_one_local_fields:
  "log (fst (apply_one e st)) = log st" "last_purged_log_id (fst (apply_one e st)) = last_purged_log_id st"
  "admission (fst (apply_one e st)) = admission st" "vote (fst (apply_one e st)) = vote st"
  "committed (fst (apply_one e st)) = committed st"
proof -
  have "fst (apply_one e st) = with_local (fst (apply_one e st)) st"
    using apply_one_local [of e st st] by (metis fst_map_prod with_local_self)
  then show "log (fst (apply_one e st)) = log st" "last_purged_log_id (fst (apply_one e st)) = last_purged_log_id st"
    "admission (fst (apply_one e st)) = admission st" "vote (fst (apply_one e st)) = vote st"
    "committed (fst (apply_one e st)) = committed st"
    by (metis with_local_fields)+
qed

lemma store_ok_one:
  assumes "store_ok vips stale fb delay st" "distinct (vip_ips vips)"
  shows "store_ok vips stale fb delay (fst (apply_one e st))"
proof -
  have "log_ok (fst (apply_one e st)) = log_ok st"
    by (rule log_ok_cong) (rule apply_one_local_fields)+
  moreover have "configured vips stale fb delay (fst (apply_one e st))"
    using assms(1) same_config_one [of e st] by (simp add: store_ok_def configured_def same_config_def)
  ultimately show ?thesis
    using assms replica_ok_one [of vips st e] by (simp add: store_ok_def configured_def)
qed

lemma store_ok_stream:
  "store_ok vips stale fb delay st \<Longrightarrow> distinct (vip_ips vips) \<Longrightarrow>
   store_ok vips stale fb delay (fst (apply_stream items st))"
proof (induction items st rule: apply_stream.induct)
  case (3 fv entry responder items st)
  show ?case
  proof (cases "check_mutation fv st")
    case (Inr u)
    obtain st1 resp where one: "apply_one entry st = (st1, resp)" by (cases "apply_one entry st")
    have "store_ok vips stale fb delay st1" using store_ok_one [OF 3(2,3), of entry] one by simp
    then have "store_ok vips stale fb delay (fst (apply_stream items st1))"
      using 3 Inr one by simp
    then show ?thesis using Inr one by (simp add: case_prod_beta)
  qed (simp add: 3)
qed simp_all

lemma store_ok_install:
  assumes st: "store_ok vips stale fb delay st" and s: "store_ok vips stale fb delay s"
    and data: "from_slice data = Inr (snapshot_of s)"
  shows "store_ok vips stale fb delay (fst (install_snapshot show_meta from_slice fv meta data st))"
proof (cases "snd (install_snapshot show_meta from_slice fv meta data st)")
  case (Inl e)
  then have "fst (install_snapshot show_meta from_slice fv meta data st) = st"
    by (auto simp: install_snapshot_def data split: if_splits sum.splits)
  then show ?thesis using st by simp
next
  case (Inr u)
  obtain st' where inst: "install_snapshot show_meta from_slice fv meta data st = (st', Inr ())"
    using Inr by (cases "install_snapshot show_meta from_slice fv meta data st") simp
  have eqs: "snapshot_of st' = snapshot_of (restore_into (snapshot_of s) st)" "same_config st' st"
    using install_snapshot_Inr [OF inst] data by (metis sum.inject(2))+
  have st': "st' = (drop_covered (snapshot_of s) (restore_into (snapshot_of s) st))\<lparr>current_snapshot := Some (snapshot_of s)\<rparr>"
    using inst data by (auto simp: install_snapshot_def split: if_splits sum.splits)
  have fb: "failback s = failback st" "failback_inv s"
    using st s by (simp_all add: store_ok_def configured_def replica_ok_def)
  have "replica_ok vips st' = replica_ok vips s"
    using eqs fb snapshot_of_restore [OF fb(2,1)]
    by (intro replica_ok_snapshot) (simp_all add: same_config_def)
  moreover have "log_ok st'"
  proof -
    have "log_ok (restore_into (snapshot_of s) st) = log_ok st"
      by (rule log_ok_cong) (simp_all add: restore_into_frame)
    then have "log_ok (drop_covered (snapshot_of s) (restore_into (snapshot_of s) st))"
      using st by (intro drop_covered_log_ok) (simp add: store_ok_def)
    moreover have "log_ok st' = log_ok (drop_covered (snapshot_of s) (restore_into (snapshot_of s) st))"
      by (rule log_ok_cong) (simp_all add: st')
    ultimately show ?thesis by simp
  qed
  moreover have "configured vips stale fb delay st'"
    using eqs(2) st by (simp add: store_ok_def configured_def same_config_def)
  ultimately show ?thesis using s inst by (simp add: store_ok_def)
qed

lemma log_ops_replica:
  "snapshot_of (fst (save_vote fv v st)) = snapshot_of st" "same_config (fst (save_vote fv v st)) st"
  "snapshot_of (fst (save_committed fv c st)) = snapshot_of st" "same_config (fst (save_committed fv c st)) st"
  "snapshot_of (fst (truncate_after fv l st)) = snapshot_of st" "same_config (fst (truncate_after fv l st)) st"
  "snapshot_of (fst (purge fv lid st)) = snapshot_of st" "same_config (fst (purge fv lid st)) st"
  by (simp_all add: save_vote_def save_committed_def truncate_after_def purge_def snapshot_of_def
      same_config_def Let_def split: sum.split)

lemma append_replica:
  "snapshot_of (fst (append_loop purged items st)) = snapshot_of st \<and>
   same_config (fst (append_loop purged items st)) st"
proof (induction purged items st rule: append_loop.induct)
  case (2 purged fv entry rest st)
  have "snapshot_of (append_entry purged entry st) = snapshot_of st" "same_config (append_entry purged entry st) st"
    by (simp_all add: append_entry_def snapshot_of_def same_config_def Let_def)
  then show ?case using 2 same_config_trans by (auto split: sum.split)
qed simp

lemma store_ok_log_ops:
  assumes "store_ok vips stale fb delay st"
  shows "store_ok vips stale fb delay (fst (save_vote fv v st))"
    "store_ok vips stale fb delay (fst (save_committed fv c st))"
    "store_ok vips stale fb delay (fst (truncate_after fv l st))"
    "store_ok vips stale fb delay (fst (purge fv lid st))"
    "sorted_wrt (<) (map (entry_index \<circ> snd) items) \<Longrightarrow>
     store_ok vips stale fb delay (fst (append_entries fv items st))"
proof -
  have lift: "store_ok vips stale fb delay st'"
    if "snapshot_of st' = snapshot_of st" "same_config st' st" "log_ok st'" for st'
  proof -
    have "replica_ok vips st' = replica_ok vips st"
      using that by (intro replica_ok_snapshot) (simp_all add: same_config_def)
    then show ?thesis using that assms by (simp add: store_ok_def configured_def same_config_def)
  qed
  have lg: "log_ok st" using assms by (simp add: store_ok_def)
  have keep: "log_ok (fst (save_vote fv v st))" "log_ok (fst (save_committed fv c st))"
    using lg by (simp_all add: save_vote_def save_committed_def log_ok_def split: sum.split)
  show "store_ok vips stale fb delay (fst (save_vote fv v st))"
    by (rule lift) (fact log_ops_replica keep)+
  show "store_ok vips stale fb delay (fst (save_committed fv c st))"
    by (rule lift) (fact log_ops_replica keep)+
  show "store_ok vips stale fb delay (fst (truncate_after fv l st))"
    by (rule lift) (fact log_ops_replica truncate_log_ok [OF lg])+
  show "store_ok vips stale fb delay (fst (purge fv lid st))"
    by (rule lift) (fact log_ops_replica purge_log_ok [OF lg])+
  show "store_ok vips stale fb delay (fst (append_entries fv items st))"
    if "sorted_wrt (<) (map (entry_index \<circ> snd) items)"
    using append_log_ok [OF lg that, of fv] append_replica [of "map_option index (last_purged_log_id st)" items st]
    by (intro lift) (simp_all add: append_entries_def case_prod_beta split: sum.splits)
qed

lemma store_ok_bind:
  assumes "store_ok vips stale fb delay st" "bind_admission fv ctx st = Inr st'"
  shows "store_ok vips stale fb delay st'"
proof -
  have st': "st' = st\<lparr>admission := Some ctx\<rparr>"
    using assms(2) by (auto simp: bind_admission_def split: if_splits)
  have "replica_ok vips st' = replica_ok vips st"
    by (rule replica_ok_snapshot) (simp_all add: st' snapshot_of_def)
  then show ?thesis using assms(1) by (simp add: store_ok_def configured_def log_ok_def st')
qed

lemma store_ok_new: "store_ok vips stale fb delay (new_admitted_store vips stale fb delay)"
proof -
  let ?st = "new_storage vips stale fb delay"
  have "replica_ok vips ?st"
    by (simp add: replica_ok_def failback_inv_new epoch_ok_new ticks_ok_new joins_ok_new fence_ok_new)
  moreover have "replica_ok vips (new_admitted_store vips stale fb delay) = replica_ok vips ?st"
    by (rule replica_ok_snapshot)
       (simp_all add: new_admitted_store_def new_store_inner_def snapshot_of_def)
  ultimately show ?thesis
    by (simp add: store_ok_def configured_def new_admitted_store_def new_store_inner_def log_ok_def
        new_storage_def)
qed

lemma reachable_ok:
  assumes "reachable vips stale fb delay st" "distinct (vip_ips vips)"
  shows "store_ok vips stale fb delay st"
  using assms(1)
proof (induction rule: reachable.induct)
  case (applied st items)
  then show ?case using store_ok_stream assms(2) by blast
next
  case (installed st s from_slice data show_meta fv meta)
  then show ?case using store_ok_install by blast
qed (blast intro: store_ok_new store_ok_bind store_ok_log_ops)+

end
