(* ===== verification/Example_Cluster.thy ===== *)
theory Example_Cluster
  imports Storage_System
begin

text \<open>
  A small cluster for the witnesses of the properties: two nodes, one VIP, a membership entry and a
  few health reports.
\<close>

definition ex_vip :: ip_addr where
  "ex_vip = V4 167772161"

definition ex_vips :: vip_table where
  "ex_vips = [(\<lparr>vip_ip = ex_vip, vip_prefix = 24\<rparr>, ''eth0'')]"

definition ex_replica :: "u64 \<Rightarrow> replica_id" where
  "ex_replica n = ReplicaId n 7"

definition ex_genesis :: genesis where
  "ex_genesis = \<lparr>g_config = \<lparr>fp_version = 1, fp_digest = 5\<rparr>, g_epoch = 9,
                 g_voters = {ex_replica 1, ex_replica 2}\<rparr>"

definition ex_context :: admission_context where
  "ex_context = \<lparr>ctx_local_replica = ex_replica 1, ctx_genesis = ex_genesis\<rparr>"

definition ex_membership :: membership where
  "ex_membership =
     \<lparr>voter_ids = [ex_replica 1, ex_replica 2], get_joint_config = [{ex_replica 1, ex_replica 2}],
      nodes = [ex_replica 1, ex_replica 2], learner_ids = [], node_addresses = [''10.0.0.1:7001'', ''10.0.0.2:7001'']\<rparr>"

text \<open>The second node comes back under another boot.\<close>

definition ex_rebooted :: membership where
  "ex_rebooted =
     \<lparr>voter_ids = [ex_replica 1, ReplicaId 2 8], get_joint_config = [{ex_replica 1, ReplicaId 2 8}],
      nodes = [ex_replica 1, ReplicaId 2 8], learner_ids = [], node_addresses = [''10.0.0.1:7001'', ''10.0.0.2:7001'']\<rparr>"

definition ex_log_id :: "u64 \<Rightarrow> log_id" where
  "ex_log_id i = \<lparr>committed_leader_id = LeaderId 1 (ex_replica 1), index = i\<rparr>"

definition ex_entry :: "u64 \<Rightarrow> entry_payload \<Rightarrow> log_entry" where
  "ex_entry i pl = \<lparr>e_log_id = ex_log_id i, e_payload = pl\<rparr>"

definition ex_start :: kaf_storage_state where
  "ex_start = new_admitted_store ex_vips 2 True 0"

definition ex_log :: "log_entry list" where
  "ex_log = [ex_entry 1 (MembershipEntry ex_membership), ex_entry 2 (Normal (HealthUpdate 1 True)),
             ex_entry 3 (Normal (HealthUpdate 2 True))]"

definition ex_placed :: kaf_storage_state where
  "ex_placed = apply_log ex_log ex_start"

text \<open>The holder fails and the VIP moves; then the old holder releases it.\<close>

definition ex_failure :: log_entry where
  "ex_failure = ex_entry 4 (Normal (HealthUpdate 1 False))"

definition ex_release :: log_entry where
  "ex_release = ex_entry 5 (Normal (VipReleased 1 ex_vip 2))"

definition ex_moved :: kaf_storage_state where
  "ex_moved = apply_log [ex_failure] ex_placed"

definition ex_fence :: fence_view where
  "ex_fence = \<lparr>fv_check = (\<lambda>_. Inr 100), fv_now = 1\<rparr>"

definition ex_expired :: fence_view where
  "ex_expired = \<lparr>fv_check = (\<lambda>_. Inr 100), fv_now = 100\<rparr>"

text \<open>A cluster whose genesis is committed, and a process about to join it.\<close>

definition ex_formation :: "log_entry list" where
  "ex_formation = [ex_entry 1 (MembershipEntry ex_membership), ex_entry 2 (Normal (AdmissionGenesis ex_genesis))]"

definition ex_formed :: kaf_storage_state where
  "ex_formed = apply_log ex_formation ex_start"

definition ex_joining :: kaf_storage_state where
  "ex_joining = ex_start\<lparr>admission := Some ex_context\<rparr>"

text \<open>The formed cluster after both nodes reported, and the reboot of the second.\<close>

definition ex_progress :: "u64 \<Rightarrow> kaf_request" where
  "ex_progress n = HealthProgress
     \<lparr>hp_node_id = n, hp_healthy = Some True, hp_replica = ex_replica n, hp_epoch = 9,
      hp_request_nonce = 1, hp_genesis = ex_genesis\<rparr>"

definition ex_service :: "log_entry list" where
  "ex_service = ex_formation @ [ex_entry 3 (Normal (ex_progress 1)), ex_entry 4 (Normal (ex_progress 2))]"

definition ex_serving :: kaf_storage_state where
  "ex_serving = apply_log ex_service ex_start"

definition ex_reboot :: log_entry where
  "ex_reboot = ex_entry 5 (MembershipEntry ex_rebooted)"

text \<open>A third node joins: prepared, added as a learner, acknowledged, promoted.\<close>

definition ex_plan :: join_plan where
  "ex_plan = \<lparr>jp_genesis = ex_genesis, jp_consumer = ex_replica 3, jp_request_nonce = 4,
              jp_previous_voters = {ex_replica 1, ex_replica 2},
              jp_next_voters = {ex_replica 1, ex_replica 2, ex_replica 3}\<rparr>"

definition ex_learner :: membership where
  "ex_learner = ex_membership\<lparr>nodes := [ex_replica 1, ex_replica 2, ex_replica 3], learner_ids := [ex_replica 3],
     node_addresses := [''10.0.0.1:7001'', ''10.0.0.2:7001'', ''10.0.0.3:7001'']\<rparr>"

definition ex_promoted :: membership where
  "ex_promoted =
     \<lparr>voter_ids = [ex_replica 1, ex_replica 2, ex_replica 3],
      get_joint_config = [{ex_replica 1, ex_replica 2, ex_replica 3}],
      nodes = [ex_replica 1, ex_replica 2, ex_replica 3], learner_ids = [],
      node_addresses = [''10.0.0.1:7001'', ''10.0.0.2:7001'', ''10.0.0.3:7001'']\<rparr>"

definition ex_join :: "log_entry list" where
  "ex_join = ex_formation @
     [ex_entry 3 (Normal (AdmissionMembership (PrepareJoin ex_plan))), ex_entry 4 (MembershipEntry ex_learner),
      ex_entry 5 (Normal (AdmissionMembership (LearnerApplied (ex_replica 3) 4 (ex_log_id 3)))),
      ex_entry 6 (MembershipEntry ex_promoted)]"

text \<open>A codec that knows one snapshot.\<close>

definition ex_to_vec :: "kaf_snapshot \<Rightarrow> u8 list io" where
  "ex_to_vec snap = (if snap = snapshot_of ex_formed then Inr [1] else Inl (IoError OtherKind []))"

definition ex_from_slice :: "u8 list \<Rightarrow> string + kaf_snapshot" where
  "ex_from_slice data = (if data = [1] then Inr (snapshot_of ex_formed) else Inl [])"

lemma ex_entry_sel [simp]: "e_log_id (ex_entry i pl) = ex_log_id i" "e_payload (ex_entry i pl) = pl"
  by (simp_all add: ex_entry_def)

lemma ex_vips_config:
  "distinct (vip_ips ex_vips)" "vip_list ex_start = ex_vips" "ex_vip \<in> set (vip_ips ex_vips)"
  by (simp_all add: ex_vips_def vip_ips_def ex_start_def new_admitted_store_def new_store_inner_def
      new_storage_def)

lemma ex_vip_list: "vip_list ex_placed = ex_vips" "vip_list ex_moved = ex_vips"
  using same_config_log [of ex_log ex_start] same_config_log [of "[ex_failure]" ex_placed]
  by (simp_all add: same_config_def ex_placed_def ex_moved_def ex_vips_config)

lemma ex_placed_assignment:
  "bm_get (vip_assignments ex_placed) ex_vip =
     Some \<lparr>holder = 1, generation = 1, previous_holder = None, previous_holder_released = True,
           activation_tick = 1\<rparr>"
  by code_simp

lemma ex_moved_assignment:
  "bm_get (vip_assignments ex_moved) ex_vip =
     Some \<lparr>holder = 2, generation = 2, previous_holder = Some 1, previous_holder_released = False,
           activation_tick = 3\<rparr>"
  by code_simp

lemma ex_fences: "fence_ok (fence_of ex_start ex_vip)" "fence_ok (fence_of ex_placed ex_vip)"
  "fence_ok (fence_of ex_moved ex_vip)"
proof -
  show start: "fence_ok (fence_of ex_start ex_vip)"
    using store_ok_new [of ex_vips 2 True 0] ex_vips_config
    by (simp add: store_ok_def replica_ok_def ex_start_def)
  show "fence_ok (fence_of ex_placed ex_vip)" "fence_ok (fence_of ex_moved ex_vip)"
    using fence_run_ok [OF _ start] apply_log_fence_run [of ex_start ex_vip] ex_vips_config
    by (simp_all add: ex_placed_def ex_moved_def flip: apply_log_simps(3))
qed

end
