(* ===== verification/Store_Properties.thy ===== *)
theory Store_Properties
  imports Example_Cluster
begin

text \<open>
  The properties of the store and its replicated state machine: VIP ownership, snapshots, history,
  the log and the admission boundary.
\<close>

subsection \<open>Ownership\<close>

text \<open>C1. A generation is a fencing token. Take any two points of a log of committed entries at which a
  configured VIP has an assignment: either it is the same ownership (same holder, same previous
  holder, same activation tick, the release flag at most raised), or the later generation is
  larger, or the counter had already saturated at its largest value, where it no longer tells owners apart.\<close>

theorem generation_is_fencing_token:
  assumes "distinct (vip_ips (vip_list st))" "v \<in> set (vip_ips (vip_list st))" "fence_ok (fence_of st v)"
    "bm_get (vip_assignments (apply_log es st)) v = Some a"
    "bm_get (vip_assignments (apply_log (es @ es') st)) v = Some b"
  shows "same_ownership a b \<or> generation a < generation b \<or> generation a = - 1"
proof -
  let ?s = "apply_log es st" and ?t = "apply_log (es @ es') st"
  have list: "vip_list ?s = vip_list st" using same_config_log [of es st] by (simp add: same_config_def)
  have run: "fence_run (fence_of ?s v) (fence_of ?t v)"
    using apply_log_fence_run [of ?s v es'] assms(1,2) list by simp
  have ok: "fence_ok (fence_of ?s v)" "fence_ok (fence_of ?t v)"
    using apply_log_fence_run [OF assms(1,2)] fence_run_ok assms(3) by blast+
  then have gens: "generation a = f_generation (fence_of ?s v)" "generation b = f_generation (fence_of ?t v)"
    using assms(4,5) by (auto simp: fence_ok_def fence_of_def)
  have "\<exists>c. f_assignment (fence_of ?s v) = Some c \<and> same_ownership c b"
    if "generation b = generation a" "generation a \<noteq> - 1"
    using fence_token [OF run, of b] that gens assms(5) by (simp add: fence_of_def)
  then show ?thesis
    using fence_run_mono [OF run] gens assms(4) by (auto simp: fence_of_def order_less_le)
qed

theorem generation_is_fencing_token_witness:
  "fence_ok (fence_of ex_start ex_vip) \<and>
   same_ownership
     \<lparr>holder = 1, generation = 1, previous_holder = None, previous_holder_released = True, activation_tick = 1\<rparr>
     \<lparr>holder = 2, generation = 2, previous_holder = Some 1, previous_holder_released = False, activation_tick = 3\<rparr>
   \<or> (1 :: u64) < 2 \<or> (1 :: u64) = - 1"
proof -
  have "bm_get (vip_assignments (apply_log (ex_log @ [ex_failure]) ex_start)) ex_vip =
     Some \<lparr>holder = 2, generation = 2, previous_holder = Some 1, previous_holder_released = False,
           activation_tick = 3\<rparr>"
    using ex_moved_assignment by (simp add: ex_moved_def ex_placed_def)
  with generation_is_fencing_token [of ex_start ex_vip ex_log _ "[ex_failure]"] show ?thesis
    using ex_placed_assignment ex_fences ex_vips_config by (fastforce simp: ex_placed_def)
qed

text \<open>C9. A handoff is confirmed only by the node that held the VIP: while the generation stays, the flag
  that the previous holder has let go is raised by nothing but that node's release entry for this
  VIP and generation.\<close>

theorem release_needs_previous_holder:
  assumes "distinct (vip_ips (vip_list st))" "v \<in> set (vip_ips (vip_list st))" "fence_ok (fence_of st v)"
    "bm_get (vip_assignments st) v = Some a" "\<not> previous_holder_released a"
    "bm_get (vip_assignments (fst (apply_one e st))) v = Some b" "previous_holder_released b"
    "generation b = generation a" "generation a \<noteq> - 1"
  shows "\<exists>n. previous_holder a = Some n \<and> e_payload e = Normal (VipReleased n v (generation a))"
  using release_only_by_previous_holder [OF assms(1,2,4-9,3)] by (simp add: released_by_def)

lemma ex_released_assignment:
  "bm_get (vip_assignments (fst (apply_one ex_release ex_moved))) ex_vip =
     Some \<lparr>holder = 2, generation = 2, previous_holder = Some 1, previous_holder_released = True,
           activation_tick = 3\<rparr>"
  by code_simp

theorem release_needs_previous_holder_witness:
  "\<exists>n. previous_holder \<lparr>holder = 2, generation = 2, previous_holder = Some 1,
          previous_holder_released = False, activation_tick = 3\<rparr> = Some n \<and>
       e_payload ex_release = Normal (VipReleased n ex_vip 2)"
  using release_needs_previous_holder
      [OF _ _ ex_fences(3) ex_moved_assignment _ ex_released_assignment] ex_vips_config ex_vip_list
  by simp

text \<open>C21. After a recomputation every VIP has a holder exactly when some node is eligible, and every
  holder is a member that votes under one boot, reported healthy and is within the staleness
  window.\<close>

theorem recompute_holders_alive:
  assumes "distinct (vip_ips (vip_list st))"
  shows "(\<forall>v a. bm_get (vip_assignments (recompute st)) v = Some a \<longrightarrow> v2_alive (recompute st) (holder a)) \<and>
         dom (bm_get (vip_assignments (recompute st))) =
           (if candidates (recompute st) = [] then {} else set (vip_ips (vip_list st)))"
proof
  have alive: "v2_alive (recompute st) = v2_alive (tracked st)" by (rule v2_alive_cong) simp_all
  show "\<forall>v a. bm_get (vip_assignments (recompute st)) v = Some a \<longrightarrow> v2_alive (recompute st) (holder a)"
    using candidate_alive [OF recompute_holder_candidate [OF assms]] unfolding alive by blast
  have "dom (bm_get (vip_assignments (recompute st))) = dom (bm_get (bm_map holder (vip_assignments (recompute st))))"
    by (auto simp: dom_def)
  then show "dom (bm_get (vip_assignments (recompute st))) =
      (if candidates (recompute st) = [] then {} else set (vip_ips (vip_list st)))"
    using assign_dom [OF assms]
    by (simp add: recompute_holders_map [OF assms] new_holders_eq recompute_candidates)
qed

theorem recompute_holders_alive_witness:
  "distinct (vip_ips (vip_list ex_placed)) \<and>
   dom (bm_get (vip_assignments (recompute ex_placed))) =
     (if candidates (recompute ex_placed) = [] then {} else set (vip_ips (vip_list ex_placed)))"
  using recompute_holders_alive [of ex_placed] ex_vips_config ex_vip_list by simp

text \<open>C22. A recomputation settles: on unchanged inputs a second one moves no VIP, uses up no generation and
  leaves the recovery bookkeeping alone.\<close>

theorem recompute_idempotent:
  assumes "distinct (vip_ips (vip_list st))" "finite (node_recovery_pending st)"
  shows "recompute (recompute st) = recompute st"
  by (rule recompute_settles [OF assms])

lemma ex_placed_pending: "node_recovery_pending ex_placed = {}"
  by code_simp

theorem recompute_idempotent_witness:
  "distinct (vip_ips (vip_list ex_placed)) \<and> recompute (recompute ex_placed) = recompute ex_placed"
  using recompute_idempotent [of ex_placed] ex_vips_config ex_vip_list ex_placed_pending by simp

subsection \<open>Replication and history\<close>

text \<open>C6. Snapshots are transparent: a process that installs a snapshot of a replica and then applies the
  rest of the log agrees with that replica after it applied the same entries, on everything that is
  replicated. \<open>to_vec\<close> and \<open>from_slice\<close> are the JSON codec, assumed to read back what it wrote.\<close>

theorem snapshot_transparent:
  assumes "\<And>snap data. to_vec snap = Inr data \<Longrightarrow> from_slice data = Inr snap"
    "failback_inv s" "same_config s t" "build_snapshot to_vec s = Inr (meta, data)"
    "install_snapshot show_meta from_slice fv meta data t = (t', Inr ())"
  shows "replica_equiv (apply_log es t') (apply_log es s)"
proof -
  have "from_slice data = Inr (snapshot_of s)" using assms(1) snapshot_at_data [OF assms(4)] by blast
  then have "snapshot_of t' = snapshot_of (restore_into (snapshot_of s) t)" "same_config t' t"
    using install_snapshot_Inr [OF assms(5)] by (metis sum.inject(2))+
  moreover have "snapshot_of (restore_into (snapshot_of s) t) = snapshot_of s"
    using assms(2,3) by (intro snapshot_of_restore) (simp_all add: same_config_def)
  ultimately have "replica_equiv t' s" using assms(3) by (simp add: replica_equiv_def same_config_def)
  then show ?thesis by (rule replica_equiv_log)
qed

lemma ex_formed_facts:
  "genesis ex_formed = Some ex_genesis" "last_applied_log ex_formed = Some (ex_log_id 2)"
  by code_simp+

lemma ex_joining_installs:
  "snd (install_snapshot (\<lambda>_. []) ex_from_slice ex_fence meta [1] ex_joining) = Inr ()"
proof -
  have "check_mutation ex_fence ex_joining = Inr ()"
    by (simp add: check_mutation_ok ex_joining_def ex_fence_def)
  moreover have "genesis ex_joining = None" "admission ex_joining = Some ex_context"
    by (simp_all add: ex_joining_def ex_start_def new_admitted_store_def new_store_inner_def new_storage_def)
  ultimately show ?thesis
    by (simp add: install_snapshot_def ex_from_slice_def snapshot_of_def ex_formed_facts ex_context_def)
qed

theorem snapshot_transparent_witness:
  "replica_equiv
     (apply_log [ex_failure] (fst (install_snapshot (\<lambda>_. []) ex_from_slice ex_fence
        \<lparr>meta_last_log_id = Some (ex_log_id 2), meta_last_membership = last_membership ex_formed\<rparr> [1] ex_joining)))
     (apply_log [ex_failure] ex_formed)"
proof (rule snapshot_transparent [of ex_to_vec ex_from_slice])
  show "ex_to_vec snap = Inr data \<Longrightarrow> ex_from_slice data = Inr snap" for snap data
    by (auto simp: ex_to_vec_def ex_from_slice_def split: if_splits)
  show "failback_inv ex_formed" "same_config ex_formed ex_joining"
    using failback_inv_log [of ex_start] same_config_log [of ex_formation ex_start] store_ok_new [of ex_vips 2 True 0]
    by (simp_all add: ex_formed_def ex_joining_def store_ok_def replica_ok_def ex_start_def same_config_def)
  have "(snapshot_of ex_formed)\<lparr>snap_last_applied := Some (ex_log_id 2)\<rparr> = snapshot_of ex_formed"
    by (simp add: snapshot_of_def ex_formed_facts)
  then show "build_snapshot ex_to_vec ex_formed =
      Inr (\<lparr>meta_last_log_id = Some (ex_log_id 2), meta_last_membership = last_membership ex_formed\<rparr>, [1])"
    by (simp add: build_snapshot_def snapshot_at_def ex_formed_facts ex_to_vec_def)
  show "install_snapshot (\<lambda>_. []) ex_from_slice ex_fence
      \<lparr>meta_last_log_id = Some (ex_log_id 2), meta_last_membership = last_membership ex_formed\<rparr> [1] ex_joining =
    (fst (install_snapshot (\<lambda>_. []) ex_from_slice ex_fence
      \<lparr>meta_last_log_id = Some (ex_log_id 2), meta_last_membership = last_membership ex_formed\<rparr> [1] ex_joining), Inr ())"
    using ex_joining_installs by (metis prod.collapse)
qed

text \<open>C23. Genesis and epoch are immutable: once committed, no log of entries changes the admission genesis or
  the cluster epoch, and a genesis always carries the epoch of the cluster.\<close>

theorem genesis_immutable:
  assumes "epoch_ok st" "genesis st = Some g"
  shows "genesis (apply_log es st) = Some g \<and> cluster_epoch (apply_log es st) = Some (g_epoch g)"
  using apply_log_identity [OF assms(1), of es g "g_epoch g"] assms by (auto simp: epoch_ok_def)

lemma ex_formed_epoch: "epoch_ok ex_formed"
  using apply_log_identity [of ex_start] epoch_ok_new [of ex_vips 2 True 0]
  by (simp add: ex_formed_def ex_start_def new_admitted_store_def new_store_inner_def epoch_ok_def)

theorem genesis_immutable_witness:
  "genesis (apply_log [ex_failure, ex_entry 9 (Normal (AdmissionGenesis (ex_genesis\<lparr>g_epoch := 1\<rparr>)))] ex_formed)
     = Some ex_genesis"
  using genesis_immutable [OF ex_formed_epoch ex_formed_facts(1)] by blast

text \<open>C24. A node that stops publishing loses its freshness: when another node publishes two rounds more
  than the staleness window, a silent node is no longer fresh, whatever it had reported, so it is
  not eligible for any VIP.\<close>

theorem silent_node_loses_freshness:
  assumes "ticks_ok st" "n \<noteq> m" "unat (stale_missed_probes st) + 2 \<le> length hs"
    "unat (latest_probe_tick st) + length hs \<le> 2 ^ 64"
  shows "\<not> is_node_eligible n (eligibility_of (publish m hs st)) blocked"
proof -
  have "stale_missed_probes (publish m hs st) = stale_missed_probes st"
    unfolding publish_def by (induction hs arbitrary: st) (simp_all add: apply_health_def Let_def)
  then show ?thesis
    using silent_node_stale [OF assms]
    by (simp add: is_node_eligible_def is_node_base_eligible_def eligibility_of_def)
qed

lemma ex_placed_ticks: "ticks_ok ex_placed" "stale_missed_probes ex_placed = 2" "latest_probe_tick ex_placed = 1"
proof -
  show "ticks_ok ex_placed"
    using apply_log_ticks [of ex_start ex_log] ticks_ok_new [of ex_vips 2 True 0]
    by (simp add: ex_placed_def ex_start_def new_admitted_store_def new_store_inner_def ticks_ok_def)
  show "stale_missed_probes ex_placed = 2" "latest_probe_tick ex_placed = 1" by code_simp+
qed

theorem silent_node_loses_freshness_witness:
  "\<not> is_node_eligible 1 (eligibility_of (publish 2 [True, True, True, True] ex_placed)) {}"
  using silent_node_loses_freshness [of ex_placed 1 2 "[True, True, True, True]" "{}"] ex_placed_ticks
  by simp

text \<open>C25. A boot never inherits the standing of the one it replaces: in a store that has its genesis, right after the
  membership entry under which a physical node votes with another boot (or stops or starts voting), that node holds no VIP.\<close>

theorem replaced_boot_holds_no_vip:
  assumes "distinct (vip_ips (vip_list st))" "e_payload e = MembershipEntry m" "genesis st \<noteq> None"
    "bm_get (unique_voters (sm_membership (last_membership st))) i \<noteq> bm_get (unique_voters m) i"
    "bm_get (vip_assignments (fst (apply_one e st))) v = Some a"
  shows "holder a \<noteq> i"
  using changed_boot_holds_nothing [OF assms(1) _ assms(2,5)] assms(3,4) by (simp add: boot_changes_def)

lemma ex_serving_reboot:
  "map_option holder (bm_get (vip_assignments (fst (apply_one ex_reboot ex_serving))) ex_vip) = Some 1"
  "bm_get (unique_voters (sm_membership (last_membership ex_serving))) 2 = Some (ex_replica 2)"
  "bm_get (unique_voters ex_rebooted) 2 = Some (ReplicaId 2 8)" "genesis ex_serving = Some ex_genesis"
proof -
  show "genesis ex_serving = Some ex_genesis"
    using apply_log_identity [OF ex_formed_epoch, of
        "[ex_entry 3 (Normal (ex_progress 1)), ex_entry 4 (Normal (ex_progress 2))]" ex_genesis] ex_formed_facts(1)
    by (simp add: ex_serving_def ex_service_def ex_formed_def)
qed code_simp+

theorem replaced_boot_holds_no_vip_witness:
  "\<exists>a. bm_get (vip_assignments (fst (apply_one ex_reboot ex_serving))) ex_vip = Some a \<and> holder a \<noteq> 2"
proof -
  obtain a where a: "bm_get (vip_assignments (fst (apply_one ex_reboot ex_serving))) ex_vip = Some a"
    using ex_serving_reboot(1) by auto
  have "vip_list ex_serving = ex_vips"
    using same_config_log [of ex_service ex_start] ex_vips_config by (simp add: ex_serving_def same_config_def)
  then have "holder a \<noteq> 2"
    using ex_serving_reboot ex_vips_config
    by (intro replaced_boot_holds_no_vip [OF _ _ _ _ a, of ex_rebooted])
       (simp_all add: ex_reboot_def ex_entry_def ex_replica_def)
  with a show ?thesis by blast
qed

text \<open>C26. Learner joins go through their stages in order: along every log a pending join is a valid exact
  replacement of one boot under the immutable genesis, its acknowledgement has a later index than
  its preparation, and a completed join was promoted later still.\<close>

theorem joins_in_order:
  assumes "bm_get (completed_joins (apply_log es (new_admitted_store vips stale fb delay))) i = Some cj"
  shows "i = physical_id (jp_consumer (pj_plan (cj_prepared cj))) \<and>
         is_ok (validate_plan (pj_plan (cj_prepared cj))) \<and>
         genesis (apply_log es (new_admitted_store vips stale fb delay)) = Some (jp_genesis (pj_plan (cj_prepared cj))) \<and>
         (\<exists>ack. pj_learner_applied (cj_prepared cj) = Some ack \<and>
            index (pj_prepared (cj_prepared cj)) < index ack \<and> index ack < index (cj_promoted cj))"
proof -
  have "joins_ok (new_admitted_store vips stale fb delay)"
    using store_ok_new [of vips stale fb delay] by (simp add: store_ok_def replica_ok_def)
  then have "joins_ok (apply_log es (new_admitted_store vips stale fb delay))" by (rule joins_ok_log)
  then have "join_done_ok (apply_log es (new_admitted_store vips stale fb delay)) i cj"
    using assms by (simp add: joins_ok_def)
  then show ?thesis by (auto simp: join_done_ok_def join_pending_ok_def)
qed

lemma ex_join_completed: "bm_get (completed_joins (apply_log ex_join ex_start)) 3 \<noteq> None"
proof -
  let ?s3 = "fst (apply_one (ex_entry 3 (Normal (AdmissionMembership (PrepareJoin ex_plan)))) ex_formed)"
  let ?s4 = "fst (apply_one (ex_entry 4 (MembershipEntry ex_learner)) ?s3)"
  let ?s5 = "fst (apply_one (ex_entry 5 (Normal (AdmissionMembership (LearnerApplied (ex_replica 3) 4 (ex_log_id 3))))) ?s4)"
  have f: "genesis ex_formed = Some ex_genesis" "prepared_join ex_formed = None"
    "sm_membership (last_membership ex_formed) = ex_membership"
    by (simp_all add: ex_formed_facts) (code_simp+)
  have plan: "is_ok (validate_plan ex_plan)" by code_simp
  have mem: "length (get_joint_config ex_membership) = 1" "set (voter_ids ex_membership) = jp_previous_voters ex_plan"
    "jp_genesis ex_plan = ex_genesis"
    by (simp_all add: ex_membership_def ex_plan_def)
  have s3: "?s3 = ex_formed\<lparr>last_applied_log := Some (ex_log_id 3),
      prepared_join := Some \<lparr>pj_plan = ex_plan, pj_prepared = ex_log_id 3, pj_learner_applied = None\<rparr>\<rparr>"
    by (rule join_fields(1) [where r = Ok and c = "PrepareJoin ex_plan"]) (simp_all add: f plan mem Let_def)
  have s4: "genesis ?s4 = Some ex_genesis" "sm_membership (last_membership ?s4) = ex_learner"
    "prepared_join ?s4 = Some \<lparr>pj_plan = ex_plan, pj_prepared = ex_log_id 3, pj_learner_applied = None\<rparr>"
    using join_fields(2) [of "ex_entry 4 (MembershipEntry ex_learner)" ex_learner ?s3]
    by (simp_all add: s3 f complete_join_def)
  have lrn: "ex_replica 3 \<in> set (learner_ids ex_learner)" "length (get_joint_config ex_learner) = 1"
    "set (voter_ids ex_learner) = jp_previous_voters ex_plan" "jp_consumer ex_plan = ex_replica 3"
    "jp_request_nonce ex_plan = 4" "\<And>i. index (ex_log_id i) = i" "physical_id (ex_replica 3) = 3"
    by (simp_all add: ex_learner_def ex_membership_def ex_plan_def ex_log_id_def ex_replica_def)
  have s5: "?s5 = ?s4\<lparr>last_applied_log := Some (ex_log_id 5), prepared_join :=
      Some \<lparr>pj_plan = ex_plan, pj_prepared = ex_log_id 3, pj_learner_applied = Some (ex_log_id 5)\<rparr>\<rparr>"
    by (rule join_fields(1) [where r = Ok and c = "LearnerApplied (ex_replica 3) 4 (ex_log_id 3)"])
       (simp_all add: Let_def s4 mem lrn)
  have "set (voter_ids ex_promoted) = jp_next_voters ex_plan" "length (get_joint_config ex_promoted) = 1"
    by (simp_all add: ex_promoted_def ex_plan_def)
  then have "bm_get (completed_joins (fst (apply_one (ex_entry 6 (MembershipEntry ex_promoted)) ?s5))) 3 \<noteq> None"
    using join_fields(2) [of "ex_entry 6 (MembershipEntry ex_promoted)" ex_promoted ?s5]
    by (simp add: s5 complete_join_def lrn)
  then show ?thesis by (simp add: ex_join_def ex_formed_def)
qed

theorem joins_in_order_witness:
  "\<exists>cj. bm_get (completed_joins (apply_log ex_join ex_start)) 3 = Some cj \<and>
        physical_id (jp_consumer (pj_plan (cj_prepared cj))) = 3 \<and>
        (\<exists>ack. pj_learner_applied (cj_prepared cj) = Some ack \<and> index ack < index (cj_promoted cj))"
proof -
  obtain cj where cj: "bm_get (completed_joins (apply_log ex_join ex_start)) 3 = Some cj"
    using ex_join_completed by auto
  then show ?thesis using joins_in_order [of ex_join ex_vips 2 True 0 3 cj] by (auto simp: ex_start_def)
qed

end
