(* ===== verification/Log_Properties.thy ===== *)
theory Log_Properties
  imports Example_Cluster
begin

text \<open>
  The properties of the log half of the store and of the boundary that every mutation crosses.
\<close>

subsection \<open>Reachable stores\<close>

text \<open>C7. Whatever openraft calls in whatever order, with snapshots from any other process of the cluster,
  a store keeps its invariants: entries are filed above the purge floor, the failback bookkeeping
  matches the semantics in force, ticks do not pass the frontier, genesis and epoch agree, joins
  are well formed and every VIP's assignment carries the current generation.\<close>

theorem store_invariant:
  assumes "reachable vips stale fb delay st" "distinct (vip_ips vips)"
  shows "store_ok vips stale fb delay st"
  by (rule reachable_ok [OF assms])

lemma ex_reachable: "reachable ex_vips 2 True 0 (fst (purge ex_fence (ex_log_id 1) ex_joining))"
proof -
  have "bind_admission ex_fence ex_context ex_start = Inr ex_joining"
    by (simp add: bind_admission_def ex_joining_def ex_fence_def ex_start_def new_admitted_store_def
        new_store_inner_def new_storage_def session_check_def)
  then have "reachable ex_vips 2 True 0 ex_joining"
    using reachable.init [of ex_vips 2 True 0] by (auto simp: ex_start_def intro: reachable.bind)
  then show ?thesis by (rule reachable.purged)
qed

theorem store_invariant_witness:
  "store_ok ex_vips 2 True 0 (fst (purge ex_fence (ex_log_id 1) ex_joining))"
  by (rule store_invariant [OF ex_reachable ex_vips_config(1)])

subsection \<open>The admission boundary\<close>

text \<open>C8. Without a live admission nothing changes: when the session is missing, expired or revoked, every
  mutating call of the two storage halves fails with a permission error and leaves the store as it
  was, and the flush callback of an append sees the same error.\<close>

theorem unadmitted_store_unchanged:
  assumes "check_mutation fv st = Inl e"
  shows "(\<exists>msg. e = IoError PermissionDenied msg) \<and>
         save_vote fv v st = (st, Inl e) \<and> save_committed fv c st = (st, Inl e) \<and>
         append_entries fv items st = (st, Inl e, Inl e) \<and> truncate_after fv l st = (st, Inl e) \<and>
         purge fv lid st = (st, Inl e) \<and>
         apply_stream ((fv, StreamEntry entry responder) # rest) st = (st, [], Inl e) \<and>
         fst (install_snapshot show_meta from_slice fv meta data st) = st \<and>
         \<not> is_ok (snd (install_snapshot show_meta from_slice fv meta data st))"
  using assms check_mutation_denied [OF assms]
  by (auto simp: save_vote_def save_committed_def append_entries_def truncate_after_def purge_def
      install_snapshot_def Let_def split: sum.split)

theorem unadmitted_store_unchanged_witness:
  "check_mutation ex_expired ex_joining = Inl (IoError PermissionDenied ''admission deadline expired'') \<and>
   save_vote ex_expired (RaftVote (LeaderId 1 (ex_replica 1)) True) ex_joining =
     (ex_joining, Inl (IoError PermissionDenied ''admission deadline expired''))"
proof -
  have denied: "check_mutation ex_expired ex_joining = Inl (IoError PermissionDenied ''admission deadline expired'')"
    by (simp add: check_mutation_def cfg_test_def ex_joining_def ex_expired_def session_check_def)
  then show ?thesis using unadmitted_store_unchanged [OF denied] by blast
qed

subsection \<open>Reading and writing the log\<close>

text \<open>C29. A range read returns the stored entries between its bounds in index order, and it panics exactly
  for the inverted ranges that its guard misses: an excluded end of zero with a start above it, and
  an excluded start at the largest index. The panic is the one that \<open>BTreeMap::range\<close> documents; a log that
  never held an entry escapes it in the current standard library.\<close>

theorem try_get_log_entries_spec:
  "try_get_log_entries lo hi st =
     (if unguarded lo hi then None
      else Some (map snd (filter (\<lambda>(k, _). above lo k \<and> below hi k) (entries (log st)))))"
proof (cases "try_get_log_entries lo hi st")
  case None
  then show ?thesis using try_get_None_iff by simp
next
  case (Some es)
  then have "\<not> unguarded lo hi" using try_get_None_iff [of lo hi st] by simp
  then show ?thesis using try_get_log_entries_result [OF Some] Some by simp
qed

text \<open>The inverted range \<open>3..0\<close> reaches \<open>BTreeMap::range\<close> and panics, whatever the log holds, although
  the guard in front of it is there to return no entries for inverted ranges.\<close>

theorem inverted_range_panics: "try_get_log_entries (Included 3) (Excluded 0) st = None"
  using try_get_None_iff [of "Included 3" "Excluded 0" st] by simp

text \<open>An append that succeeds stores exactly the given entries above the purge floor: afterwards an
  index holds the entry that was appended there unless the floor covers it, and every other index
  holds what it held.\<close>

theorem append_stores_entries:
  assumes "append_entries fv items st = (st', Inr (), cb)" "distinct (map (entry_index \<circ> snd) items)"
  shows "cb = Inr () \<and>
         bm_get (log st') k =
           (case map_of (map (\<lambda>(_, e). (entry_index e, e)) items) k of
              None \<Rightarrow> bm_get (log st) k
            | Some e \<Rightarrow> if \<exists>p. last_purged_log_id st = Some p \<and> k \<le> index p then bm_get (log st) k else Some e)"
proof -
  have run: "append_loop (map_option index (last_purged_log_id st)) items st = (st', Inr ())" "cb = Inr ()"
    using assms(1) by (auto simp: append_entries_def case_prod_beta Let_def prod_eq_iff split: sum.splits)
  have "(\<exists>f. map_option index (last_purged_log_id st) = Some f \<and> k \<le> f) \<longleftrightarrow>
      (\<exists>p. last_purged_log_id st = Some p \<and> k \<le> index p)" by auto
  then show ?thesis using append_loop_get [OF run(1) assms(2), of k] run(2) by (auto split: option.split)
qed

lemma ex_append:
  "append_entries ex_fence [(ex_fence, ex_entry 1 Blank), (ex_fence, ex_entry 2 Blank)] ex_joining =
     (ex_joining\<lparr>log := bm_insert 2 (ex_entry 2 Blank) (bm_insert 1 (ex_entry 1 Blank) bm_empty)\<rparr>, Inr (), Inr ())"
proof -
  have ok: "check_mutation ex_fence st = Inr ()" if "admission st = Some ex_context" for st
    using that by (simp add: check_mutation_ok ex_fence_def)
  have st: "admission ex_joining = Some ex_context" "last_purged_log_id ex_joining = None" "log ex_joining = bm_empty"
    by (simp_all add: ex_joining_def ex_start_def new_admitted_store_def new_store_inner_def new_storage_def)
  have one: "append_entry None (ex_entry 1 Blank) ex_joining = ex_joining\<lparr>log := bm_insert 1 (ex_entry 1 Blank) bm_empty\<rparr>"
    by (simp add: append_entry_def st ex_log_id_def)
  have "bm_get (bm_insert 1 (ex_entry 1 Blank) bm_empty) 1 \<noteq> bm_get bm_empty (1 :: u64)" by simp
  then have "bm_insert 1 (ex_entry 1 Blank) bm_empty \<noteq> (bm_empty :: (u64, log_entry) btree_map)" by metis
  then show ?thesis
    by (simp add: append_entries_def ok st one)
       (simp add: append_entry_def ex_log_id_def)
qed

theorem append_stores_entries_witness:
  "bm_get (log (fst (append_entries ex_fence [(ex_fence, ex_entry 1 Blank), (ex_fence, ex_entry 2 Blank)] ex_joining))) 2
     = Some (ex_entry 2 Blank)"
proof -
  have purged: "last_purged_log_id ex_joining = None"
    by (simp add: ex_joining_def ex_start_def new_admitted_store_def new_store_inner_def new_storage_def)
  show ?thesis
    using append_stores_entries [OF ex_append, of 2] purged
    by (simp add: ex_append entry_index_def ex_log_id_def)
qed

definition ex_filled :: kaf_storage_state where
  "ex_filled = ex_joining\<lparr>log := bm_insert 2 (ex_entry 2 Blank) (bm_insert 1 (ex_entry 1 Blank) bm_empty),
                 committed := Some (ex_log_id 1)\<rparr>"

lemma ex_filled_ok: "log_ok ex_filled" "log_tail ex_filled = Some (ex_log_id 2)"
proof -
  show "log_ok ex_filled"
    by (simp add: log_ok_def ex_filled_def ex_joining_def ex_start_def new_admitted_store_def
        new_store_inner_def new_storage_def ex_log_id_def)
  show "log_tail ex_filled = Some (ex_log_id 2)"
    by (simp add: log_tail_def ex_filled_def entries_insert)
qed

text \<open>The reported commit frontier never falls behind what is committed or applied, and it is raised
  beyond both only to the purge floor and only while the log holds an entry above that floor, so
  reading on from it stays inside the log.\<close>

theorem read_committed_sound:
  assumes "log_ok st"
  shows "(\<forall>c. committed st = Some c \<longrightarrow> (\<exists>b. read_committed st = Some b \<and> index c \<le> index b)) \<and>
         (\<forall>a. last_applied_log st = Some a \<longrightarrow> (\<exists>b. read_committed st = Some b \<and> index a \<le> index b)) \<and>
         (\<forall>b. read_committed st = Some b \<longrightarrow>
            committed st = Some b \<or> last_applied_log st = Some b \<or>
            last_purged_log_id st = Some b \<and> (\<exists>k \<in> dom (bm_get (log st)). index b < k))"
  using read_committed_bounds read_committed_servable [OF _ assms] by blast

theorem read_committed_sound_witness:
  "\<exists>b. read_committed ex_filled = Some b \<and> index (ex_log_id 1) \<le> index b"
proof -
  have "committed ex_filled = Some (ex_log_id 1)" by (simp add: ex_filled_def)
  then show ?thesis using read_committed_sound [OF ex_filled_ok(1)] by blast
qed

text \<open>The log state that openraft starts from is consistent: every stored entry lies above the reported
  purge point, and the reported last entry is the stored entry with the largest index.\<close>

theorem get_log_state_sound:
  assumes "log_ok st"
  shows "(\<forall>p k. ls_last_purged_log_id (get_log_state st) = Some p \<longrightarrow> k \<in> dom (bm_get (log st)) \<longrightarrow> index p < k) \<and>
         (\<forall>t. ls_last_log_id (get_log_state st) = Some t \<longrightarrow>
            (\<exists>e. bm_get (log st) (index t) = Some e \<and> e_log_id e = t) \<and>
            (\<forall>k \<in> dom (bm_get (log st)). k \<le> index t))"
  using get_log_state_floor [OF assms] log_tail_max [OF assms] by (simp add: get_log_state_def)

theorem get_log_state_sound_witness:
  "\<exists>e. bm_get (log ex_filled) (index (ex_log_id 2)) = Some e \<and> e_log_id e = ex_log_id 2"
proof -
  have "ls_last_log_id (get_log_state ex_filled) = Some (ex_log_id 2)"
    using ex_filled_ok(2) by (simp add: get_log_state_def)
  then show ?thesis using get_log_state_sound [OF ex_filled_ok(1)] by blast
qed

end
