(* ===== verification/Ip_Text.thy ===== *)
theory Ip_Text
  imports Kaf_Types
begin

text \<open>
  The text form of addresses as the standard library prints and reads it: numbers in a radix,
  dotted quads, and IPv6 with its first longest run of zero groups elided and IPv4-mapped
  addresses in mixed notation. The \<open>ip\<close> commands of the program and its reading of kernel state
  go through it.
\<close>

subsection \<open>Numbers\<close>

function radix_digits :: "nat \<Rightarrow> nat \<Rightarrow> nat list" where
  "radix_digits b n = (if b \<le> 1 \<or> n < b then [n] else radix_digits b (n div b) @ [n mod b])"
  by pat_completeness auto
termination
  by (relation "measure snd") (auto simp: not_le not_less)

declare radix_digits.simps [simp del]

definition radix_fmt :: "nat \<Rightarrow> nat \<Rightarrow> string" where
  "radix_fmt b n = map hex_char (radix_digits b n)"

abbreviation dec_fmt :: "nat \<Rightarrow> string" where
  "dec_fmt \<equiv> radix_fmt 10"

text \<open>\<open>char::to_digit\<close> reads both cases.\<close>

definition to_digit :: "nat \<Rightarrow> char \<Rightarrow> nat option" where
  "to_digit radix c =
     (let n = of_char c;
          d = (if 48 \<le> n \<and> n \<le> 57 then Some (n - 48)
               else if 97 \<le> n \<and> n \<le> 122 then Some (n - 87)
               else if 65 \<le> n \<and> n \<le> 90 then Some (n - 55) else None)
      in case d of None \<Rightarrow> None | Some v \<Rightarrow> if v < radix then Some v else None)"

text \<open>\<open>from_str_radix\<close> of an unsigned integer below \<open>bound\<close>: an optional plus sign, then digits.\<close>

definition parse_unsigned :: "nat \<Rightarrow> nat \<Rightarrow> string \<Rightarrow> nat option" where
  "parse_unsigned bound radix s =
     (let ds = (case s of [] \<Rightarrow> [] | c # cs \<Rightarrow> if c = CHR ''+'' \<and> cs \<noteq> [] then cs else s) in
      if ds = [] \<or> (\<exists>c \<in> set ds. to_digit radix c = None) then None
      else let v = undigits radix (map (the \<circ> to_digit radix) ds) in if v < bound then Some v else None)"

text \<open>\<open>split_once\<close> at the first occurrence of a character.\<close>

definition split_once :: "char \<Rightarrow> string \<Rightarrow> (string \<times> string) option" where
  "split_once c s =
     (if c \<in> set s then Some (takeWhile (\<lambda>x. x \<noteq> c) s, tl (dropWhile (\<lambda>x. x \<noteq> c) s)) else None)"

subsection \<open>Printing addresses\<close>

fun join_with :: "string \<Rightarrow> string list \<Rightarrow> string" where
  "join_with sep [] = []"
| "join_with sep [x] = x"
| "join_with sep (x # y # ys) = x @ sep @ join_with sep (y # ys)"

definition v4_display :: "u32 \<Rightarrow> string" where
  "v4_display a = join_with ''.'' (map dec_fmt (digits 256 4 (unat a)))"

definition v6_segments :: "u128 \<Rightarrow> nat list" where
  "v6_segments a = digits 65536 8 (unat a)"

definition join_groups :: "nat list \<Rightarrow> string" where
  "join_groups gs = join_with '':'' (map (radix_fmt 16) gs)"

text \<open>The span of the first longest run of zero groups: start and length.\<close>

definition span_step :: "nat \<times> nat \<Rightarrow> (nat \<times> nat) \<times> (nat \<times> nat) \<Rightarrow> (nat \<times> nat) \<times> (nat \<times> nat)" where
  "span_step ig spans =
     (let (i, g) = ig; (longest, current) = spans in
      if g = 0 then
        let c = (if snd current = 0 then i else fst current, snd current + 1)
        in (if snd longest < snd c then c else longest, c)
      else (longest, (0, 0)))"

definition longest_zeros :: "nat list \<Rightarrow> nat \<times> nat" where
  "longest_zeros gs = fst (fold span_step (List.enumerate 0 gs) ((0, 0), (0, 0)))"

definition v6_display :: "u128 \<Rightarrow> string" where
  "v6_display a =
     (let gs = v6_segments a in
      if take 5 gs = [0, 0, 0, 0, 0] \<and> gs ! 5 = 65535
      then ''::ffff:'' @ v4_display (of_nat (gs ! 6 * 65536 + gs ! 7))
      else let (start, len) = longest_zeros gs in
           if 1 < len then join_groups (take start gs) @ ''::'' @ join_groups (drop (start + len) gs)
           else join_groups gs)"

fun ip_display :: "ip_addr \<Rightarrow> string" where
  "ip_display (V4 a) = v4_display a"
| "ip_display (V6 a) = v6_display a"

fun is_ipv4 :: "ip_addr \<Rightarrow> bool" where
  "is_ipv4 (V4 _) = True"
| "is_ipv4 (V6 _) = False"

subsection \<open>Reading addresses\<close>

type_synonym 'a parser = "string \<Rightarrow> ('a \<times> string) option"

definition read_given_char :: "char \<Rightarrow> unit parser" where
  "read_given_char c s = (case s of [] \<Rightarrow> None | x # xs \<Rightarrow> if x = c then Some ((), xs) else None)"

definition read_separator :: "char \<Rightarrow> nat \<Rightarrow> 'a parser \<Rightarrow> 'a parser" where
  "read_separator sep i inner s =
     (if 0 < i then (case read_given_char sep s of None \<Rightarrow> None | Some (_, r) \<Rightarrow> inner r) else inner s)"

definition read_number :: "nat \<Rightarrow> nat \<Rightarrow> nat \<Rightarrow> bool \<Rightarrow> nat parser" where
  "read_number bound radix max_digits allow_zero_prefix s =
     (let ds = takeWhile (\<lambda>c. to_digit radix c \<noteq> None) s;
          v = undigits radix (map (the \<circ> to_digit radix) ds)
      in if ds = [] \<or> max_digits < length ds \<or> bound \<le> v \<or>
            (\<not> allow_zero_prefix \<and> hd ds = CHR ''0'' \<and> 1 < length ds)
         then None else Some (v, drop (length ds) s))"

fun read_octets :: "nat \<Rightarrow> nat \<Rightarrow> nat list parser" where
  "read_octets 0 i s = Some ([], s)"
| "read_octets (Suc n) i s =
     (case read_separator CHR ''.'' i (read_number 256 10 3 False) s of
        None \<Rightarrow> None
      | Some (v, r) \<Rightarrow> map_option (\<lambda>(vs, r'). (v # vs, r')) (read_octets n (Suc i) r))"

definition read_ipv4_addr :: "u32 parser" where
  "read_ipv4_addr s = map_option (\<lambda>(vs, r). (of_nat (undigits 256 vs), r)) (read_octets 4 0 s)"

text \<open>Reads up to \<open>n\<close> groups, of which \<open>i\<close> are behind; a trailing dotted quad fills two.\<close>

fun read_groups :: "nat \<Rightarrow> nat \<Rightarrow> string \<Rightarrow> nat list \<times> bool \<times> string" where
  "read_groups 0 i s = ([], False, s)"
| "read_groups (Suc n) i s =
     (let v4 = (if 0 < n then read_separator CHR '':'' i read_ipv4_addr s else None) in
      case v4 of
        Some (a, r) \<Rightarrow> ([unat a div 65536, unat a mod 65536], True, r)
      | None \<Rightarrow>
          (case read_separator CHR '':'' i (read_number 65536 16 4 True) s of
             None \<Rightarrow> ([], False, s)
           | Some (g, r) \<Rightarrow> (let (gs, q, r') = read_groups n (Suc i) r in (g # gs, q, r'))))"

definition read_ipv6_addr :: "u128 parser" where
  "read_ipv6_addr s =
     (let (hd_groups, hd_ipv4, r) = read_groups 8 0 s in
      if length hd_groups = 8 then Some (of_nat (undigits 65536 hd_groups), r)
      else if hd_ipv4 then None
      else (case read_given_char CHR '':'' r of
              None \<Rightarrow> None
            | Some (_, r1) \<Rightarrow>
                (case read_given_char CHR '':'' r1 of
                   None \<Rightarrow> None
                 | Some (_, r2) \<Rightarrow>
                     (let (tl_groups, _, r3) = read_groups (8 - (length hd_groups + 1)) 0 r2;
                          gap = replicate (8 - length hd_groups - length tl_groups) 0
                      in Some (of_nat (undigits 65536 (hd_groups @ gap @ tl_groups)), r3)))))"

definition ip_parse :: "string \<Rightarrow> ip_addr option" where
  "ip_parse s =
     (case (case read_ipv4_addr s of
              Some (a, r) \<Rightarrow> Some (V4 a, r)
            | None \<Rightarrow> map_option (\<lambda>(a, r). (V6 a, r)) (read_ipv6_addr s)) of
        Some (ip, r) \<Rightarrow> if r = [] then Some ip else None
      | None \<Rightarrow> None)"

end
