(* ===== verification/Child_Process.thy ===== *)
theory Child_Process
  imports Storage_State
begin

text \<open>
  Ownership of child processes (\<open>src/process.rs\<close>): the guard that kills a child's process group,
  bounded capture of its output, the outcome of waiting for it under a deadline or a
  cancellation, and the tracker that counts children which may still act after their caller has
  stopped waiting. What the operating system and the runtime answer (how a wait ended, what
  \<open>kill\<close> returned, which chunks a pipe delivered) is an argument of the operations. Messages keep
  their fixed text; the numbers that diagnostics interpolate are left out.
\<close>

definition PROCESS_REAP_TIMEOUT :: duration where
  "PROCESS_REAP_TIMEOUT = from_millis 500"

definition OUTPUT_DRAIN_TIMEOUT :: duration where
  "OUTPUT_DRAIN_TIMEOUT = from_millis 500"

definition MAX_OUTPUT_BYTES :: nat where
  "MAX_OUTPUT_BYTES = 64 * 1024"

text \<open>An \<open>ExitStatus\<close> is the raw wait status; it is a success exactly when it is zero.\<close>

type_synonym exit_status = int

definition exit_success :: "exit_status \<Rightarrow> bool" where
  "exit_success status = (status = 0)"

subsection \<open>Captured output\<close>

record captured_output =
  co_bytes :: "u8 list"
  co_truncated_bytes :: u64

definition empty_capture :: captured_output where
  "empty_capture = \<lparr>co_bytes = [], co_truncated_bytes = 0\<rparr>"

definition record_chunk :: "nat \<Rightarrow> u8 list \<Rightarrow> captured_output \<Rightarrow> captured_output" where
  "record_chunk limit chunk c =
     (let keep = min (limit - length (co_bytes c)) (length chunk)
      in c\<lparr>co_bytes := co_bytes c @ take keep chunk,
           co_truncated_bytes := co_truncated_bytes c + of_nat (length chunk - keep)\<rparr>)"

text \<open>The read loop over what the reads of a pipe return; an empty chunk is the end of the stream.
  With no further read the loop is still waiting.\<close>

fun read_captured_output ::
  "nat \<Rightarrow> u8 list io list \<Rightarrow> captured_output \<Rightarrow> captured_output io option" where
  "read_captured_output limit [] c = None"
| "read_captured_output limit (Inl e # reads) c = Some (Inl e)"
| "read_captured_output limit (Inr chunk # reads) c =
     (if chunk = [] then Some (Inr c)
      else read_captured_output limit reads (record_chunk limit chunk c))"

text \<open>How the join of the reader task ended within the drain bound.\<close>

datatype drain_outcome = Drained "captured_output io" | DrainTaskFailed | DrainElapsed

definition collect_capture :: "drain_outcome option \<Rightarrow> captured_output io" where
  "collect_capture task =
     (case task of
        None \<Rightarrow> Inr empty_capture
      | Some (Drained r) \<Rightarrow> r
      | Some DrainTaskFailed \<Rightarrow> Inl (IoError OtherKind ''output reader task failed'')
      | Some DrainElapsed \<Rightarrow> Inl (IoError TimedOut ''child output drain timed out''))"

subsection \<open>Process groups\<close>

record process_group_guard =
  pgid :: int
  armed :: bool

definition guard_new :: "u32 \<Rightarrow> process_group_guard io" where
  "guard_new pid =
     (if 2 ^ 31 \<le> uint pid then Inl (IoError InvalidInput ''child pid exceeds i32'')
      else if uint pid \<le> 0
      then Inl (IoError InvalidInput ''child process group id must be positive'')
      else Inr \<lparr>pgid = uint pid, armed = True\<rparr>)"

text \<open>The answer of \<open>kill(-pgid, SIGKILL)\<close>: delivered, no such group (\<open>ESRCH\<close>), or an error.\<close>

datatype kill_outcome = KillDelivered | KillNoGroup | KillFailed io_error

definition terminate :: "kill_outcome \<Rightarrow> process_group_guard \<Rightarrow> process_group_guard \<times> unit io" where
  "terminate kill g =
     (if \<not> armed g then (g, Inr ())
      else case kill of
             KillDelivered \<Rightarrow> (g\<lparr>armed := False\<rparr>, Inr ())
           | KillNoGroup \<Rightarrow> (g\<lparr>armed := False\<rparr>, Inr ())
           | KillFailed e \<Rightarrow> (g, Inl e))"

subsection \<open>Waiting for a child\<close>

datatype wait_outcome =
    WaitExited exit_status | WaitFailed io_error | WaitElapsed | WaitCancelled

datatype reap_outcome = Reaped exit_status | ReapFailed io_error | ReapElapsed

definition timed_out_error :: "reap_outcome \<Rightarrow> io_error" where
  "timed_out_error reap =
     (case reap of
        Reaped _ \<Rightarrow> IoError TimedOut ''child command exceeded its budget''
      | ReapFailed _ \<Rightarrow> IoError OtherKind ''child command timed out and reap failed''
      | ReapElapsed \<Rightarrow> IoError OtherKind ''child command timed out and child reap also timed out'')"

definition deadline_missed :: "io_kind \<Rightarrow> string \<Rightarrow> io_error" where
  "deadline_missed kind message = DeadlineMissed kind message"

definition missed_deadline :: "io_error \<Rightarrow> bool" where
  "missed_deadline e =
     (io_error_kind e = TimedOut \<or> (case e of DeadlineMissed _ _ \<Rightarrow> True | IoError _ _ \<Rightarrow> False))"

text \<open>The flag says whether the child was reaped, after which it can no longer act.\<close>

definition wait_status_or_cancel ::
  "wait_outcome \<Rightarrow> kill_outcome \<Rightarrow> reap_outcome \<Rightarrow> process_group_guard \<Rightarrow> exit_status io \<times> bool" where
  "wait_status_or_cancel wait kill reap g =
     (let cleanup_result = snd (terminate kill g);
          reaped = (case reap of Reaped _ \<Rightarrow> True | _ \<Rightarrow> False)
      in case wait of
           WaitExited status \<Rightarrow> (rbind cleanup_result (\<lambda>_. Inr status), True)
         | WaitFailed e \<Rightarrow> (rbind cleanup_result (\<lambda>_. Inl e), False)
         | WaitElapsed \<Rightarrow>
             (case cleanup_result of
                Inl e \<Rightarrow> (Inl e, False)
              | Inr _ \<Rightarrow>
                  (Inl (deadline_missed (io_error_kind (timed_out_error reap)) ''deadline missed''), reaped))
         | WaitCancelled \<Rightarrow>
             (case cleanup_result of
                Inl e \<Rightarrow> (Inl e, False)
              | Inr _ \<Rightarrow> (Inl (IoError Interrupted ''command cancelled''), reaped)))"

definition wait_status ::
  "wait_outcome \<Rightarrow> kill_outcome \<Rightarrow> reap_outcome \<Rightarrow> process_group_guard \<Rightarrow> exit_status io" where
  "wait_status wait kill reap g = fst (wait_status_or_cancel wait kill reap g)"

record process_output =
  out_status :: exit_status
  out_stdout :: "u8 list"
  out_stderr :: "u8 list"

definition wait_output :: "exit_status io \<Rightarrow> captured_output io \<Rightarrow> captured_output io \<Rightarrow> process_output io" where
  "wait_output status stdout stderr =
     rbind status (\<lambda>st. rbind stdout (\<lambda>o1. rbind stderr (\<lambda>e1.
       Inr \<lparr>out_status = st, out_stdout = co_bytes o1, out_stderr = co_bytes e1\<rparr>)))"

datatype completion =
    Exited exit_status
  | CompletionWaitFailed io_error
  | CompletionTimedOut "io_error option"

record captured_run =
  run_completion :: completion
  run_cleanup_error :: "io_error option"
  run_stdout :: captured_output
  run_stderr :: captured_output

definition wait_captured ::
  "wait_outcome \<Rightarrow> kill_outcome \<Rightarrow> reap_outcome \<Rightarrow> process_group_guard \<Rightarrow>
   captured_output io \<Rightarrow> captured_output io \<Rightarrow> captured_run option" where
  "wait_captured wait kill reap g stdout stderr =
     (let cleanup_error = (case snd (terminate kill g) of Inl e \<Rightarrow> Some e | Inr _ \<Rightarrow> None);
          or_default = (\<lambda>r. case r of Inl _ \<Rightarrow> empty_capture | Inr c \<Rightarrow> c);
          finish = (\<lambda>c. Some \<lparr>run_completion = c, run_cleanup_error = cleanup_error,
                             run_stdout = or_default stdout, run_stderr = or_default stderr\<rparr>)
      in case wait of
           WaitExited status \<Rightarrow> finish (Exited status)
         | WaitFailed e \<Rightarrow> finish (CompletionWaitFailed e)
         | WaitElapsed \<Rightarrow>
             finish (CompletionTimedOut
               (case reap of
                  Reaped _ \<Rightarrow> None
                | ReapFailed e \<Rightarrow> Some e
                | ReapElapsed \<Rightarrow> Some (IoError OtherKind ''child reap timed out'')))
         | WaitCancelled \<Rightarrow> None)"

subsection \<open>Tracked children\<close>

record tracked_children =
  unsettled :: u64
  lost :: bool

definition tracker_default :: tracked_children where
  "tracker_default = \<lparr>unsettled = 0, lost = False\<rparr>"

definition tracker_begin :: "tracked_children \<Rightarrow> tracked_children" where
  "tracker_begin t = t\<lparr>unsettled := unsettled t + 1\<rparr>"

definition tracker_settle :: "tracked_children \<Rightarrow> tracked_children" where
  "tracker_settle t = t\<lparr>unsettled := sat_sub (unsettled t) 1\<rparr>"

definition tracker_lose :: "tracked_children \<Rightarrow> tracked_children" where
  "tracker_lose t = t\<lparr>lost := True\<rparr>"

definition is_settled :: "tracked_children \<Rightarrow> bool" where
  "is_settled t = (unsettled t = 0)"

datatype run_phase = WaitedFor | Abandoned | Finished

definition run_abandon :: "run_phase \<Rightarrow> tracked_children \<Rightarrow> run_phase \<times> tracked_children" where
  "run_abandon phase t = (if phase = WaitedFor then (Abandoned, tracker_begin t) else (phase, t))"

definition run_finish :: "bool \<Rightarrow> run_phase \<Rightarrow> tracked_children \<Rightarrow> run_phase \<times> tracked_children" where
  "run_finish reaped phase t =
     (let t1 = (case (phase, reaped) of
                  (Abandoned, True) \<Rightarrow> tracker_settle t
                | (WaitedFor, False) \<Rightarrow> tracker_begin t
                | _ \<Rightarrow> t)
      in (Finished, if reaped then t1 else tracker_lose t1))"

text \<open>
  The runs of one tracker as a system. Each run pairs its phase with what its waiter reported of
  the child. The waiter finishes a run once; a caller may be dropped at any time.
\<close>

type_synonym tracked_system = "tracked_children \<times> (run_phase \<times> bool) list"

inductive track_step :: "tracked_system \<Rightarrow> tracked_system \<Rightarrow> bool" where
  spawn: "track_step (t, rs) (t, rs @ [(WaitedFor, False)])"
| drop: "i < length rs \<Longrightarrow> rs ! i = (p, r) \<Longrightarrow> run_abandon p t = (p', t') \<Longrightarrow>
    track_step (t, rs) (t', rs[i := (p', r)])"
| finish: "i < length rs \<Longrightarrow> rs ! i = (p, r) \<Longrightarrow> p \<noteq> Finished \<Longrightarrow> run_finish reaped p t = (p', t') \<Longrightarrow>
    track_step (t, rs) (t', rs[i := (p', reaped)])"

inductive_cases track_stepE: "track_step s s'"

text \<open>A child that may still act although nobody waits for it.\<close>

fun loose :: "run_phase \<times> bool \<Rightarrow> bool" where
  "loose (p, reaped) = (p = Abandoned \<or> p = Finished \<and> \<not> reaped)"

definition track_ok :: "tracked_system \<Rightarrow> bool" where
  "track_ok s =
     (length (snd s) < 2 ^ 64 \<longrightarrow>
      unat (unsettled (fst s)) = sum_list (map (\<lambda>r. of_bool (loose r)) (snd s)) \<and>
      (lost (fst s) \<longleftrightarrow> (Finished, False) \<in> set (snd s)))"

lemma loose_count_le: "sum_list (map (\<lambda>r. of_bool (loose r) :: nat) rs) \<le> length rs"
  by (induction rs) auto

lemma loose_count_zero:
  "sum_list (map (\<lambda>r. of_bool (loose r) :: nat) rs) = 0 \<longleftrightarrow> (\<forall>r \<in> set rs. \<not> loose r)"
  by (induction rs) auto

lemma loose_count_update:
  assumes "i < length rs"
  shows "sum_list (map (\<lambda>r. of_bool (loose r) :: nat) (rs[i := x])) + of_bool (loose (rs ! i)) =
    sum_list (map (\<lambda>r. of_bool (loose r)) rs) + of_bool (loose x)"
  using sum_list_replace [OF assms, of "\<lambda>r. of_bool (loose r)"] by simp

lemma unat_tracker_begin:
  "unat (unsettled t) + 1 < 2 ^ 64 \<Longrightarrow> unat (unsettled (tracker_begin t)) = unat (unsettled t) + 1"
  by (simp add: tracker_begin_def unat_word_ariths)

lemma mem_update_other:
  assumes "i < length xs" "xs ! i \<noteq> x" "y \<noteq> x"
  shows "x \<in> set (xs[i := y]) \<longleftrightarrow> x \<in> set xs"
  using assms by (metis in_set_conv_nth length_list_update nth_list_update)

lemma mem_update_new: "i < length xs \<Longrightarrow> x \<in> set (xs[i := x])"
  by (rule set_update_memI)

lemma track_ok_drop:
  assumes "track_ok (t, rs)" "i < length rs" "rs ! i = (p, r)" "run_abandon p t = (p', t')"
  shows "track_ok (t', rs[i := (p', r)])"
proof (cases "p = WaitedFor")
  case True
  then have new: "p' = Abandoned" "t' = tracker_begin t" using assms(4) by (auto simp: run_abandon_def)
  have count: "sum_list (map (\<lambda>r. of_bool (loose r) :: nat) (rs[i := (Abandoned, r)])) =
      sum_list (map (\<lambda>r. of_bool (loose r)) rs) + 1"
    using loose_count_update [OF assms(2), of "(Abandoned, r)"] assms(3) True by simp
  then have "sum_list (map (\<lambda>r. of_bool (loose r) :: nat) rs) + 1 \<le> length rs"
    using loose_count_le [of "rs[i := (Abandoned, r)]"] by simp
  then show ?thesis
    using assms(1) count new True assms(3) unat_tracker_begin [of t] mem_update_other [OF assms(2)]
    by (auto simp: track_ok_def tracker_begin_def)
next
  case False
  then show ?thesis
    using assms list_update_id [of rs i] by (auto simp: run_abandon_def)
qed

lemma track_ok_finish:
  assumes "track_ok (t, rs)" "i < length rs" "rs ! i = (p, r)" "p \<noteq> Finished"
    "run_finish reaped p t = (p', t')"
  shows "track_ok (t', rs[i := (p', reaped)])"
proof -
  let ?n = "sum_list (map (\<lambda>r. of_bool (loose r) :: nat) rs)"
  let ?m = "sum_list (map (\<lambda>r. of_bool (loose r) :: nat) (rs[i := (Finished, reaped)]))"
  have p': "p' = Finished" using assms(5) by (simp add: run_finish_def Let_def)
  have count: "?m + of_bool (p = Abandoned) = ?n + of_bool (\<not> reaped)"
    using loose_count_update [OF assms(2), of "(Finished, reaped)"] assms(3,4) by simp
  have le: "?m \<le> length rs" using loose_count_le [of "rs[i := (Finished, reaped)]"] by simp
  have un: "unat (unsettled t') = ?m" if "length rs < 2 ^ 64"
  proof -
    have n: "unat (unsettled t) = ?n" using assms(1) that by (simp add: track_ok_def)
    consider "p = Abandoned" reaped | "p = Abandoned" "\<not> reaped" | "p = WaitedFor" reaped
      | "p = WaitedFor" "\<not> reaped" using assms(4) by (cases p) auto
    then show ?thesis
      using assms(5) count n le that unat_tracker_begin [of t]
      by cases (auto simp: run_finish_def tracker_settle_def tracker_lose_def tracker_begin_def unat_sat_sub)
  qed
  have lost: "lost t' \<longleftrightarrow> lost t \<or> \<not> reaped"
    using assms(5) by (auto simp: run_finish_def tracker_settle_def tracker_lose_def tracker_begin_def
        split: run_phase.splits bool.splits if_splits)
  have "(Finished, False) \<in> set (rs[i := (Finished, reaped)]) \<longleftrightarrow> (Finished, False) \<in> set rs \<or> \<not> reaped"
    using mem_update_other [OF assms(2), of "(Finished, False)" "(Finished, reaped)"]
      mem_update_new [OF assms(2), of "(Finished, reaped)"] assms(3,4) by (cases reaped) auto
  then show ?thesis
    using un lost p' assms(1) by (simp add: track_ok_def)
qed

lemma track_ok_step: "track_step s s' \<Longrightarrow> track_ok s \<Longrightarrow> track_ok s'"
proof (induction rule: track_step.induct)
  case (spawn t rs)
  then show ?case by (auto simp: track_ok_def)
qed (auto intro: track_ok_drop track_ok_finish)

lemma track_ok_default: "track_ok (tracker_default, [])"
  by (simp add: track_ok_def tracker_default_def)

lemma track_ok_run: "track_step\<^sup>*\<^sup>* s s' \<Longrightarrow> track_ok s \<Longrightarrow> track_ok s'"
  by (induction rule: rtranclp_induct) (blast intro: track_ok_step)+

lemma read_captured_append:
  "read_captured_output limit reads c = Some (Inr c') \<Longrightarrow>
   \<exists>chunks rest. reads = map Inr chunks @ Inr [] # rest \<and> c' = fold (record_chunk limit) chunks c"
proof (induction limit reads c rule: read_captured_output.induct)
  case (3 limit chunk reads c)
  show ?case
  proof (cases "chunk = []")
    case True
    with 3 show ?thesis by (intro exI [of _ "[]"] exI [of _ reads]) auto
  next
    case False
    with 3 obtain chunks rest where "reads = map Inr chunks @ Inr [] # rest"
      "c' = fold (record_chunk limit) chunks (record_chunk limit chunk c)" by auto
    then show ?thesis by (intro exI [of _ "chunk # chunks"] exI [of _ rest]) simp
  qed
qed auto

lemma record_chunk_take:
  "co_bytes c = take limit bs \<Longrightarrow> co_truncated_bytes c = of_nat (length bs - limit) \<Longrightarrow>
   co_bytes (record_chunk limit chunk c) = take limit (bs @ chunk) \<and>
   co_truncated_bytes (record_chunk limit chunk c) = of_nat (length (bs @ chunk) - limit)"
  by (auto simp: record_chunk_def Let_def min_def take_append add.commute simp flip: of_nat_add)

lemma fold_record_chunk:
  "co_bytes (fold (record_chunk limit) chunks empty_capture) = take limit (concat chunks) \<and>
   co_truncated_bytes (fold (record_chunk limit) chunks empty_capture) = of_nat (length (concat chunks) - limit)"
proof (induction chunks rule: rev_induct)
  case Nil
  then show ?case by (simp add: empty_capture_def)
next
  case (snoc chunk chunks)
  then show ?case using record_chunk_take by simp
qed

subsection \<open>Properties\<close>

text \<open>The tracker is settled exactly when no child can still act behind its caller's back. After any
  interleaving of spawns, dropped callers and waiters that reaped or lost their child, the count is
  zero if and only if every child is waited for or reaped, and the lost flag is up if and only if the
  reap of some child failed.\<close>

theorem settled_iff_no_loose_child:
  assumes "track_step\<^sup>*\<^sup>* (tracker_default, []) (t, rs)" "length rs < 2 ^ 64"
  shows "(is_settled t \<longleftrightarrow> (\<forall>r \<in> set rs. \<not> loose r)) \<and> (lost t \<longleftrightarrow> (Finished, False) \<in> set rs)"
proof -
  have ok: "track_ok (t, rs)" using track_ok_run [OF assms(1) track_ok_default] .
  then have "unat (unsettled t) = 0 \<longleftrightarrow> (\<forall>r \<in> set rs. \<not> loose r)"
    using loose_count_zero [of rs] assms(2) by (simp add: track_ok_def)
  then show ?thesis using ok assms(2) by (simp add: is_settled_def unat_eq_0 track_ok_def)
qed

theorem settled_iff_no_loose_child_witness:
  "\<not> is_settled (tracker_begin tracker_default) \<and> \<not> lost (tracker_begin tracker_default)"
proof -
  have "track_step (tracker_default, []) (tracker_default, [(WaitedFor, False)])"
    using track_step.spawn [of tracker_default "[]"] by simp
  moreover have "track_step (tracker_default, [(WaitedFor, False)])
      (tracker_begin tracker_default, [(Abandoned, False)])"
    using track_step.drop [of 0 "[(WaitedFor, False)]" WaitedFor False tracker_default Abandoned
        "tracker_begin tracker_default"] by (simp add: run_abandon_def)
  ultimately have "track_step\<^sup>*\<^sup>* (tracker_default, []) (tracker_begin tracker_default, [(Abandoned, False)])"
    by (meson converse_rtranclp_into_rtranclp r_into_rtranclp)
  from settled_iff_no_loose_child [OF this] show ?thesis by simp
qed

text \<open>A command that outlives its deadline is reported as such whatever becomes of the kill and the
  reap, unless the kill itself failed, and it counts as reaped only when the wait after the kill
  returned the child's status.\<close>

theorem elapsed_command_misses_deadline:
  assumes "armed g"
  shows "case wait_status_or_cancel WaitElapsed kill reap g of
           (Inr status, reaped) \<Rightarrow> False
         | (Inl e, reaped) \<Rightarrow>
             (missed_deadline e \<or> kill = KillFailed e) \<and>
             (reaped \<longleftrightarrow> (\<exists>status. reap = Reaped status) \<and> (\<forall>e. kill \<noteq> KillFailed e))"
  using assms
  by (auto simp: wait_status_or_cancel_def terminate_def Let_def deadline_missed_def missed_deadline_def
      split: kill_outcome.splits reap_outcome.splits sum.splits)

theorem elapsed_command_misses_deadline_witness:
  "case wait_status_or_cancel WaitElapsed KillDelivered (Reaped 9) \<lparr>pgid = 5, armed = True\<rparr> of
     (Inr status, reaped) \<Rightarrow> False
   | (Inl e, reaped) \<Rightarrow> missed_deadline e \<and> reaped"
  using elapsed_command_misses_deadline [of "\<lparr>pgid = 5, armed = True\<rparr>" KillDelivered "Reaped 9"]
  by (auto split: prod.splits sum.splits)

text \<open>Capturing a stream keeps its first \<open>limit\<close> bytes and counts the rest, however the pipe cut the
  stream into reads.\<close>

lemma capture_keeps_prefix:
  assumes "read_captured_output limit reads empty_capture = Some (Inr c)"
  shows "\<exists>chunks rest. reads = map Inr chunks @ Inr [] # rest \<and>
           co_bytes c = take limit (concat chunks) \<and>
           co_truncated_bytes c = of_nat (length (concat chunks) - limit)"
  using read_captured_append [OF assms] fold_record_chunk by blast

lemma capture_keeps_prefix_witness:
  "\<exists>chunks rest. ([Inr [1, 2], Inr [3], Inr []] :: u8 list io list) = map Inr chunks @ Inr [] # rest \<and>
     [1, 2] = take 2 (concat chunks) \<and> (1 :: u64) = of_nat (length (concat chunks) - 2)"
  using capture_keeps_prefix [of 2 "[Inr [1, 2], Inr [3], Inr []]" "\<lparr>co_bytes = [1, 2], co_truncated_bytes = 1\<rparr>"]
  by (simp add: record_chunk_def Let_def empty_capture_def)

end
