(* ===== verification/Error_Chain.thy ===== *)
theory Error_Chain
  imports Child_Process
begin

text \<open>
  The \<open>anyhow\<close> errors of the effect path: the context values and the root error, outermost first.
  \<open>downcast_ref\<close> finds the outermost value of a type, \<open>chain\<close> walks all of them. On top of it the two
  classifications that decide what a failure revokes (\<open>src/consensus_freshness/failure.rs\<close>) and
  whether a failed bind asks for a restart (\<open>src/vip/reconcile/worker.rs\<close>).
\<close>

datatype cause =
    CauseIo io_error
  | CauseDenied admission_denied
  | CauseRejected
  | CauseConnectFailed
  | CauseBootChanged
  | CauseElapsed
  | CauseConflict
  | CauseUnauthenticated
  | CauseMessage string

type_synonym anyhow = "cause list"

type_synonym 'a anyhow_result = "(anyhow, 'a) result"

definition add_context :: "cause \<Rightarrow> anyhow \<Rightarrow> anyhow" where
  "add_context c e = c # e"

fun downcast_io :: "anyhow \<Rightarrow> io_error option" where
  "downcast_io [] = None"
| "downcast_io (CauseIo e # cs) = Some e"
| "downcast_io (_ # cs) = downcast_io cs"

text \<open>\<open>?\<close> on an \<open>io::Result\<close> inside a function that returns \<open>anyhow::Result\<close>.\<close>

definition from_io :: "'a io \<Rightarrow> 'a anyhow_result" where
  "from_io r = (case r of Inl e \<Rightarrow> Inl [CauseIo e] | Inr a \<Rightarrow> Inr a)"

definition with_context :: "cause \<Rightarrow> 'a anyhow_result \<Rightarrow> 'a anyhow_result" where
  "with_context c r = (case r of Inl e \<Rightarrow> Inl (add_context c e) | Inr a \<Rightarrow> Inr a)"

definition bail :: "string \<Rightarrow> 'a anyhow_result" where
  "bail m = Inl [CauseMessage m]"

subsection \<open>Failure classes\<close>

datatype failure_kind = Unavailable | RejectedFailure

definition rejected :: "anyhow \<Rightarrow> anyhow" where
  "rejected e = add_context CauseRejected e"

definition unavailable :: "string \<Rightarrow> anyhow" where
  "unavailable m = [CauseIo (IoError NotConnected m)]"

definition transport_kinds :: "io_kind list" where
  "transport_kinds =
     [UnexpectedEof, ConnectionReset, ConnectionAborted, ConnectionRefused, BrokenPipe, NotConnected,
      TimedOut, HostUnreachable, NetworkUnreachable, NetworkDown]"

definition failure_kind :: "anyhow \<Rightarrow> failure_kind" where
  "failure_kind e =
     (if CauseRejected \<in> set e \<or> (\<exists>c \<in> set e. case c of CauseDenied _ \<Rightarrow> True | _ \<Rightarrow> False)
      then RejectedFailure
      else if CauseConnectFailed \<in> set e \<or> CauseBootChanged \<in> set e then Unavailable
      else if (case downcast_io e of None \<Rightarrow> False | Some io \<Rightarrow> io_error_kind io \<in> set transport_kinds)
      then Unavailable
      else if CauseElapsed \<in> set e then Unavailable
      else RejectedFailure)"

datatype bind_fault = BindFailed | BindTimedOut

definition bind_fault :: "anyhow \<Rightarrow> bind_fault" where
  "bind_fault e =
     (if (\<exists>c \<in> set e. case c of CauseIo io \<Rightarrow> missed_deadline io | _ \<Rightarrow> False)
      then BindTimedOut else BindFailed)"

lemma from_io_simps [simp]: "from_io (Inl e) = Inl [CauseIo e]" "from_io (Inr a) = Inr a"
  by (simp_all add: from_io_def)

lemma with_context_simps [simp]:
  "with_context c (Inl e) = Inl (c # e)" "with_context c (Inr a) = Inr a"
  by (simp_all add: with_context_def add_context_def)

lemma from_io_Inr [simp]: "from_io r = Inr a \<longleftrightarrow> r = Inr a"
  by (cases r) auto

lemma with_context_Inr [simp]: "with_context c r = Inr a \<longleftrightarrow> r = Inr a"
  by (cases r) auto

lemma bail_not_Inr [simp]: "bail m \<noteq> Inr a"
  by (simp add: bail_def)

text \<open>Context text never changes what a failure revokes, a rejection wins over every transport cause, and
  an error without evidence of a transport failure counts as a rejection.\<close>

theorem failure_kind_fails_closed:
  "failure_kind (add_context (CauseMessage m) e) = failure_kind e \<and>
   failure_kind (rejected e) = RejectedFailure \<and>
   failure_kind (add_context (CauseDenied d) e) = RejectedFailure \<and>
   failure_kind (unavailable m) = Unavailable \<and>
   (failure_kind e = Unavailable \<longrightarrow>
      (\<exists>c \<in> set e. c \<in> {CauseConnectFailed, CauseBootChanged, CauseElapsed} \<or>
         (\<exists>io. c = CauseIo io \<and> io_error_kind io \<in> set transport_kinds)))"
proof -
  have "downcast_io e = Some io \<Longrightarrow> CauseIo io \<in> set e" for io
    by (induction e rule: downcast_io.induct) auto
  then show ?thesis
    by (auto simp: failure_kind_def add_context_def rejected_def unavailable_def transport_kinds_def
        split: option.splits if_splits)
qed

theorem failure_kind_fails_closed_witness:
  "\<exists>c \<in> set [CauseMessage ''submit'', CauseIo (IoError TimedOut '''')].
     c \<in> {CauseConnectFailed, CauseBootChanged, CauseElapsed} \<or>
     (\<exists>io. c = CauseIo io \<and> io_error_kind io \<in> set transport_kinds)"
proof -
  have "failure_kind [CauseMessage ''submit'', CauseIo (IoError TimedOut '''')] = Unavailable"
    by (simp add: failure_kind_def transport_kinds_def)
  then show ?thesis using failure_kind_fails_closed [THEN conjunct2, THEN conjunct2, THEN conjunct2, THEN conjunct2]
    by blast
qed

end
