(* ===== verification/Vip_Effects.thy ===== *)
theory Vip_Effects
  imports Ip_Text Error_Chain "HOL-Library.Product_Lexorder" "HOL-Library.List_Lexorder" "HOL-Library.Char_ord"
begin

text \<open>
  The kernel commands of the VIP path: the \<open>ip\<close> invocations and how a failed deletion is checked
  (\<open>src/vip/effects.rs\<close>), and the ownership markers that let a restarted process find what a crashed
  one left attached (\<open>src/vip/ownership.rs\<close>). What a command answers is an argument. \<open>serde_json\<close>
  is the pair of arguments that decode the interface list and the route list; of a JSON number the
  program only asks \<open>as_u64\<close>.
\<close>

subsection \<open>Budgets\<close>

definition IP_COMMAND_TIMEOUT :: duration where
  "IP_COMMAND_TIMEOUT = from_millis 250"

definition IP_OUTPUT_BUDGET :: duration where
  "IP_OUTPUT_BUDGET =
     dur_saturating_add (dur_saturating_add IP_COMMAND_TIMEOUT PROCESS_REAP_TIMEOUT) OUTPUT_DRAIN_TIMEOUT"

definition DELETE_BUDGET :: duration where
  "DELETE_BUDGET =
     dur_saturating_add (dur_saturating_add IP_COMMAND_TIMEOUT PROCESS_REAP_TIMEOUT) IP_OUTPUT_BUDGET"

definition SHUTDOWN_UNBIND_ATTEMPTS :: nat where
  "SHUTDOWN_UNBIND_ATTEMPTS = 3"

definition SHUTDOWN_VIP_BUDGET :: duration where
  "SHUTDOWN_VIP_BUDGET = dur_saturating_mul DELETE_BUDGET (2 * of_nat SHUTDOWN_UNBIND_ATTEMPTS)"

definition VIP_MARKER_ROUTE_TABLE_BASE :: u16 where
  "VIP_MARKER_ROUTE_TABLE_BASE = 10000"

subsection \<open>Commands\<close>

definition marker_route_table :: "u8 \<Rightarrow> string" where
  "marker_route_table protocol = dec_fmt (unat (VIP_MARKER_ROUTE_TABLE_BASE + ucast protocol))"

fun ip_family :: "ip_addr \<Rightarrow> string" where
  "ip_family (V4 _) = ''-4''"
| "ip_family (V6 _) = ''-6''"

definition cidr :: "ip_addr \<Rightarrow> nat \<Rightarrow> string" where
  "cidr ip prefix = ip_display ip @ ''/'' @ dec_fmt prefix"

definition bind_command_arguments :: "ip_addr \<Rightarrow> u8 \<Rightarrow> string \<Rightarrow> string list" where
  "bind_command_arguments ip prefix iface =
     [ip_family ip, ''addr'', ''replace'', cidr ip (unat prefix), ''dev'', iface] @
     (if is_ipv4 ip then [] else [''nodad'', ''preferred_lft'', ''0''])"

definition delete_command :: "ip_addr \<Rightarrow> u8 \<Rightarrow> string \<Rightarrow> string list" where
  "delete_command ip prefix iface =
     [''ip'', ip_family ip, ''addr'', ''del'', cidr ip (unat prefix), ''dev'', iface]"

definition presence_probe_target :: "ip_addr \<Rightarrow> u8 \<Rightarrow> string" where
  "presence_probe_target ip _ = ip_display ip"

definition presence_probe_command :: "ip_addr \<Rightarrow> u8 \<Rightarrow> string list" where
  "presence_probe_command ip prefix =
     [''ip'', ip_family ip, ''-o'', ''addr'', ''show'', ''to'', presence_probe_target ip prefix]"

definition marker_route_arguments :: "string \<Rightarrow> ip_addr \<Rightarrow> u8 \<Rightarrow> string list" where
  "marker_route_arguments operation ip protocol =
     [ip_family ip, ''route'', operation, ''table'', marker_route_table protocol, ''throw'',
      cidr ip (if is_ipv4 ip then 32 else 128), ''proto'', dec_fmt (unat protocol)]"

definition marker_route_replace_arguments :: "ip_addr \<Rightarrow> u8 \<Rightarrow> string list" where
  "marker_route_replace_arguments = marker_route_arguments ''replace''"

definition marker_route_delete_arguments :: "ip_addr \<Rightarrow> u8 \<Rightarrow> string list" where
  "marker_route_delete_arguments = marker_route_arguments ''del''"

definition marker_route_probe_arguments :: "ip_addr \<Rightarrow> string list" where
  "marker_route_probe_arguments ip =
     [''-N'', ''-j'', ip_family ip, ''route'', ''show'', ''table'', ''all'']"

subsection \<open>Verified deletion\<close>

datatype delete_outcome = Deleted | AlreadyAbsent

definition ensure_failed_delete_is_absent :: "exit_status \<Rightarrow> process_output io \<Rightarrow> unit anyhow_result" where
  "ensure_failed_delete_is_absent status probe =
     (case probe of
        Inl _ \<Rightarrow> bail ''ip addr del failed and presence verification could not run''
      | Inr out \<Rightarrow>
          if \<not> exit_success (out_status out)
          then bail ''ip addr del failed and presence verification failed''
          else if out_stdout out \<noteq> [] then bail ''ip addr del failed and the address is still present''
          else Inr ())"

definition verify_delete_result :: "exit_status \<Rightarrow> process_output io \<Rightarrow> delete_outcome anyhow_result" where
  "verify_delete_result status probe =
     (if exit_success status then Inr Deleted
      else rbind (ensure_failed_delete_is_absent status probe) (\<lambda>_. Inr AlreadyAbsent))"

subsection \<open>Kernel state as JSON\<close>

datatype json_value = JNumber "u64 option" | JString string | JOther

record address_info =
  ai_family :: "string option"
  ai_local :: "string option"
  ai_prefixlen :: "u8 option"
  ai_protocol :: "json_value option"

record interface_addresses =
  if_name :: string
  if_addr_info :: "address_info list"

record marker_route_info =
  mr_dst :: "string option"
  mr_table :: "json_value option"
  mr_protocol :: "json_value option"
  mr_route_type :: "json_value option"

definition strip_0x :: "string \<Rightarrow> string option" where
  "strip_0x s = (if take 2 s = ''0x'' then Some (drop 2 s) else None)"

definition parse_kernel_number :: "nat \<Rightarrow> string \<Rightarrow> nat option" where
  "parse_kernel_number bound s =
     (case Option.bind (strip_0x s) (parse_unsigned bound 16) of
        Some v \<Rightarrow> Some v
      | None \<Rightarrow> parse_unsigned bound 10 s)"

definition is_keepafloatd_protocol :: "json_value option \<Rightarrow> u8 \<Rightarrow> bool anyhow_result" where
  "is_keepafloatd_protocol v protocol =
     (case v of
        None \<Rightarrow> Inr False
      | Some (JNumber n) \<Rightarrow>
          (case n of
             None \<Rightarrow> bail ''kernel address protocol is not a u8''
           | Some x \<Rightarrow>
               if 255 < unat x then bail ''kernel address protocol is not a u8''
               else Inr (unat x = unat protocol))
      | Some (JString s) \<Rightarrow> Inr (parse_kernel_number 256 s = Some (unat protocol))
      | Some JOther \<Rightarrow> bail ''kernel address protocol has an unsupported JSON type'')"

definition numeric_kernel_value :: "json_value option \<Rightarrow> u64 option anyhow_result" where
  "numeric_kernel_value v =
     (case v of
        None \<Rightarrow> Inr None
      | Some JOther \<Rightarrow> bail ''kernel value has an unsupported JSON type''
      | Some (JNumber n) \<Rightarrow>
          (case n of None \<Rightarrow> bail ''kernel value is not an unsigned integer'' | Some x \<Rightarrow> Inr (Some x))
      | Some (JString s) \<Rightarrow>
          (case parse_kernel_number (2 ^ 64) s of
             None \<Rightarrow> bail ''kernel value is not an unsigned integer''
           | Some x \<Rightarrow> Inr (Some (of_nat x))))"

definition is_throw_route :: "json_value option \<Rightarrow> bool" where
  "is_throw_route v =
     (v = Some (JNumber (Some 9)) \<or> v = Some (JString ''throw'') \<or> v = Some (JString ''9''))"

subsection \<open>Address inventory\<close>

type_synonym inventory = "(ip_addr \<times> string, vip_addr \<times> string) btree_map"

text \<open>One address of one interface: the body of the inner loop.\<close>

definition inventory_address ::
  "u8 \<Rightarrow> string \<Rightarrow> address_info \<Rightarrow> inventory \<times> inventory \<Rightarrow> (inventory \<times> inventory) anyhow_result" where
  "inventory_address protocol ifname info acc =
     rbind (is_keepafloatd_protocol (ai_protocol info) protocol) (\<lambda>marked.
       case (ai_local info, ai_family info, ai_prefixlen info) of
         (Some loc, Some family, Some prefixlen) \<Rightarrow>
           (case ip_parse loc of
              None \<Rightarrow> bail ''kernel address is not a valid IP''
            | Some address \<Rightarrow>
                if family \<noteq> (if is_ipv4 address then ''inet'' else ''inet6'')
                then bail ''kernel address has inconsistent family''
                else if (if is_ipv4 address then 32 else 128) < unat prefixlen
                then bail ''kernel address has an invalid prefix''
                else let target = (\<lparr>vip_ip = address, vip_prefix = prefixlen\<rparr>, ifname);
                         key = (address, ifname)
                     in Inr (bm_insert key target (fst acc),
                             if marked then bm_insert key target (snd acc) else snd acc))
       | _ \<Rightarrow> if marked then bail ''marked address is missing identity fields'' else Inr acc)"

fun inventory_addresses ::
  "u8 \<Rightarrow> string \<Rightarrow> address_info list \<Rightarrow> inventory \<times> inventory \<Rightarrow> (inventory \<times> inventory) anyhow_result" where
  "inventory_addresses protocol ifname [] acc = Inr acc"
| "inventory_addresses protocol ifname (info # infos) acc =
     rbind (inventory_address protocol ifname info acc) (inventory_addresses protocol ifname infos)"

fun inventory_interfaces ::
  "u8 \<Rightarrow> interface_addresses list \<Rightarrow> inventory \<times> inventory \<Rightarrow> (inventory \<times> inventory) anyhow_result" where
  "inventory_interfaces protocol [] acc = Inr acc"
| "inventory_interfaces protocol (i # is) acc =
     (if if_name i = [] then bail ''kernel address has an empty interface name''
      else rbind (inventory_addresses protocol (if_name i) (if_addr_info i) acc)
             (inventory_interfaces protocol is))"

definition parse_address_inventory ::
  "(u8 list \<Rightarrow> interface_addresses list option) \<Rightarrow> u8 list \<Rightarrow> u8 \<Rightarrow> (inventory \<times> inventory) anyhow_result" where
  "parse_address_inventory decode json protocol =
     (case decode json of
        None \<Rightarrow> bail ''parse `ip -j addr show`''
      | Some interfaces \<Rightarrow> inventory_interfaces protocol interfaces (bm_empty, bm_empty))"

subsection \<open>Marker routes\<close>

text \<open>One route: \<open>None\<close> when it is not one of this instance's markers.\<close>

definition marker_route :: "u8 \<Rightarrow> bool \<Rightarrow> marker_route_info \<Rightarrow> ip_addr option anyhow_result" where
  "marker_route protocol ipv6 route =
     rbind (numeric_kernel_value (mr_table route)) (\<lambda>table.
       if table \<noteq> Some (sat_add (ucast VIP_MARKER_ROUTE_TABLE_BASE) (ucast protocol)) then Inr None
       else rbind (is_keepafloatd_protocol (mr_protocol route) protocol) (\<lambda>ours.
         if \<not> ours then Inr None
         else (case mr_dst route of
                 None \<Rightarrow> bail ''marked route is missing its destination''
               | Some destination \<Rightarrow>
                   if \<not> is_throw_route (mr_route_type route)
                   then bail ''marked route is not an inert throw route''
                   else let (address_text, prefix) =
                          (case split_once CHR ''/'' destination of
                             None \<Rightarrow> (destination, None)
                           | Some (a, p) \<Rightarrow> (a, Some p))
                        in (case ip_parse address_text of
                              None \<Rightarrow> bail ''marked route is not a valid IP''
                            | Some address \<Rightarrow>
                                if (\<not> is_ipv4 address) \<noteq> ipv6
                                then bail ''marked route has the wrong address family''
                                else (case prefix of
                                        None \<Rightarrow> Inr (Some address)
                                      | Some p \<Rightarrow>
                                          (case parse_unsigned 256 10 p of
                                             None \<Rightarrow> bail ''marked route has an invalid prefix''
                                           | Some n \<Rightarrow>
                                               if n \<noteq> (if ipv6 then 128 else 32)
                                               then bail ''marked route is not a host route''
                                               else Inr (Some address)))))))"

fun marker_routes ::
  "u8 \<Rightarrow> bool \<Rightarrow> marker_route_info list \<Rightarrow> (ip_addr, ip_addr) btree_map \<Rightarrow>
   (ip_addr, ip_addr) btree_map anyhow_result" where
  "marker_routes protocol ipv6 [] marked = Inr marked"
| "marker_routes protocol ipv6 (r # rs) marked =
     rbind (marker_route protocol ipv6 r) (\<lambda>found.
       marker_routes protocol ipv6 rs
         (case found of None \<Rightarrow> marked | Some a \<Rightarrow> bm_insert a a marked))"

definition parse_marker_routes ::
  "(u8 list \<Rightarrow> marker_route_info list option) \<Rightarrow> u8 list \<Rightarrow> u8 \<Rightarrow> bool \<Rightarrow> ip_addr list anyhow_result" where
  "parse_marker_routes decode json protocol ipv6 =
     (case decode json of
        None \<Rightarrow> bail ''parse ownership marker routes''
      | Some routes \<Rightarrow>
          rbind (marker_routes protocol ipv6 routes bm_empty) (\<lambda>marked. Inr (bm_values marked)))"

subsection \<open>Discovery\<close>

record ownership_discovery =
  od_addresses :: vip_table
  od_marker_routes :: "ip_addr list"

text \<open>The loop that claims the address behind each marker.\<close>

fun claim_marked :: "inventory \<Rightarrow> ip_addr list \<Rightarrow> inventory \<Rightarrow> inventory anyhow_result" where
  "claim_marked addresses [] owned = Inr owned"
| "claim_marked addresses (a # as) owned =
     (case filter (\<lambda>((candidate, _), _). candidate = a) (entries addresses) of
        [] \<Rightarrow> claim_marked addresses as owned
      | [(key, target)] \<Rightarrow> claim_marked addresses as (bm_insert key target owned)
      | _ \<Rightarrow> bail ''marked address is attached to multiple interfaces'')"

definition parse_ownership_discovery ::
  "(u8 list \<Rightarrow> interface_addresses list option) \<Rightarrow> (u8 list \<Rightarrow> marker_route_info list option) \<Rightarrow>
   u8 list \<Rightarrow> u8 list \<Rightarrow> u8 list \<Rightarrow> u8 \<Rightarrow> ownership_discovery anyhow_result" where
  "parse_ownership_discovery decode_if decode_routes address_json ipv4_json ipv6_json protocol =
     rbind (parse_address_inventory decode_if address_json protocol) (\<lambda>(addresses, owned).
     rbind (parse_marker_routes decode_routes ipv4_json protocol False) (\<lambda>routes4.
     rbind (parse_marker_routes decode_routes ipv6_json protocol True) (\<lambda>routes6.
       let routes = remdups_adj (sort (routes4 @ routes6))
       in rbind (claim_marked addresses routes owned) (\<lambda>owned'.
            Inr \<lparr>od_addresses = bm_values owned', od_marker_routes = routes\<rparr>))))"

definition ensure_discovery_succeeded :: "process_output \<Rightarrow> unit anyhow_result" where
  "ensure_discovery_succeeded out =
     (if exit_success (out_status out) then Inr () else bail ''discovery command failed'')"

definition parse_discovery_outputs ::
  "(u8 list \<Rightarrow> interface_addresses list option) \<Rightarrow> (u8 list \<Rightarrow> marker_route_info list option) \<Rightarrow>
   process_output \<Rightarrow> process_output \<Rightarrow> process_output \<Rightarrow> u8 \<Rightarrow> ownership_discovery anyhow_result" where
  "parse_discovery_outputs decode_if decode_routes addresses ipv4 ipv6 protocol =
     rbind (ensure_discovery_succeeded addresses) (\<lambda>_.
     rbind (ensure_discovery_succeeded ipv4) (\<lambda>_.
     rbind (ensure_discovery_succeeded ipv6) (\<lambda>_.
       parse_ownership_discovery decode_if decode_routes
         (out_stdout addresses) (out_stdout ipv4) (out_stdout ipv6) protocol)))"

definition failed_marker_delete_is_absent ::
  "(u8 list \<Rightarrow> marker_route_info list option) \<Rightarrow> process_output \<Rightarrow> ip_addr \<Rightarrow> u8 \<Rightarrow> bool anyhow_result" where
  "failed_marker_delete_is_absent decode out address protocol =
     rbind (ensure_discovery_succeeded out) (\<lambda>_.
     rbind (parse_marker_routes decode (out_stdout out) protocol (\<not> is_ipv4 address)) (\<lambda>markers.
       Inr (address \<notin> set markers)))"

definition merge_cleanup_targets :: "vip_table \<Rightarrow> vip_table \<Rightarrow> vip_table" where
  "merge_cleanup_targets configured discovered =
     bm_values (fold (\<lambda>(vip, iface). bm_insert (vip_ip vip, iface) (vip, iface)) (configured @ discovered) bm_empty)"

subsection \<open>The marker of one instance\<close>

definition marker_replace :: "exit_status io \<Rightarrow> unit anyhow_result" where
  "marker_replace status =
     rbind (with_context (CauseMessage ''VIP operation=marker_replace'') (from_io status)) (\<lambda>st.
       if exit_success st then Inr () else bail ''ip route marker replace failed'')"

definition marker_delete ::
  "(u8 list \<Rightarrow> marker_route_info list option) \<Rightarrow> exit_status io \<Rightarrow> process_output io \<Rightarrow> ip_addr \<Rightarrow> u8 \<Rightarrow>
   unit anyhow_result" where
  "marker_delete decode status probe address protocol =
     rbind (from_io status) (\<lambda>st.
       if exit_success st then Inr ()
       else rbind (from_io probe) (\<lambda>out.
         case failed_marker_delete_is_absent decode out address protocol of
           Inl _ \<Rightarrow> bail ''ip route marker del failed and presence verification failed''
         | Inr absent \<Rightarrow>
             if absent then Inr () else bail ''ip route marker del failed and the marker is still present''))"

definition remove_after_failed_first_bind ::
  "process_output io \<Rightarrow> unit anyhow_result \<Rightarrow> unit anyhow_result" where
  "remove_after_failed_first_bind probe deletion =
     (case probe of
        Inl _ \<Rightarrow> bail ''address absence could not be proven, ownership marker retained''
      | Inr out \<Rightarrow>
          if exit_success (out_status out) \<and> out_stdout out = []
          then (case deletion of
                  Inl _ \<Rightarrow> bail ''address is absent but ownership marker cleanup failed''
                | Inr _ \<Rightarrow> Inr ())
          else bail ''address absence could not be proven, ownership marker retained'')"

subsection \<open>What discovery claims\<close>

text \<open>The entry that a marker makes of an address: the attached one where there is one.\<close>

definition claimed :: "inventory \<Rightarrow> ip_addr set \<Rightarrow> inventory \<Rightarrow> ip_addr \<times> string \<Rightarrow> (vip_addr \<times> string) option" where
  "claimed addresses routes owned k =
     (if fst k \<in> routes \<and> bm_get addresses k \<noteq> None then bm_get addresses k else bm_get owned k)"

lemma matches_unique:
  assumes "filter (\<lambda>((candidate, _), _). candidate = a) (entries addresses) = [(key, target)]"
  shows "bm_get addresses (a, i) = (if (a, i) = key then Some target else None) \<and> fst key = a"
proof -
  have mem: "((a, i), t) \<in> set (entries addresses) \<longleftrightarrow> ((a, i), t) = (key, target)" for i t
  proof -
    have "((a, i), t) \<in> set (entries addresses) \<longleftrightarrow>
        ((a, i), t) \<in> set (filter (\<lambda>((candidate, _), _). candidate = a) (entries addresses))" by simp
    then show ?thesis by (simp add: assms)
  qed
  have "(key, target) \<in> set (filter (\<lambda>((candidate, _), _). candidate = a) (entries addresses))"
    by (simp add: assms)
  then have "fst key = a" by (auto split: prod.splits)
  moreover have "bm_get addresses (a, i) = Some t \<longleftrightarrow> (a, i) = key \<and> t = target" for t
    using mem [of i t] by (simp add: in_entries_iff)
  ultimately show ?thesis by (cases "bm_get addresses (a, i)") auto
qed

lemma matches_none:
  assumes "filter (\<lambda>((candidate, _), _). candidate = a) (entries addresses) = []"
  shows "bm_get addresses (a, i) = None"
proof (rule ccontr)
  assume "bm_get addresses (a, i) \<noteq> None"
  then obtain t where "((a, i), t) \<in> set (entries addresses)" by (auto simp: in_entries_iff)
  then have "((a, i), t) \<in> set (filter (\<lambda>((candidate, _), _). candidate = a) (entries addresses))" by simp
  then show False by (simp add: assms)
qed

lemma claim_marked_get:
  "claim_marked addresses as owned = Inr owned' \<Longrightarrow> bm_get owned' k = claimed addresses (set as) owned k"
proof (induction addresses as owned arbitrary: owned' rule: claim_marked.induct)
  case (2 addresses a as owned)
  obtain b i where k: "k = (b, i)" by fastforce
  show ?case
  proof (cases "filter (\<lambda>((candidate, _), _). candidate = a) (entries addresses)")
    case Nil
    with 2 have "bm_get owned' k = claimed addresses (set as) owned k" by simp
    then show ?thesis using matches_none [OF Nil, of i] k by (auto simp: claimed_def)
  next
    case (Cons m ms)
    obtain key target where m: "m = (key, target)" by (cases m) blast
    have ms: "ms = []" using 2(3) Cons m by (cases ms) auto
    with 2 Cons m have "bm_get owned' k = claimed addresses (set as) (bm_insert key target owned) k"
      by simp
    then show ?thesis using matches_unique [of a addresses key target i] Cons m ms k
      by (cases target) (auto simp: claimed_def split: if_splits)
  qed
qed (simp add: claimed_def)

definition target_key :: "vip_addr \<times> string \<Rightarrow> ip_addr \<times> string" where
  "target_key t = (vip_ip (fst t), snd t)"

lemma case_option_id: "(case x of None \<Rightarrow> None | Some t \<Rightarrow> Some t) = x"
  by (cases x) auto

lemma find_Some_holds: "find P xs = Some x \<Longrightarrow> P x"
  by (induction xs) (auto split: if_splits)

lemma fold_targets_get:
  "bm_get (fold (\<lambda>(vip, iface). bm_insert (vip_ip vip, iface) (vip, iface)) ts m) k =
     (case find (\<lambda>t. target_key t = k) (rev ts) of None \<Rightarrow> bm_get m k | Some t \<Rightarrow> Some t)"
  by (induction ts rule: rev_induct) (auto simp: target_key_def)

subsection \<open>Properties\<close>

text \<open>Startup discovery claims exactly what this instance owns: an address on an interface is a cleanup
  target if and only if it carries the instance's protocol or one of the instance's marker routes
  names it, with the prefix the kernel reports.\<close>

theorem discovery_claims_owned:
  assumes "parse_ownership_discovery di dr aj j4 j6 protocol = Inr d"
    "parse_address_inventory di aj protocol = Inr (addresses, owned)"
  shows "t \<in> set (od_addresses d) \<longleftrightarrow>
    (\<exists>a i. (if a \<in> set (od_marker_routes d) \<and> bm_get addresses (a, i) \<noteq> None
            then bm_get addresses (a, i) else bm_get owned (a, i)) = Some t)"
proof -
  obtain r4 r6 owned' where "claim_marked addresses (remdups_adj (sort (r4 @ r6))) owned = Inr owned'"
    "d = \<lparr>od_addresses = bm_values owned', od_marker_routes = remdups_adj (sort (r4 @ r6))\<rparr>"
    using assms by (auto simp: parse_ownership_discovery_def Let_def)
  then show ?thesis
    using claim_marked_get [of addresses _ owned owned']
    by (auto simp: set_bm_values ran_def claimed_def)
qed

definition ex_decode_if :: "u8 list \<Rightarrow> interface_addresses list option" where
  "ex_decode_if json = (if json = [1] then
     Some [\<lparr>if_name = ''eth0'', if_addr_info =
       [\<lparr>ai_family = Some ''inet'', ai_local = Some ''10.0.0.1'', ai_prefixlen = Some 24, ai_protocol = None\<rparr>]\<rparr>]
     else None)"

definition ex_decode_routes :: "u8 list \<Rightarrow> marker_route_info list option" where
  "ex_decode_routes json = (if json = [1] then
     Some [\<lparr>mr_dst = Some ''10.0.0.1'', mr_table = Some (JNumber (Some 10245)),
            mr_protocol = Some (JString ''245''), mr_route_type = Some (JString ''throw'')\<rparr>]
     else Some [])"

lemma ex_ip_parse: "ip_parse ''10.0.0.1'' = Some (V4 167772161)"
proof -
  have "read_octets 4 0 ''10.0.0.1'' = Some ([10, 0, 0, 1], [])"
    unfolding numeral_nat
    by (simp add: read_separator_def read_given_char_def read_number_def to_digit_def undigits_def)
  then show ?thesis by (simp add: ip_parse_def read_ipv4_addr_def undigits_def)
qed

lemma ex_inventory:
  "parse_address_inventory ex_decode_if [1] 245 =
     Inr (bm_insert (V4 167772161, ''eth0'') (\<lparr>vip_ip = V4 167772161, vip_prefix = 24\<rparr>, ''eth0'') bm_empty, bm_empty)"
  by (simp add: parse_address_inventory_def ex_decode_if_def inventory_address_def
      is_keepafloatd_protocol_def ex_ip_parse Let_def)

lemma ex_marker: "parse_marker_routes ex_decode_routes [1] 245 False = Inr [V4 167772161]"
  by (simp add: parse_marker_routes_def ex_decode_routes_def marker_route_def numeric_kernel_value_def
      VIP_MARKER_ROUTE_TABLE_BASE_def sat_add_def is_keepafloatd_protocol_def parse_kernel_number_def
      strip_0x_def parse_unsigned_def to_digit_def undigits_def is_throw_route_def split_once_def
      ex_ip_parse Let_def map_eval)

theorem discovery_claims_owned_witness:
  "parse_ownership_discovery ex_decode_if ex_decode_routes [1] [1] [] 245 =
     Inr \<lparr>od_addresses = [(\<lparr>vip_ip = V4 167772161, vip_prefix = 24\<rparr>, ''eth0'')], od_marker_routes = [V4 167772161]\<rparr> \<and>
   (\<lparr>vip_ip = V4 167772161, vip_prefix = 24\<rparr>, ''eth0'') \<in> {(\<lparr>vip_ip = V4 167772161, vip_prefix = 24\<rparr>, ''eth0'')}"
proof -
  have d: "parse_ownership_discovery ex_decode_if ex_decode_routes [1] [1] [] 245 =
     Inr \<lparr>od_addresses = [(\<lparr>vip_ip = V4 167772161, vip_prefix = 24\<rparr>, ''eth0'')], od_marker_routes = [V4 167772161]\<rparr>"
    by (simp add: parse_ownership_discovery_def ex_inventory ex_marker Let_def map_eval)
       (simp add: parse_marker_routes_def ex_decode_routes_def map_eval)
  then show ?thesis
    using discovery_claims_owned [OF d ex_inventory, of "(\<lparr>vip_ip = V4 167772161, vip_prefix = 24\<rparr>, ''eth0'')"]
    by auto
qed

text \<open>The cleanup list has one entry for each address and interface: the last discovered one, else the
  last configured one, so the prefix that is really attached wins over an edited configuration.\<close>

theorem cleanup_targets_merge:
  "(t \<in> set (merge_cleanup_targets configured discovered) \<longleftrightarrow>
      find (\<lambda>u. target_key u = target_key t) (rev discovered @ rev configured) = Some t) \<and>
   distinct (map target_key (merge_cleanup_targets configured discovered))"
proof -
  define m where "m = fold (\<lambda>(vip, iface). bm_insert (vip_ip vip, iface) (vip, iface)) (configured @ discovered) bm_empty"
  have get: "bm_get m k = find (\<lambda>u. target_key u = k) (rev discovered @ rev configured)" for k
    unfolding m_def fold_targets_get by (simp only: rev_append bm_get_empty case_option_id)
  have key: "target_key u = k" if "bm_get m k = Some u" for k u
    using find_Some_holds [OF that [unfolded get]] .
  have "map target_key (bm_values m) = bm_keys m"
    unfolding bm_values_def bm_keys_def map_map
    by (rule map_cong [OF refl]) (use key in \<open>force simp: in_entries_iff\<close>)
  then have "distinct (map target_key (bm_values m))" by (simp add: bm_keys_def)
  moreover have "t \<in> set (bm_values m) \<longleftrightarrow> (\<exists>k. bm_get m k = Some t)"
    by (simp add: set_bm_values ran_def)
  then have "t \<in> set (bm_values m) \<longleftrightarrow> bm_get m (target_key t) = Some t"
    using key by blast
  ultimately show ?thesis unfolding merge_cleanup_targets_def m_def [symmetric] get by blast
qed

end
