(* ===== verification/Kaf_Interfaces.thy ===== *)
theory Kaf_Interfaces
  imports Kaf_Prelude
begin

text \<open>
  The contracts that several components share, as locales: a transition system with an invariant, a
  transition system whose permission ends for good, quorums that meet, and lease durations that keep
  their order under bounded clock drift. The component theories interpret them on their own
  definitions and take the lemmas from there.
\<close>

subsection \<open>Invariants of transition systems\<close>

locale step_system =
  fixes initial :: "'s \<Rightarrow> bool"
    and step :: "'s \<Rightarrow> 's \<Rightarrow> bool"
    and inv :: "'s \<Rightarrow> bool"
  assumes inv_initial: "initial s \<Longrightarrow> inv s"
    and inv_step: "step s s' \<Longrightarrow> inv s \<Longrightarrow> inv s'"
begin

lemma run_inv:
  assumes "step\<^sup>*\<^sup>* s s'" "inv s"
  shows "inv s'"
  using assms by (induction rule: rtranclp_induct) (auto intro: inv_step)

lemma reachable_inv: "initial s \<Longrightarrow> step\<^sup>*\<^sup>* s s' \<Longrightarrow> inv s'"
  using inv_initial run_inv by blast

end

text \<open>A permission that can be read off the state, and states in which it has ended for good.\<close>

locale terminal_permission =
  fixes step :: "'s \<Rightarrow> 's \<Rightarrow> bool"
    and ended :: "'s \<Rightarrow> bool"
    and granted :: "'s \<Rightarrow> bool"
  assumes ended_step: "step s s' \<Longrightarrow> ended s \<Longrightarrow> ended s'"
    and ended_not_granted: "ended s \<Longrightarrow> \<not> granted s"
begin

lemma ended_run:
  assumes "step\<^sup>*\<^sup>* s s'" "ended s"
  shows "ended s'"
  using assms by (induction rule: rtranclp_induct) (auto intro: ended_step)

lemma never_granted_again: "step\<^sup>*\<^sup>* s s' \<Longrightarrow> ended s \<Longrightarrow> \<not> granted s'"
  using ended_run ended_not_granted by blast

end

subsection \<open>Quorums\<close>

locale quorum_system =
  fixes quorum :: "'m set \<Rightarrow> bool"
  assumes quorums_meet: "quorum A \<Longrightarrow> quorum B \<Longrightarrow> A \<inter> B \<noteq> {}"
begin

lemma common_member:
  assumes "quorum A" "quorum B"
  obtains m where "m \<in> A" "m \<in> B"
  using quorums_meet [OF assms] by blast

end

definition majority_of :: "'m set \<Rightarrow> 'm set \<Rightarrow> bool" where
  "majority_of C A = (finite C \<and> A \<subseteq> C \<and> card C div 2 < card A)"

interpretation majority: quorum_system "majority_of C" for C :: "'m set"
  by unfold_locales (metis majority_of_def majorities_meet)

subsection \<open>Leases under clock drift\<close>

text \<open>
  Every runtime reads its own monotonic clock. \<open>clk r t\<close> is the reading of runtime \<open>r\<close> at time \<open>t\<close>;
  over any span of time no clock advances more than twice as far as another.
\<close>

definition drift_bounded :: "('r \<Rightarrow> nat \<Rightarrow> instant) \<Rightarrow> bool" where
  "drift_bounded clk =
     (\<forall>r r' s t. s \<le> t \<longrightarrow> clk r s \<le> clk r t \<and> clk r t - clk r s \<le> 2 * (clk r' t - clk r' s))"

lemma drift_mono: "drift_bounded clk \<Longrightarrow> s \<le> t \<Longrightarrow> clk r s \<le> clk r t"
  by (simp add: drift_bounded_def)

lemma drift_elapsed:
  "drift_bounded clk \<Longrightarrow> s \<le> t \<Longrightarrow> clk r t - clk r s \<le> 2 * (clk r' t - clk r' s)"
  by (auto simp: drift_bounded_def)

lemma drift_identity [simp]: "drift_bounded (\<lambda>_ t. t)"
  by (simp add: drift_bounded_def)

locale lease_contract =
  fixes valid :: "'t \<Rightarrow> bool"
    and consumer :: "'t \<Rightarrow> duration"
    and issuer :: "'t \<Rightarrow> duration"
    and restart :: "'t \<Rightarrow> duration"
  assumes consumer_positive: "valid l \<Longrightarrow> 0 < consumer l"
    and issuer_covers: "valid l \<Longrightarrow> 2 * consumer l \<le> issuer l"
    and restart_covers: "valid l \<Longrightarrow> 2 * issuer l \<le> restart l"
begin

text \<open>A grantor that has waited out its reservation knows that the lease it granted has ended.\<close>

lemma issuer_outlasts_consumer:
  assumes "drift_bounded clk" "valid l" "started \<le> granted" "granted \<le> t"
    and waited: "clk i granted + issuer l \<le> clk i t"
  shows "clk c started + consumer l \<le> clk c t"
proof -
  have "2 * consumer l \<le> clk i t - clk i granted"
    using issuer_covers [OF assms(2)] waited by linarith
  also have "\<dots> \<le> 2 * (clk c t - clk c granted)" using assms by (intro drift_elapsed)
  finally show ?thesis
    using drift_mono [OF assms(1,3), of c] drift_mono [OF assms(1,4), of c] by linarith
qed

text \<open>A rebooted grantor that has waited out its quarantine knows the same of its earlier boots.\<close>

lemma restart_outlasts_issuer:
  assumes "drift_bounded clk" "valid l" "granted \<le> booted" "booted \<le> t"
    and waited: "clk b booted + restart l \<le> clk b t"
  shows "clk i granted + issuer l \<le> clk i t"
proof -
  have "2 * issuer l \<le> clk b t - clk b booted"
    using restart_covers [OF assms(2)] waited by linarith
  also have "\<dots> \<le> 2 * (clk i t - clk i booted)" using assms by (intro drift_elapsed)
  finally show ?thesis
    using drift_mono [OF assms(1,3), of i] drift_mono [OF assms(1,4), of i] by linarith
qed

lemma restart_outlasts_consumer:
  assumes "drift_bounded clk" "valid l" "started \<le> granted" "granted \<le> booted" "booted \<le> t"
    and "clk b booted + restart l \<le> clk b t"
  shows "clk c started + consumer l \<le> clk c t"
  using issuer_outlasts_consumer [OF assms(1,2,3), of t c c]
    restart_outlasts_issuer [OF assms(1,2,4,5,6), of c] assms(4,5) by simp

end

end
