(* ===== verification/Local_Vip.thy ===== *)
theory Local_Vip
  imports Vip_Effects Kaf_Interfaces
begin

text \<open>
  The addresses of this host (\<open>LocalVip\<close> of \<open>src/vip.rs\<close>, startup reclamation of
  \<open>src/vip/startup.rs\<close>) and the worker of an address (\<open>src/vip/reconcile/worker.rs\<close>). Binding and
  unbinding are asynchronous: the caller may be cancelled at every \<open>await\<close>. Each is therefore a machine
  whose points are its awaits, the locks of the three tracking sets included, and whose steps are the
  code between two of them; what an await returns (an authorization, a lock, the outcome of a command) is
  the input of the step. A cancelled call is a run that stops at a point. The awaits inside an
  authorization check or inside a command with its verification are one point, since nothing of this
  state is read or written between them.

  \<open>attached\<close> below is the ghost of the address itself: it may be on the interface from the moment an
  \<open>ip addr replace\<close> is started until its absence is established.
\<close>

subsection \<open>Tracking\<close>

record local_vip =
  bound :: "ip_addr set"
  pending_first_bind :: "ip_addr set"
  needs_recleanup :: "ip_addr set"
  lv_dry_run :: bool

definition new_local_vip :: "bool \<Rightarrow> local_vip" where
  "new_local_vip dry = \<lparr>bound = {}, pending_first_bind = {}, needs_recleanup = {}, lv_dry_run = dry\<rparr>"

definition should_clear_tracking_after_bind_failure :: "bool \<Rightarrow> bool" where
  "should_clear_tracking_after_bind_failure first_bind = first_bind"

definition is_confirmed_bound :: "ip_addr \<Rightarrow> local_vip \<Rightarrow> bool" where
  "is_confirmed_bound ip lv = (ip \<in> bound lv \<and> ip \<notin> pending_first_bind lv)"

definition needs_another_delete :: "ip_addr \<Rightarrow> local_vip \<Rightarrow> bool" where
  "needs_another_delete ip lv = (ip \<in> needs_recleanup lv)"

subsection \<open>Binding\<close>

text \<open>The flags are \<open>was_pending\<close> and \<open>first_bind\<close>; the errors are the ones to return after the tracking is
  cleared. \<open>BindReplacing\<close> is the only point at which an address command runs.\<close>

datatype bind_point =
    BindEntered
  | BindReadingPending
  | BindReadingBound
  | BindExamined bool bool
  | BindTracking bool bool
  | BindTrackingPending bool
  | BindRecorded bool bool
  | BindMarking bool bool
  | BindRepending anyhow
  | BindMarked bool
  | BindReplacing bool
  | BindRemoving anyhow
  | BindUntracking anyhow
  | BindUnpending anyhow
  | BindFinishing bool
  | BindWaiting bool
  | BindReturned "bool option anyhow_result"

text \<open>\<open>Contended\<close>: the authorization was given, but another task holds the lock that \<open>try_write\<close> asks for.\<close>

datatype bind_input =
    Authorized bool
  | Contended
  | LockTaken
  | MarkerReplaced "unit anyhow_result"
  | AddressReplaced "exit_status io"
  | FailedBindCleaned "unit anyhow_result"

text \<open>After a failed marker: an input or output error leaves the tracking in place.\<close>

definition after_marker_failure :: "bool \<Rightarrow> bool \<Rightarrow> anyhow \<Rightarrow> bind_point" where
  "after_marker_failure was_pending first_bind e =
     (if should_clear_tracking_after_bind_failure first_bind
      then if was_pending \<or> downcast_io e \<noteq> None then BindRepending e else BindUntracking e
      else BindReturned (Inl e))"

definition address_error :: "exit_status io \<Rightarrow> anyhow option" where
  "address_error r =
     (case r of
        Inr status \<Rightarrow> if exit_success status then None else Some [CauseMessage ''ip addr replace failed'']
      | Inl e \<Rightarrow> Some (add_context (CauseMessage ''VIP operation=address_replace'') [CauseIo e]))"

text \<open>One turn of the loop of \<open>finish_bind\<close> with the last lines of \<open>bind_kernel\<close>.\<close>

definition finish_bind :: "ip_addr \<Rightarrow> bool \<Rightarrow> bool \<Rightarrow> bool \<Rightarrow> local_vip \<Rightarrow> bind_point \<times> local_vip" where
  "finish_bind ip first_bind authorized contended lv =
     (if \<not> authorized then (BindReturned (Inr None), lv)
      else if \<not> first_bind then (BindReturned (Inr (Some first_bind)), lv)
      else if contended then (BindWaiting first_bind, lv)
      else (BindReturned (Inr (Some first_bind)),
            lv\<lparr>pending_first_bind := pending_first_bind lv - {ip}\<rparr>))"

fun bind_kernel :: "ip_addr \<Rightarrow> bind_input \<Rightarrow> bind_point \<times> local_vip \<Rightarrow> bind_point \<times> local_vip" where
  "bind_kernel ip i (BindEntered, lv) =
     (case i of
        Authorized ok \<Rightarrow> (if ok then BindReadingPending else BindReturned (Inr None), lv)
      | _ \<Rightarrow> (BindEntered, lv))"
| "bind_kernel ip i (BindReadingPending, lv) =
     (case i of
        LockTaken \<Rightarrow> (if ip \<in> pending_first_bind lv then BindExamined True True else BindReadingBound, lv)
      | _ \<Rightarrow> (BindReadingPending, lv))"
| "bind_kernel ip i (BindReadingBound, lv) =
     (case i of
        LockTaken \<Rightarrow> (BindExamined False (ip \<notin> bound lv), lv)
      | _ \<Rightarrow> (BindReadingBound, lv))"
| "bind_kernel ip i (BindExamined was_pending first_bind, lv) =
     (case i of
        Authorized ok \<Rightarrow> (if ok then BindTracking was_pending first_bind else BindReturned (Inr None), lv)
      | _ \<Rightarrow> (BindExamined was_pending first_bind, lv))"
| "bind_kernel ip i (BindTracking was_pending first_bind, lv) =
     (case i of
        LockTaken \<Rightarrow> (if first_bind then BindTrackingPending was_pending else BindRecorded was_pending first_bind,
          lv\<lparr>bound := insert ip (bound lv)\<rparr>)
      | _ \<Rightarrow> (BindTracking was_pending first_bind, lv))"
| "bind_kernel ip i (BindTrackingPending was_pending, lv) =
     (case i of
        LockTaken \<Rightarrow> (BindRecorded was_pending True, lv\<lparr>pending_first_bind := insert ip (pending_first_bind lv)\<rparr>)
      | _ \<Rightarrow> (BindTrackingPending was_pending, lv))"
| "bind_kernel ip i (BindRecorded was_pending first_bind, lv) =
     (case i of
        Authorized ok \<Rightarrow> (if \<not> ok then BindReturned (Inr None)
          else if lv_dry_run lv then BindFinishing first_bind
          else BindMarking was_pending first_bind, lv)
      | _ \<Rightarrow> (BindRecorded was_pending first_bind, lv))"
| "bind_kernel ip i (BindMarking was_pending first_bind, lv) =
     (case i of
        MarkerReplaced r \<Rightarrow> (case r of Inl e \<Rightarrow> after_marker_failure was_pending first_bind e | Inr _ \<Rightarrow> BindMarked first_bind, lv)
      | _ \<Rightarrow> (BindMarking was_pending first_bind, lv))"
| "bind_kernel ip i (BindRepending e, lv) =
     (case i of
        LockTaken \<Rightarrow> (BindReturned (Inl e), lv\<lparr>pending_first_bind := insert ip (pending_first_bind lv)\<rparr>)
      | _ \<Rightarrow> (BindRepending e, lv))"
| "bind_kernel ip i (BindUntracking e, lv) =
     (case i of
        LockTaken \<Rightarrow> (BindUnpending e, lv\<lparr>bound := bound lv - {ip}\<rparr>)
      | _ \<Rightarrow> (BindUntracking e, lv))"
| "bind_kernel ip i (BindUnpending e, lv) =
     (case i of
        LockTaken \<Rightarrow> (BindReturned (Inl e), lv\<lparr>pending_first_bind := pending_first_bind lv - {ip}\<rparr>)
      | _ \<Rightarrow> (BindUnpending e, lv))"
| "bind_kernel ip i (BindMarked first_bind, lv) =
     (case i of
        Authorized ok \<Rightarrow> (if ok then BindReplacing first_bind else BindReturned (Inr None), lv)
      | _ \<Rightarrow> (BindMarked first_bind, lv))"
| "bind_kernel ip i (BindReplacing first_bind, lv) =
     (case i of
        AddressReplaced r \<Rightarrow> (case address_error r of
            None \<Rightarrow> BindFinishing first_bind
          | Some e \<Rightarrow>
              if should_clear_tracking_after_bind_failure first_bind then BindRemoving e else BindReturned (Inl e), lv)
      | _ \<Rightarrow> (BindReplacing first_bind, lv))"
| "bind_kernel ip i (BindRemoving e, lv) =
     (case i of
        FailedBindCleaned r \<Rightarrow> (case r of
            Inl _ \<Rightarrow> BindReturned (Inl (add_context (CauseMessage ''failed first-bind cleanup'') e))
          | Inr _ \<Rightarrow> BindUntracking e, lv)
      | _ \<Rightarrow> (BindRemoving e, lv))"
| "bind_kernel ip i (BindFinishing first_bind, lv) =
     (case i of
        Authorized ok \<Rightarrow> finish_bind ip first_bind ok False lv
      | Contended \<Rightarrow> finish_bind ip first_bind True True lv
      | _ \<Rightarrow> (BindFinishing first_bind, lv))"
| "bind_kernel ip i (BindWaiting first_bind, lv) =
     (case i of
        LockTaken \<Rightarrow> (BindFinishing first_bind, lv)
      | _ \<Rightarrow> (BindWaiting first_bind, lv))"
| "bind_kernel ip i (BindReturned r, lv) = (BindReturned r, lv)"

subsection \<open>Unbinding\<close>

text \<open>The flag is \<open>settled\<close>, taken on entry. The cleanup is recorded as owed only if it was not settled, and
  cleared only if it was.\<close>

datatype unbind_point =
    UnbindEntered
  | UnbindCancelling bool
  | UnbindReadingBound bool
  | UnbindReadingRecleanup bool
  | UnbindDeleting bool
  | UnbindMarker bool
  | UnbindRecording
  | UnbindUnbound bool
  | UnbindUnpending bool
  | UnbindClearing
  | UnbindReturned "unit anyhow_result"

datatype unbind_input =
    Settled bool
  | AddressDeleted "delete_outcome anyhow_result"
  | MarkerDeleted "unit anyhow_result"
  | Locked

definition after_deletion :: "bool \<Rightarrow> unbind_point" where
  "after_deletion settled = (if settled then UnbindUnbound settled else UnbindRecording)"

definition start_deletion :: "bool \<Rightarrow> local_vip \<Rightarrow> unbind_point" where
  "start_deletion settled lv = (if lv_dry_run lv then after_deletion settled else UnbindDeleting settled)"

fun unbind :: "ip_addr \<Rightarrow> unbind_input \<Rightarrow> unbind_point \<times> local_vip \<Rightarrow> unbind_point \<times> local_vip" where
  "unbind ip i (UnbindEntered, lv) =
     (case i of
        Settled s \<Rightarrow> (UnbindCancelling s, lv)
      | _ \<Rightarrow> (UnbindEntered, lv))"
| "unbind ip i (UnbindCancelling s, lv) =
     (case i of
        Locked \<Rightarrow> (UnbindReadingBound s, lv)
      | _ \<Rightarrow> (UnbindCancelling s, lv))"
| "unbind ip i (UnbindReadingBound s, lv) =
     (case i of
        Locked \<Rightarrow> (if ip \<in> bound lv then start_deletion s lv else UnbindReadingRecleanup s, lv)
      | _ \<Rightarrow> (UnbindReadingBound s, lv))"
| "unbind ip i (UnbindReadingRecleanup s, lv) =
     (case i of
        Locked \<Rightarrow> (if ip \<in> needs_recleanup lv then start_deletion s lv else UnbindReturned (Inr ()), lv)
      | _ \<Rightarrow> (UnbindReadingRecleanup s, lv))"
| "unbind ip i (UnbindDeleting s, lv) =
     (case i of
        AddressDeleted r \<Rightarrow> (case r of Inl e \<Rightarrow> UnbindReturned (Inl e) | Inr _ \<Rightarrow> UnbindMarker s, lv)
      | _ \<Rightarrow> (UnbindDeleting s, lv))"
| "unbind ip i (UnbindMarker s, lv) =
     (case i of
        MarkerDeleted r \<Rightarrow> (case r of Inl e \<Rightarrow> UnbindReturned (Inl e) | Inr _ \<Rightarrow> after_deletion s, lv)
      | _ \<Rightarrow> (UnbindMarker s, lv))"
| "unbind ip i (UnbindRecording, lv) =
     (case i of
        Locked \<Rightarrow> (UnbindUnbound False, lv\<lparr>needs_recleanup := insert ip (needs_recleanup lv)\<rparr>)
      | _ \<Rightarrow> (UnbindRecording, lv))"
| "unbind ip i (UnbindUnbound s, lv) =
     (case i of
        Locked \<Rightarrow> (UnbindUnpending s, lv\<lparr>bound := bound lv - {ip}\<rparr>)
      | _ \<Rightarrow> (UnbindUnbound s, lv))"
| "unbind ip i (UnbindUnpending s, lv) =
     (case i of
        Locked \<Rightarrow> (if s then UnbindClearing else UnbindReturned (Inr ()),
          lv\<lparr>pending_first_bind := pending_first_bind lv - {ip}\<rparr>)
      | _ \<Rightarrow> (UnbindUnpending s, lv))"
| "unbind ip i (UnbindClearing, lv) =
     (case i of
        Locked \<Rightarrow> (UnbindReturned (Inr ()), lv\<lparr>needs_recleanup := needs_recleanup lv - {ip}\<rparr>)
      | _ \<Rightarrow> (UnbindClearing, lv))"
| "unbind ip i (UnbindReturned r, lv) = (UnbindReturned r, lv)"

text \<open>The deletion an uncancelled call performs, from the command's and the probe's answer.\<close>

definition delete_address :: "exit_status io \<Rightarrow> process_output io \<Rightarrow> delete_outcome anyhow_result" where
  "delete_address status probe = rbind (from_io status) (\<lambda>st. verify_delete_result st probe)"

text \<open>A call that runs to its end on the given answers.\<close>

definition run_unbind ::
  "ip_addr \<Rightarrow> bool \<Rightarrow> delete_outcome anyhow_result \<Rightarrow> unit anyhow_result \<Rightarrow> local_vip \<Rightarrow>
   unbind_point \<times> local_vip" where
  "run_unbind ip settled deletion marker lv =
     fold (unbind ip)
       [Settled settled, Locked, Locked, Locked, AddressDeleted deletion, MarkerDeleted marker, Locked, Locked, Locked, Locked]
       (UnbindEntered, lv)"

text \<open>\<open>unbind_all\<close>: up to three attempts for each address; the attempts' answers are the arguments.\<close>

fun unbind_attempts ::
  "ip_addr \<Rightarrow> (bool \<times> delete_outcome anyhow_result \<times> unit anyhow_result) list \<Rightarrow> local_vip \<Rightarrow>
   bool \<times> local_vip" where
  "unbind_attempts ip [] lv = (False, lv)"
| "unbind_attempts ip ((settled, deletion, marker) # rest) lv =
     (case run_unbind ip settled deletion marker lv of
        (UnbindReturned (Inr _), lv') \<Rightarrow> (True, lv')
      | (_, lv') \<Rightarrow> unbind_attempts ip rest lv')"

fun unbind_all ::
  "(vip_addr \<times> (bool \<times> delete_outcome anyhow_result \<times> unit anyhow_result) list) list \<Rightarrow> local_vip \<Rightarrow>
   ip_addr list \<times> local_vip" where
  "unbind_all [] lv = ([], lv)"
| "unbind_all ((vip, answers) # rest) lv =
     (let (unbound, lv1) = unbind_attempts (vip_ip vip) (take SHUTDOWN_UNBIND_ATTEMPTS answers) lv;
          (failures, lv2) = unbind_all rest lv1
      in (if unbound then failures else vip_ip vip # failures, lv2))"

text \<open>Startup reclamation: what each delete command, its probe and each marker deletion answers.\<close>

fun reclaim :: "(exit_status io \<times> process_output io) list \<Rightarrow> vip_table \<Rightarrow> unit anyhow_result" where
  "reclaim ((status, probe) # rest) (_ # targets) =
     (case status of
        Inl _ \<Rightarrow> bail ''startup_cleanup: spawn ip del''
      | Inr st \<Rightarrow> rbind (verify_delete_result st probe) (\<lambda>_. reclaim rest targets))"
| "reclaim _ _ = Inr ()"

fun remove_markers :: "unit anyhow_result list \<Rightarrow> ip_addr list \<Rightarrow> unit anyhow_result" where
  "remove_markers (r # rest) (_ # ips) =
     (case r of
        Inl _ \<Rightarrow> bail ''startup_cleanup: remove ownership marker''
      | Inr _ \<Rightarrow> remove_markers rest ips)"
| "remove_markers _ _ = Inr ()"

definition startup_cleanup ::
  "bool \<Rightarrow> ownership_discovery anyhow_result \<Rightarrow> (vip_table \<Rightarrow> (exit_status io \<times> process_output io) list) \<Rightarrow>
   (ip_addr list \<Rightarrow> unit anyhow_result list) \<Rightarrow> vip_table \<Rightarrow> unit anyhow_result" where
  "startup_cleanup dry discovery deletions markers vips =
     (if dry then Inr ()
      else rbind discovery (\<lambda>found.
        let targets = merge_cleanup_targets vips (od_addresses found)
        in rbind (reclaim (deletions targets) targets) (\<lambda>_.
             remove_markers (markers (od_marker_routes found)) (od_marker_routes found))))"

subsection \<open>One address over time\<close>

text \<open>
  The worker of an address binds and unbinds it, one call at a time. It starts a bind only when no
  cleanup is needed, and after a bind that was cancelled, denied or failed a cleanup is needed unless an
  earlier completed binding (its witness) is retained. Workers of other addresses change the sets too,
  but not what they say about this address. \<open>loose\<close>: an abandoned \<open>ip addr replace\<close> that is not yet
  reaped. \<open>lost\<close>: one whose reap failed. The tracker reports settled only when there is neither.
  \<open>quiet\<close>: there was neither when the current unbind began, so nothing can put the address back behind
  its deletion.
\<close>

datatype vip_activity = Idle | Binding bind_point | Unbinding unbind_point

record vip_process =
  vp_local :: local_vip
  vp_activity :: vip_activity
  vp_cleanup_needed :: bool
  vp_witness :: bool
  vp_attached :: bool
  vp_loose :: bool
  vp_lost :: bool
  vp_quiet :: bool

text \<open>What the worker makes of the result of a bind, which is absent when the bind was cancelled:
  whether a cleanup is needed and whether there is a witness. \<open>completed\<close>: the new witness was made and
  the authorization is still live; \<open>can_retain\<close>: the old one may be retained. The fault that the worker
  records, its memory of generations and the announcements it sends do not touch these two flags.\<close>

definition bind_outcome :: "bool option anyhow_result option \<Rightarrow> bool \<Rightarrow> bool \<Rightarrow> bool \<times> bool \<Rightarrow> bool \<times> bool" where
  "bind_outcome result completed can_retain = (\<lambda>(cleanup_needed, witness).
     let retained = (witness \<and> can_retain) in
     case result of
       None \<Rightarrow> (\<not> retained, witness)
     | Some (Inl e) \<Rightarrow> (True, witness)
     | Some (Inr None) \<Rightarrow> (\<not> retained, witness)
     | Some (Inr (Some first_bind)) \<Rightarrow> if completed then (cleanup_needed, True) else (\<not> retained, witness))"

definition cleanup_outcome :: "ip_addr \<Rightarrow> unit anyhow_result \<Rightarrow> local_vip \<Rightarrow> bool" where
  "cleanup_outcome ip r lv = (case r of Inl _ \<Rightarrow> True | Inr _ \<Rightarrow> needs_another_delete ip lv)"

definition same_tracking :: "ip_addr \<Rightarrow> local_vip \<Rightarrow> local_vip \<Rightarrow> bool" where
  "same_tracking ip lv lv' \<longleftrightarrow>
     (ip \<in> bound lv' \<longleftrightarrow> ip \<in> bound lv) \<and> (ip \<in> pending_first_bind lv' \<longleftrightarrow> ip \<in> pending_first_bind lv) \<and>
     (ip \<in> needs_recleanup lv' \<longleftrightarrow> ip \<in> needs_recleanup lv) \<and> lv_dry_run lv' = lv_dry_run lv"

definition replacing :: "bind_point \<Rightarrow> bool" where
  "replacing b = (case b of BindReplacing _ \<Rightarrow> True | _ \<Rightarrow> False)"

inductive vip_step :: "ip_addr \<Rightarrow> vip_process \<Rightarrow> vip_process \<Rightarrow> bool" for ip :: ip_addr where
  others: "same_tracking ip (vp_local p) lv' \<Longrightarrow> vip_step ip p (p\<lparr>vp_local := lv'\<rparr>)"
| need_cleanup: "vp_activity p = Idle \<Longrightarrow> vip_step ip p (p\<lparr>vp_cleanup_needed := True\<rparr>)"
| start_bind: "vp_activity p = Idle \<Longrightarrow> \<not> vp_cleanup_needed p \<Longrightarrow>
    vip_step ip p (p\<lparr>vp_activity := Binding BindEntered\<rparr>)"
| bind: "vp_activity p = Binding b \<Longrightarrow> (\<forall>r. i \<noteq> AddressReplaced r) \<Longrightarrow> (\<forall>r. i \<noteq> FailedBindCleaned r) \<Longrightarrow>
    bind_kernel ip i (b, vp_local p) = (b', lv') \<Longrightarrow>
    vip_step ip p (p\<lparr>vp_activity := Binding b', vp_local := lv', vp_attached := (vp_attached p \<or> replacing b')\<rparr>)"
| replaced: "vp_activity p = Binding (BindReplacing fb) \<Longrightarrow>
    bind_kernel ip (AddressReplaced r) (BindReplacing fb, vp_local p) = (b', lv') \<Longrightarrow>
    (is_lost \<longrightarrow> \<not> (\<exists>st. r = Inr st)) \<Longrightarrow>
    vip_step ip p (p\<lparr>vp_activity := Binding b', vp_local := lv', vp_lost := (vp_lost p \<or> is_lost)\<rparr>)"
| bind_cleaned: "vp_activity p = Binding (BindRemoving e) \<Longrightarrow>
    bind_kernel ip (FailedBindCleaned r) (BindRemoving e, vp_local p) = (b', lv') \<Longrightarrow>
    vip_step ip p (p\<lparr>vp_activity := Binding b', vp_local := lv',
      vp_attached := (if r = Inr () then vp_loose p \<or> vp_lost p else vp_attached p)\<rparr>)"
| bind_returned: "vp_activity p = Binding (BindReturned r) \<Longrightarrow>
    bind_outcome (Some r) completed can_retain (vp_cleanup_needed p, vp_witness p) = (c', w') \<Longrightarrow>
    vip_step ip p (p\<lparr>vp_activity := Idle, vp_cleanup_needed := c', vp_witness := w'\<rparr>)"
| bind_cancelled: "vp_activity p = Binding b \<Longrightarrow>
    bind_outcome None completed can_retain (vp_cleanup_needed p, vp_witness p) = (c', w') \<Longrightarrow>
    vip_step ip p (p\<lparr>vp_activity := Idle, vp_cleanup_needed := c', vp_witness := w',
      vp_loose := (vp_loose p \<or> replacing b)\<rparr>)"
| reaped: "vp_loose p \<Longrightarrow> vip_step ip p (p\<lparr>vp_loose := False\<rparr>)"
| reap_failed: "vp_loose p \<Longrightarrow> vip_step ip p (p\<lparr>vp_lost := True\<rparr>)"
| start_unbind: "vp_activity p = Idle \<Longrightarrow> vp_cleanup_needed p \<Longrightarrow> (s \<longrightarrow> \<not> vp_loose p \<and> \<not> vp_lost p) \<Longrightarrow>
    unbind ip (Settled s) (UnbindEntered, vp_local p) = (u', lv') \<Longrightarrow>
    vip_step ip p (p\<lparr>vp_activity := Unbinding u', vp_local := lv', vp_witness := False,
      vp_quiet := (\<not> vp_loose p \<and> \<not> vp_lost p)\<rparr>)"
| unbind: "vp_activity p = Unbinding u \<Longrightarrow> (\<forall>r. i \<noteq> AddressDeleted r) \<Longrightarrow>
    unbind ip i (u, vp_local p) = (u', lv') \<Longrightarrow>
    vip_step ip p (p\<lparr>vp_activity := Unbinding u', vp_local := lv'\<rparr>)"
| deleted: "vp_activity p = Unbinding (UnbindDeleting s) \<Longrightarrow>
    unbind ip (AddressDeleted r) (UnbindDeleting s, vp_local p) = (u', lv') \<Longrightarrow>
    vip_step ip p (p\<lparr>vp_activity := Unbinding u', vp_local := lv',
      vp_attached := (if vp_quiet p \<and> is_ok r then False else vp_attached p)\<rparr>)"
| unbind_returned: "vp_activity p = Unbinding (UnbindReturned r) \<Longrightarrow>
    vip_step ip p (p\<lparr>vp_activity := Idle, vp_cleanup_needed := cleanup_outcome ip r (vp_local p)\<rparr>)"
| unbind_cancelled: "vp_activity p = Unbinding u \<Longrightarrow> vip_step ip p (p\<lparr>vp_activity := Idle\<rparr>)"

inductive_cases vip_stepE: "vip_step ip p p'"

definition vip_start :: "bool \<Rightarrow> vip_process" where
  "vip_start dry = \<lparr>vp_local = new_local_vip dry, vp_activity = Idle, vp_cleanup_needed = False, vp_witness = False,
                    vp_attached = False, vp_loose = False, vp_lost = False, vp_quiet = True\<rparr>"

subsection \<open>The invariant\<close>

definition tracked_ip :: "ip_addr \<Rightarrow> vip_process \<Rightarrow> bool" where
  "tracked_ip ip p = (ip \<in> bound (vp_local p) \<or> ip \<in> needs_recleanup (vp_local p))"

definition clean :: "vip_process \<Rightarrow> bool" where
  "clean p = (\<not> vp_attached p \<and> \<not> vp_loose p \<or> vp_lost p)"

text \<open>Tracked as a completed binding; and what a first bind may rely on.\<close>

definition confirmed :: "ip_addr \<Rightarrow> vip_process \<Rightarrow> bool" where
  "confirmed ip p = is_confirmed_bound ip (vp_local p)"

definition first_ok :: "vip_process \<Rightarrow> bool" where
  "first_ok p = (clean p \<and> \<not> vp_witness p)"

fun bind_ok :: "ip_addr \<Rightarrow> bind_point \<Rightarrow> vip_process \<Rightarrow> bool" where
  "bind_ok ip BindEntered p = (clean p \<or> confirmed ip p)"
| "bind_ok ip BindReadingPending p = (clean p \<or> confirmed ip p)"
| "bind_ok ip BindReadingBound p =
     (ip \<notin> pending_first_bind (vp_local p) \<and> (clean p \<or> ip \<in> bound (vp_local p)))"
| "bind_ok ip (BindExamined wp fb) p = (if fb then first_ok p else confirmed ip p)"
| "bind_ok ip (BindTracking wp fb) p = (if fb then first_ok p else confirmed ip p)"
| "bind_ok ip (BindTrackingPending wp) p = (ip \<in> bound (vp_local p) \<and> first_ok p)"
| "bind_ok ip (BindRecorded wp fb) p = (ip \<in> bound (vp_local p) \<and> (if fb then first_ok p else confirmed ip p))"
| "bind_ok ip (BindMarking wp fb) p =
     (ip \<in> bound (vp_local p) \<and> (if fb then first_ok p else confirmed ip p) \<and> \<not> lv_dry_run (vp_local p))"
| "bind_ok ip (BindRepending e) p = (ip \<in> bound (vp_local p) \<and> first_ok p)"
| "bind_ok ip (BindMarked fb) p =
     (ip \<in> bound (vp_local p) \<and> (if fb then first_ok p else confirmed ip p) \<and> \<not> lv_dry_run (vp_local p))"
| "bind_ok ip (BindReplacing fb) p =
     (ip \<in> bound (vp_local p) \<and> (if fb then (\<not> vp_loose p \<or> vp_lost p) \<and> \<not> vp_witness p else confirmed ip p) \<and>
      \<not> lv_dry_run (vp_local p))"
| "bind_ok ip (BindRemoving e) p =
     (ip \<in> bound (vp_local p) \<and> (\<not> vp_loose p \<or> vp_lost p) \<and> \<not> vp_witness p \<and> \<not> lv_dry_run (vp_local p))"
| "bind_ok ip (BindUntracking e) p = first_ok p"
| "bind_ok ip (BindUnpending e) p = first_ok p"
| "bind_ok ip (BindFinishing fb) p =
     (ip \<in> bound (vp_local p) \<and> (if fb then \<not> vp_witness p else confirmed ip p))"
| "bind_ok ip (BindWaiting fb) p =
     (ip \<in> bound (vp_local p) \<and> (if fb then \<not> vp_witness p else confirmed ip p))"
| "bind_ok ip (BindReturned r) p = ((\<exists>fb. r = Inr (Some fb)) \<longrightarrow> confirmed ip p)"

definition detached_if_quiet :: "bool \<Rightarrow> vip_process \<Rightarrow> bool" where
  "detached_if_quiet settled p = ((settled \<longrightarrow> vp_quiet p) \<and> (vp_quiet p \<longrightarrow> \<not> vp_attached p))"

fun unbind_ok :: "ip_addr \<Rightarrow> unbind_point \<Rightarrow> vip_process \<Rightarrow> bool" where
  "unbind_ok ip UnbindEntered p = False"
| "unbind_ok ip (UnbindCancelling s) p = (s \<longrightarrow> vp_quiet p)"
| "unbind_ok ip (UnbindReadingBound s) p = (s \<longrightarrow> vp_quiet p)"
| "unbind_ok ip (UnbindReadingRecleanup s) p = ((s \<longrightarrow> vp_quiet p) \<and> ip \<notin> bound (vp_local p))"
| "unbind_ok ip (UnbindDeleting s) p = ((s \<longrightarrow> vp_quiet p) \<and> tracked_ip ip p)"
| "unbind_ok ip (UnbindMarker s) p = (detached_if_quiet s p \<and> tracked_ip ip p)"
| "unbind_ok ip UnbindRecording p = (detached_if_quiet False p \<and> tracked_ip ip p)"
| "unbind_ok ip (UnbindUnbound s) p =
     (detached_if_quiet s p \<and> (\<not> s \<longrightarrow> ip \<in> needs_recleanup (vp_local p)))"
| "unbind_ok ip (UnbindUnpending s) p =
     (detached_if_quiet s p \<and> (\<not> s \<longrightarrow> ip \<in> needs_recleanup (vp_local p)))"
| "unbind_ok ip UnbindClearing p = detached_if_quiet True p"
| "unbind_ok ip (UnbindReturned r) p =
     (r = Inr () \<longrightarrow> detached_if_quiet False p \<and> (ip \<in> needs_recleanup (vp_local p) \<or> clean p))"

definition idle_ok :: "ip_addr \<Rightarrow> vip_process \<Rightarrow> bool" where
  "idle_ok ip p = (\<not> vp_cleanup_needed p \<longrightarrow> ip \<notin> needs_recleanup (vp_local p) \<and> (clean p \<or> confirmed ip p))"

definition witness_ok :: "ip_addr \<Rightarrow> vip_process \<Rightarrow> bool" where
  "witness_ok ip p = (vp_witness p \<longrightarrow> confirmed ip p \<and> ip \<notin> needs_recleanup (vp_local p))"

definition vip_ok :: "ip_addr \<Rightarrow> vip_process \<Rightarrow> bool" where
  "vip_ok ip p =
     ((vp_attached p \<or> vp_loose p \<longrightarrow> tracked_ip ip p \<or> vp_lost p) \<and>
      (lv_dry_run (vp_local p) \<longrightarrow> \<not> vp_attached p) \<and> witness_ok ip p \<and>
      (case vp_activity p of
         Idle \<Rightarrow> idle_ok ip p
       | Binding b \<Rightarrow> bind_ok ip b p \<and> ip \<notin> needs_recleanup (vp_local p) \<and> \<not> vp_cleanup_needed p
       | Unbinding u \<Rightarrow> unbind_ok ip u p \<and> (vp_quiet p \<longrightarrow> \<not> vp_loose p \<and> \<not> vp_lost p) \<and>
           vp_cleanup_needed p \<and> \<not> vp_witness p))"

lemmas vip_ok_defs = vip_ok_def tracked_ip_def clean_def confirmed_def is_confirmed_bound_def first_ok_def
  idle_ok_def witness_ok_def detached_if_quiet_def

lemma vip_ok_start: "vip_ok ip (vip_start dry)"
  by (simp add: vip_ok_defs vip_start_def new_local_vip_def)

lemmas bind_defs = replacing_def finish_bind_def after_marker_failure_def
  should_clear_tracking_after_bind_failure_def

text \<open>One step of a bind, of an unbind and of the ghosts; the cases of the step relation follow.\<close>

lemma vip_ok_bind:
  assumes "vip_ok ip p" "vp_activity p = Binding b" "\<forall>r. i \<noteq> AddressReplaced r"
    "\<forall>r. i \<noteq> FailedBindCleaned r" "bind_kernel ip i (b, vp_local p) = (b', lv')"
  shows "vip_ok ip (p\<lparr>vp_activity := Binding b', vp_local := lv', vp_attached := (vp_attached p \<or> replacing b')\<rparr>)"
proof -
  consider (auth) ok where "i = Authorized ok" | (marker) m where "i = MarkerReplaced m" | (cont) "i = Contended"
    | (lock) "i = LockTaken"
    using assms(3,4) by (cases i) auto
  then show ?thesis
  proof cases
    case auth
    show ?thesis using assms(1,2,5) unfolding auth
      by (cases b; clarsimp simp: vip_ok_defs bind_defs split: if_splits; blast)
  next
    case marker
    show ?thesis using assms(1,2,5) unfolding marker
      by (cases b; clarsimp simp: vip_ok_defs bind_defs split: if_splits sum.splits; blast)
  next
    case cont
    show ?thesis using assms(1,2,5) unfolding cont
      by (cases b; clarsimp simp: vip_ok_defs bind_defs split: if_splits; blast)
  next
    case lock
    show ?thesis using assms(1,2,5) unfolding lock
      by (cases b; clarsimp simp: vip_ok_defs bind_defs split: if_splits; blast)
  qed
qed

lemma vip_ok_unbind:
  assumes "vip_ok ip p" "vp_activity p = Unbinding u" "\<forall>r. i \<noteq> AddressDeleted r"
    "unbind ip i (u, vp_local p) = (u', lv')"
  shows "vip_ok ip (p\<lparr>vp_activity := Unbinding u', vp_local := lv'\<rparr>)"
proof -
  consider (settled) s where "i = Settled s" | (marker) m where "i = MarkerDeleted m" | (lock) "i = Locked"
    using assms(3) by (cases i) auto
  then show ?thesis
  proof cases
    case settled
    show ?thesis using assms(1,2,4) unfolding settled by (cases u; clarsimp simp: vip_ok_defs; blast)
  next
    case marker
    show ?thesis using assms(1,2,4) unfolding marker
      by (cases u; clarsimp simp: vip_ok_defs after_deletion_def split: sum.splits if_splits; blast)
  next
    case lock
    show ?thesis using assms(1,2,4) unfolding lock
      by (cases u; clarsimp simp: vip_ok_defs start_deletion_def after_deletion_def split: if_splits; blast)
  qed
qed

lemma bind_outcome_keeps:
  assumes "bind_outcome r completed can_retain (cleanup_needed, witness) = (c', w')"
  shows "(\<not> c' \<longrightarrow> w') \<and> (w' \<longrightarrow> witness \<or> (\<exists>fb. r = Some (Inr (Some fb))))"
  using assms by (auto simp: bind_outcome_def Let_def split: option.splits sum.splits if_splits)

lemma bind_ok_ghosts [intro]:
  "bind_ok ip b p \<Longrightarrow> bind_ok ip b (p\<lparr>vp_loose := False\<rparr>)"
  "bind_ok ip b p \<Longrightarrow> bind_ok ip b (p\<lparr>vp_lost := True\<rparr>)"
  by (cases b; auto simp: vip_ok_defs)+

lemma unbind_ok_ghosts [intro]:
  "unbind_ok ip u p \<Longrightarrow> unbind_ok ip u (p\<lparr>vp_loose := False\<rparr>)"
  "unbind_ok ip u p \<Longrightarrow> unbind_ok ip u (p\<lparr>vp_lost := True\<rparr>)"
  by (cases u; auto simp: vip_ok_defs)+

lemma vip_ok_ghosts:
  assumes "vip_ok ip p" "vp_loose p"
  shows "vip_ok ip (p\<lparr>vp_loose := False\<rparr>)" "vip_ok ip (p\<lparr>vp_lost := True\<rparr>)"
  using assms bind_ok_ghosts unbind_ok_ghosts
  by (cases "vp_activity p"; auto simp: vip_ok_defs)+

lemma vip_ok_others:
  assumes "vip_ok ip p" "same_tracking ip (vp_local p) lv'"
  shows "vip_ok ip (p\<lparr>vp_local := lv'\<rparr>)"
proof -
  have "bind_ok ip b (p\<lparr>vp_local := lv'\<rparr>) = bind_ok ip b p" "unbind_ok ip u (p\<lparr>vp_local := lv'\<rparr>) = unbind_ok ip u p" for b u
    using assms(2) by (cases b; cases u; simp add: vip_ok_defs same_tracking_def)+
  then show ?thesis
    using assms by (cases "vp_activity p"; simp add: vip_ok_defs same_tracking_def)
qed

lemma vip_ok_step:
  assumes "vip_step ip p p'" "vip_ok ip p"
  shows "vip_ok ip p'"
  using assms
proof (cases rule: vip_step.cases)
  case (others lv')
  then show ?thesis using vip_ok_others [OF assms(2)] by blast
next
  case (bind b i b' lv')
  then show ?thesis using vip_ok_bind [OF assms(2)] by blast
next
  case (unbind u i u' lv')
  then show ?thesis using vip_ok_unbind [OF assms(2)] by blast
next
  case (replaced fb r b' lv' is_lost)
  with assms(2) show ?thesis by (clarsimp simp: vip_ok_defs bind_defs split: option.splits if_splits; blast)
next
  case (bind_cleaned e r b' lv')
  with assms(2) show ?thesis by (clarsimp simp: vip_ok_defs bind_defs split: sum.splits if_splits; blast)
next
  case (bind_returned r completed can_retain c' w')
  with assms(2) bind_outcome_keeps [OF bind_returned(3)] show ?thesis by (auto simp: vip_ok_defs)
next
  case (bind_cancelled b completed can_retain c' w')
  with assms(2) bind_outcome_keeps [OF bind_cancelled(3)] show ?thesis
    by (cases b; auto simp: vip_ok_defs replacing_def)
next
  case (deleted s r u' lv')
  with assms(2) show ?thesis by (cases r; clarsimp simp: vip_ok_defs; blast)
next
  case (start_unbind s u' lv')
  with assms(2) show ?thesis by (clarsimp simp: vip_ok_defs)
next
  case (unbind_returned r)
  with assms(2) show ?thesis by (cases r) (auto simp: vip_ok_defs cleanup_outcome_def needs_another_delete_def)
next
  case reaped
  then show ?thesis using vip_ok_ghosts [OF assms(2)] by blast
next
  case reap_failed
  then show ?thesis using vip_ok_ghosts [OF assms(2)] by blast
qed (auto simp: vip_ok_defs)

interpretation tracking: step_system "\<lambda>p. \<exists>dry. p = vip_start dry" "vip_step ip" "vip_ok ip" for ip
  by unfold_locales (auto intro: vip_ok_start vip_ok_step)

lemma vip_ok_run: "(vip_step ip)\<^sup>*\<^sup>* (vip_start dry) p \<Longrightarrow> vip_ok ip p"
  by (rule tracking.reachable_inv) blast+

text \<open>The steps of a cleanup: everything but a new bind.\<close>

definition cleaning :: "vip_activity \<Rightarrow> bool" where
  "cleaning a = (case a of Binding _ \<Rightarrow> False | _ \<Rightarrow> True)"

definition cleanup_step :: "ip_addr \<Rightarrow> vip_process \<Rightarrow> vip_process \<Rightarrow> bool" where
  "cleanup_step ip p p' = (vip_step ip p p' \<and> cleaning (vp_activity p) \<and> cleaning (vp_activity p'))"

definition stays_quiet :: "vip_process \<Rightarrow> bool" where
  "stays_quiet p =
     (\<not> vp_loose p \<and> \<not> vp_lost p \<and> (case vp_activity p of Unbinding _ \<Rightarrow> vp_quiet p | _ \<Rightarrow> True))"

lemma stays_quiet_step:
  assumes "vip_step ip p p'" "cleaning (vp_activity p)" "cleaning (vp_activity p')" "stays_quiet p"
  shows "stays_quiet p'"
  using assms by (cases rule: vip_step.cases; simp add: stays_quiet_def cleaning_def split: vip_activity.splits)

lemma cleanup_run:
  "(cleanup_step ip)\<^sup>*\<^sup>* p p' \<Longrightarrow> vip_ok ip p \<Longrightarrow> stays_quiet p \<Longrightarrow> vip_ok ip p' \<and> stays_quiet p'"
proof (induction rule: rtranclp_induct)
  case (step q r)
  then show ?case using stays_quiet_step vip_ok_step unfolding cleanup_step_def by blast
qed simp

subsection \<open>Properties\<close>

text \<open>C32. No address is forgotten. At every moment of any sequence of binds and unbinds by the worker, each of
  which may be cancelled at any await, the locks of the tracking sets included, an address that may be
  attached to the interface, or that an abandoned command may still attach, is tracked for cleanup;
  the one exception is that a killed command could not be reaped, on which the daemon restarts and
  reclaims its addresses.\<close>

theorem attached_address_is_tracked:
  assumes "(vip_step ip)\<^sup>*\<^sup>* (vip_start dry) p" "vp_attached p \<or> vp_loose p"
  shows "ip \<in> bound (vp_local p) \<or> ip \<in> needs_recleanup (vp_local p) \<or> vp_lost p"
  using vip_ok_run [OF assms(1)] assms(2) by (simp add: vip_ok_def tracked_ip_def)

definition ex_process :: "local_vip \<Rightarrow> vip_activity \<Rightarrow> bool \<Rightarrow> bool \<Rightarrow> bool \<Rightarrow> vip_process" where
  "ex_process lv a needed witness attached =
     \<lparr>vp_local = lv, vp_activity = a, vp_cleanup_needed = needed, vp_witness = witness, vp_attached = attached,
      vp_loose = False, vp_lost = False, vp_quiet = True\<rparr>"

definition ex_local :: "ip_addr set \<Rightarrow> ip_addr set \<Rightarrow> local_vip" where
  "ex_local b pending = \<lparr>bound = b, pending_first_bind = pending, needs_recleanup = {}, lv_dry_run = False\<rparr>"

lemma ex_start: "vip_start False = ex_process (ex_local {} {}) Idle False False False"
  by (simp add: vip_start_def new_local_vip_def ex_process_def ex_local_def)

text \<open>A bind on given inputs as a run of the process.\<close>

lemma ex_binds:
  assumes "\<forall>i \<in> set is. (\<forall>r. i \<noteq> AddressReplaced r) \<and> (\<forall>r. i \<noteq> FailedBindCleaned r)"
    and "fold (bind_kernel ip) is (b, lv) = (b', lv')"
  shows "\<exists>att'. (vip_step ip)\<^sup>*\<^sup>* (ex_process lv (Binding b) c w att) (ex_process lv' (Binding b') c w att') \<and>
    (att \<longrightarrow> att') \<and> (is \<noteq> [] \<and> replacing b' \<longrightarrow> att')"
  using assms
proof (induction "is" arbitrary: b lv att)
  case (Cons i "is")
  obtain b1 lv1 where b1: "bind_kernel ip i (b, lv) = (b1, lv1)" by (metis prod.collapse)
  have "vip_step ip (ex_process lv (Binding b) c w att) (ex_process lv1 (Binding b1) c w (att \<or> replacing b1))"
    using vip_step.bind [of "ex_process lv (Binding b) c w att" b i ip b1 lv1] Cons.prems(1) b1 by (simp add: ex_process_def)
  moreover obtain att' where "(vip_step ip)\<^sup>*\<^sup>* (ex_process lv1 (Binding b1) c w (att \<or> replacing b1)) (ex_process lv' (Binding b') c w att')"
    "att \<or> replacing b1 \<longrightarrow> att'" "is \<noteq> [] \<and> replacing b' \<longrightarrow> att'"
    using Cons.IH [of b1 lv1 "att \<or> replacing b1"] Cons.prems b1 by auto
  moreover have "replacing b' \<longrightarrow> att'" using calculation(3,4) Cons.prems(2) b1 by (cases "is") auto
  ultimately show ?case by (meson converse_rtranclp_into_rtranclp)
qed auto

lemma ex_replacing:
  "(vip_step (V4 1))\<^sup>*\<^sup>* (vip_start False)
     (ex_process (ex_local {V4 1} {V4 1}) (Binding (BindReplacing True)) False False True)"
proof -
  let ?e = "ex_local {} {}" and ?t = "ex_local {V4 1} {V4 1}"
  have "vip_step (V4 1) (ex_process ?e Idle False False False) (ex_process ?e (Binding BindEntered) False False False)"
    using vip_step.start_bind [of "ex_process ?e Idle False False False" "V4 1"] by (simp add: ex_process_def)
  moreover have "fold (bind_kernel (V4 1))
      [Authorized True, LockTaken, LockTaken, Authorized True, LockTaken, LockTaken, Authorized True,
       MarkerReplaced (Inr ()), Authorized True] (BindEntered, ?e) = (BindReplacing True, ?t)"
    by (simp add: ex_local_def)
  from ex_binds [OF _ this, of False False False]
  have "(vip_step (V4 1))\<^sup>*\<^sup>* (ex_process ?e (Binding BindEntered) False False False)
      (ex_process ?t (Binding (BindReplacing True)) False False True)"
    by (auto simp: replacing_def)
  ultimately show ?thesis unfolding ex_start by (rule converse_rtranclp_into_rtranclp)
qed

theorem attached_address_is_tracked_witness:
  "vp_attached (ex_process (ex_local {V4 1} {V4 1}) (Binding (BindReplacing True)) False False True) \<and>
   (V4 1 \<in> bound (ex_local {V4 1} {V4 1}) \<or> V4 1 \<in> needs_recleanup (ex_local {V4 1} {V4 1}))"
  using attached_address_is_tracked [OF ex_replacing] by (simp add: ex_process_def)

text \<open>C31. A cleanup that began with every command settled and that reports success has removed the address:
  nothing is attached any more, so the release it permits is true.\<close>

theorem settled_unbind_detaches:
  assumes "(vip_step ip)\<^sup>*\<^sup>* (vip_start dry) p" "vp_activity p = Idle" "\<not> vp_loose p" "\<not> vp_lost p"
    "(cleanup_step ip)\<^sup>*\<^sup>* p p'" "vp_activity p' = Unbinding (UnbindReturned (Inr ()))"
  shows "\<not> vp_attached p'"
proof -
  have "stays_quiet p" using assms(2-4) by (simp add: stays_quiet_def)
  then have "vip_ok ip p'" "stays_quiet p'"
    using cleanup_run [OF assms(5) vip_ok_run [OF assms(1)]] by blast+
  then show ?thesis using assms(6) by (simp add: vip_ok_def stays_quiet_def detached_if_quiet_def)
qed

lemma ex_bound:
  "(vip_step (V4 1))\<^sup>*\<^sup>* (vip_start False) (ex_process (ex_local {V4 1} {}) Idle True True True)"
proof -
  let ?t = "ex_local {V4 1} {V4 1}" and ?b = "ex_local {V4 1} {}"
  have "vip_step (V4 1) (ex_process ?t (Binding (BindReplacing True)) False False True)
      (ex_process ?t (Binding (BindFinishing True)) False False True)"
    using vip_step.replaced [of "ex_process ?t (Binding (BindReplacing True)) False False True" True "V4 1" "Inr 0"
        "BindFinishing True" ?t False]
    by (simp add: ex_process_def address_error_def exit_success_def)
  moreover have "vip_step (V4 1) (ex_process ?t (Binding (BindFinishing True)) False False True)
      (ex_process ?b (Binding (BindReturned (Inr (Some True)))) False False True)"
    using vip_step.bind [of "ex_process ?t (Binding (BindFinishing True)) False False True" "BindFinishing True" "Authorized True" "V4 1"]
    by (simp add: ex_process_def finish_bind_def ex_local_def replacing_def)
  moreover have "vip_step (V4 1) (ex_process ?b (Binding (BindReturned (Inr (Some True)))) False False True)
      (ex_process ?b Idle False True True)"
    using vip_step.bind_returned [of "ex_process ?b (Binding (BindReturned (Inr (Some True)))) False False True" _ True False False True]
    by (simp add: ex_process_def bind_outcome_def Let_def)
  moreover have "vip_step (V4 1) (ex_process ?b Idle False True True) (ex_process ?b Idle True True True)"
    using vip_step.need_cleanup [of "ex_process ?b Idle False True True"] by (simp add: ex_process_def)
  ultimately show ?thesis using ex_replacing by (meson rtranclp.rtrancl_into_rtrancl)
qed

lemma ex_unbinds:
  assumes "\<forall>i \<in> set is. \<forall>r. i \<noteq> AddressDeleted r" "fold (unbind ip) is (u, lv) = (u', lv')"
  shows "(cleanup_step ip)\<^sup>*\<^sup>* (ex_process lv (Unbinding u) c w att) (ex_process lv' (Unbinding u') c w att)"
  using assms
proof (induction "is" arbitrary: u lv)
  case (Cons i "is")
  obtain u1 lv1 where u1: "unbind ip i (u, lv) = (u1, lv1)" by (metis prod.collapse)
  have "cleanup_step ip (ex_process lv (Unbinding u) c w att) (ex_process lv1 (Unbinding u1) c w att)"
    using vip_step.unbind [of "ex_process lv (Unbinding u) c w att" u i ip u1 lv1] Cons.prems(1) u1
    by (simp add: ex_process_def cleanup_step_def cleaning_def)
  then show ?case using Cons.IH [of u1 lv1] Cons.prems u1 by (simp add: converse_rtranclp_into_rtranclp)
qed simp

lemma ex_unbound:
  "(cleanup_step (V4 1))\<^sup>*\<^sup>* (ex_process (ex_local {V4 1} {}) Idle True True True)
     (ex_process (ex_local {} {}) (Unbinding (UnbindReturned (Inr ()))) True False False)"
proof -
  let ?b = "ex_local {V4 1} {}" and ?e = "ex_local {} {}"
  have "cleanup_step (V4 1) (ex_process ?b Idle True True True) (ex_process ?b (Unbinding (UnbindCancelling True)) True False True)"
    using vip_step.start_unbind [of "ex_process ?b Idle True True True" True "V4 1"]
    by (simp add: ex_process_def cleanup_step_def cleaning_def)
  moreover have "(cleanup_step (V4 1))\<^sup>*\<^sup>* (ex_process ?b (Unbinding (UnbindCancelling True)) True False True)
      (ex_process ?b (Unbinding (UnbindDeleting True)) True False True)"
    by (rule ex_unbinds [of "[Locked, Locked]"]) (simp_all add: ex_local_def start_deletion_def)
  moreover have "cleanup_step (V4 1) (ex_process ?b (Unbinding (UnbindDeleting True)) True False True)
      (ex_process ?b (Unbinding (UnbindMarker True)) True False False)"
    using vip_step.deleted [of "ex_process ?b (Unbinding (UnbindDeleting True)) True False True" True "V4 1" "Inr Deleted"]
    by (simp add: ex_process_def cleanup_step_def cleaning_def)
  moreover have "(cleanup_step (V4 1))\<^sup>*\<^sup>* (ex_process ?b (Unbinding (UnbindMarker True)) True False False)
      (ex_process ?e (Unbinding (UnbindReturned (Inr ()))) True False False)"
    by (rule ex_unbinds [of "[MarkerDeleted (Inr ()), Locked, Locked, Locked]"]) (simp_all add: ex_local_def after_deletion_def)
  ultimately show ?thesis by (meson converse_rtranclp_into_rtranclp rtranclp_trans)
qed

theorem settled_unbind_detaches_witness:
  "vp_attached (ex_process (ex_local {V4 1} {}) Idle True True True) \<and>
   \<not> vp_attached (ex_process (ex_local {} {}) (Unbinding (UnbindReturned (Inr ()))) True False False)"
  using settled_unbind_detaches [OF ex_bound _ _ _ ex_unbound] by (simp add: ex_process_def)

end
