(* ===== verification/Bind_Policy.thy ===== *)
theory Bind_Policy
  imports Vip_Effects State_Machine
begin

text \<open>
  The decisions of the reconcile loop: whether this node may bind or keep a VIP
  (\<open>src/bind_policy.rs\<close>), the local wait before a takeover without a release
  (\<open>src/vip/takeover.rs\<close>), whether an effect in flight still matches the applied state
  (\<open>src/vip/reconcile/intent.rs\<close>), and which releases are owed (\<open>src/vip/reconcile.rs\<close>,
  \<open>src/handoff.rs\<close>). A \<open>HashMap\<close> is a partial function; a reading of the clock is an argument.
\<close>

type_synonym ('k, 'v) hash_map = "'k \<Rightarrow> 'v option"

subsection \<open>Bind policy\<close>

record bind_gates =
  has_leader :: bool
  local_healthy :: bool
  consensus_fresh :: bool

definition all_open :: "bind_gates \<Rightarrow> bool" where
  "all_open g = (has_leader g \<and> local_healthy g \<and> consensus_fresh g)"

definition should_bind_or_keep_vip ::
  "bind_gates \<Rightarrow> u64 \<Rightarrow> vip_assignment option \<Rightarrow> (u64, u64) btree_map \<Rightarrow> u64 \<Rightarrow> u64 \<Rightarrow> u64 option \<Rightarrow> bool" where
  "should_bind_or_keep_vip gates node_id assignment ticks latest stale activated =
     (if \<not> all_open gates then False
      else case assignment of
             None \<Rightarrow> False
           | Some a \<Rightarrow>
               if holder a \<noteq> node_id \<or> latest < activation_tick a then False
               else if activated = Some (generation a) then True
               else (case previous_holder a of
                       None \<Rightarrow> True
                     | Some previous \<Rightarrow>
                         if previous_holder_released a then True
                         else \<not> is_node_probe_fresh previous ticks latest stale))"

definition should_bind_vip ::
  "bool \<Rightarrow> bool \<Rightarrow> bool \<Rightarrow> u64 \<Rightarrow> vip_assignment option \<Rightarrow> (u64, u64) btree_map \<Rightarrow> u64 \<Rightarrow> u64 \<Rightarrow> bool" where
  "should_bind_vip leader healthy fresh node_id assignment ticks latest stale =
     should_bind_or_keep_vip \<lparr>has_leader = leader, local_healthy = healthy, consensus_fresh = fresh\<rparr>
       node_id assignment ticks latest stale None"

definition unwrap_or_false :: "(u64, bool) btree_map \<Rightarrow> u64 \<Rightarrow> bool" where
  "unwrap_or_false m n = (case bm_get m n of None \<Rightarrow> False | Some b \<Rightarrow> b)"

definition binder_count_for_vip ::
  "bool \<Rightarrow> ip_addr \<Rightarrow> (ip_addr, vip_assignment) btree_map \<Rightarrow> u64 list \<Rightarrow> (u64, bool) btree_map \<Rightarrow>
   (u64, bool) btree_map \<Rightarrow> (u64, u64) btree_map \<Rightarrow> u64 \<Rightarrow> u64 \<Rightarrow> nat" where
  "binder_count_for_vip leader vip assignments peers healthy fresh ticks latest stale =
     (let assignment = bm_get assignments vip
      in length (filter (\<lambda>nid. should_bind_vip leader (unwrap_or_false healthy nid) (unwrap_or_false fresh nid)
                                  nid assignment ticks latest stale) peers))"

definition binder_count_for_vip_per_node_view ::
  "bool \<Rightarrow> ip_addr \<Rightarrow> (u64, (ip_addr, vip_assignment) btree_map) btree_map \<Rightarrow> u64 list \<Rightarrow>
   (u64, bool) btree_map \<Rightarrow> (u64, bool) btree_map \<Rightarrow> (u64, u64) btree_map \<Rightarrow> u64 \<Rightarrow> u64 \<Rightarrow> nat" where
  "binder_count_for_vip_per_node_view leader vip views peers healthy fresh ticks latest stale =
     length (filter (\<lambda>nid. should_bind_vip leader (unwrap_or_false healthy nid) (unwrap_or_false fresh nid) nid
                              (Option.bind (bm_get views nid) (\<lambda>m. bm_get m vip)) ticks latest stale) peers)"

subsection \<open>Takeover delay\<close>

record takeover_delay =
  td_lifetime :: duration
  td_waiting :: "(ip_addr, u64 \<times> u64 option \<times> instant) hash_map"

definition takeover_new :: "duration \<Rightarrow> takeover_delay" where
  "takeover_new lifetime = \<lparr>td_lifetime = lifetime, td_waiting = (\<lambda>_. None)\<rparr>"

text \<open>\<open>now\<close> is read when a wait is entered or restarted, \<open>later\<close> when it is measured.\<close>

definition takeover_ready ::
  "instant \<Rightarrow> instant \<Rightarrow> ip_addr \<Rightarrow> u64 \<Rightarrow> vip_assignment option \<Rightarrow> (u64, u64) btree_map \<Rightarrow> u64 \<Rightarrow> u64 \<Rightarrow>
   u64 option \<Rightarrow> takeover_delay \<Rightarrow> takeover_delay \<times> bool" where
  "takeover_ready now later vip node_id assignment ticks frontier stale activated d =
     (let removed = d\<lparr>td_waiting := (td_waiting d)(vip := None)\<rparr> in
      case (case assignment of Some a \<Rightarrow> if holder a = node_id then Some a else None | None \<Rightarrow> None) of
        None \<Rightarrow> (removed, False)
      | Some a \<Rightarrow>
          if activated = Some (generation a) \<or>
             (previous_holder a \<noteq> None \<and> previous_holder_released a) \<or>
             (previous_holder a = None \<and> generation a = 1)
          then (removed, True)
          else if (case previous_holder a of None \<Rightarrow> False
                   | Some previous \<Rightarrow> is_node_probe_fresh previous ticks frontier stale)
          then (removed, False)
          else let previous_tick = Option.bind (previous_holder a) (bm_get ticks);
                   pending = (case td_waiting d vip of
                                None \<Rightarrow> (generation a, previous_tick, now)
                              | Some w \<Rightarrow> w);
                   pending' = (if fst pending \<noteq> generation a \<or> fst (snd pending) \<noteq> previous_tick
                               then (generation a, previous_tick, now) else pending)
               in (d\<lparr>td_waiting := (td_waiting d)(vip \<mapsto> pending')\<rparr>,
                   td_lifetime d \<le> duration_since later (snd (snd pending'))))"

definition RECONCILE_TICK :: duration where
  "RECONCILE_TICK = from_millis 250"

lemma SHUTDOWN_VIP_BUDGET_value: "SHUTDOWN_VIP_BUDGET = 12000000000"
  by (simp add: SHUTDOWN_VIP_BUDGET_def DELETE_BUDGET_def IP_OUTPUT_BUDGET_def IP_COMMAND_TIMEOUT_def
      PROCESS_REAP_TIMEOUT_def OUTPUT_DRAIN_TIMEOUT_def SHUTDOWN_UNBIND_ATTEMPTS_def from_millis_def
      dur_saturating_add_def dur_saturating_mul_def duration_max_def)

lemma RECONCILE_TICK_value: "RECONCILE_TICK = 250000000"
  by (simp add: RECONCILE_TICK_def from_millis_def)

text \<open>\<open>u32::try_from\<close> of the number of VIPs.\<close>

definition takeover_lifetime :: "duration \<Rightarrow> nat \<Rightarrow> duration" where
  "takeover_lifetime proof_lifetime vip_count =
     (let cleanup_work = (if vip_count < 2 ^ 32
                          then dur_saturating_mul SHUTDOWN_VIP_BUDGET (of_nat vip_count) else duration_max)
      in dur_saturating_add proof_lifetime (dur_saturating_add RECONCILE_TICK cleanup_work))"

subsection \<open>Effects in flight\<close>

record effect_intent =
  intent_assignment :: "vip_assignment option"
  intent_bind_policy :: bool
  intent_vip :: ip_addr
  intent_node_id :: u64
  intent_gates :: bind_gates
  intent_activated_generation :: "u64 option"
  intent_previous_tick :: "u64 option"

definition intent_activated :: "effect_intent \<Rightarrow> effect_intent" where
  "intent_activated i =
     i\<lparr>intent_activated_generation := map_option generation (intent_assignment i)\<rparr>"

definition capture ::
  "ip_addr \<Rightarrow> u64 \<Rightarrow> bind_gates \<Rightarrow> kaf_storage_state \<Rightarrow> u64 option \<Rightarrow> effect_intent" where
  "capture vip node_id gates st activated =
     (let assignment = bm_get (vip_assignments st) vip in
      \<lparr>intent_assignment = assignment,
       intent_bind_policy = should_bind_or_keep_vip gates node_id assignment (node_probe_ticks st)
         (latest_probe_tick st) (stale_missed_probes st) activated,
       intent_vip = vip, intent_node_id = node_id, intent_gates = gates,
       intent_activated_generation = activated,
       intent_previous_tick =
         Option.bind (Option.bind assignment previous_holder) (bm_get (node_probe_ticks st))\<rparr>)"

definition expected_assignment :: "effect_intent \<Rightarrow> effect_intent \<Rightarrow> vip_assignment option" where
  "expected_assignment i current =
     (case intent_assignment i of
        None \<Rightarrow> None
      | Some a \<Rightarrow>
          if holder a = intent_node_id i \<and> intent_activated_generation i = Some (generation a) \<and>
             (case intent_assignment current of None \<Rightarrow> False | Some b \<Rightarrow> previous_holder_released b)
          then Some (a\<lparr>previous_holder_released := True\<rparr>) else Some a)"

definition waiting_for_predecessor :: "effect_intent \<Rightarrow> bool" where
  "waiting_for_predecessor i =
     (case intent_assignment i of
        None \<Rightarrow> False
      | Some a \<Rightarrow> holder a = intent_node_id i \<and> previous_holder a \<noteq> None \<and>
          \<not> previous_holder_released a \<and> intent_activated_generation i \<noteq> Some (generation a))"

definition remains_valid :: "effect_intent \<Rightarrow> kaf_storage_state \<Rightarrow> bind_gates \<Rightarrow> bool" where
  "remains_valid i st gates =
     (let current = capture (intent_vip i) (intent_node_id i) gates st (intent_activated_generation i) in
      if expected_assignment i current \<noteq> intent_assignment current \<or> intent_gates i \<noteq> gates \<or>
         intent_bind_policy i \<noteq> intent_bind_policy current
      then False
      else \<not> waiting_for_predecessor i \<or> intent_previous_tick i = intent_previous_tick current)"

subsection \<open>Releases\<close>

definition should_publish_release ::
  "vip_assignment \<Rightarrow> u64 \<Rightarrow> ip_addr \<Rightarrow> (ip_addr, u64) hash_map \<Rightarrow> bool \<Rightarrow> bool" where
  "should_publish_release a node_id vip released unbind_succeeded =
     (unbind_succeeded \<and> previous_holder a = Some node_id \<and> \<not> previous_holder_released a \<and>
      released vip \<noteq> Some (generation a))"

definition should_reannounce_after_release ::
  "vip_assignment \<Rightarrow> ip_addr \<Rightarrow> bool \<Rightarrow> (ip_addr, u64) hash_map \<Rightarrow> bool" where
  "should_reannounce_after_release a vip already_bound announced =
     (already_bound \<and> previous_holder a \<noteq> None \<and> previous_holder_released a \<and>
      announced vip \<noteq> Some (generation a))"

definition startup_effects_may_arm :: "bool \<Rightarrow> u64 option \<Rightarrow> u64 option \<Rightarrow> bool" where
  "startup_effects_may_arm leader last_applied cluster_committed =
     (if \<not> leader then False
      else case (last_applied, cluster_committed) of
             (Some applied, Some comm) \<Rightarrow> comm \<le> applied
           | _ \<Rightarrow> False)"

text \<open>The assignments in the order of their addresses, which is the order of the map.\<close>

definition pending_releases :: "kaf_storage_state \<Rightarrow> u64 \<Rightarrow> kaf_request list" where
  "pending_releases st node_id =
     map (\<lambda>(vip, a). VipReleased node_id vip (generation a))
       (filter (\<lambda>(_, a). previous_holder a = Some node_id \<and> \<not> previous_holder_released a)
          (entries (vip_assignments st)))"

end
