(* ===== verification/Bind_Properties.thy ===== *)
theory Bind_Properties
  imports Bind_Policy Example_Cluster
begin

text \<open>
  The properties of the bind decisions: one binder for one view, what a second binder under another
  view implies, the wait that a takeover without a release observes, the validity of effects in
  flight and the releases of a stopping node.
\<close>

subsection \<open>Who may bind\<close>

lemma bind_policy_holder:
  "should_bind_or_keep_vip g n asg ticks latest stale act \<Longrightarrow>
   \<exists>a. asg = Some a \<and> holder a = n \<and> activation_tick a \<le> latest \<and> all_open g"
  by (auto simp: should_bind_or_keep_vip_def split: option.splits if_splits)

lemma bind_policy_predecessor:
  "should_bind_or_keep_vip g n (Some a) ticks latest stale act \<Longrightarrow> act \<noteq> Some (generation a) \<Longrightarrow>
   previous_holder a = Some p \<Longrightarrow>
   previous_holder_released a \<or> \<not> is_node_probe_fresh p ticks latest stale"
  by (auto simp: should_bind_or_keep_vip_def split: if_splits)

lemma filter_unique_length: "distinct xs \<Longrightarrow> (\<And>x. x \<in> set xs \<Longrightarrow> P x \<Longrightarrow> x = h) \<Longrightarrow> length (filter P xs) \<le> 1"
proof (induction xs)
  case (Cons x xs)
  show ?case
  proof (cases "P x")
    case True
    then have "filter P xs = []" using Cons.prems by (auto simp: filter_empty_conv)
    then show ?thesis using True by simp
  next
    case False
    then show ?thesis using Cons by simp
  qed
qed simp

text \<open>When all nodes see the same committed assignments, at most one of them may bind a VIP, whatever their
  local health and freshness.\<close>

theorem one_binder_per_view:
  assumes "distinct peers"
  shows "binder_count_for_vip leader vip assignments peers healthy fresh ticks latest stale \<le> 1"
proof -
  have "n = (case bm_get assignments vip of None \<Rightarrow> 0 | Some a \<Rightarrow> holder a)"
    if "should_bind_vip leader h f n (bm_get assignments vip) ticks latest stale" for n h f
    using bind_policy_holder [OF that [unfolded should_bind_vip_def]] by auto
  then show ?thesis
    unfolding binder_count_for_vip_def Let_def by (intro filter_unique_length [OF assms])
qed

theorem one_binder_per_view_witness:
  "binder_count_for_vip True ex_vip (bm_insert ex_vip
      \<lparr>holder = 1, generation = 1, previous_holder = None, previous_holder_released = True, activation_tick = 1\<rparr>
      bm_empty) [1, 2] (bm_insert 1 True (bm_insert 2 True bm_empty))
      (bm_insert 1 True (bm_insert 2 True bm_empty)) bm_empty 3 2 \<le> 1"
  using one_binder_per_view [of "[1, 2]"] by simp

text \<open>C33. Nodes that are at different points of the log may both pass the bind policy for a VIP only across a
  fenced handoff: if the later view lets another node bind, the generation has grown, and unless that
  node had activated the generation before, its predecessor has released the VIP or is stale there.\<close>

theorem split_views_are_fenced:
  assumes "distinct (vip_ips (vip_list st))" "v \<in> set (vip_ips (vip_list st))" "fence_ok (fence_of st v)"
    "s = apply_log es st" "t = apply_log es' s"
    "should_bind_or_keep_vip g n (bm_get (vip_assignments s) v) (node_probe_ticks s)
       (latest_probe_tick s) (stale_missed_probes s) act"
    "should_bind_or_keep_vip g' m (bm_get (vip_assignments t) v) (node_probe_ticks t)
       (latest_probe_tick t) (stale_missed_probes t) act'"
    "m \<noteq> n"
  shows "\<exists>a b. bm_get (vip_assignments s) v = Some a \<and> bm_get (vip_assignments t) v = Some b \<and>
    (generation a = - 1 \<or>
     generation a < generation b \<and>
     (act' \<noteq> Some (generation b) \<longrightarrow>
      (\<exists>p. previous_holder b = Some p \<and>
         (previous_holder_released b \<or>
          \<not> is_node_probe_fresh p (node_probe_ticks t) (latest_probe_tick t) (stale_missed_probes t)))))"
proof -
  obtain a where a: "bm_get (vip_assignments s) v = Some a" "holder a = n"
    using bind_policy_holder [OF assms(6)] by blast
  obtain b where b: "bm_get (vip_assignments t) v = Some b" "holder b = m"
    using bind_policy_holder [OF assms(7)] by blast
  have list: "vip_list s = vip_list st"
    using same_config_log [of es st] assms(4) by (simp add: same_config_def)
  have run: "fence_run (fence_of s v) (fence_of t v)"
    using apply_log_fence_run [of s v es'] assms(1,2,5) list by simp
  have ok: "fence_ok (fence_of s v)" "fence_ok (fence_of t v)"
    using apply_log_fence_run [OF assms(1,2)] fence_run_ok [OF run] fence_run_ok assms(3,4) by blast+
  have gens: "generation a = f_generation (fence_of s v)" "generation b = f_generation (fence_of t v)"
    "f_generation (fence_of s v) \<noteq> 0"
    using ok a(1) b(1) by (simp_all add: fence_ok_def fence_of_def)
  have grown: "generation a < generation b" if "generation a \<noteq> - 1"
  proof (rule ccontr)
    assume "\<not> generation a < generation b"
    then have "f_generation (fence_of t v) = f_generation (fence_of s v)"
      using fence_run_mono [OF run] gens by simp
    then have "\<exists>c. f_assignment (fence_of s v) = Some c \<and> same_ownership c b"
      using fence_token [OF run, of b] that gens(1) b(1) by (simp add: fence_of_def)
    then have "same_ownership a b" using a(1) by (simp add: fence_of_def)
    then show False using a b assms(8) by (simp add: same_ownership_def)
  qed
  have "previous_holder b \<noteq> None" if "generation a < generation b"
  proof
    assume "previous_holder b = None"
    then have "generation b = 1" using ok(2) b(1) unfolding fence_ok_def by (simp add: fence_of_def) metis
    then have "unat (generation a) < 1" using that by (simp add: word_less_nat_alt)
    then have "generation a = 0" by (simp add: unat_eq_0 [symmetric])
    then show False using gens(1,3) by simp
  qed
  then have pred: "\<exists>p. previous_holder b = Some p \<and>
      (previous_holder_released b \<or>
       \<not> is_node_probe_fresh p (node_probe_ticks t) (latest_probe_tick t) (stale_missed_probes t))"
    if "generation a < generation b" "act' \<noteq> Some (generation b)"
    using that bind_policy_predecessor [OF assms(7) [unfolded b(1)] that(2)] by blast
  show ?thesis
    by (intro exI [of _ a] exI [of _ b] conjI a(1) b(1)) (use grown pred in blast)
qed

definition ex_open :: bind_gates where
  "ex_open = \<lparr>has_leader = True, local_healthy = True, consensus_fresh = True\<rparr>"

definition ex_handoff :: "log_entry list" where
  "ex_handoff = [ex_failure, ex_release, ex_entry 6 (Normal (HealthUpdate 2 True)),
                 ex_entry 7 (Normal (HealthUpdate 2 True))]"

definition ex_after :: kaf_storage_state where
  "ex_after = apply_log ex_handoff ex_placed"

lemma ex_placed_binds:
  "should_bind_or_keep_vip ex_open 1 (bm_get (vip_assignments ex_placed) ex_vip) (node_probe_ticks ex_placed)
     (latest_probe_tick ex_placed) (stale_missed_probes ex_placed) None"
  by code_simp

lemma ex_after_binds:
  "should_bind_or_keep_vip ex_open 2 (bm_get (vip_assignments ex_after) ex_vip) (node_probe_ticks ex_after)
     (latest_probe_tick ex_after) (stale_missed_probes ex_after) None"
  by code_simp

theorem split_views_are_fenced_witness:
  "\<exists>a b. bm_get (vip_assignments ex_placed) ex_vip = Some a \<and> bm_get (vip_assignments ex_after) ex_vip = Some b \<and>
    (generation a = - 1 \<or> generation a < generation b)"
  using split_views_are_fenced [OF _ _ ex_fences(1) ex_placed_def ex_after_def ex_placed_binds ex_after_binds]
    ex_vips_config by (simp, blast)

subsection \<open>The wait before a takeover\<close>

text \<open>One call of \<open>ready\<close>: the clock readings and the applied state it sees.\<close>

record takeover_obs =
  ob_now :: instant
  ob_later :: instant
  ob_assignment :: "vip_assignment option"
  ob_ticks :: "(u64, u64) btree_map"
  ob_frontier :: u64
  ob_stale :: u64
  ob_activated :: "u64 option"

definition observe :: "ip_addr \<Rightarrow> u64 \<Rightarrow> takeover_obs \<Rightarrow> takeover_delay \<Rightarrow> takeover_delay \<times> bool" where
  "observe vip node_id ob d =
     takeover_ready (ob_now ob) (ob_later ob) vip node_id (ob_assignment ob) (ob_ticks ob) (ob_frontier ob)
       (ob_stale ob) (ob_activated ob) d"

text \<open>The call sees an unreleased takeover of this generation from a stale holder with that last tick.\<close>

definition waits_for :: "u64 \<Rightarrow> u64 \<Rightarrow> u64 option \<Rightarrow> takeover_obs \<Rightarrow> bool" where
  "waits_for node_id g tick ob =
     (case ob_assignment ob of
        None \<Rightarrow> False
      | Some a \<Rightarrow>
          holder a = node_id \<and> generation a = g \<and> Option.bind (previous_holder a) (bm_get (ob_ticks ob)) = tick \<and>
          ob_activated ob \<noteq> Some g \<and> \<not> (previous_holder a \<noteq> None \<and> previous_holder_released a) \<and>
          \<not> (previous_holder a = None \<and> g = 1) \<and>
          (\<forall>p. previous_holder a = Some p \<longrightarrow>
             \<not> is_node_probe_fresh p (ob_ticks ob) (ob_frontier ob) (ob_stale ob)))"

lemma observe_waits:
  assumes "waits_for node_id g tick ob"
  shows "observe vip node_id ob d =
    (let w = (case td_waiting d vip of
                Some (g', tick', t) \<Rightarrow> if g' = g \<and> tick' = tick then (g, tick, t) else (g, tick, ob_now ob)
              | None \<Rightarrow> (g, tick, ob_now ob))
     in (d\<lparr>td_waiting := (td_waiting d)(vip \<mapsto> w)\<rparr>, td_lifetime d \<le> ob_later ob - snd (snd w)))"
proof -
  obtain a where a: "ob_assignment ob = Some a" "holder a = node_id" "generation a = g"
      "Option.bind (previous_holder a) (bm_get (ob_ticks ob)) = tick" and
    no: "\<not> (ob_activated ob = Some g \<or> previous_holder a \<noteq> None \<and> previous_holder_released a \<or>
         previous_holder a = None \<and> g = 1)"
      "\<not> (case previous_holder a of None \<Rightarrow> False
          | Some p \<Rightarrow> is_node_probe_fresh p (ob_ticks ob) (ob_frontier ob) (ob_stale ob))"
    using assms unfolding waits_for_def by (cases "ob_assignment ob"; simp split: option.splits)
  then show ?thesis
    by (cases "td_waiting d vip")
       (simp_all only: observe_def takeover_ready_def Let_def duration_since_def option.case if_True if_False
         simp_thms prod.case_eq_if fst_conv snd_conv prod.collapse split: if_split, auto)
qed

lemma observe_entry:
  assumes "waits_for node_id g tick ob"
  shows "td_waiting (fst (observe vip node_id ob d)) vip =
    (case td_waiting d vip of
       Some (g', tick', t) \<Rightarrow> Some (g, tick, if g' = g \<and> tick' = tick then t else ob_now ob)
     | None \<Rightarrow> Some (g, tick, ob_now ob))"
  by (simp add: observe_waits [OF assms] Let_def split: option.split)

lemma observe_other:
  assumes "\<And>g tick. \<not> waits_for node_id g tick ob"
  shows "td_waiting (fst (observe vip node_id ob d)) vip = None"
proof (cases "ob_assignment ob")
  case (Some a)
  then show ?thesis
    using assms [of "generation a" "Option.bind (previous_holder a) (bm_get (ob_ticks ob))"]
    by (auto simp: waits_for_def observe_def takeover_ready_def Let_def split: option.splits)
qed (simp add: observe_def takeover_ready_def Let_def)

lemma observe_lifetime [simp]: "td_lifetime (fst (observe vip node_id ob d)) = td_lifetime d"
  by (auto simp: observe_def takeover_ready_def Let_def split: option.splits)

abbreviation observed :: "ip_addr \<Rightarrow> u64 \<Rightarrow> takeover_obs list \<Rightarrow> duration \<Rightarrow> takeover_delay" where
  "observed vip node_id obs lifetime \<equiv>
     fold (\<lambda>ob d. fst (observe vip node_id ob d)) obs (takeover_new lifetime)"

lemma observed_lifetime [simp]: "td_lifetime (observed vip node_id obs lifetime) = lifetime"
  by (induction obs rule: rev_induct) (simp_all add: takeover_new_def)

lemma observed_waiting:
  "td_waiting (observed vip node_id obs lifetime) vip = Some (g, tick, t) \<Longrightarrow>
   \<exists>pre suf. obs = pre @ suf \<and> suf \<noteq> [] \<and> (\<forall>q \<in> set suf. waits_for node_id g tick q) \<and> ob_now (hd suf) = t"
proof (induction obs arbitrary: g tick t rule: rev_induct)
  case Nil
  then show ?case by (simp add: takeover_new_def)
next
  case (snoc ob obs)
  let ?d = "observed vip node_id obs lifetime"
  have now: "td_waiting (fst (observe vip node_id ob ?d)) vip = Some (g, tick, t)"
    using snoc.prems by simp
  have "\<exists>g' tick'. waits_for node_id g' tick' ob"
  proof (rule ccontr)
    assume "\<nexists>g' tick'. waits_for node_id g' tick' ob"
    then have "td_waiting (fst (observe vip node_id ob ?d)) vip = None" by (intro observe_other) blast
    with now show False by simp
  qed
  then obtain g' tick' where w': "waits_for node_id g' tick' ob" by blast
  then have w: "waits_for node_id g tick ob" and
    t: "td_waiting ?d vip = Some (g, tick, t) \<or> t = ob_now ob"
    using now observe_entry [OF w', of vip ?d] by (auto split: option.splits if_splits)
  show ?case
  proof (cases "td_waiting ?d vip = Some (g, tick, t)")
    case True
    then obtain pre suf where "obs = pre @ suf" "suf \<noteq> []" "\<forall>q \<in> set suf. waits_for node_id g tick q"
      "ob_now (hd suf) = t" using snoc.IH by blast
    then show ?thesis using w by (intro exI [of _ pre] exI [of _ "suf @ [ob]"]) auto
  next
    case False
    then have "t = ob_now ob" using t by blast
    then show ?thesis using w by (intro exI [of _ obs] exI [of _ "[ob]"]) auto
  qed
qed

text \<open>C34. A takeover without a release waits out the predecessor's lease. When \<open>ready\<close> answers yes although the
  node has neither activated the generation nor seen a release, an unbroken series of calls up to this
  one saw the same generation and the same stale last tick of the predecessor, and the series began at
  least the configured lifetime ago.\<close>

theorem takeover_waits_full_lease:
  assumes "snd (observe vip node_id ob (observed vip node_id obs lifetime))" "waits_for node_id g tick ob"
  shows "\<exists>pre suf. obs @ [ob] = pre @ suf \<and> suf \<noteq> [] \<and> (\<forall>q \<in> set suf. waits_for node_id g tick q) \<and>
           lifetime \<le> ob_later ob - ob_now (hd suf)"
proof -
  let ?d = "observed vip node_id obs lifetime"
  obtain t where t: "td_waiting (observed vip node_id (obs @ [ob]) lifetime) vip = Some (g, tick, t)"
    "lifetime \<le> ob_later ob - t"
    using assms(1) observe_waits [OF assms(2), of vip ?d]
    by (cases "td_waiting ?d vip") (auto simp: Let_def split: if_splits)
  from observed_waiting [OF t(1)] t(2) show ?thesis by blast
qed

definition ex_takeover :: vip_assignment where
  "ex_takeover = \<lparr>holder = 2, generation = 2, previous_holder = Some 1, previous_holder_released = False,
                  activation_tick = 3\<rparr>"

definition ex_obs :: "instant \<Rightarrow> takeover_obs" where
  "ex_obs t = \<lparr>ob_now = t, ob_later = t, ob_assignment = Some ex_takeover, ob_ticks = bm_empty,
               ob_frontier = 9, ob_stale = 2, ob_activated = None\<rparr>"

theorem takeover_waits_full_lease_witness:
  "\<exists>pre suf. [ex_obs 5] @ [ex_obs 20] = pre @ suf \<and> suf \<noteq> [] \<and>
     (\<forall>q \<in> set suf. waits_for 2 2 None q) \<and> 10 \<le> ob_later (ex_obs 20) - ob_now (hd suf)"
proof -
  have w: "waits_for 2 2 None (ex_obs t)" for t
    by (simp add: waits_for_def ex_obs_def ex_takeover_def is_node_probe_fresh_def)
  have "snd (observe ex_vip 2 (ex_obs 20) (observed ex_vip 2 [ex_obs 5] 10))"
    using observe_waits [OF w, of ex_vip] by (simp add: Let_def takeover_new_def ex_obs_def)
  from takeover_waits_full_lease [OF this w] show ?thesis .
qed

lemma saturating_sum: "dur_saturating_add a (dur_saturating_add b (min c duration_max)) = min (a + b + c) duration_max"
  by (simp add: dur_saturating_add_def min_def)

text \<open>The wait covers the predecessor's proof lifetime, one reconcile tick and its bounded cleanup of
  every VIP; only saturation at the largest duration cuts it short.\<close>

theorem takeover_lifetime_bound:
  "takeover_lifetime proof_lifetime vip_count = duration_max \<or>
   takeover_lifetime proof_lifetime vip_count =
     proof_lifetime + 250000000 + vip_count * 12000000000"
proof (cases "vip_count < 2 ^ 32")
  case True
  then have "unat (of_nat vip_count :: u32) = vip_count" by (simp add: unat_of_nat take_bit_nat_eq_self)
  then have "takeover_lifetime proof_lifetime vip_count =
      min (proof_lifetime + 250000000 + vip_count * 12000000000) duration_max"
    using True
    by (simp only: takeover_lifetime_def Let_def if_True dur_saturating_mul_def SHUTDOWN_VIP_BUDGET_value
        RECONCILE_TICK_value saturating_sum mult.commute [of _ vip_count])
  then show ?thesis by (simp add: min_def)
next
  case False
  then show ?thesis by (simp add: takeover_lifetime_def Let_def dur_saturating_add_def min_def)
qed

subsection \<open>Effects in flight\<close>

text \<open>C35. An effect that is still valid is still permitted: the applied state gives this node the same
  ownership for which the effect was started, the bind policy holds there with all gates open, and if
  the effect depends on a stale predecessor, that node has not published since.\<close>

theorem valid_effect_is_permitted:
  assumes "remains_valid i st gates" "intent_bind_policy i"
  shows "should_bind_or_keep_vip gates (intent_node_id i) (bm_get (vip_assignments st) (intent_vip i))
           (node_probe_ticks st) (latest_probe_tick st) (stale_missed_probes st) (intent_activated_generation i) \<and>
         (\<exists>a b. intent_assignment i = Some a \<and> bm_get (vip_assignments st) (intent_vip i) = Some b \<and>
            same_ownership a b \<and> holder b = intent_node_id i \<and>
            (waiting_for_predecessor i \<longrightarrow>
              Option.bind (previous_holder b) (bm_get (node_probe_ticks st)) = intent_previous_tick i))"
proof -
  let ?c = "capture (intent_vip i) (intent_node_id i) gates st (intent_activated_generation i)"
  have e: "expected_assignment i ?c = bm_get (vip_assignments st) (intent_vip i)"
    and policy: "should_bind_or_keep_vip gates (intent_node_id i) (bm_get (vip_assignments st) (intent_vip i))
           (node_probe_ticks st) (latest_probe_tick st) (stale_missed_probes st) (intent_activated_generation i)"
    and tick: "waiting_for_predecessor i \<longrightarrow> intent_previous_tick i = intent_previous_tick ?c"
    using assms by (auto simp: remains_valid_def Let_def capture_def split: if_splits)
  obtain b where b: "bm_get (vip_assignments st) (intent_vip i) = Some b" "holder b = intent_node_id i"
    using bind_policy_holder [OF policy] by blast
  obtain a where a: "intent_assignment i = Some a" "same_ownership a b"
    using e b by (auto simp: expected_assignment_def same_ownership_def split: option.splits if_splits)
  show ?thesis using policy a b tick by (simp add: capture_def Let_def)
qed

lemma ex_intent:
  "remains_valid (capture ex_vip 1 ex_open ex_placed None) ex_placed ex_open"
  "intent_bind_policy (capture ex_vip 1 ex_open ex_placed None)"
  using ex_placed_binds
  by (auto simp: remains_valid_def capture_def Let_def expected_assignment_def split: option.splits)

theorem valid_effect_is_permitted_witness:
  "\<exists>a b. intent_assignment (capture ex_vip 1 ex_open ex_placed None) = Some a \<and>
     bm_get (vip_assignments ex_placed) ex_vip = Some b \<and> same_ownership a b \<and> holder b = 1"
  using valid_effect_is_permitted [OF ex_intent] by (auto simp: capture_def Let_def)

subsection \<open>The releases of a stopping node\<close>

definition mark_released :: "u64 \<Rightarrow> vip_assignment \<Rightarrow> vip_assignment" where
  "mark_released n a = (if previous_holder a = Some n then a\<lparr>previous_holder_released := True\<rparr> else a)"

abbreviation submit_all :: "log_id \<Rightarrow> kaf_request list \<Rightarrow> kaf_storage_state \<Rightarrow> kaf_storage_state" where
  "submit_all lid \<equiv> fold (\<lambda>r s. fst (apply_request r lid s))"

lemma submit_releases:
  assumes "distinct (map fst xs)" "\<forall>(v, a) \<in> set xs. bm_get (vip_assignments st) v = Some a \<and> previous_holder a = Some n"
  shows "bm_get (vip_assignments (submit_all lid (map (\<lambda>(v, a). VipReleased n v (generation a)) xs) st)) v =
    (if v \<in> fst ` set xs then map_option (mark_released n) (bm_get (vip_assignments st) v)
     else bm_get (vip_assignments st) v)"
  using assms
proof (induction xs arbitrary: st)
  case (Cons x xs)
  obtain w a where x: "x = (w, a)" by fastforce
  let ?s = "fst (apply_request (VipReleased n w (generation a)) lid st)"
  have wa: "bm_get (vip_assignments st) w = Some a" "previous_holder a = Some n" using Cons.prems x by auto
  have get: "bm_get (vip_assignments ?s) u = (if u = w then Some (mark_released n a) else bm_get (vip_assignments st) u)" for u
    using wa by (simp add: mark_released_def)
  have "\<forall>(v, b) \<in> set xs. bm_get (vip_assignments ?s) v = Some b \<and> previous_holder b = Some n"
    using Cons.prems x get by (force split: prod.splits)
  with Cons show ?case using get x wa by (auto simp del: apply_request.simps)
qed simp

text \<open>The releases that a stopping node submits settle all its handoffs: once they are applied, every
  assignment it preceded is marked released, no other assignment has changed, and nothing is owed.\<close>

theorem pending_releases_settle:
  "bm_get (vip_assignments (submit_all lid (pending_releases st n) st)) v =
     map_option (mark_released n) (bm_get (vip_assignments st) v) \<and>
   pending_releases (submit_all lid (pending_releases st n) st) n = []"
proof -
  let ?owed = "filter (\<lambda>(_, a). previous_holder a = Some n \<and> \<not> previous_holder_released a) (entries (vip_assignments st))"
  have owed: "distinct (map fst ?owed)"
    "\<forall>(v, a) \<in> set ?owed. bm_get (vip_assignments st) v = Some a \<and> previous_holder a = Some n"
    using entries_distinct [of "vip_assignments st"] by (auto simp: in_entries_iff distinct_map_filter)
  have get: "bm_get (vip_assignments (submit_all lid (pending_releases st n) st)) v =
      map_option (mark_released n) (bm_get (vip_assignments st) v)" for v
  proof (cases "v \<in> fst ` set ?owed")
    case True
    then show ?thesis using submit_releases [OF owed, of lid v] by (simp add: pending_releases_def)
  next
    case False
    have "mark_released n a = a" if "bm_get (vip_assignments st) v = Some a" for a
    proof -
      have "(v, a) \<notin> set ?owed" using False by force
      then have "previous_holder a = Some n \<longrightarrow> previous_holder_released a"
        using that by (simp add: in_entries_iff)
      then show ?thesis by (simp add: mark_released_def)
    qed
    then have "map_option (mark_released n) (bm_get (vip_assignments st) v) = bm_get (vip_assignments st) v"
      by (cases "bm_get (vip_assignments st) v") simp_all
    then show ?thesis using False submit_releases [OF owed, of lid v] by (simp add: pending_releases_def)
  qed
  have "\<not> (previous_holder b = Some n \<and> \<not> previous_holder_released b)"
    if "(u, b) \<in> set (entries (vip_assignments (submit_all lid (pending_releases st n) st)))" for u b
    using that get [of u] by (auto simp: in_entries_iff mark_released_def)
  then have "pending_releases (submit_all lid (pending_releases st n) st) n = []"
    by (subst pending_releases_def) (auto simp: filter_empty_conv)
  with get show ?thesis by blast
qed

end
