(* ===== verification/Ip_Roundtrip.thy ===== *)
theory Ip_Roundtrip
  imports Ip_Text
begin

text \<open>
  Reading an address back from its text. Numbers in a radix, dotted quads and all three printed forms of an
  IPv6 address are read to the value they were printed from, and reading stops where the text ends. The
  configuration and the kernel's answers exchange addresses in these forms.
\<close>

subsection \<open>Numbers\<close>

lemma to_digit_hex_char:
  assumes "d < b" "b \<le> 16"
  shows "to_digit b (hex_char d) = Some d"
proof -
  have "d < 16" using assms by simp
  then have "d = 0 \<or> d = 1 \<or> d = 2 \<or> d = 3 \<or> d = 4 \<or> d = 5 \<or> d = 6 \<or> d = 7 \<or> d = 8 \<or> d = 9 \<or>
      d = 10 \<or> d = 11 \<or> d = 12 \<or> d = 13 \<or> d = 14 \<or> d = 15" by presburger
  then show ?thesis using assms(1) by (elim disjE) (simp_all add: to_digit_def hex_char_def)
qed

lemma radix_digits_small: "n < b \<Longrightarrow> radix_digits b n = [n]"
  by (subst radix_digits.simps) simp

lemma radix_digits_big: "2 \<le> b \<Longrightarrow> b \<le> n \<Longrightarrow> radix_digits b n = radix_digits b (n div b) @ [n mod b]"
  by (subst radix_digits.simps) simp

lemma radix_induct [consumes 1, case_names small big]:
  fixes n :: nat
  assumes "2 \<le> b" "\<And>n. n < b \<Longrightarrow> P n" "\<And>n. b \<le> n \<Longrightarrow> P (n div b) \<Longrightarrow> P n"
  shows "P n"
proof (induction n rule: less_induct)
  case (less n)
  show ?case
  proof (cases "n < b")
    case False
    then have "n div b < n" using assms(1) by (intro div_less_dividend) auto
    then show ?thesis using assms(3) less False by simp
  qed (use assms(2) in simp)
qed

lemma radix_digits_less:
  assumes b: "2 \<le> b"
  shows "d \<in> set (radix_digits b n) \<Longrightarrow> d < b"
  using b by (induction n rule: radix_induct) (use b in \<open>auto simp: radix_digits_small radix_digits_big\<close>)

lemma undigits_radix_digits:
  assumes b: "2 \<le> b"
  shows "undigits b (radix_digits b n) = n"
  using b by (induction n rule: radix_induct) (use b in \<open>auto simp: radix_digits_small radix_digits_big undigits_def\<close>)

lemma radix_digits_nonempty [simp]: "radix_digits b n \<noteq> []"
  by (subst radix_digits.simps) simp

lemma length_radix_digits:
  assumes b: "2 \<le> b"
  shows "n < b ^ k \<Longrightarrow> 0 < k \<Longrightarrow> length (radix_digits b n) \<le> k"
  using b
proof (induction n arbitrary: k rule: radix_induct)
  case (big n)
  then obtain j where k: "k = Suc j" "0 < j" by (cases k; cases "k - 1") auto
  have "n div b < b ^ j" using big k(1) by (intro less_mult_imp_div_less) (simp add: mult.commute)
  then show ?case using big k b by (simp add: radix_digits_big)
qed (simp add: radix_digits_small)

lemma radix_digits_leading:
  assumes b: "2 \<le> b"
  shows "0 < n \<Longrightarrow> hd (radix_digits b n) \<noteq> 0"
  using b
proof (induction n rule: radix_induct)
  case (big n)
  then have "0 < n div b" using b by (simp add: div_greater_zero_iff)
  then show ?case using big b by (simp add: radix_digits_big)
qed (simp add: radix_digits_small)

lemma radix_fmt_digits:
  assumes "2 \<le> b" "b \<le> 16"
  shows "map (the \<circ> to_digit b) (radix_fmt b n) = radix_digits b n"
    and "c \<in> set (radix_fmt b n) \<Longrightarrow> to_digit b c \<noteq> None"
  using assms radix_digits_less [OF assms(1)]
  by (auto simp: radix_fmt_def to_digit_hex_char intro!: map_idI)

text \<open>A text that does not go on with a digit.\<close>

definition no_digit :: "nat \<Rightarrow> string \<Rightarrow> bool" where
  "no_digit b s = (case s of [] \<Rightarrow> True | c # _ \<Rightarrow> to_digit b c = None)"

lemma takeWhile_radix_fmt:
  assumes "2 \<le> b" "b \<le> 16" "no_digit b r"
  shows "takeWhile (\<lambda>c. to_digit b c \<noteq> None) (radix_fmt b n @ r) = radix_fmt b n"
  using assms radix_fmt_digits(2) [OF assms(1,2)]
  by (cases r) (auto simp: no_digit_def takeWhile_append2 simp del: not_None_eq)

lemma read_number_fmt:
  assumes "2 \<le> b" "b \<le> 16" "no_digit b r" "n < bound" "n < b ^ k" "0 < k"
  shows "read_number bound b k z (radix_fmt b n @ r) = Some (n, r)"
proof -
  have len: "length (radix_fmt b n) \<le> k" using length_radix_digits assms by (simp add: radix_fmt_def)
  have "hd (radix_fmt b n) \<noteq> CHR ''0''" if "1 < length (radix_fmt b n)"
  proof
    assume z: "hd (radix_fmt b n) = CHR ''0''"
    have "to_digit b (hd (radix_fmt b n)) = Some (hd (radix_digits b n))"
      using radix_digits_less [OF assms(1), of "hd (radix_digits b n)" n] assms(2)
      by (simp add: radix_fmt_def hd_map to_digit_hex_char)
    then have "hd (radix_digits b n) = 0" using assms(1) by (simp add: z to_digit_def)
    then have "n = 0" using radix_digits_leading [OF assms(1), of n] by auto
    then show False using that assms(1) by (simp add: radix_fmt_def radix_digits_small)
  qed
  moreover have "radix_fmt b n \<noteq> []" by (simp add: radix_fmt_def)
  ultimately show ?thesis
    using len assms(4)
    by (auto simp: read_number_def takeWhile_radix_fmt [OF assms(1-3)] radix_fmt_digits(1) [OF assms(1,2)]
        undigits_radix_digits [OF assms(1)] Let_def simp del: not_None_eq)
qed

subsection \<open>Dotted quads\<close>

lemma dot_no_digit: "no_digit 10 (CHR ''.'' # s)" "no_digit b (CHR '':'' # s)" "no_digit b []"
  by (simp_all add: no_digit_def to_digit_def)

lemma read_ipv4_display:
  assumes "no_digit 10 r"
  shows "read_ipv4_addr (v4_display a @ r) = Some (a, r)"
proof -
  define ds where "ds = digits 256 4 (unat a)"
  have four: "(4 :: nat) = Suc (Suc (Suc (Suc 0)))" by simp
  obtain d0 d1 d2 d3 where ds4: "ds = [d0, d1, d2, d3]" unfolding ds_def four by simp
  have less: "d < 256" if "d \<in> {d0, d1, d2, d3}" for d
    using digits_less [of 256 d 4 "unat a"] that by (auto simp: ds_def [symmetric] ds4)
  have num: "read_number 256 10 3 False (dec_fmt d @ s) = Some (d, s)" if "no_digit 10 s" "d \<in> {d0, d1, d2, d3}" for d s
    using less [OF that(2)] that(1) by (intro read_number_fmt) simp_all
  have "unat a < 256 ^ 4" using unsigned_less [of a, where ?'a = nat] by simp
  then have "undigits 256 ds = unat a" by (simp add: ds_def undigits_digits_id)
  then have val: "of_nat (undigits 256 [d0, d1, d2, d3]) = a" by (simp add: ds4)
  have "read_octets 4 0 (v4_display a @ r) = Some ([d0, d1, d2, d3], r)"
    using assms num unfolding four
    by (simp add: v4_display_def ds_def [symmetric] ds4 read_separator_def read_given_char_def dot_no_digit)
  then show ?thesis by (simp add: read_ipv4_addr_def val)
qed

text \<open>A number that no dot follows does not begin a dotted quad.\<close>

definition no_dot :: "string \<Rightarrow> bool" where
  "no_dot s = (s = [] \<or> hd s \<noteq> CHR ''.'')"

lemma read_ipv4_none:
  assumes "no_dot (dropWhile (\<lambda>c. to_digit 10 c \<noteq> None) s)"
  shows "read_ipv4_addr s = None"
proof -
  have four: "(4 :: nat) = Suc (Suc (Suc (Suc 0)))" by simp
  have "read_given_char CHR ''.'' r = None" if "read_number 256 10 3 False s = Some (v, r)" for v r
  proof -
    have "r = dropWhile (\<lambda>c. to_digit 10 c \<noteq> None) s"
      using that by (auto simp: read_number_def Let_def dropWhile_eq_drop split: if_splits)
    then have "no_dot r" using assms by simp
    then show ?thesis by (cases r) (auto simp: no_dot_def read_given_char_def)
  qed
  then have "read_octets 4 0 s = None"
    unfolding four by (auto simp: read_separator_def split: option.split)
  then show ?thesis by (simp add: read_ipv4_addr_def)
qed

lemma hex_not_dot: "c \<in> set (radix_fmt 16 n) \<Longrightarrow> c \<noteq> CHR ''.''"
  using radix_fmt_digits(2) [of 16 c n] by (auto simp: to_digit_def)

lemma dropWhile_no_dot:
  "(\<forall>c \<in> set xs. c \<noteq> CHR ''.'') \<Longrightarrow> no_dot (dropWhile P r) \<Longrightarrow> no_dot (dropWhile P (xs @ r))"
  by (induction xs) (auto simp: no_dot_def)

text \<open>Where a group ends: no hexadecimal digit and no dot goes on.\<close>

definition plain :: "string \<Rightarrow> bool" where
  "plain r = (no_digit 16 r \<and> no_dot r)"

lemma to_digit_mono: "to_digit 16 c = None \<Longrightarrow> to_digit 10 c = None"
  by (auto simp: to_digit_def Let_def split: if_splits option.splits)

lemma plain_dropWhile: "plain r \<Longrightarrow> no_dot (dropWhile (\<lambda>c. to_digit 10 c \<noteq> None) r)"
  by (cases r) (auto simp: plain_def no_digit_def no_dot_def dest: to_digit_mono simp del: not_None_eq)

lemma read_ipv4_group: "plain r \<Longrightarrow> read_ipv4_addr (radix_fmt 16 g @ r) = None"
  using hex_not_dot plain_dropWhile by (blast intro: read_ipv4_none dropWhile_no_dot)

lemma read_group: "plain r \<Longrightarrow> g < 65536 \<Longrightarrow> read_number 65536 16 4 True (radix_fmt 16 g @ r) = Some (g, r)"
  by (intro read_number_fmt) (simp_all add: plain_def)

subsection \<open>Groups\<close>

fun groups_text :: "bool \<Rightarrow> nat list \<Rightarrow> string" where
  "groups_text sep [] = []"
| "groups_text sep (g # gs) = (if sep then '':'' else []) @ radix_fmt 16 g @ groups_text True gs"

lemma join_groups_text: "join_groups gs = groups_text False gs"
proof -
  have "groups_text True gs = (if gs = [] then [] else '':'' @ groups_text False gs)" for gs
    by (cases gs) simp_all
  moreover have "join_with '':'' (map (radix_fmt 16) gs) = groups_text False gs"
    by (induction gs rule: induct_list012) (simp_all add: calculation)
  ultimately show ?thesis by (simp add: join_groups_def)
qed

text \<open>Reading one more group fails here.\<close>

definition stops :: "nat \<Rightarrow> string \<Rightarrow> bool" where
  "stops i r =
     (read_separator CHR '':'' i (read_number 65536 16 4 True) r = None \<and>
      read_separator CHR '':'' i read_ipv4_addr r = None)"

lemma plain_groups: "plain r \<Longrightarrow> plain (groups_text True gs @ r)"
  by (cases gs) (simp_all add: plain_def no_digit_def no_dot_def to_digit_def)

lemma read_groups_text:
  assumes "length gs \<le> n" "\<forall>g \<in> set gs. g < 65536" "plain r" "length gs < n \<Longrightarrow> stops (i + length gs) r"
  shows "read_groups n i (groups_text (0 < i) gs @ r) = (gs, False, r)"
  using assms
proof (induction gs arbitrary: n i)
  case Nil
  then show ?case by (cases n) (simp_all add: stops_def)
next
  case (Cons g gs)
  then obtain m where n: "n = Suc m" by (cases n) auto
  let ?t = "groups_text True gs @ r"
  have t: "plain ?t" using Cons.prems(3) by (rule plain_groups)
  have rest: "read_groups m (Suc i) ?t = (gs, False, r)"
    using Cons.IH [of m "Suc i"] Cons.prems n by simp
  have sep: "read_separator CHR '':'' i inner (groups_text (0 < i) (g # gs) @ r) = inner (radix_fmt 16 g @ ?t)"
    for inner :: "'a parser"
    by (simp add: read_separator_def read_given_char_def)
  show ?case
    unfolding n read_groups.simps sep
    using t Cons.prems(2) rest by (simp add: read_ipv4_group read_group Let_def)
qed

text \<open>The end of the text: neither a digit, a colon nor a dot.\<close>

definition ends :: "string \<Rightarrow> bool" where
  "ends r = (r = [] \<or> to_digit 16 (hd r) = None \<and> hd r \<noteq> CHR '':'' \<and> hd r \<noteq> CHR ''.'')"

lemma ends_plain: "ends r \<Longrightarrow> plain r"
  by (cases r) (auto simp: ends_def plain_def no_digit_def no_dot_def)

lemma read_number_none: "no_digit b r \<Longrightarrow> read_number bound b k z r = None"
  by (cases r) (auto simp: read_number_def no_digit_def)

lemma stops_end: "ends r \<Longrightarrow> stops i r"
  using ends_plain [of r] plain_dropWhile [of r]
  by (cases r) (auto simp: stops_def read_separator_def read_given_char_def ends_def plain_def read_number_none
      intro: read_ipv4_none)

lemma stops_gap: "stops i (CHR '':'' # CHR '':'' # r)"
  by (auto simp: stops_def read_separator_def read_given_char_def read_number_none dot_no_digit no_dot_def
      intro!: read_ipv4_none split: if_splits)
     (simp_all add: to_digit_def)

lemma plain_colon: "plain (CHR '':'' # r)"
  by (simp add: plain_def dot_no_digit no_dot_def)

subsection \<open>The elided run of zeros\<close>

definition zeros_at :: "nat list \<Rightarrow> nat \<times> nat \<Rightarrow> bool" where
  "zeros_at gs sp = (\<forall>k. fst sp \<le> k \<and> k < fst sp + snd sp \<longrightarrow> gs ! k = 0)"

definition spans_ok :: "nat list \<Rightarrow> nat \<Rightarrow> (nat \<times> nat) \<times> (nat \<times> nat) \<Rightarrow> bool" where
  "spans_ok gs i sp =
     (fst (fst sp) + snd (fst sp) \<le> i \<and> zeros_at gs (fst sp) \<and>
      (snd (snd sp) \<noteq> 0 \<longrightarrow> fst (snd sp) + snd (snd sp) = i \<and> zeros_at gs (snd sp)))"

lemma span_step_ok: "spans_ok gs i sp \<Longrightarrow> gs ! i = g \<Longrightarrow> spans_ok gs (Suc i) (span_step (i, g) sp)"
  by (auto simp: spans_ok_def span_step_def zeros_at_def Let_def less_Suc_eq split: prod.splits)

lemma span_fold_ok:
  "spans_ok (pre @ xs) (length pre) sp \<Longrightarrow>
   spans_ok (pre @ xs) (length (pre @ xs)) (fold span_step (List.enumerate (length pre) xs) sp)"
proof (induction xs arbitrary: pre sp)
  case (Cons x xs)
  show ?case using Cons.IH [of "pre @ [x]"] span_step_ok [OF Cons.prems, of x] by (simp add: nth_append)
qed simp

lemma longest_zeros_ok:
  assumes "longest_zeros gs = (start, len)"
  shows "gs = take start gs @ replicate len 0 @ drop (start + len) gs \<and> start + len \<le> length gs"
proof -
  have "spans_ok gs (length gs) (fold span_step (List.enumerate 0 gs) ((0, 0), (0, 0)))"
    using span_fold_ok [of "[]" gs "((0, 0), (0, 0))"] by (simp add: spans_ok_def zeros_at_def)
  then have ok: "start + len \<le> length gs" "zeros_at gs (start, len)"
    using assms by (auto simp: spans_ok_def longest_zeros_def)
  then have "take len (drop start gs) = replicate len 0"
    by (intro nth_equalityI) (auto simp: zeros_at_def)
  then show ?thesis
    using ok(1) append_take_drop_id [of start gs] append_take_drop_id [of len "drop start gs"]
    by (simp add: add.commute)
qed

subsection \<open>IPv6\<close>

lemma v6_segments_facts:
  "length (v6_segments a) = 8" "\<forall>g \<in> set (v6_segments a). g < 65536" "of_nat (undigits 65536 (v6_segments a)) = a"
proof -
  have "unat a < 65536 ^ 8" using unsigned_less [of a, where ?'a = nat] by simp
  then show "of_nat (undigits 65536 (v6_segments a)) = a" by (simp add: v6_segments_def undigits_digits_id)
qed (auto simp: v6_segments_def dest: digits_less [rotated])

lemma read_ipv6_full:
  assumes "length gs = 8" "\<forall>g \<in> set gs. g < 65536" "ends r"
  shows "read_ipv6_addr (join_groups gs @ r) = Some (of_nat (undigits 65536 gs), r)"
  using read_groups_text [of gs 8 r 0] assms ends_plain [OF assms(3)]
  by (simp add: read_ipv6_addr_def join_groups_text)

lemma read_ipv6_gap:
  assumes "length hs + length ts < 8" "\<forall>g \<in> set (hs @ ts). g < 65536" "ends r"
  shows "read_ipv6_addr (join_groups hs @ ''::'' @ join_groups ts @ r) =
    Some (of_nat (undigits 65536 (hs @ replicate (8 - length hs - length ts) 0 @ ts)), r)"
proof -
  have h: "read_groups 8 0 (groups_text False hs @ CHR '':'' # CHR '':'' # groups_text False ts @ r) =
      (hs, False, CHR '':'' # CHR '':'' # groups_text False ts @ r)"
    using read_groups_text [of hs 8 "CHR '':'' # CHR '':'' # groups_text False ts @ r" 0] assms(1,2) plain_colon stops_gap
    by simp
  have t: "read_groups (8 - (length hs + 1)) 0 (groups_text False ts @ r) = (ts, False, r)"
    using read_groups_text [of ts "8 - (length hs + 1)" r 0] assms ends_plain [OF assms(3)] stops_end [OF assms(3)]
    by auto
  show ?thesis using h t assms(1) by (simp add: read_ipv6_addr_def join_groups_text read_given_char_def)
qed

lemma ends_no_digit: "ends r \<Longrightarrow> no_digit 10 r"
  using ends_plain [of r] to_digit_mono by (cases r) (auto simp: plain_def no_digit_def)

lemma read_ipv6_mapped:
  assumes "x < 65536" "y < 65536" "ends r"
  shows "read_ipv6_addr (''::ffff:'' @ v4_display (of_nat (x * 65536 + y)) @ r) =
    Some (of_nat (undigits 65536 [0, 0, 0, 0, 0, 65535, x, y]), r)"
proof -
  define q where "q = (of_nat (x * 65536 + y) :: u32)"
  have v: "unat q = x * 65536 + y"
    using assms(1,2) by (simp add: q_def unat_of_nat take_bit_nat_eq_self del: of_nat_add of_nat_mult)
  have ffff: "radix_fmt 16 65535 = ''ffff''"
    by (simp add: radix_fmt_def radix_digits_big radix_digits_small hex_char_def)
  have head: "read_groups 8 0 (''::ffff:'' @ v4_display q @ r) = ([], False, ''::ffff:'' @ v4_display q @ r)"
    using read_groups_text [of "[]" 8 "''::ffff:'' @ v4_display q @ r" 0] plain_colon stops_gap by simp
  have seven: "(7 :: nat) = Suc 6" "(6 :: nat) = Suc 5" by simp_all
  have quad: "read_groups 6 (Suc 0) ('':'' @ v4_display q @ r) = ([x, y], True, r)"
    unfolding seven(2) read_groups.simps
    using read_ipv4_display [OF ends_no_digit [OF assms(3)], of q] assms(1,2)
    by (simp add: read_separator_def read_given_char_def v)
  have tail: "read_groups 7 0 (''ffff:'' @ v4_display q @ r) = ([65535, x, y], True, r)"
    unfolding seven(1) read_groups.simps
    using quad read_ipv4_group [of "'':'' @ v4_display q @ r" 65535] read_group [of "'':'' @ v4_display q @ r" 65535]
      plain_colon by (simp add: ffff read_separator_def)
  have five: "replicate 5 (0 :: nat) = [0, 0, 0, 0, 0]" by (simp add: eval_nat_numeral)
  show ?thesis
    using head tail unfolding q_def [symmetric]
    by (simp add: read_ipv6_addr_def read_given_char_def five)
qed

lemma read_ipv6_display:
  assumes "ends r"
  shows "read_ipv6_addr (v6_display a @ r) = Some (a, r)"
proof -
  define gs where "gs = v6_segments a"
  note gs = v6_segments_facts [of a, folded gs_def]
  show ?thesis
  proof (cases "take 5 gs = [0, 0, 0, 0, 0] \<and> gs ! 5 = 65535")
    case True
    have eight: "(8 :: nat) = Suc (Suc (Suc (Suc (Suc (Suc (Suc (Suc 0)))))))" by simp
    obtain g0 g1 g2 g3 g4 g5 g6 g7 where gs8: "gs = [g0, g1, g2, g3, g4, g5, g6, g7]"
      using gs(1) unfolding eight by (auto simp: length_Suc_conv)
    have "read_ipv6_addr (''::ffff:'' @ v4_display (of_nat (gs ! 6 * 65536 + gs ! 7)) @ r) = Some (a, r)"
      using read_ipv6_mapped [OF _ _ assms, of g6 g7] gs(2,3) True by (simp add: gs8)
    moreover have "v6_display a = ''::ffff:'' @ v4_display (of_nat (gs ! 6 * 65536 + gs ! 7))"
      unfolding v6_display_def gs_def [symmetric] Let_def using True by (simp only: if_True simp_thms)
    ultimately show ?thesis by simp
  next
    case False
    obtain start len where span: "longest_zeros gs = (start, len)" by (metis prod.collapse)
    note z = longest_zeros_ok [OF span]
    have shown: "v6_display a = (if 1 < len then join_groups (take start gs) @ ''::'' @ join_groups (drop (start + len) gs)
        else join_groups gs)"
      using False span by (auto simp: v6_display_def gs_def [symmetric] Let_def)
    show ?thesis
    proof (cases "1 < len")
      case True
      let ?h = "take start gs" and ?t = "drop (start + len) gs"
      have "length ?h + length ?t < 8" "8 - length ?h - length ?t = len" using z gs(1) True by auto
      moreover have "\<forall>g \<in> set (?h @ ?t). g < 65536" using gs(2) by (auto dest: in_set_takeD in_set_dropD)
      ultimately have "read_ipv6_addr (join_groups ?h @ ''::'' @ join_groups ?t @ r) = Some (of_nat (undigits 65536 gs), r)"
        using read_ipv6_gap [of ?h ?t r] assms z by simp
      then show ?thesis using True shown gs(3) by simp
    next
      case False
      then show ?thesis using read_ipv6_full [OF gs(1,2) assms] gs(3) shown by simp
    qed
  qed
qed

text \<open>An IPv6 text never begins a dotted quad.\<close>

lemma groups_text_plain: "plain r \<Longrightarrow> no_dot (dropWhile (\<lambda>c. to_digit 10 c \<noteq> None) (groups_text sep gs @ r))"
proof (cases gs)
  case (Cons g gs')
  assume "plain r"
  then have "no_dot (dropWhile (\<lambda>c. to_digit 10 c \<noteq> None) (radix_fmt 16 g @ groups_text True gs' @ r))"
    using hex_not_dot plain_dropWhile [OF plain_groups] by (blast intro: dropWhile_no_dot)
  then show ?thesis by (simp add: Cons no_dot_def to_digit_def)
qed (use plain_dropWhile in simp)

lemma read_ipv4_of_v6: "read_ipv4_addr (v6_display a) = None"
proof (rule read_ipv4_none)
  have colon: "no_dot (dropWhile (\<lambda>c. to_digit 10 c \<noteq> None) (CHR '':'' # s))" for s
    by (simp add: no_dot_def to_digit_def)
  have nil: "plain []" by (simp add: plain_def no_digit_def no_dot_def)
  have "no_dot (dropWhile (\<lambda>c. to_digit 10 c \<noteq> None) (join_groups gs))" for gs
    using groups_text_plain [OF nil, of False gs] by (simp add: join_groups_text)
  moreover have "no_dot (dropWhile (\<lambda>c. to_digit 10 c \<noteq> None) (join_groups gs @ CHR '':'' # s))" for gs s
    using groups_text_plain [OF plain_colon, of False gs] by (simp add: join_groups_text)
  ultimately show "no_dot (dropWhile (\<lambda>c. to_digit 10 c \<noteq> None) (v6_display a))"
    using colon by (simp add: v6_display_def Let_def split: prod.split)
qed

lemma ip_parse_display: "ip_parse (ip_display a) = Some a"
proof (cases a)
  case (V4 v)
  then show ?thesis using read_ipv4_display [of "[]" v] by (simp add: ip_parse_def no_digit_def)
next
  case (V6 v)
  then show ?thesis
    using read_ipv6_display [of "[]" v] by (simp add: ip_parse_def read_ipv4_of_v6 ends_def)
qed

lemma parse_unsigned_fmt: "n < bound \<Longrightarrow> parse_unsigned bound 10 (dec_fmt n) = Some n"
proof -
  assume "n < bound"
  have plus: "hd (dec_fmt n) \<noteq> CHR ''+''"
  proof
    assume "hd (dec_fmt n) = CHR ''+''"
    moreover have "dec_fmt n \<noteq> []" by (simp add: radix_fmt_def)
    ultimately have "CHR ''+'' \<in> set (dec_fmt n)" by (metis hd_in_set)
    then show False using radix_fmt_digits(2) [of 10 "CHR ''+''" n] by (simp add: to_digit_def)
  qed
  have "\<forall>c \<in> set (dec_fmt n). to_digit 10 c \<noteq> None" using radix_fmt_digits(2) [of 10] by auto
  then show ?thesis
    using \<open>n < bound\<close> plus radix_fmt_digits(1) [of 10 n] undigits_radix_digits [of 10 n]
    by (cases "dec_fmt n") (auto simp: parse_unsigned_def Let_def radix_fmt_def)
qed

lemma join_with_chars: "set (join_with sep xs) \<subseteq> set sep \<union> \<Union> (set ` set xs)"
  by (induction sep xs rule: join_with.induct) auto

lemma radix_fmt_chars: "2 \<le> b \<Longrightarrow> b \<le> 16 \<Longrightarrow> c \<in> set (radix_fmt b n) \<Longrightarrow> c \<notin> {CHR ''/'', CHR ''%'', CHR '']''}"
  using radix_fmt_digits(2) [of b c n] by (auto simp: to_digit_def)

lemma ip_display_chars: "c \<in> set (ip_display a) \<Longrightarrow> c \<noteq> CHR ''/''"
proof -
  have v4: "CHR ''/'' \<notin> set (v4_display v)" for v
    using join_with_chars [of "''.''" "map dec_fmt (digits 256 4 (unat v))"] radix_fmt_chars [of 10]
    by (auto simp: v4_display_def)
  have gs: "CHR ''/'' \<notin> set (join_groups g)" for g
    using join_with_chars [of "'':''" "map (radix_fmt 16) g"] radix_fmt_chars [of 16]
    by (auto simp: join_groups_def)
  show "c \<in> set (ip_display a) \<Longrightarrow> c \<noteq> CHR ''/''"
    using v4 gs by (cases a) (auto simp: v6_display_def Let_def split: prod.splits if_splits)
qed

end
