(* ===== verification/Kaf_Config.thy ===== *)
theory Kaf_Config
  imports Error_Chain Ip_Roundtrip
begin

text \<open>
  The daemon configuration (\<open>src/config.rs\<close>): its records, the probe-round counts derived from it,
  and the text forms of VIPs and socket addresses. Durations given in seconds become numbers of
  committed probe rounds, because the replicated state machine reads no clock. Text is a sequence of
  UTF-8 bytes, as in the source; tests on characters decode it. Error messages are kept without the
  values that the source prints into them.
\<close>

subsection \<open>Records\<close>

definition DEFAULT_MAX_FRAME_BYTES :: u32 where
  "DEFAULT_MAX_FRAME_BYTES = 4 * 1024 * 1024"

definition MAX_RAFT_FRAME_BYTES :: u32 where
  "MAX_RAFT_FRAME_BYTES = 16 * 1024 * 1024"

definition DEFAULT_SUBMIT_TIMEOUT_MS :: u64 where
  "DEFAULT_SUBMIT_TIMEOUT_MS = 2000"

definition DEFAULT_VIP_ADDRESS_PROTOCOL :: u8 where
  "DEFAULT_VIP_ADDRESS_PROTOCOL = 246"

definition INSECURE_CLUSTER_SECRET_PLACEHOLDER :: string where
  "INSECURE_CLUSTER_SECRET_PLACEHOLDER = ''replace-me-with-a-random-32-byte-string''"

record peer_config =
  peer_id :: u64
  raft_address :: string
  client_submit_address :: string

record vip_config =
  vc_address :: vip_addr
  vc_interface :: string
  vc_vlan :: "u16 option"

record health_config =
  hc_command :: "string list"
  interval_ms :: u64
  timeout_ms :: u64
  stale_secs :: "u64 option"

record raft_tune_config =
  election_timeout_min_ms :: u64
  election_timeout_max_ms :: u64
  heartbeat_interval_ms :: u64

definition default_raft_tune :: raft_tune_config where
  "default_raft_tune =
     \<lparr>election_timeout_min_ms = 400, election_timeout_max_ms = 800, heartbeat_interval_ms = 250\<rparr>"

record config =
  cfg_node_id :: u64
  raft_listen :: string
  client_submit_listen :: string
  cfg_peers :: "peer_config list"
  cfg_vips :: "vip_config list"
  cfg_health :: health_config
  cfg_raft :: raft_tune_config
  cluster_secret :: "string option"
  cluster_secret_file :: "string option"
  max_frame_bytes :: u32
  submit_timeout_ms :: u64
  address_protocol :: u8
  dry_run :: bool
  cfg_notify :: "string option"
  failover_delay_secs :: u32
  cfg_failback :: bool
  failback_delay_secs :: u32

subsection \<open>Derived counts\<close>

definition div_ceil :: "nat \<Rightarrow> nat \<Rightarrow> nat" where
  "div_ceil a b = (a + b - 1) div b"

definition effective_stale_secs :: "health_config \<Rightarrow> u64" where
  "effective_stale_secs h =
     (case stale_secs h of
        Some s \<Rightarrow> s
      | None \<Rightarrow> (let interval_secs = max (of_nat (div_ceil (unat (interval_ms h)) 1000)) 1
                 in max (interval_secs * 3) 3))"

text \<open>The products are taken in 128 bits, where they cannot overflow.\<close>

definition effective_stale_missed_probes :: "health_config \<Rightarrow> u64" where
  "effective_stale_missed_probes h =
     (let stale_ms = unat (effective_stale_secs h) * 1000;
          rounds = stale_ms div unat (max (interval_ms h) 1)
      in max (of_nat (min rounds (2 ^ 64 - 1))) 1)"

definition duration_to_probe_rounds_ceil :: "u64 \<Rightarrow> u64 \<Rightarrow> u64" where
  "duration_to_probe_rounds_ceil secs interval =
     (if secs = 0 then 0
      else of_nat (min (div_ceil (unat secs * 1000) (unat (max interval 1))) (2 ^ 64 - 1)))"

definition effective_failback_delay_ticks :: "config \<Rightarrow> u64" where
  "effective_failback_delay_ticks c =
     duration_to_probe_rounds_ceil (ucast (failback_delay_secs c)) (interval_ms (cfg_health c))"

definition effective_failover_delay_ticks :: "config \<Rightarrow> u64" where
  "effective_failover_delay_ticks c =
     duration_to_probe_rounds_ceil (ucast (failover_delay_secs c)) (interval_ms (cfg_health c))"

definition get_peer :: "config \<Rightarrow> u64 \<Rightarrow> peer_config option" where
  "get_peer c i = find (\<lambda>p. peer_id p = i) (cfg_peers c)"

definition other_peers :: "config \<Rightarrow> peer_config list" where
  "other_peers c = filter (\<lambda>p. peer_id p \<noteq> cfg_node_id c) (cfg_peers c)"

definition effective_interface :: "vip_config \<Rightarrow> string" where
  "effective_interface v =
     (case vc_vlan v of
        Some vlan \<Rightarrow> vc_interface v @ ''.'' @ dec_fmt (unat vlan)
      | None \<Rightarrow> vc_interface v)"

definition sorted_vips :: "config \<Rightarrow> vip_table" where
  "sorted_vips c = map (\<lambda>v. (vc_address v, effective_interface v)) (cfg_vips c)"

subsection \<open>VIPs with their prefix\<close>

fun host_prefix :: "ip_addr \<Rightarrow> u8" where
  "host_prefix (V4 _) = 32"
| "host_prefix (V6 _) = 128"

definition vip_host :: "ip_addr \<Rightarrow> vip_addr" where
  "vip_host a = \<lparr>vip_ip = a, vip_prefix = host_prefix a\<rparr>"

text \<open>A failed \<open>parse\<close> of the standard library is the root error, under the context the caller adds; the root of
  a number is named by its type, whose message depends on the kind of the failure.\<close>

definition vip_from_str :: "string \<Rightarrow> vip_addr anyhow_result" where
  "vip_from_str s =
     (let (addr_str, prefix_str) =
            (case split_once CHR ''/'' s of Some (a, p) \<Rightarrow> (a, Some p) | None \<Rightarrow> (s, None)) in
      rbind (with_context (CauseMessage ''vip address is not a valid IP'')
               (case ip_parse addr_str of None \<Rightarrow> bail ''invalid IP address syntax'' | Some addr \<Rightarrow> Inr addr)) (\<lambda>addr.
      case prefix_str of
        None \<Rightarrow> Inr \<lparr>vip_ip = addr, vip_prefix = host_prefix addr\<rparr>
      | Some p \<Rightarrow>
          rbind (with_context (CauseMessage ''vip prefix is not a valid prefix length'')
                   (case parse_unsigned 256 10 p of None \<Rightarrow> bail ''ParseIntError'' | Some n \<Rightarrow> Inr (of_nat n))) (\<lambda>prefix.
          if prefix \<le> host_prefix addr then Inr \<lparr>vip_ip = addr, vip_prefix = prefix\<rparr>
          else bail ''vip prefix out of range'')))"

definition vip_display :: "vip_addr \<Rightarrow> string" where
  "vip_display v = ip_display (vip_ip v) @ ''/'' @ dec_fmt (unat (vip_prefix v))"

subsection \<open>Socket addresses\<close>

text \<open>\<open>SocketAddr\<close> of the standard library; the text form carries no flow information.\<close>

datatype socket_addr =
    SocketV4 u32 u16
  | SocketV6 u128 (socket_port6: u16) (socket_flowinfo: u32) (socket_scope: u32)

definition read_port :: "u16 parser" where
  "read_port s =
     (case read_given_char CHR '':'' s of
        None \<Rightarrow> None
      | Some (_, r) \<Rightarrow> map_option (\<lambda>(v, r'). (of_nat v, r')) (read_number (2 ^ 16) 10 (length r) True r))"

definition read_scope_id :: "u32 parser" where
  "read_scope_id s =
     (case read_given_char CHR ''%'' s of
        None \<Rightarrow> None
      | Some (_, r) \<Rightarrow> map_option (\<lambda>(v, r'). (of_nat v, r')) (read_number (2 ^ 32) 10 (length r) True r))"

definition read_socket_addr_v4 :: "socket_addr parser" where
  "read_socket_addr_v4 s =
     (case read_ipv4_addr s of
        None \<Rightarrow> None
      | Some (a, r) \<Rightarrow> map_option (\<lambda>(p, r'). (SocketV4 a p, r')) (read_port r))"

definition read_socket_addr_v6 :: "socket_addr parser" where
  "read_socket_addr_v6 s =
     Option.bind (read_given_char CHR ''['' s) (\<lambda>(_, r1).
     Option.bind (read_ipv6_addr r1) (\<lambda>(a, r2).
     let (scope, r3) = (case read_scope_id r2 of Some (v, r) \<Rightarrow> (v, r) | None \<Rightarrow> (0, r2)) in
     Option.bind (read_given_char CHR '']'' r3) (\<lambda>(_, r4).
     map_option (\<lambda>(p, r5). (SocketV6 a p 0 scope, r5)) (read_port r4))))"

definition socket_parse :: "string \<Rightarrow> socket_addr option" where
  "socket_parse s =
     (case (case read_socket_addr_v4 s of Some x \<Rightarrow> Some x | None \<Rightarrow> read_socket_addr_v6 s) of
        Some (a, r) \<Rightarrow> if r = [] then Some a else None
      | None \<Rightarrow> None)"

fun socket_display :: "socket_addr \<Rightarrow> string" where
  "socket_display (SocketV4 a p) = v4_display a @ '':'' @ dec_fmt (unat p)"
| "socket_display (SocketV6 a p flow scope) =
     ''['' @ v6_display a @ (if scope = 0 then [] else ''%'' @ dec_fmt (unat scope)) @ '']:'' @
     dec_fmt (unat p)"

fun socket_ip :: "socket_addr \<Rightarrow> ip_addr" where
  "socket_ip (SocketV4 a _) = V4 a"
| "socket_ip (SocketV6 a _ _ _) = V6 a"

text \<open>\<open>to_ipv4_mapped\<close>: the IPv4 address inside \<open>::ffff:0:0/96\<close>.\<close>

definition to_ipv4_mapped :: "u128 \<Rightarrow> u32 option" where
  "to_ipv4_mapped a = (if drop_bit 32 a = 0xffff then Some (ucast a) else None)"

fun canonical_socket_addr :: "socket_addr \<Rightarrow> socket_addr" where
  "canonical_socket_addr (SocketV6 a p flow scope) =
     (case to_ipv4_mapped a of Some ip \<Rightarrow> SocketV4 ip p | None \<Rightarrow> SocketV6 a p flow scope)"
| "canonical_socket_addr (SocketV4 a p) = SocketV4 a p"

definition parse_socket_addr :: "string \<Rightarrow> socket_addr anyhow_result" where
  "parse_socket_addr value =
     with_context (CauseMessage ''must be a valid IP:port socket address'')
       (case socket_parse value of
          None \<Rightarrow> bail ''invalid socket address syntax''
        | Some a \<Rightarrow> Inr (canonical_socket_addr a))"

text \<open>A canonical address is fixed: an alias and its target never pass as two endpoints.\<close>

lemma canonical_socket_idem [simp]:
  "canonical_socket_addr (canonical_socket_addr a) = canonical_socket_addr a"
  by (cases a) (auto split: option.split)

lemma parse_socket_canonical: "parse_socket_addr s = Inr a \<Longrightarrow> canonical_socket_addr a = a"
  by (auto simp: parse_socket_addr_def bail_def split: option.splits)

subsection \<open>Reading back what was printed\<close>

lemma split_once_append: "c \<notin> set a \<Longrightarrow> split_once c (a @ c # b) = Some (a, b)"
  by (induction a) (auto simp: split_once_def)

text \<open>C37. A VIP's text form reads back to the same VIP: for IPv4 and for IPv6, in the plain, the elided and the
  IPv4-mapped notation, parsing the printed address and prefix returns exactly the address and the prefix.\<close>

theorem vip_text_roundtrip:
  assumes "vip_prefix v \<le> host_prefix (vip_ip v)"
  shows "vip_from_str (vip_display v) = Inr v"
proof -
  have split: "split_once CHR ''/'' (vip_display v) = Some (ip_display (vip_ip v), dec_fmt (unat (vip_prefix v)))"
    using split_once_append [of "CHR ''/''" "ip_display (vip_ip v)"] ip_display_chars by (auto simp: vip_display_def)
  have "unat (vip_prefix v) < 256" using unsigned_less [of "vip_prefix v", where ?'a = nat] by simp
  then show ?thesis
    using assms by (simp add: vip_from_str_def split ip_parse_display parse_unsigned_fmt)
qed

theorem vip_text_roundtrip_witness:
  "vip_from_str (vip_display \<lparr>vip_ip = V6 0x20010db8000000000000000000000001, vip_prefix = 64\<rparr>) =
     Inr \<lparr>vip_ip = V6 0x20010db8000000000000000000000001, vip_prefix = 64\<rparr>"
  using vip_text_roundtrip [of "\<lparr>vip_ip = V6 0x20010db8000000000000000000000001, vip_prefix = 64\<rparr>"]
  by simp

lemma read_port_fmt: "read_port (CHR '':'' # dec_fmt (unat p)) = Some (p, [])"
proof -
  have p: "unat p < 2 ^ 16" using unsigned_less [of p, where ?'a = nat] by simp
  have len: "0 < length (dec_fmt (unat p))" by (simp add: radix_fmt_def)
  have "unat p < 10 ^ length (dec_fmt (unat p))"
    using undigits_bound [of "radix_digits 10 (unat p)" 10] radix_digits_less [of 10] undigits_radix_digits [of 10 "unat p"]
    by (simp add: radix_fmt_def)
  then have "read_number (2 ^ 16) 10 (length (dec_fmt (unat p))) True (dec_fmt (unat p)) = Some (unat p, [])"
    using read_number_fmt [of 10 "[]" "unat p" "2 ^ 16" "length (dec_fmt (unat p))" True] p len
    by (simp add: no_digit_def)
  then show ?thesis by (simp add: read_port_def read_given_char_def)
qed

lemma read_scope_fmt:
  "read_scope_id (CHR ''%'' # dec_fmt (unat s) @ CHR '']'' # r) = Some (s, CHR '']'' # r)"
proof -
  let ?t = "dec_fmt (unat s)" and ?r = "CHR '']'' # r"
  have p: "unat s < 2 ^ 32" using unsigned_less [of s, where ?'a = nat] by simp
  have "unat s < 10 ^ length ?t"
    using undigits_bound [of "radix_digits 10 (unat s)" 10] radix_digits_less [of 10] undigits_radix_digits [of 10 "unat s"]
    by (simp add: radix_fmt_def)
  then have "unat s < 10 ^ length (?t @ ?r)" by (rule less_le_trans) (rule power_increasing, simp_all)
  then have "read_number (2 ^ 32) 10 (length (?t @ ?r)) True (?t @ ?r) = Some (unat s, ?r)"
    using p by (intro read_number_fmt) (simp_all add: no_digit_def to_digit_def)
  then show ?thesis by (simp add: read_scope_id_def read_given_char_def)
qed

lemma socket_parse_display:
  assumes "case a of SocketV4 _ _ \<Rightarrow> True | SocketV6 _ _ flow _ \<Rightarrow> flow = 0"
  shows "socket_parse (socket_display a) = Some a"
proof (cases a)
  case (SocketV4 ip p)
  have "read_ipv4_addr (v4_display ip @ CHR '':'' # dec_fmt (unat p)) = Some (ip, CHR '':'' # dec_fmt (unat p))"
    by (rule read_ipv4_display) (simp add: dot_no_digit)
  then show ?thesis by (simp add: SocketV4 socket_parse_def read_socket_addr_v4_def read_port_fmt)
next
  case (SocketV6 ip p flow scope)
  have v4: "read_socket_addr_v4 (CHR ''['' # s) = None" for s
    by (simp add: read_socket_addr_v4_def read_ipv4_none no_dot_def to_digit_def)
  have ip: "read_ipv6_addr (v6_display ip @ c # s) = Some (ip, c # s)" if "c = CHR '']'' \<or> c = CHR ''%''" for c s
    using that by (intro read_ipv6_display) (auto simp: ends_def to_digit_def)
  have none: "read_scope_id (CHR '']'' # s) = None" for s by (simp add: read_scope_id_def read_given_char_def)
  show ?thesis
    using assms read_port_fmt [of p]
    by (simp add: SocketV6 socket_parse_def v4 read_socket_addr_v6_def read_given_char_def ip none read_scope_fmt
        split_beta)
qed

lemma parse_socket_display:
  assumes "case a of SocketV4 _ _ \<Rightarrow> True | SocketV6 _ _ flow _ \<Rightarrow> flow = 0" "canonical_socket_addr a = a"
  shows "parse_socket_addr (socket_display a) = Inr a"
  using socket_parse_display [OF assms(1)] assms(2) by (simp add: parse_socket_addr_def)

subsection \<open>A sample configuration\<close>

text \<open>Three members and two VIPs with default timing, for evaluation.\<close>

definition sample_peer :: "u64 \<Rightarrow> string \<Rightarrow> peer_config" where
  "sample_peer i ip =
     \<lparr>peer_id = i, raft_address = ip @ '':7001'', client_submit_address = ip @ '':7002''\<rparr>"

definition sample_config :: config where
  "sample_config =
     \<lparr>cfg_node_id = 1, raft_listen = ''10.0.0.1:7001'', client_submit_listen = ''10.0.0.1:7002'',
      cfg_peers = [sample_peer 1 ''10.0.0.1'', sample_peer 2 ''10.0.0.2'', sample_peer 3 ''10.0.0.3''],
      cfg_vips =
        [\<lparr>vc_address = \<lparr>vip_ip = V4 0x0A000066, vip_prefix = 24\<rparr>, vc_interface = ''eth0'', vc_vlan = Some 100\<rparr>,
         \<lparr>vc_address = \<lparr>vip_ip = V4 0x0A000065, vip_prefix = 24\<rparr>, vc_interface = ''eth0'', vc_vlan = None\<rparr>],
      cfg_health = \<lparr>hc_command = [''/bin/true''], interval_ms = 1000, timeout_ms = 500, stale_secs = None\<rparr>,
      cfg_raft = default_raft_tune, cluster_secret = Some ''0123456789abcdef0123456789abcdef'',
      cluster_secret_file = None, max_frame_bytes = DEFAULT_MAX_FRAME_BYTES,
      submit_timeout_ms = DEFAULT_SUBMIT_TIMEOUT_MS, address_protocol = DEFAULT_VIP_ADDRESS_PROTOCOL,
      dry_run = False, cfg_notify = None, failover_delay_secs = 0, cfg_failback = True,
      failback_delay_secs = 10\<rparr>"

end
