(* ===== verification/Lease_Timing.thy ===== *)
theory Lease_Timing
  imports Kaf_Config Kaf_Interfaces Bind_Policy
begin

text \<open>
  Lifetimes of admission (\<open>src/runtime_permission/timing.rs\<close>): how long a runtime may use a grant, how
  long its issuer stays reserved, how long a new boot stays quarantined, and how long VIP effects
  wait. Checked arithmetic fails with an error; the operators \<open>*\<close> of \<open>Duration\<close> panic on overflow, and
  a panic is the value \<open>None\<close>.
\<close>

definition CLOCK_RATE_RATIO :: u32 where
  "CLOCK_RATE_RATIO = 2"

record lease_timing =
  lt_consumer_use :: duration
  lt_issuer_reservation :: duration
  lt_restart_quarantine :: duration
  lt_vip_activation_delay :: duration
  lt_rpc_budget :: duration
  lt_renewal_interval :: duration
  lt_renewal_round_budget :: duration

text \<open>The proof lifetime of \<open>ConsensusFreshness::for_probe_cadence\<close>.\<close>

definition for_probe_cadence :: "u64 \<Rightarrow> u64 \<Rightarrow> duration" where
  "for_probe_cadence interval stale_missed =
     (let stale = from_millis (sat_mul interval stale_missed);
          handoff = from_millis (sat_mul interval OWNERSHIP_ACTIVATION_HOLDOFF_TICKS)
      in dur_saturating_add stale (handoff div 2))"

definition lease_new :: "duration \<Rightarrow> duration \<Rightarrow> lease_timing anyhow_result" where
  "lease_new consumer_use cleanup_budget =
     (if consumer_use = 0 then bail ''admission lifetime must be positive''
      else case dur_checked_mul consumer_use CLOCK_RATE_RATIO of
        None \<Rightarrow> bail ''admission reservation duration overflow''
      | Some issuer_reservation \<Rightarrow>
          (case dur_checked_mul issuer_reservation CLOCK_RATE_RATIO of
             None \<Rightarrow> bail ''admission quarantine duration overflow''
           | Some restart_quarantine \<Rightarrow>
               (case Option.bind (dur_checked_add consumer_use cleanup_budget)
                       (\<lambda>d. dur_checked_mul d CLOCK_RATE_RATIO) of
                  None \<Rightarrow> bail ''VIP activation duration overflow''
                | Some vip_activation_delay \<Rightarrow>
                    Inr \<lparr>lt_consumer_use = consumer_use, lt_issuer_reservation = issuer_reservation,
                         lt_restart_quarantine = restart_quarantine,
                         lt_vip_activation_delay = vip_activation_delay,
                         lt_rpc_budget = min (consumer_use div 6) (from_millis 500),
                         lt_renewal_interval = consumer_use div 4,
                         lt_renewal_round_budget = consumer_use\<rparr>)))"

text \<open>\<open>Duration * u32\<close> panics where \<open>checked_mul\<close> is \<open>None\<close>.\<close>

definition dur_mul :: "duration \<Rightarrow> u32 \<Rightarrow> duration option" where
  "dur_mul d k = dur_checked_mul d k"

definition cleanup_budget :: "nat \<Rightarrow> duration anyhow_result" where
  "cleanup_budget vip_count =
     (if 2 ^ 32 \<le> vip_count then bail ''too many VIPs for admission cleanup budget''
      else case Option.bind (dur_checked_mul SHUTDOWN_VIP_BUDGET (of_nat vip_count))
                  (\<lambda>d. dur_checked_add d RECONCILE_TICK) of
        None \<Rightarrow> bail ''admission cleanup budget overflow''
      | Some d \<Rightarrow> Inr d)"

text \<open>The two inner products are evaluated only where the sum so far exists.\<close>

definition election_budget :: "raft_tune_config \<Rightarrow> duration anyhow_result option" where
  "election_budget r =
     (let overflow = Some (bail ''admission election budget overflow'') in
      case dur_checked_mul (from_millis (election_timeout_max_ms r)) 3 of
        None \<Rightarrow> overflow
      | Some d1 \<Rightarrow> Option.bind (dur_mul (from_millis (heartbeat_interval_ms r)) 3) (\<lambda>h.
          case dur_checked_add d1 (h div 2) of
            None \<Rightarrow> overflow
          | Some d2 \<Rightarrow> Option.bind (dur_mul (from_millis (election_timeout_min_ms r)) 2) (\<lambda>m.
              case dur_checked_add d2 m of
                None \<Rightarrow> overflow
              | Some d3 \<Rightarrow> Some (Inr d3))))"

definition round_budget :: "nat \<Rightarrow> duration \<Rightarrow> duration anyhow_result" where
  "round_budget peer_count rpc_budget =
     (case (if peer_count < 2 ^ 32 then chk_add (of_nat peer_count :: u32) 4 else None) of
        None \<Rightarrow> bail ''admission renewal roster too large''
      | Some round_slots \<Rightarrow>
          (case dur_checked_mul rpc_budget round_slots of
             None \<Rightarrow> bail ''admission renewal budget overflow''
           | Some d \<Rightarrow> Inr d))"

definition recovery_budget :: "duration \<Rightarrow> duration \<Rightarrow> duration \<Rightarrow> duration anyhow_result option" where
  "recovery_budget election round renewal_interval =
     (let overflow = Some (bail ''admission recovery budget overflow'') in
      case dur_checked_mul election CLOCK_RATE_RATIO of
        None \<Rightarrow> overflow
      | Some d1 \<Rightarrow> Option.bind (dur_mul round 4) (\<lambda>r4.
          case dur_checked_add d1 r4 of
            None \<Rightarrow> overflow
          | Some d2 \<Rightarrow> Option.bind (dur_mul renewal_interval 2) (\<lambda>i2.
              case dur_checked_add d2 i2 of
                None \<Rightarrow> overflow
              | Some d3 \<Rightarrow> Some (Inr d3))))"

definition lease_for_config :: "config \<Rightarrow> nat \<Rightarrow> lease_timing anyhow_result option" where
  "lease_for_config cfg vip_count =
     (case cleanup_budget vip_count of Inl e \<Rightarrow> Some (Inl e) | Inr cleanup \<Rightarrow>
      let health_window = for_probe_cadence (interval_ms (cfg_health cfg))
                            (effective_stale_missed_probes (cfg_health cfg));
          rpc_budget = min (health_window div 6) (from_millis 500);
          renewal_interval = health_window div 4 in
      Option.bind (election_budget (cfg_raft cfg)) (\<lambda>el.
      case el of Inl e \<Rightarrow> Some (Inl e) | Inr election \<Rightarrow>
      case round_budget (length (cfg_peers cfg)) rpc_budget of Inl e \<Rightarrow> Some (Inl e) | Inr round \<Rightarrow>
      Option.bind (recovery_budget election round renewal_interval) (\<lambda>rec.
      case rec of Inl e \<Rightarrow> Some (Inl e) | Inr recovery \<Rightarrow>
      Some (rbind (lease_new (max health_window recovery) cleanup)
        (\<lambda>timing. Inr (timing\<lparr>lt_rpc_budget := rpc_budget, lt_renewal_interval := renewal_interval,
                               lt_renewal_round_budget := round\<rparr>))))))"

definition startup_vip_delay :: "lease_timing \<Rightarrow> duration anyhow_result" where
  "startup_vip_delay lt =
     (case dur_checked_add (lt_restart_quarantine lt) (lt_vip_activation_delay lt) of
        None \<Rightarrow> bail ''VIP startup duration overflow''
      | Some d \<Rightarrow> Inr d)"

definition deadline :: "instant \<Rightarrow> duration \<Rightarrow> instant anyhow_result" where
  "deadline start lifetime =
     (case inst_checked_add start lifetime of
        None \<Rightarrow> bail ''admission deadline overflow''
      | Some d \<Rightarrow> Inr d)"

definition vip_activation_deadline :: "lease_timing \<Rightarrow> instant \<Rightarrow> instant anyhow_result" where
  "vip_activation_deadline lt admitted = deadline admitted (lt_vip_activation_delay lt)"

text \<open>\<open>LeaseTiming\<close> as the \<open>AdmissionTiming\<close> of the controller: each overflow has its own denial.\<close>

definition deny_with :: "string \<Rightarrow> 'a anyhow_result \<Rightarrow> 'a admitted" where
  "deny_with m r = (case r of Inl _ \<Rightarrow> Inl (AdmissionDenied m) | Inr a \<Rightarrow> Inr a)"

definition consumer_deadline :: "lease_timing \<Rightarrow> instant \<Rightarrow> instant admitted" where
  "consumer_deadline lt start =
     deny_with ''admission consumer deadline overflow'' (deadline start (lt_consumer_use lt))"

definition reservation_deadline :: "lease_timing \<Rightarrow> instant \<Rightarrow> instant admitted" where
  "reservation_deadline lt start =
     deny_with ''admission reservation deadline overflow'' (deadline start (lt_issuer_reservation lt))"

definition quarantine_deadline :: "lease_timing \<Rightarrow> instant \<Rightarrow> instant admitted" where
  "quarantine_deadline lt start =
     deny_with ''admission quarantine deadline overflow'' (deadline start (lt_restart_quarantine lt))"

subsection \<open>The contract of the lifetimes\<close>

definition timing_ok :: "lease_timing \<Rightarrow> bool" where
  "timing_ok lt =
     (0 < lt_consumer_use lt \<and>
      lt_issuer_reservation lt = 2 * lt_consumer_use lt \<and>
      lt_restart_quarantine lt = 2 * lt_issuer_reservation lt \<and>
      2 * lt_consumer_use lt \<le> lt_vip_activation_delay lt \<and>
      lt_restart_quarantine lt \<le> duration_max \<and> lt_vip_activation_delay lt \<le> duration_max)"

interpretation lease: lease_contract timing_ok lt_consumer_use lt_issuer_reservation lt_restart_quarantine
  by unfold_locales (simp_all add: timing_ok_def)

lemma deadline_Inr [simp]: "deadline s d = Inr e \<longleftrightarrow> e = s + d \<and> s + d \<le> instant_max"
  by (auto simp: deadline_def bail_def inst_checked_add_def)

lemma deny_with_Inr [simp]: "deny_with m r = Inr a \<longleftrightarrow> r = Inr a"
  by (auto simp: deny_with_def split: sum.splits)

lemma deadlines_Inr:
  "consumer_deadline lt s = Inr e \<longleftrightarrow> e = s + lt_consumer_use lt \<and> s + lt_consumer_use lt \<le> instant_max"
  "reservation_deadline lt s = Inr e \<longleftrightarrow>
     e = s + lt_issuer_reservation lt \<and> s + lt_issuer_reservation lt \<le> instant_max"
  "quarantine_deadline lt s = Inr e \<longleftrightarrow>
     e = s + lt_restart_quarantine lt \<and> s + lt_restart_quarantine lt \<le> instant_max"
  by (simp_all add: consumer_deadline_def reservation_deadline_def quarantine_deadline_def)

lemma unat_ratio [simp]: "unat CLOCK_RATE_RATIO = 2"
  by (simp add: CLOCK_RATE_RATIO_def)

lemma lease_new_ok:
  assumes "lease_new use cleanup = Inr lt"
  shows "timing_ok lt \<and> lt_consumer_use lt = use \<and> lt_vip_activation_delay lt = 2 * (use + cleanup)"
proof -
  have "0 < use" using assms by (cases "use = 0") (simp_all add: lease_new_def bail_def)
  then show ?thesis
    using assms by (auto simp: lease_new_def bail_def timing_ok_def bind_eq_Some_conv split: option.splits)
qed

subsection \<open>No panic, and room for renewal\<close>

lemma from_millis_bound: "from_millis ms \<le> 2 ^ 64 * 1000000"
  using unsigned_less [of ms, where ?'a = nat] by (simp add: from_millis_def)

lemma dur_mul_small: "d * unat k \<le> duration_max \<Longrightarrow> dur_mul d k = Some (d * unat k)"
  by (simp add: dur_mul_def)

lemma dur_mul_millis: "k \<le> 3 \<Longrightarrow> dur_mul (from_millis ms) k = Some (from_millis ms * unat k)"
proof (rule dur_mul_small)
  assume "k \<le> 3"
  then have "unat k \<le> 3" by (simp add: word_le_nat_alt)
  then have "from_millis ms * unat k \<le> 2 ^ 64 * 1000000 * 3"
    using from_millis_bound by (rule mult_le_mono [rotated])
  then show "from_millis ms * unat k \<le> duration_max" by (simp add: duration_max_def)
qed

lemma for_probe_cadence_bound: "for_probe_cadence i m \<le> duration_max"
  by (simp add: for_probe_cadence_def dur_saturating_add_def Let_def)

lemma election_budget_no_panic: "election_budget r \<noteq> None"
  by (simp add: election_budget_def Let_def dur_mul_millis split: option.split)

lemma round_budget_Inr:
  assumes "round_budget n rpc = Inr d"
  shows "d = rpc * (n + 4) \<and> n + 4 < 2 ^ 32"
proof -
  obtain k where k: "n < 2 ^ 32" "chk_add (of_nat n :: u32) 4 = Some k" "dur_checked_mul rpc k = Some d"
    using assms by (auto simp: round_budget_def bail_def split: option.splits if_splits)
  have "unat (of_nat n :: u32) = n" using k(1) by (simp add: unat_of_nat take_bit_nat_eq_self)
  then have "unat k = n + 4" using unat_chk_add [OF k(2)] by simp
  moreover have "unat k < 2 ^ 32" using unsigned_less [of k, where ?'a = nat] by simp
  ultimately show ?thesis using k(3) by simp
qed

lemma recovery_budget_no_panic:
  assumes "round * 4 \<le> duration_max" "renewal * 2 \<le> duration_max"
  shows "recovery_budget election round renewal \<noteq> None"
  using assms by (simp add: recovery_budget_def Let_def dur_mul_small split: option.split)

lemma recovery_budget_Inr:
  assumes "recovery_budget election round renewal = Some (Inr d)"
  shows "d = 2 * election + 4 * round + 2 * renewal"
  using assms
  by (auto simp: recovery_budget_def Let_def dur_mul_def bail_def bind_eq_Some_conv
      split: option.splits)

lemma round_times_four:
  assumes "round_budget n (min w (from_millis 500)) = Inr d"
  shows "d * 4 \<le> duration_max"
proof -
  have d: "d = min w (from_millis 500) * (n + 4)" "n + 4 < 2 ^ 32"
    using round_budget_Inr [OF assms] by simp_all
  have "min w (from_millis 500) \<le> 500000000" by (simp add: from_millis_def)
  then have "d \<le> 500000000 * 2 ^ 32"
    unfolding d(1) using d(2) by (intro mult_le_mono) simp_all
  then show ?thesis by (simp add: duration_max_def)
qed

lemma lease_for_config_Inr:
  assumes "lease_for_config cfg n = Some (Inr lt)"
    and w: "w = for_probe_cadence (interval_ms (cfg_health cfg)) (effective_stale_missed_probes (cfg_health cfg))"
    and rpc: "rpc = min (w div 6) (from_millis 500)"
  obtains cleanup election round recovery t where
    "cleanup_budget n = Inr cleanup" "election_budget (cfg_raft cfg) = Some (Inr election)"
    "round_budget (length (cfg_peers cfg)) rpc = Inr round"
    "recovery_budget election round (w div 4) = Some (Inr recovery)"
    "lease_new (max w recovery) cleanup = Inr t"
    "lt = t\<lparr>lt_rpc_budget := rpc, lt_renewal_interval := w div 4, lt_renewal_round_budget := round\<rparr>"
proof (cases "cleanup_budget n")
  case (Inr cleanup)
  note c = Inr
  obtain el where el: "election_budget (cfg_raft cfg) = Some el" using election_budget_no_panic by blast
  note body = assms(1) [unfolded lease_for_config_def c sum.case Let_def w [symmetric] rpc [symmetric] el]
  show ?thesis
  proof (cases el)
    case (Inr election)
    show ?thesis
    proof (cases "round_budget (length (cfg_peers cfg)) rpc")
      case (Inr round)
      then show ?thesis
        using body el \<open>el = Inr election\<close> c that
        by (cases "recovery_budget election round (w div 4)") (auto split: sum.splits)
    qed (use body \<open>el = Inr election\<close> in simp)
  qed (use body in simp)
qed (use assms(1) in \<open>simp add: lease_for_config_def\<close>)

lemma lease_for_config_covers:
  assumes lt: "lease_for_config cfg vip_count = Some (Inr lt)"
  shows "timing_ok lt \<and> lt_rpc_budget lt \<le> from_millis 500 \<and>
      2 * (lt_consumer_use lt + vip_count * SHUTDOWN_VIP_BUDGET) \<le> lt_vip_activation_delay lt \<and>
      lt_renewal_round_budget lt = lt_rpc_budget lt * (length (cfg_peers cfg) + 4) \<and>
      (\<exists>election. election_budget (cfg_raft cfg) = Some (Inr election) \<and>
         2 * election + 4 * lt_renewal_round_budget lt + 2 * lt_renewal_interval lt \<le> lt_consumer_use lt)"
proof -
  define w where
    "w = for_probe_cadence (interval_ms (cfg_health cfg)) (effective_stale_missed_probes (cfg_health cfg))"
  show ?thesis
  proof (rule lease_for_config_Inr [OF lt w_def refl])
    fix cleanup election round recovery t
    assume c: "cleanup_budget vip_count = Inr cleanup"
      and e: "election_budget (cfg_raft cfg) = Some (Inr election)"
      and r: "round_budget (length (cfg_peers cfg)) (min (w div 6) (from_millis 500)) = Inr round"
      and v: "recovery_budget election round (w div 4) = Some (Inr recovery)"
      and t: "lease_new (max w recovery) cleanup = Inr t"
      and "lt = t\<lparr>lt_rpc_budget := min (w div 6) (from_millis 500), lt_renewal_interval := w div 4,
                   lt_renewal_round_budget := round\<rparr>"
    moreover have "cleanup = SHUTDOWN_VIP_BUDGET * vip_count + RECONCILE_TICK"
      using c by (auto simp: cleanup_budget_def bail_def bind_eq_Some_conv unat_of_nat take_bit_nat_eq_self
          split: if_splits option.splits)
    ultimately show ?thesis
      using lease_new_ok [OF t] round_budget_Inr [OF r] recovery_budget_Inr [OF v]
      by (simp add: timing_ok_def)
  qed
qed

lemma lease_order:
  assumes "timing_ok lt" "drift_bounded clk" "reservation_deadline lt (clk i granted) = Inr reserved" "granted \<le> t"
  shows "consumer_deadline lt (clk c started) = Inr used \<Longrightarrow> started \<le> granted \<Longrightarrow> reserved \<le> clk i t \<Longrightarrow> used \<le> clk c t"
    and "quarantine_deadline lt (clk b booted) = Inr ready \<Longrightarrow> granted \<le> booted \<Longrightarrow> booted \<le> t \<Longrightarrow> ready \<le> clk b t \<Longrightarrow>
      reserved \<le> clk i t"
  using lease.issuer_outlasts_consumer [OF assms(2,1) _ assms(4), of started i c]
    lease.restart_outlasts_issuer [OF assms(2,1), of granted booted t b i] assms(3)
  by (auto simp: deadlines_Inr)

text \<open>C15. For every configuration and number of VIPs, computing the admission lifetimes does not panic:
  each unchecked product is in range. When it succeeds, the reservation of an issuer is twice the use
  of a consumer, the quarantine of a new boot twice that, the VIP activation delay covers twice the use
  and the cleanup of every VIP, no RPC is given more than half a second, and one use leaves room for two
  elections at the worst clock ratio, four full renewal rounds and two renewal intervals. Hence the
  deadlines of three runtimes whose clocks advance at rates that differ at most by two are ordered in
  real time: when the reservation of an issuer has ended on its clock, the use that began before the grant
  has ended on the consumer's clock, and when the quarantine of a new boot has ended on its clock, every
  reservation made before the boot has ended on the issuer's clock.\<close>

theorem lease_for_config_sound:
  "lease_for_config cfg vip_count \<noteq> None \<and>
   (\<forall>lt. lease_for_config cfg vip_count = Some (Inr lt) \<longrightarrow>
      timing_ok lt \<and> lt_rpc_budget lt \<le> from_millis 500 \<and>
      2 * (lt_consumer_use lt + vip_count * SHUTDOWN_VIP_BUDGET) \<le> lt_vip_activation_delay lt \<and>
      lt_renewal_round_budget lt = lt_rpc_budget lt * (length (cfg_peers cfg) + 4) \<and>
      (\<exists>election. election_budget (cfg_raft cfg) = Some (Inr election) \<and>
         2 * election + 4 * lt_renewal_round_budget lt + 2 * lt_renewal_interval lt \<le> lt_consumer_use lt) \<and>
      (drift_bounded clk \<and> reservation_deadline lt (clk i granted) = Inr reserved \<and> granted \<le> t \<longrightarrow>
        (consumer_deadline lt (clk c started) = Inr used \<and> started \<le> granted \<and> reserved \<le> clk i t \<longrightarrow>
           used \<le> clk c t) \<and>
        (quarantine_deadline lt (clk b booted) = Inr ready \<and> granted \<le> booted \<and> booted \<le> t \<and> ready \<le> clk b t \<longrightarrow>
           reserved \<le> clk i t)))"
  (is "_ \<and> (\<forall>lt. _ lt \<longrightarrow> ?timed lt \<and> ?rpc lt \<and> ?delay lt \<and> ?round lt \<and> ?room lt \<and> ?ordered lt)")
proof -
  define w where
    "w = for_probe_cadence (interval_ms (cfg_health cfg)) (effective_stale_missed_probes (cfg_health cfg))"
  have w: "w \<le> duration_max" by (simp add: w_def for_probe_cadence_bound)
  have rec: "recovery_budget e r (w div 4) \<noteq> None"
    if "round_budget n (min (w div 6) (from_millis 500)) = Inr r" for e r n
    using round_times_four [OF that] w by (intro recovery_budget_no_panic) auto
  have "lease_for_config cfg vip_count \<noteq> None"
  proof
    assume "lease_for_config cfg vip_count = None"
    then show False
      using rec election_budget_no_panic [of "cfg_raft cfg"]
      by (auto simp del: not_None_eq simp: lease_for_config_def Let_def w_def [symmetric] bind_eq_None_conv
          split: sum.splits)
  qed
  moreover have "lease_for_config cfg vip_count = Some (Inr lt) \<longrightarrow> ?timed lt \<and> ?rpc lt \<and> ?delay lt \<and> ?round lt \<and> ?room lt \<and> ?ordered lt" for lt
    using lease_for_config_covers [of cfg vip_count lt] lease_order(1) [of lt clk i granted reserved t c started used]
      lease_order(2) [of lt clk i granted reserved t b booted ready]
    by blast
  ultimately show ?thesis by blast
qed

definition sample_timing :: lease_timing where
  "sample_timing =
     \<lparr>lt_consumer_use = 22900000000, lt_issuer_reservation = 45800000000,
      lt_restart_quarantine = 91600000000, lt_vip_activation_delay = 94300000000,
      lt_rpc_budget = 500000000, lt_renewal_interval = 875000000, lt_renewal_round_budget = 3500000000\<rparr>"

lemma sample_health_window:
  "for_probe_cadence (interval_ms (cfg_health sample_config))
     (effective_stale_missed_probes (cfg_health sample_config)) = 3500000000"
  by (simp add: sample_config_def for_probe_cadence_def effective_stale_missed_probes_def
      effective_stale_secs_def div_ceil_def OWNERSHIP_ACTIVATION_HOLDOFF_TICKS_def sat_mul_def
      from_millis_def dur_saturating_add_def duration_max_def Let_def max_def word_le_nat_alt)

lemma sample_budgets:
  "cleanup_budget 2 = Inr 24250000000"
  "election_budget (cfg_raft sample_config) = Some (Inr 3575000000)"
  "round_budget (length (cfg_peers sample_config)) 500000000 = Inr 3500000000"
  "recovery_budget 3575000000 3500000000 875000000 = Some (Inr 22900000000)"
  by (simp_all add: cleanup_budget_def election_budget_def round_budget_def recovery_budget_def
      SHUTDOWN_VIP_BUDGET_value RECONCILE_TICK_value dur_mul_def dur_checked_mul_def dur_checked_add_def
      sample_config_def default_raft_tune_def from_millis_def chk_add_def duration_max_def Let_def)

lemma sample_lease: "lease_for_config sample_config 2 = Some (Inr sample_timing)"
  by (simp add: lease_for_config_def sample_health_window sample_budgets Let_def from_millis_def
      lease_new_def dur_checked_mul_def dur_checked_add_def duration_max_def sample_timing_def)

theorem lease_for_config_sound_witness:
  "lease_for_config sample_config 2 = Some (Inr sample_timing) \<and> timing_ok sample_timing \<and>
   consumer_deadline sample_timing 5 = Inr 22900000005 \<and> reservation_deadline sample_timing 14 = Inr 45800000014 \<and>
   (22900000005 :: nat) \<le> 22900000007"
proof -
  let ?clk = "\<lambda>r t :: nat. if r = (0 :: nat) then 2 * t else t"
  have drift: "drift_bounded ?clk" by (auto simp: drift_bounded_def)
  have "consumer_deadline sample_timing (?clk 1 5) = Inr 22900000005" "reservation_deadline sample_timing (?clk 0 7) = Inr 45800000014"
    by (simp_all add: deadlines_Inr sample_timing_def instant_max_def)
  with lease_for_config_sound [of sample_config 2 ?clk 0 7 45800000014 22900000007 1 5 22900000005] sample_lease drift
  show ?thesis by auto
qed

end
