(* ===== verification/Runtime_Permission.thy ===== *)
theory Runtime_Permission
  imports Lease_Timing
begin

text \<open>
  Process-local authority (\<open>src/runtime_permission.rs\<close>): a runtime starts quarantined, is admitted at
  most once, is renewed while its lease lasts and is sealed for good by expiry or revocation. Every
  operation is one \<open>send_if_modified\<close> on a watch channel; its result here is the new state, whether the
  watchers are notified, and what the operation returns. \<open>now\<close> is the clock reading inside it.
\<close>

record authority_context =
  ac_boot_nonce :: bytes32
  ac_cluster_epoch :: u128
  ac_genesis_digest :: bytes32
  ac_admission_generation :: u64

datatype stage = Joining log_id | Voting

datatype perm_state = Quarantined instant | Active authority_context stage instant | Sealed

fun seal_expired :: "instant \<Rightarrow> perm_state \<Rightarrow> perm_state \<times> bool" where
  "seal_expired now (Active c s until) = (if until \<le> now then (Sealed, True) else (Active c s until, False))"
| "seal_expired now st = (st, False)"

definition perm_admit ::
  "instant \<Rightarrow> authority_context \<Rightarrow> instant \<Rightarrow> perm_state \<Rightarrow> perm_state \<times> bool \<times> bool" where
  "perm_admit now ctx until st =
     (if (case st of Quarantined ready \<Rightarrow> ready \<le> now \<and> now < until | _ \<Rightarrow> False)
      then (Active ctx Voting until, True, True)
      else let (st', changed) = seal_expired now st in (st', changed, False))"

definition perm_join ::
  "instant \<Rightarrow> authority_context \<Rightarrow> log_id \<Rightarrow> instant \<Rightarrow> perm_state \<Rightarrow> perm_state \<times> bool \<times> bool" where
  "perm_join now ctx prepared until st =
     (let (st', expired) = seal_expired now st in
      if expired then (st', True, False)
      else let accepted = (case st' of
                             Quarantined ready \<Rightarrow> ready \<le> now \<and> now < until
                           | Active current (Joining operation) previous \<Rightarrow>
                               current = ctx \<and> operation = prepared \<and> previous < until
                           | _ \<Rightarrow> False)
           in (if accepted then Active ctx (Joining prepared) until else st', accepted, accepted))"

definition perm_mark_promoted ::
  "instant \<Rightarrow> authority_context \<Rightarrow> log_id \<Rightarrow> perm_state \<Rightarrow> perm_state \<times> bool \<times> bool" where
  "perm_mark_promoted now ctx prepared st =
     (let (st', expired) = seal_expired now st in
      if expired then (st', True, False)
      else case st' of
        Active current (Joining operation) until \<Rightarrow>
          if current = ctx \<and> operation = prepared then (Active current Voting until, True, True)
          else (st', False, False)
      | _ \<Rightarrow> (st', False, False))"

definition perm_renew ::
  "instant \<Rightarrow> authority_context \<Rightarrow> instant \<Rightarrow> perm_state \<Rightarrow> perm_state \<times> bool \<times> bool" where
  "perm_renew now ctx until st =
     (let (st', expired) = seal_expired now st in
      if expired then (st', True, False)
      else case st' of
        Active current Voting previous \<Rightarrow>
          if current = ctx \<and> previous \<le> until
          then if previous < until then (Active ctx Voting until, True, True) else (st', False, True)
          else (st', False, False)
      | _ \<Rightarrow> (st', False, False))"

definition perm_current ::
  "instant \<Rightarrow> perm_state \<Rightarrow> perm_state \<times> bool \<times> (authority_context \<times> instant) option" where
  "perm_current now st =
     (let (st', changed) = seal_expired now st in
      (st', changed, case st' of Active c _ until \<Rightarrow> Some (c, until) | _ \<Rightarrow> None))"

definition perm_seal :: "perm_state \<Rightarrow> perm_state \<times> bool" where
  "perm_seal st = (if st = Sealed then (st, False) else (Sealed, True))"

text \<open>One turn of \<open>wait_until_sealed\<close>: what the sleep or the channel reports, and whether it returns.\<close>

datatype wait_event = DeadlineSlept | StateChanged | ChannelClosed

definition wait_until_sealed_turn :: "instant \<Rightarrow> wait_event \<Rightarrow> perm_state \<Rightarrow> perm_state \<times> bool" where
  "wait_until_sealed_turn now ev st =
     (case st of
        Sealed \<Rightarrow> (st, True)
      | Quarantined _ \<Rightarrow> (if ev = ChannelClosed then (fst (perm_seal st), True) else (st, False))
      | Active _ _ _ \<Rightarrow>
          (case ev of
             DeadlineSlept \<Rightarrow> (fst (perm_current now st), False)
           | StateChanged \<Rightarrow> (st, False)
           | ChannelClosed \<Rightarrow> (fst (perm_seal st), True)))"

subsection \<open>The permission as a transition system\<close>

text \<open>\<open>perm_step_at now\<close>: one operation whose clock reading is \<open>now\<close>; \<open>perm_step\<close>: one with any reading, and
  \<open>perm_step_from now\<close>: one with a reading no earlier than \<open>now\<close>, as all have once a monotonic clock reads \<open>now\<close>.\<close>

inductive perm_step_at :: "instant \<Rightarrow> perm_state \<Rightarrow> perm_state \<Rightarrow> bool" for now where
  admit: "perm_step_at now st (fst (perm_admit now ctx until st))"
| join: "perm_step_at now st (fst (perm_join now ctx prepared until st))"
| promote: "perm_step_at now st (fst (perm_mark_promoted now ctx prepared st))"
| renew: "perm_step_at now st (fst (perm_renew now ctx until st))"
| observe: "perm_step_at now st (fst (perm_current now st))"
| revoke: "perm_step_at now st (fst (perm_seal st))"
| wait: "perm_step_at now st (fst (wait_until_sealed_turn now ev st))"

inductive_cases perm_step_atE: "perm_step_at now st st'"

definition perm_step :: "perm_state \<Rightarrow> perm_state \<Rightarrow> bool" where
  "perm_step st st' = (\<exists>now. perm_step_at now st st')"

definition perm_step_from :: "instant \<Rightarrow> perm_state \<Rightarrow> perm_state \<Rightarrow> bool" where
  "perm_step_from now st st' = (\<exists>later. now \<le> later \<and> perm_step_at later st st')"

named_theorems perm_defs \<open>definitions of the permission's operations\<close>

lemmas [perm_defs] =
  perm_admit_def perm_join_def perm_mark_promoted_def perm_renew_def perm_current_def perm_seal_def
  wait_until_sealed_turn_def

text \<open>A sealed state, or a lease that has run out, permits nothing.\<close>

definition live_at :: "instant \<Rightarrow> perm_state \<Rightarrow> bool" where
  "live_at now st = (snd (snd (perm_current now st)) \<noteq> None)"

fun ended_by :: "instant \<Rightarrow> perm_state \<Rightarrow> bool" where
  "ended_by now (Quarantined ready) = False"
| "ended_by now (Active c s until) = (until \<le> now)"
| "ended_by now Sealed = True"

lemma perm_step_sealed: "perm_step Sealed st' \<Longrightarrow> st' = Sealed"
  unfolding perm_step_def by (auto elim!: perm_step_atE simp: perm_defs)

text \<open>Every operation seals an authority that is past its end before it does anything else with it, whether
  or not the end has been observed.\<close>

lemma perm_step_ended:
  assumes "perm_step_at later st st'" "ended_by now st" "now \<le> later"
  shows "ended_by now st'"
  using assms
  by (cases st; cases rule: perm_step_at.cases)
     (auto simp: perm_defs Let_def split: wait_event.splits if_splits)

interpretation permission: terminal_permission perm_step "\<lambda>st. st = Sealed" "live_at now" for now
  by unfold_locales (auto dest: perm_step_sealed simp: live_at_def perm_defs)

interpretation expiry: terminal_permission "perm_step_from now" "ended_by now" "\<lambda>st. \<exists>later. now \<le> later \<and> live_at later st" for now
proof unfold_locales
  show "ended_by now st' " if "perm_step_from now st st'" "ended_by now st" for st st'
    using that perm_step_ended by (auto simp: perm_step_from_def)
  show "\<not> (\<exists>later. now \<le> later \<and> live_at later st)" if "ended_by now st" for st
    using that by (cases st) (auto simp: live_at_def perm_defs)
qed

lemma perm_current_Some:
  "snd (snd (perm_current now st)) = Some (c, until) \<longleftrightarrow> (\<exists>s. st = Active c s until) \<and> now < until"
  by (cases st) (auto simp: perm_defs)

text \<open>What an operation may do to an active authority: keep it, extend it, promote it or seal it.\<close>

lemma perm_step_active:
  assumes "perm_step (Active c s until) st'"
  shows "st' = Sealed \<or>
    (\<exists>s' until'. st' = Active c s' until' \<and> until \<le> until' \<and> (s = Voting \<longrightarrow> s' = Voting))"
proof -
  obtain now where "perm_step_at now (Active c s until) st'" using assms by (auto simp: perm_step_def)
  then show ?thesis
    by (cases rule: perm_step_at.cases)
       (auto simp: perm_defs Let_def split: stage.splits wait_event.splits if_splits)
qed

lemma perm_run_active:
  assumes "perm_step\<^sup>*\<^sup>* st st'" "st = Active c s until"
  shows "st' = Sealed \<or> (\<exists>s' until'. st' = Active c s' until' \<and> until \<le> until' \<and> (s = Voting \<longrightarrow> s' = Voting))"
  using assms
proof (induction rule: rtranclp_induct)
  case (step st1 st2)
  then consider "st1 = Sealed" | s' until' where "st1 = Active c s' until'" "until \<le> until'" "s = Voting \<longrightarrow> s' = Voting"
    by blast
  then show ?case
  proof cases
    case 1
    then show ?thesis using step.hyps(2) perm_step_sealed by simp
  next
    case 2
    then show ?thesis using perm_step_active [of c s' until' st2] step.hyps(2) by fastforce
  qed
qed simp

lemma notified_cases:
  "fst (perm_admit now ctx until st) = st \<or> fst (snd (perm_admit now ctx until st))"
  "fst (perm_join now ctx prepared until st) = st \<or> fst (snd (perm_join now ctx prepared until st))"
  "fst (perm_mark_promoted now ctx prepared st) = st \<or> fst (snd (perm_mark_promoted now ctx prepared st))"
  "fst (perm_renew now ctx until st) = st \<or> fst (snd (perm_renew now ctx until st))"
  "fst (perm_current now st) = st \<or> fst (snd (perm_current now st))"
  "fst (perm_seal st) = st \<or> snd (perm_seal st)"
  by (cases st; simp add: perm_defs Let_def split: stage.split)+

text \<open>C12. Authority is granted once and lost for good. Whatever operations follow, in whatever order, an
  active authority either stays with the context it was admitted for, never shortened and never demoted
  from voting to joining, or is sealed, and then it is never live again. Once the clock has reached its
  deadline, observed or not, no sequence of operations, renewals and late grants included, makes it live at
  any time from then on; and once the end has been observed, it is not live for any reading, earlier ones
  included.\<close>

theorem authority_never_returns:
  assumes "perm_step\<^sup>*\<^sup>* (Active c s until) st'"
  shows "(st' = Sealed \<or>
      (\<exists>s' until'. st' = Active c s' until' \<and> until \<le> until' \<and> (s = Voting \<longrightarrow> s' = Voting))) \<and>
    (st' = Sealed \<longrightarrow> perm_step\<^sup>*\<^sup>* st' st'' \<longrightarrow> \<not> live_at t st'') \<and>
    (until \<le> now \<longrightarrow> (perm_step_from now)\<^sup>*\<^sup>* (Active c s until) st'' \<longrightarrow> now \<le> t \<longrightarrow> \<not> live_at t st'') \<and>
    (until \<le> now \<longrightarrow> perm_step\<^sup>*\<^sup>* (fst (perm_current now (Active c s until))) st'' \<longrightarrow> \<not> live_at t st'')"
  using perm_run_active [OF assms refl] permission.never_granted_again [of st' st'' t]
    permission.never_granted_again [of "fst (perm_current now (Active c s until))" st'' t]
    expiry.never_granted_again [of now "Active c s until" st'']
  by (auto simp: perm_current_def)

theorem authority_never_returns_witness:
  "\<exists>c. perm_step\<^sup>*\<^sup>* (Active c Voting 10) (Active c Voting 20) \<and>
     \<not> live_at 12 (fst (perm_renew 11 c 20 (Active c Voting 10))) \<and>
     \<not> live_at 9 (fst (perm_current 10 (Active c Voting 10)))"
proof -
  define c where "c = \<lparr>ac_boot_nonce = 1, ac_cluster_epoch = 2, ac_genesis_digest = 3, ac_admission_generation = 1\<rparr>"
  have "perm_step (Active c Voting 10) (fst (perm_renew 5 c 20 (Active c Voting 10)))"
    unfolding perm_step_def using perm_step_at.renew by blast
  then have run: "perm_step\<^sup>*\<^sup>* (Active c Voting 10) (Active c Voting 20)" by (simp add: perm_renew_def)
  moreover have "perm_step_from 10 (Active c Voting 10) (fst (perm_renew 11 c 20 (Active c Voting 10)))"
    unfolding perm_step_from_def using perm_step_at.renew [of 11] by (intro exI [of _ 11]) simp
  then have "\<not> live_at 12 (fst (perm_renew 11 c 20 (Active c Voting 10)))"
    using authority_never_returns [OF run, of "fst (perm_renew 11 c 20 (Active c Voting 10))" 12 10] by auto
  moreover have "\<not> live_at 9 (fst (perm_current 10 (Active c Voting 10)))"
    using authority_never_returns [OF run, of "fst (perm_current 10 (Active c Voting 10))" 9 10] by simp
  ultimately show ?thesis by blast
qed

end
