(* ===== verification/Wire_Auth.thy ===== *)
theory Wire_Auth
  imports Storage_State
begin

text \<open>
  Mutual authentication and signed admission records (\<open>src/auth.rs\<close>). SHA-256 and HMAC are the
  arguments \<open>sha\<close> and \<open>hmac\<close>. An endpoint of the handshake is a function of the bytes that arrive on
  its stream; its result is what it has written and how it ended. A stream that stops early makes a read
  fail with \<open>UnexpectedEof\<close>.
\<close>

definition MAGIC :: "u8 list" where
  "MAGIC = ascii ''KAFDAUTH''"

definition AUTH_VERSION :: u8 where
  "AUTH_VERSION = 3"

definition HELLO_BYTES :: nat where
  "HELLO_BYTES = 110"

definition AUTH_DOMAIN :: "u8 list" where
  "AUTH_DOMAIN = ascii ''keepafloatd-mutual-auth'' @ [0]"

datatype listener = RaftListener | SubmitListener

fun listener_byte :: "listener \<Rightarrow> u8" where
  "listener_byte RaftListener = 1"
| "listener_byte SubmitListener = 2"

record peer =
  pr_id :: u64
  pr_epoch :: "u128 option"
  pr_supports_v2 :: bool
  pr_boot_nonce :: "bytes32 option"

record authenticated_peer =
  ap_peer :: peer
  ap_binding :: bytes32

definition peer_new :: "u64 \<Rightarrow> u128 option \<Rightarrow> bool \<Rightarrow> peer" where
  "peer_new i epoch v2 = \<lparr>pr_id = i, pr_epoch = epoch, pr_supports_v2 = v2, pr_boot_nonce = None\<rparr>"

definition peer_for_replica :: "replica_id \<Rightarrow> u128 option \<Rightarrow> bool \<Rightarrow> peer" where
  "peer_for_replica r epoch v2 =
     \<lparr>pr_id = physical_id r, pr_epoch = epoch, pr_supports_v2 = v2, pr_boot_nonce = Some (boot_nonce r)\<rparr>"

definition peer_replica :: "peer \<Rightarrow> replica_id option" where
  "peer_replica p = map_option (ReplicaId (pr_id p)) (pr_boot_nonce p)"

definition invalid :: "string \<Rightarrow> io_error" where
  "invalid m = IoError InvalidData m"

subsection \<open>Signed records\<close>

definition channel_binding :: "(u8 list \<Rightarrow> bytes32) \<Rightarrow> u8 list \<Rightarrow> u8 list \<Rightarrow> bytes32" where
  "channel_binding sha client server =
     sha (ascii ''keepafloatd-admission-channel'' @ [0] @ [AUTH_VERSION] @ client @ server)"

definition admission_record_bytes :: "u8 \<Rightarrow> replica_id \<Rightarrow> replica_id \<Rightarrow> u8 list \<Rightarrow> u8 list" where
  "admission_record_bytes role from to body =
     ascii ''keepafloatd-admission-record'' @ [0] @ [AUTH_VERSION, 1, role] @
     replica_bytes from @ replica_bytes to @ be_bytes 8 (of_nat (length body) :: u64) @ body"

definition secret_key :: "string \<Rightarrow> string option \<Rightarrow> string io" where
  "secret_key m secret =
     (case secret of
        Some s \<Rightarrow> if s = [] then Inl (invalid m) else Inr s
      | None \<Rightarrow> Inl (invalid m))"

definition sign_admission_record ::
  "(string \<Rightarrow> u8 list \<Rightarrow> bytes32) \<Rightarrow> string option \<Rightarrow> u8 \<Rightarrow> replica_id \<Rightarrow> replica_id \<Rightarrow> u8 list \<Rightarrow> bytes32 io" where
  "sign_admission_record hmac secret role from to body =
     rbind (secret_key ''admission authentication requires a cluster secret'' secret)
       (\<lambda>key. Inr (hmac key (admission_record_bytes role from to body)))"

definition verify_admission_record ::
  "(string \<Rightarrow> u8 list \<Rightarrow> bytes32) \<Rightarrow> string option \<Rightarrow> u8 \<Rightarrow> replica_id \<Rightarrow> replica_id \<Rightarrow> u8 list \<Rightarrow> bytes32 \<Rightarrow> unit io" where
  "verify_admission_record hmac secret role from to body tag =
     rbind (secret_key ''admission authentication requires a cluster secret'' secret)
       (\<lambda>key. ensure (hmac key (admission_record_bytes role from to body) = tag)
                (invalid ''admission record authentication mismatch''))"

subsection \<open>Hello records\<close>

definition option_bytes :: "nat \<Rightarrow> 'a::len word option \<Rightarrow> u8 list" where
  "option_bytes n v = of_bool (v \<noteq> None) # be_bytes n (case v of None \<Rightarrow> 0 | Some w \<Rightarrow> w)"

definition hello :: "peer \<Rightarrow> u64 \<Rightarrow> listener \<Rightarrow> u8 \<Rightarrow> bytes32 \<Rightarrow> u8 list" where
  "hello p target l role nonce =
     MAGIC @ [AUTH_VERSION, listener_byte l, role, 6 + of_bool (pr_supports_v2 p)] @
     be_bytes 8 (pr_id p) @ be_bytes 8 target @ be_bytes 32 nonce @
     option_bytes 16 (pr_epoch p) @ option_bytes 32 (pr_boot_nonce p)"

definition read_exact :: "nat \<Rightarrow> u8 list \<Rightarrow> (u8 list \<times> u8 list) io" where
  "read_exact n s =
     (if n \<le> length s then Inr (take n s, drop n s) else Inl (IoError UnexpectedEof ''early eof''))"

definition slice :: "nat \<Rightarrow> nat \<Rightarrow> 'a list \<Rightarrow> 'a list" where
  "slice i j xs = drop i (take j xs)"

definition parse_hello :: "listener \<Rightarrow> u8 \<Rightarrow> u64 \<Rightarrow> u8 list \<Rightarrow> peer io" where
  "parse_hello l role target bytes =
     (if bytes ! 9 \<noteq> listener_byte l \<or> bytes ! 10 \<noteq> role \<or> (bytes ! 11 \<noteq> 6 \<and> bytes ! 11 \<noteq> 7) \<or>
         1 < bytes ! 60 \<or> 1 < bytes ! 77
      then Inl (invalid ''invalid authentication version, listener, role or capabilities'')
      else if from_be_bytes (slice 20 28 bytes) \<noteq> target
      then Inl (invalid ''authentication destination mismatch'')
      else if bytes ! 60 = 0 \<and> slice 61 77 bytes \<noteq> replicate 16 0
      then Inl (invalid ''noncanonical authentication epoch'')
      else if bytes ! 77 = 0 \<and> drop 78 bytes \<noteq> replicate 32 0
      then Inl (invalid ''noncanonical authentication boot nonce'')
      else Inr \<lparr>pr_id = from_be_bytes (slice 12 20 bytes),
                pr_epoch = (if bytes ! 60 = 1 then Some (from_be_bytes (slice 61 77 bytes)) else None),
                pr_supports_v2 = odd (bytes ! 11),
                pr_boot_nonce = (if bytes ! 77 = 1 then Some (from_be_bytes (drop 78 bytes)) else None)\<rparr>)"

definition read_hello :: "listener \<Rightarrow> u8 \<Rightarrow> u64 \<Rightarrow> u8 list \<Rightarrow> ((u8 list \<times> peer) \<times> u8 list) io" where
  "read_hello l role target s =
     rbind (read_exact 8 s) (\<lambda>(magic, s1).
     if magic \<noteq> MAGIC
     then Inl (invalid ''unsupported authentication protocol; full-cluster upgrade required'')
     else rbind (read_exact 1 s1) (\<lambda>(version, s2).
     if version \<noteq> [AUTH_VERSION]
     then Inl (invalid ''invalid authentication version; full-cluster upgrade required'')
     else rbind (read_exact (HELLO_BYTES - 9) s2) (\<lambda>(rest, s3).
     let bytes = magic @ version @ rest in
     rbind (parse_hello l role target bytes) (\<lambda>p. Inr ((bytes, p), s3)))))"

subsection \<open>Proofs of key possession\<close>

definition auth_preimage :: "u8 \<Rightarrow> u8 list \<Rightarrow> u8 list \<Rightarrow> u8 list" where
  "auth_preimage role client server = AUTH_DOMAIN @ [AUTH_VERSION, role] @ client @ server"

definition auth_mac ::
  "(string \<Rightarrow> u8 list \<Rightarrow> bytes32) \<Rightarrow> string option \<Rightarrow> u8 \<Rightarrow> u8 list \<Rightarrow> u8 list \<Rightarrow> bytes32 io" where
  "auth_mac hmac secret role client server =
     rbind (secret_key ''authentication requires a cluster secret'' secret)
       (\<lambda>key. Inr (hmac key (auth_preimage role client server)))"

definition verify_proof ::
  "(string \<Rightarrow> u8 list \<Rightarrow> bytes32) \<Rightarrow> string option \<Rightarrow> u8 \<Rightarrow> u8 list \<Rightarrow> u8 list \<Rightarrow> u8 list \<Rightarrow> u8 list io" where
  "verify_proof hmac secret role client server s =
     rbind (read_exact 32 s) (\<lambda>(proof, s').
     rbind (auth_mac hmac secret role client server) (\<lambda>tag.
     if be_bytes 32 tag = proof then Inr s' else Inl (invalid ''authentication proof mismatch'')))"

subsection \<open>Endpoints\<close>

text \<open>An endpoint's run: the bytes written so far and how it ended.\<close>

type_synonym 'a session = "u8 list \<times> 'a io"

definition written :: "u8 list \<Rightarrow> 'a session \<Rightarrow> 'a session" where
  "written bs r = (bs @ fst r, snd r)"

definition sbind :: "'a io \<Rightarrow> ('a \<Rightarrow> 'b session) \<Rightarrow> 'b session" where
  "sbind r f = (case r of Inl e \<Rightarrow> ([], Inl e) | Inr a \<Rightarrow> f a)"

definition client_bound ::
  "(u8 list \<Rightarrow> bytes32) \<Rightarrow> (string \<Rightarrow> u8 list \<Rightarrow> bytes32) \<Rightarrow> peer \<Rightarrow> u64 \<Rightarrow> string option \<Rightarrow> listener \<Rightarrow>
   bytes32 io \<Rightarrow> u8 list \<Rightarrow> authenticated_peer session" where
  "client_bound sha hmac local_peer target secret l entropy s =
     sbind entropy (\<lambda>nonce.
     let request = hello local_peer target l 1 nonce in
     sbind (auth_mac hmac secret 1 request []) (\<lambda>_.
     written request (
     sbind (read_hello l 2 (pr_id local_peer) s) (\<lambda>((response, p), s1).
     if pr_id p \<noteq> target then ([], Inl (invalid ''authentication responder mismatch''))
     else sbind (verify_proof hmac secret 2 request response s1) (\<lambda>s2.
     sbind (auth_mac hmac secret 1 request response) (\<lambda>tag.
     written (be_bytes 32 tag) (
     sbind (verify_proof hmac secret 3 request response s2) (\<lambda>_.
     ([], Inr \<lparr>ap_peer = p, ap_binding = channel_binding sha request response\<rparr>)))))))))"

definition server_bound ::
  "(u8 list \<Rightarrow> bytes32) \<Rightarrow> (string \<Rightarrow> u8 list \<Rightarrow> bytes32) \<Rightarrow> peer \<Rightarrow> string option \<Rightarrow> listener \<Rightarrow>
   bytes32 io \<Rightarrow> u8 list \<Rightarrow> authenticated_peer session" where
  "server_bound sha hmac local_peer secret l entropy s =
     sbind (read_hello l 1 (pr_id local_peer) s) (\<lambda>((request, p), s1).
     sbind entropy (\<lambda>nonce.
     let response = hello local_peer (pr_id p) l 2 nonce in
     sbind (auth_mac hmac secret 2 request response) (\<lambda>tag2.
     written response (
     written (be_bytes 32 tag2) (
     sbind (verify_proof hmac secret 1 request response s1) (\<lambda>_.
     sbind (auth_mac hmac secret 3 request response) (\<lambda>tag3.
     written (be_bytes 32 tag3)
     ([], Inr \<lparr>ap_peer = p, ap_binding = channel_binding sha request response\<rparr>))))))))"

subsection \<open>What a hello says\<close>

lemma be_bytes_zero: "be_bytes n (0 :: 'a::len word) = replicate n 0"
proof -
  have "digits 256 n 0 = replicate n 0" by (induction n) (auto simp: replicate_append_same)
  then show ?thesis by (simp add: be_bytes_def)
qed

lemma length_MAGIC [simp]: "length MAGIC = 8"
  by (simp add: MAGIC_def ascii_def)

lemma length_option_bytes [simp]: "length (option_bytes n v) = Suc n"
  by (simp add: option_bytes_def)

lemma length_hello [simp]: "length (hello p target l role nonce) = HELLO_BYTES"
  by (simp add: hello_def HELLO_BYTES_def)

lemmas hello_slices = hello_def option_bytes_def slice_def nth_append nth_Cons' take_Cons' drop_Cons'

lemma hello_fields:
  fixes p target l role nonce
  defines "h \<equiv> hello p target l role nonce"
  shows "h ! 9 = listener_byte l" "h ! 10 = role" "h ! 11 = 6 + of_bool (pr_supports_v2 p)"
    "h ! 60 = of_bool (pr_epoch p \<noteq> None)" "h ! 77 = of_bool (pr_boot_nonce p \<noteq> None)"
    "slice 12 20 h = be_bytes 8 (pr_id p)" "slice 20 28 h = be_bytes 8 target"
    "slice 61 77 h = be_bytes 16 (case pr_epoch p of None \<Rightarrow> 0 | Some e \<Rightarrow> e)"
    "drop 78 h = be_bytes 32 (case pr_boot_nonce p of None \<Rightarrow> 0 | Some n \<Rightarrow> n)"
    "take 8 h = MAGIC" "slice 8 9 h = [AUTH_VERSION]"
  by (simp_all add: h_def hello_slices)

lemma parse_hello_hello: "parse_hello l role target (hello p target l role nonce) = Inr p"
  by (cases p; cases "pr_epoch p"; cases "pr_boot_nonce p")
     (simp_all add: parse_hello_def hello_fields from_be_bytes_be_bytes be_bytes_zero)

lemma listener_byte_inject [simp]: "listener_byte l = listener_byte l' \<longleftrightarrow> l = l'"
  by (cases l; cases l') simp_all

lemma parse_hello_Inr_iff:
  "parse_hello l role target (hello p target' l' role' nonce) = Inr q \<longleftrightarrow>
     l' = l \<and> role' = role \<and> target' = target \<and> q = p"
proof (cases "l' = l \<and> role' = role \<and> target' = target")
  case True
  then show ?thesis using parse_hello_hello [of l role target p nonce] by auto
next
  case False
  then show ?thesis by (auto simp: parse_hello_def hello_fields from_be_bytes_be_bytes)
qed

lemma read_exact_append [simp]: "length bs = n \<Longrightarrow> read_exact n (bs @ s) = Inr (bs, s)"
  by (simp add: read_exact_def)

lemma read_exact_Inr: "read_exact n s = Inr (a, b) \<longleftrightarrow> s = a @ b \<and> length a = n"
  by (auto simp: read_exact_def append_eq_conv_conj min_absorb2)

lemma hello_parts:
  "hello p target l role nonce =
     MAGIC @ [AUTH_VERSION] @ drop 9 (hello p target l role nonce)"
  by (simp add: hello_def)

lemma read_hello_hello:
  "read_hello l role target (hello p target l role nonce @ s) =
     Inr ((hello p target l role nonce, p), s)"
proof -
  define rest where "rest = drop 9 (hello p target l role nonce)"
  have h: "hello p target l role nonce = MAGIC @ [AUTH_VERSION] @ rest" and len: "length rest = HELLO_BYTES - 9"
    using hello_parts [of p target l role nonce] by (simp_all add: rest_def)
  show ?thesis
    using parse_hello_hello [of l role target p nonce] len
    by (simp add: read_hello_def h read_exact_Inr Let_def)
qed

lemma read_hello_Inr:
  assumes "read_hello l role target s = Inr ((bytes, p), s')"
  shows "s = bytes @ s' \<and> length bytes = HELLO_BYTES \<and> parse_hello l role target bytes = Inr p"
  using assms
  by (auto simp: read_hello_def read_exact_Inr HELLO_BYTES_def Let_def split: if_splits)

lemma sbind_simps [simp]: "sbind (Inl e) f = ([], Inl e)" "sbind (Inr a) f = f a"
  by (simp_all add: sbind_def)

lemma written_simps [simp]: "fst (written bs r) = bs @ fst r" "snd (written bs r) = snd r"
  by (simp_all add: written_def)

lemma snd_sbind_Inr: "snd (sbind r f) = Inr b \<longleftrightarrow> (\<exists>a. r = Inr a \<and> snd (f a) = Inr b)"
  by (cases r) simp_all

lemma auth_mac_Inr: "auth_mac hmac secret role c sv = Inr t \<longleftrightarrow>
    (\<exists>key. secret = Some key \<and> key \<noteq> [] \<and> t = hmac key (auth_preimage role c sv))"
  by (auto simp: auth_mac_def secret_key_def split: option.splits)

lemma verify_proof_Inr:
  "verify_proof hmac secret role c sv s = Inr s' \<longleftrightarrow>
   (\<exists>key. secret = Some key \<and> key \<noteq> [] \<and> s = be_bytes 32 (hmac key (auth_preimage role c sv)) @ s')"
proof
  assume "\<exists>key. secret = Some key \<and> key \<noteq> [] \<and> s = be_bytes 32 (hmac key (auth_preimage role c sv)) @ s'"
  then show "verify_proof hmac secret role c sv s = Inr s'"
    by (auto simp: verify_proof_def auth_mac_def secret_key_def)
qed (auto simp: verify_proof_def read_exact_Inr auth_mac_Inr split: if_splits)

text \<open>Hellos have one length, so a proof's input determines its role and both hellos.\<close>

lemma auth_preimage_inject:
  assumes "length c = length c'" "length sv = length sv'"
  shows "auth_preimage role c sv = auth_preimage role' c' sv' \<longleftrightarrow> role = role' \<and> c = c' \<and> sv = sv'"
  using assms by (auto simp: auth_preimage_def)

subsection \<open>The handshake\<close>

text \<open>An honest exchange: each side's output is the other side's input.\<close>

lemma handshake_completes:
  fixes nc ns :: bytes32 and c v :: peer and target :: u64 and l :: listener and key :: string
    and hmac :: "string \<Rightarrow> u8 list \<Rightarrow> bytes32"
  assumes "key \<noteq> []" "pr_id v = target"
  defines "req \<equiv> hello c target l 1 nc" and "resp \<equiv> hello v (pr_id c) l 2 ns"
  defines "tag \<equiv> \<lambda>role. be_bytes 32 (hmac key (auth_preimage role req resp))"
  shows "client_bound sha hmac c target (Some key) l (Inr nc) (resp @ tag 2 @ tag 3) =
      (req @ tag 1, Inr \<lparr>ap_peer = v, ap_binding = channel_binding sha req resp\<rparr>)"
    and "server_bound sha hmac v (Some key) l (Inr ns) (req @ tag 1) =
      (resp @ tag 2 @ tag 3, Inr \<lparr>ap_peer = c, ap_binding = channel_binding sha req resp\<rparr>)"
proof -
  have mac: "auth_mac hmac (Some key) role x y = Inr (hmac key (auth_preimage role x y))" for role x y
    using assms(1) by (simp add: auth_mac_def secret_key_def)
  have proof_ok: "verify_proof hmac (Some key) role x y (be_bytes 32 (hmac key (auth_preimage role x y)) @ s) = Inr s"
    for role x y s
    using assms(1) by (simp add: verify_proof_Inr)
  have last_proof: "verify_proof hmac (Some key) role x y (be_bytes 32 (hmac key (auth_preimage role x y))) = Inr []"
    for role x y using proof_ok [of role x y "[]"] by simp
  have read: "read_hello l 2 (pr_id c) (resp @ s) = Inr ((resp, v), s)"
    "read_hello l 1 target (req @ s) = Inr ((req, c), s)" for s
    by (simp_all add: resp_def req_def read_hello_hello)
  show "client_bound sha hmac c target (Some key) l (Inr nc) (resp @ tag 2 @ tag 3) =
      (req @ tag 1, Inr \<lparr>ap_peer = v, ap_binding = channel_binding sha req resp\<rparr>)"
    using assms(2)
    by (simp add: client_bound_def Let_def req_def [symmetric] read tag_def mac proof_ok last_proof written_def)
  show "server_bound sha hmac v (Some key) l (Inr ns) (req @ tag 1) =
      (resp @ tag 2 @ tag 3, Inr \<lparr>ap_peer = c, ap_binding = channel_binding sha req resp\<rparr>)"
    using assms(2)
    by (simp add: server_bound_def Let_def resp_def [symmetric] read tag_def mac last_proof written_def)
qed

lemma client_accepts:
  assumes "snd (client_bound sha hmac c target (Some key) l (Inr nc) s) = Inr a"
  obtains resp rest where
    "s = resp @ be_bytes 32 (hmac key (auth_preimage 2 (hello c target l 1 nc) resp)) @
       be_bytes 32 (hmac key (auth_preimage 3 (hello c target l 1 nc) resp)) @ rest"
    "length resp = HELLO_BYTES" "parse_hello l 2 (pr_id c) resp = Inr (ap_peer a)"
    "pr_id (ap_peer a) = target" "ap_binding a = channel_binding sha (hello c target l 1 nc) resp"
  using assms
  by (auto simp: client_bound_def Let_def snd_sbind_Inr verify_proof_Inr split: if_splits
      dest!: read_hello_Inr)

lemma server_proves:
  assumes "server_bound sha hmac v (Some key) l (Inr ns) s = (out, r)" "HELLO_BYTES < length out"
  obtains req p rest rest' where
    "s = req @ rest" "length req = HELLO_BYTES" "parse_hello l 1 (pr_id v) req = Inr p"
    "out = hello v (pr_id p) l 2 ns @
       be_bytes 32 (hmac key (auth_preimage 2 req (hello v (pr_id p) l 2 ns))) @ rest'"
    "\<And>b. r = Inr b \<Longrightarrow> b = \<lparr>ap_peer = p, ap_binding = channel_binding sha req (hello v (pr_id p) l 2 ns)\<rparr>"
proof (cases "read_hello l 1 (pr_id v) s")
  case (Inr x)
  then obtain req p rest where x: "x = ((req, p), rest)" by (metis prod.collapse)
  note h = read_hello_Inr [OF Inr [unfolded x]]
  show ?thesis
  proof (cases "key = []")
    case False
    then have mac: "auth_mac hmac (Some key) role a b = Inr (hmac key (auth_preimage role a b))" for role a b
      by (simp add: auth_mac_def secret_key_def)
    show ?thesis
      using assms(1) h Inr x
      by (intro that [of req rest p "drop 142 out"])
         (auto simp: server_bound_def Let_def mac written_def sbind_def HELLO_BYTES_def split: sum.splits)
  qed (use assms Inr x in \<open>simp add: server_bound_def Let_def auth_mac_def secret_key_def\<close>)
qed (use assms in \<open>simp add: server_bound_def\<close>)

text \<open>C17. The handshake binds both ends to one session. If a client accepts, and some run of a server
  under the same key wrote the proof that the client took, with no collision of the MAC between the two
  proofs' inputs, then the server read exactly this client's hello and wrote exactly the hello that the
  client read: the listener is the same, the client's peer is that server with its epoch and boot
  identity, and the server is the one the client meant to reach. If the server accepts too, its peer is this
  client and both hold the same channel binding, the hash of both hellos. The hellos travel in the clear and no
  key is derived from them; the binding is what the signed messages of the session name.\<close>

theorem handshake_binds_session:
  assumes client: "snd (client_bound sha hmac c target (Some key) l (Inr nc) s) = Inr a"
    and server: "server_bound sha hmac v (Some key) l' (Inr ns) s' = (out, r)"
    and same_proof: "slice 110 142 out = slice 110 142 s" "110 < length out"
    and no_collision: "hmac key (auth_preimage 2 (take 110 s') (take 110 out)) =
        hmac key (auth_preimage 2 (hello c target l 1 nc) (take 110 s)) \<Longrightarrow>
      auth_preimage 2 (take 110 s') (take 110 out) = auth_preimage 2 (hello c target l 1 nc) (take 110 s)"
  shows "take 110 s' = hello c target l 1 nc \<and> take 110 out = take 110 s \<and> l' = l \<and>
    ap_peer a = v \<and> pr_id v = target \<and> (\<forall>b. r = Inr b \<longrightarrow> ap_peer b = c \<and> ap_binding b = ap_binding a)"
proof -
  obtain resp rest where s: "s = resp @ be_bytes 32 (hmac key (auth_preimage 2 (hello c target l 1 nc) resp)) @
      be_bytes 32 (hmac key (auth_preimage 3 (hello c target l 1 nc) resp)) @ rest"
    and resp: "length resp = 110" "parse_hello l 2 (pr_id c) resp = Inr (ap_peer a)" "pr_id (ap_peer a) = target"
    and a: "ap_binding a = channel_binding sha (hello c target l 1 nc) resp"
    by (rule client_accepts [OF client, unfolded HELLO_BYTES_def])
  obtain req p rest2 rest' where s': "s' = req @ rest2" "length req = 110" "parse_hello l' 1 (pr_id v) req = Inr p"
    and out: "out = hello v (pr_id p) l' 2 ns @
       be_bytes 32 (hmac key (auth_preimage 2 req (hello v (pr_id p) l' 2 ns))) @ rest'"
    and b: "\<And>b. r = Inr b \<Longrightarrow> b = \<lparr>ap_peer = p, ap_binding = channel_binding sha req (hello v (pr_id p) l' 2 ns)\<rparr>"
    by (rule server_proves [OF server, unfolded HELLO_BYTES_def, OF same_proof(2)]) blast
  have len: "length (hello v (pr_id p) l' 2 ns) = 110" by (simp add: HELLO_BYTES_def)
  have tags: "hmac key (auth_preimage 2 req (hello v (pr_id p) l' 2 ns)) =
      hmac key (auth_preimage 2 (hello c target l 1 nc) resp)"
    using same_proof(1) len resp(1) unfolding out s by (simp add: slice_def be_bytes_inject)
  have pre: "take 110 s = resp" "take 110 s' = req" "take 110 out = hello v (pr_id p) l' 2 ns"
    using len resp(1) s' by (simp_all add: s out)
  have req: "req = hello c target l 1 nc" and resp_eq: "resp = hello v (pr_id p) l' 2 ns"
    using no_collision tags resp(1) s'(2) len
    by (simp_all add: pre auth_preimage_inject HELLO_BYTES_def)
  have "l' = l \<and> target = pr_id v \<and> p = c" and "ap_peer a = v"
    using s'(3) resp(2) by (simp_all add: req resp_eq parse_hello_Inr_iff)
  then show ?thesis using b a by (auto simp: pre req resp_eq)
qed

theorem handshake_binds_session_witness:
  fixes sha hmac nc ns
  defines "sha \<equiv> \<lambda>_ :: u8 list. 0 :: bytes32" and "hmac \<equiv> \<lambda>(_ :: string) (_ :: u8 list). 7 :: bytes32"
    and "nc \<equiv> 1 :: bytes32" and "ns \<equiv> 2 :: bytes32"
  shows "\<exists>a b out s. snd (client_bound sha hmac (peer_new 1 None True) 2 (Some ''k'') RaftListener (Inr nc) out) = Inr a \<and>
    server_bound sha hmac (peer_new 2 (Some 9) True) (Some ''k'') RaftListener (Inr ns) s = (out, Inr b) \<and>
    ap_peer a = peer_new 2 (Some 9) True \<and> ap_peer b = peer_new 1 None True \<and> ap_binding b = ap_binding a"
proof -
  let ?c = "peer_new 1 None True" and ?v = "peer_new 2 (Some 9) True"
  let ?req = "hello ?c 2 RaftListener 1 nc" and ?resp = "hello ?v (pr_id ?c) RaftListener 2 ns"
  let ?out = "?resp @ be_bytes 32 (hmac ''k'' (auth_preimage 2 ?req ?resp)) @ be_bytes 32 (hmac ''k'' (auth_preimage 3 ?req ?resp))"
  let ?s = "?req @ be_bytes 32 (hmac ''k'' (auth_preimage 1 ?req ?resp))"
  have id: "pr_id ?v = 2" by (simp add: peer_new_def)
  note run = handshake_completes [where key = "''k''" and v = ?v and target = 2 and c = ?c and l = RaftListener
      and nc = nc and ns = ns and hmac = hmac and sha = sha, OF _ id, simplified]
  have client: "snd (client_bound sha hmac ?c 2 (Some ''k'') RaftListener (Inr nc) ?out) =
      Inr \<lparr>ap_peer = ?v, ap_binding = channel_binding sha ?req ?resp\<rparr>" using run(1) by simp
  have len: "110 < length ?out" by (simp add: HELLO_BYTES_def)
  have take: "take 110 ?s = ?req" "take 110 ?out = ?resp" by (simp_all add: HELLO_BYTES_def)
  have "\<forall>b. Inr \<lparr>ap_peer = ?c, ap_binding = channel_binding sha ?req ?resp\<rparr> = (Inr b :: authenticated_peer io) \<longrightarrow>
      ap_peer b = ?c \<and> ap_binding b = channel_binding sha ?req ?resp"
    using handshake_binds_session [OF client run(2) refl len] unfolding take by simp
  then show ?thesis using client run(2) by fastforce
qed

end
