(* ===== verification/Admission_Controller.thy ===== *)
theory Admission_Controller
  imports Lease_Timing Wire_Auth
begin

text \<open>
  Quarantine, reservations of a physical member and admission certificates
  (\<open>src/raft/admission/controller.rs\<close>). A consumer begins a round, collects signed grants from the
  configured members and completes the round with a physical majority of them; an issuer reserves itself for
  one genesis at a time. \<open>hmac\<close> and \<open>to_vec\<close> stand for HMAC-SHA-256 and \<open>serde_json::to_vec\<close>; what the
  runtime's fence answers during a reservation is the argument \<open>fv\<close>; \<open>now\<close> is the clock reading.
\<close>

subsection \<open>Records\<close>

datatype admission_mode = Cold | Join "join_binding option" | Renew "log_id option"

record admission_request =
  ar_consumer :: replica_id
  ar_genesis :: genesis
  ar_request_nonce :: bytes32
  ar_mode :: admission_mode

record signed_admission =
  sa_sender :: replica_id
  sa_recipient :: replica_id
  sa_binding :: bytes32
  sa_payload :: admission_request
  sa_tag :: bytes32

type_synonym mac = "string \<Rightarrow> u8 list \<Rightarrow> bytes32"
type_synonym encoder = "bytes32 \<times> admission_request \<Rightarrow> u8 list option"

definition sa_sign ::
  "mac \<Rightarrow> encoder \<Rightarrow> string option \<Rightarrow> u8 \<Rightarrow> replica_id \<Rightarrow> replica_id \<Rightarrow> bytes32 \<Rightarrow> admission_request \<Rightarrow>
   signed_admission admitted" where
  "sa_sign hmac to_vec secret role sender recipient binding payload =
     (case to_vec (binding, payload) of
        None \<Rightarrow> Inl (AdmissionDenied ''admission record encoding failed'')
      | Some bytes \<Rightarrow>
          (case sign_admission_record hmac secret role sender recipient bytes of
             Inl _ \<Rightarrow> Inl (AdmissionDenied ''admission record signing failed'')
           | Inr tag \<Rightarrow> Inr \<lparr>sa_sender = sender, sa_recipient = recipient, sa_binding = binding,
                            sa_payload = payload, sa_tag = tag\<rparr>))"

definition sa_verify ::
  "mac \<Rightarrow> encoder \<Rightarrow> string option \<Rightarrow> u8 \<Rightarrow> replica_id \<Rightarrow> replica_id \<Rightarrow> bytes32 \<Rightarrow> signed_admission \<Rightarrow>
   unit admitted" where
  "sa_verify hmac to_vec secret role sender recipient binding rec =
     (if sa_sender rec \<noteq> sender \<or> sa_recipient rec \<noteq> recipient \<or> sa_binding rec \<noteq> binding
      then Inl (AdmissionDenied ''admission record boot or channel mismatch'')
      else case to_vec (sa_binding rec, sa_payload rec) of
        None \<Rightarrow> Inl (AdmissionDenied ''admission record encoding failed'')
      | Some bytes \<Rightarrow>
          (case verify_admission_record hmac secret role sender recipient bytes (sa_tag rec) of
             Inl _ \<Rightarrow> Inl (AdmissionDenied ''admission record signature mismatch'')
           | Inr _ \<Rightarrow> Inr ()))"

record received_grant =
  rg_record :: signed_admission
  rg_issuer :: replica_id
  rg_binding :: bytes32

definition authenticate ::
  "mac \<Rightarrow> encoder \<Rightarrow> string option \<Rightarrow> replica_id \<Rightarrow> replica_id \<Rightarrow> bytes32 \<Rightarrow> admission_request \<Rightarrow>
   signed_admission \<Rightarrow> received_grant admitted" where
  "authenticate hmac to_vec secret issuer recipient binding request rec =
     rbind (sa_verify hmac to_vec secret 11 issuer recipient binding rec) (\<lambda>_.
     if sa_payload rec \<noteq> request
     then Inl (AdmissionDenied ''admission response differs from its request'')
     else Inr \<lparr>rg_record = rec, rg_issuer = issuer, rg_binding = binding\<rparr>)"

record admission_round =
  rd_request :: admission_request
  rd_started :: instant
  rd_deadline :: instant
  rd_completed :: bool
  rd_prepared_join :: "prepared_join option"

definition bind_progress :: "instant \<Rightarrow> applied_health_progress \<Rightarrow> admission_round \<Rightarrow> admission_round admitted" where
  "bind_progress now applied rd =
     (if ar_mode (rd_request rd) \<noteq> Renew None \<or>
         hp_replica (ap_request applied) \<noteq> ar_consumer (rd_request rd) \<or>
         hp_genesis (ap_request applied) \<noteq> ar_genesis (rd_request rd) \<or>
         hp_request_nonce (ap_request applied) \<noteq> ar_request_nonce (rd_request rd) \<or>
         rd_completed rd \<or> rd_deadline rd \<le> now
      then Inl (AdmissionDenied ''progress is not for this outstanding renewal'')
      else Inr (rd\<lparr>rd_request := (rd_request rd)\<lparr>ar_mode := Renew (Some (ap_log_id applied))\<rparr>\<rparr>))"

definition bind_prepared ::
  "(u8 list \<Rightarrow> bytes32) \<Rightarrow> instant \<Rightarrow> prepared_join \<Rightarrow> admission_round \<Rightarrow> admission_round admitted" where
  "bind_prepared sha now prepared rd =
     rbind (validate_plan (pj_plan prepared)) (\<lambda>_.
     if ar_mode (rd_request rd) \<noteq> Join None \<or>
        jp_consumer (pj_plan prepared) \<noteq> ar_consumer (rd_request rd) \<or>
        jp_genesis (pj_plan prepared) \<noteq> ar_genesis (rd_request rd) \<or>
        rd_completed rd \<or> rd_deadline rd \<le> now
     then Inl (AdmissionDenied ''preparation is not for this outstanding join'')
     else Inr (rd\<lparr>rd_request := (rd_request rd)\<lparr>ar_mode := Join (Some (from_prepared sha prepared))\<rparr>,
                  rd_prepared_join := Some (prepared\<lparr>pj_learner_applied := None\<rparr>)\<rparr>))"

record verified_admission =
  va_context :: admission_context
  va_deadline :: instant
  va_mode :: admission_mode
  va_bootstrap :: "prepared_join option"

record reservation =
  rs_genesis :: genesis
  rs_until :: instant

record admission_controller =
  ctl_secret :: "string option"
  ctl_configured :: "u64 set"
  ctl_config_identity :: config_fingerprint
  ctl_local :: replica_id
  ctl_timing :: lease_timing
  ctl_quarantine_until :: instant
  ctl_reservation :: "reservation option"

subsection \<open>Operations\<close>

text \<open>\<open>identity\<close> is the configuration fingerprint, or \<open>None\<close> where computing it fails.\<close>

definition controller_new ::
  "config \<Rightarrow> config_fingerprint option \<Rightarrow> replica_id \<Rightarrow> instant \<Rightarrow> lease_timing \<Rightarrow> admission_controller admitted" where
  "controller_new cfg identity local_id boot timing =
     (let configured = peer_id ` set (cfg_peers cfg) in
      if physical_id local_id \<noteq> cfg_node_id cfg \<or> physical_id local_id \<notin> configured
      then Inl (AdmissionDenied ''local boot is not the configured member'')
      else case identity of
        None \<Rightarrow> Inl (AdmissionDenied ''invalid admission configuration'')
      | Some fp \<Rightarrow>
          rbind (quarantine_deadline timing boot) (\<lambda>quarantine_until.
          Inr \<lparr>ctl_secret = cluster_secret cfg, ctl_configured = configured, ctl_config_identity = fp,
               ctl_local = local_id, ctl_timing = timing, ctl_quarantine_until = quarantine_until,
               ctl_reservation = None\<rparr>))"

definition validate_genesis :: "admission_controller \<Rightarrow> genesis \<Rightarrow> unit admitted" where
  "validate_genesis ctl g =
     rbind (validate_roster g (ctl_configured ctl)) (\<lambda>_.
     ensure (g_config g = ctl_config_identity ctl) (AdmissionDenied ''admission configuration mismatch''))"

definition begin_round ::
  "instant \<Rightarrow> bytes32 option \<Rightarrow> genesis \<Rightarrow> admission_mode \<Rightarrow> admission_controller \<Rightarrow> admission_round admitted" where
  "begin_round now entropy g mode ctl =
     (if (case mode of Join (Some _) \<Rightarrow> True | Renew (Some _) \<Rightarrow> True | _ \<Rightarrow> False)
      then Inl (AdmissionDenied ''new rounds must bind their own committed evidence'')
      else rbind (validate_genesis ctl g) (\<lambda>_.
        if now < ctl_quarantine_until ctl
        then Inl (AdmissionDenied ''restart quarantine has not elapsed'')
        else rbind (consumer_deadline (ctl_timing ctl) now) (\<lambda>deadline.
        case entropy of
          None \<Rightarrow> Inl (AdmissionDenied ''admission request entropy unavailable'')
        | Some nonce \<Rightarrow>
            Inr \<lparr>rd_request = \<lparr>ar_consumer = ctl_local ctl, ar_genesis = g, ar_request_nonce = nonce, ar_mode = mode\<rparr>,
                 rd_started = now, rd_deadline = deadline, rd_completed = False, rd_prepared_join = None\<rparr>)))"

definition no_authority :: admission_denied where
  "no_authority = AdmissionDenied ''issuer has no continuing authority''"

definition cold_evidence ::
  "fence_view \<Rightarrow> admission_request \<Rightarrow> kaf_storage_state option \<Rightarrow> admission_controller \<Rightarrow> unit admitted" where
  "cold_evidence fv req state ctl =
     (if ar_consumer req \<notin> g_voters (ar_genesis req) \<or> ctl_local ctl \<notin> g_voters (ar_genesis req)
      then Inl (AdmissionDenied ''cold grant requires exact proposed boot consent'')
      else case state of
        None \<Rightarrow> Inr ()
      | Some st \<Rightarrow>
          (case admission st of
             Some session \<Rightarrow>
               rbind (session_check fv session) (\<lambda>_.
               ensure (ctx_local_replica session = ctl_local ctl \<and> ctx_genesis session = ar_genesis req \<and>
                       (genesis st = None \<or> genesis st = Some (ar_genesis req)))
                 (AdmissionDenied ''cold consent differs from active original cohort''))
           | None \<Rightarrow>
               ensure (genesis st = None)
                 (AdmissionDenied ''stored history alone cannot authorize cold consent'')))"

definition join_evidence ::
  "(u8 list \<Rightarrow> bytes32) \<Rightarrow> fence_view \<Rightarrow> admission_request \<Rightarrow> join_binding option \<Rightarrow> kaf_storage_state option \<Rightarrow>
   admission_controller \<Rightarrow> unit admitted" where
  "join_evidence sha fv req prepared state ctl =
     (case state of
        None \<Rightarrow> Inl (AdmissionDenied ''join requires locally applied committed preparation'')
      | Some st \<Rightarrow>
          (case admission st of
             None \<Rightarrow> Inl no_authority
           | Some session \<Rightarrow>
               rbind (session_check fv session) (\<lambda>_.
               case prepared_join st of
                 None \<Rightarrow> Inl (AdmissionDenied ''join preparation is not applied'')
               | Some operation \<Rightarrow>
                   rbind (validate_plan (pj_plan operation)) (\<lambda>_.
                   ensure (ctx_local_replica session = ctl_local ctl \<and> ctx_genesis session = ar_genesis req \<and>
                           genesis st = Some (ar_genesis req) \<and>
                           prepared = Some (from_prepared sha operation) \<and>
                           jp_consumer (pj_plan operation) = ar_consumer req \<and>
                           jp_genesis (pj_plan operation) = ar_genesis req \<and>
                           length (get_joint_config (sm_membership (last_membership st))) = 1 \<and>
                           set (voter_ids (sm_membership (last_membership st))) =
                             jp_previous_voters (pj_plan operation))
                     (AdmissionDenied ''join does not match continuing committed authority'')))))"

definition renew_evidence ::
  "fence_view \<Rightarrow> admission_request \<Rightarrow> log_id option \<Rightarrow> kaf_storage_state option \<Rightarrow> admission_controller \<Rightarrow>
   unit admitted" where
  "renew_evidence fv req progress state ctl =
     (case state of
        None \<Rightarrow> Inl (AdmissionDenied ''renewal requires locally applied progress'')
      | Some st \<Rightarrow>
          (case admission st of
             None \<Rightarrow> Inl no_authority
           | Some session \<Rightarrow>
               rbind (session_check fv session) (\<lambda>_.
               case bm_get (applied_progress st) (physical_id (ar_consumer req)) of
                 None \<Rightarrow> Inl (AdmissionDenied ''consumer progress has not been applied'')
               | Some applied \<Rightarrow>
                   ensure (ctx_local_replica session = ctl_local ctl \<and> ctx_genesis session = ar_genesis req \<and>
                           genesis st = Some (ar_genesis req) \<and> Some (ap_log_id applied) = progress \<and>
                           hp_replica (ap_request applied) = ar_consumer req \<and>
                           hp_genesis (ap_request applied) = ar_genesis req \<and>
                           hp_request_nonce (ap_request applied) = ar_request_nonce req)
                     (AdmissionDenied ''renewal is not this consumer's fresh committed progress''))))"

definition evidence ::
  "(u8 list \<Rightarrow> bytes32) \<Rightarrow> fence_view \<Rightarrow> admission_request \<Rightarrow> kaf_storage_state option \<Rightarrow>
   admission_controller \<Rightarrow> unit admitted" where
  "evidence sha fv req state ctl =
     (case ar_mode req of
        Cold \<Rightarrow> cold_evidence fv req state ctl
      | Join prepared \<Rightarrow> join_evidence sha fv req prepared state ctl
      | Renew progress \<Rightarrow> renew_evidence fv req progress state ctl)"

definition reserve_checks ::
  "(u8 list \<Rightarrow> bytes32) \<Rightarrow> mac \<Rightarrow> encoder \<Rightarrow> fence_view \<Rightarrow> instant \<Rightarrow> signed_admission \<Rightarrow> bytes32 \<Rightarrow>
   kaf_storage_state option \<Rightarrow> admission_controller \<Rightarrow> instant admitted" where
  "reserve_checks sha hmac to_vec fv now received binding state ctl =
     (let req = sa_payload received in
      rbind (sa_verify hmac to_vec (ctl_secret ctl) 10 (ar_consumer req) (ctl_local ctl) binding received) (\<lambda>_.
      rbind (validate_genesis ctl (ar_genesis req)) (\<lambda>_.
      rbind (ensure (physical_id (ar_consumer req) \<in> ctl_configured ctl)
               (AdmissionDenied ''admission consumer is not configured'')) (\<lambda>_.
      rbind (ensure (ctl_quarantine_until ctl \<le> now)
               (AdmissionDenied ''restart quarantine has not elapsed'')) (\<lambda>_.
      rbind (ensure (case ctl_reservation ctl of None \<Rightarrow> True
                     | Some r \<Rightarrow> \<not> (now < rs_until r \<and> rs_genesis r \<noteq> ar_genesis req))
               (AdmissionDenied ''physical member is reserved for another genesis'')) (\<lambda>_.
      rbind (evidence sha fv req state ctl) (\<lambda>_.
      rbind (reservation_deadline (ctl_timing ctl) now) (\<lambda>until.
      rbind (ensure (now < until) (AdmissionDenied ''reservation deadline is not in the future'')) (\<lambda>_.
      Inr until)))))))))"

definition extend_reservation :: "genesis \<Rightarrow> instant \<Rightarrow> reservation option \<Rightarrow> reservation" where
  "extend_reservation g until current =
     \<lparr>rs_genesis = g,
      rs_until = (case current of
                    None \<Rightarrow> until
                  | Some r \<Rightarrow> if rs_genesis r = g then max (rs_until r) until else until)\<rparr>"

text \<open>A reservation is kept even when signing the grant fails.\<close>

definition reserve ::
  "(u8 list \<Rightarrow> bytes32) \<Rightarrow> mac \<Rightarrow> encoder \<Rightarrow> fence_view \<Rightarrow> instant \<Rightarrow> signed_admission \<Rightarrow> bytes32 \<Rightarrow>
   kaf_storage_state option \<Rightarrow> admission_controller \<Rightarrow> admission_controller \<times> signed_admission admitted" where
  "reserve sha hmac to_vec fv now received binding state ctl =
     (let req = sa_payload received in
      case reserve_checks sha hmac to_vec fv now received binding state ctl of
        Inl e \<Rightarrow> (ctl, Inl e)
      | Inr until \<Rightarrow>
          (ctl\<lparr>ctl_reservation := Some (extend_reservation (ar_genesis req) until (ctl_reservation ctl))\<rparr>,
           sa_sign hmac to_vec (ctl_secret ctl) 11 (ctl_local ctl) (ar_consumer req) binding req))"

text \<open>The loop over the grants collects the physical and the exact issuers.\<close>

fun collect_grants ::
  "mac \<Rightarrow> encoder \<Rightarrow> admission_controller \<Rightarrow> admission_request \<Rightarrow> received_grant list \<Rightarrow> u64 set \<Rightarrow> replica_id set \<Rightarrow>
   (u64 set \<times> replica_id set) admitted" where
  "collect_grants hmac to_vec ctl req [] physical exact = Inr (physical, exact)"
| "collect_grants hmac to_vec ctl req (received # rest) physical exact =
     (let grant = rg_record received in
      rbind (sa_verify hmac to_vec (ctl_secret ctl) 11 (rg_issuer received) (ctl_local ctl) (rg_binding received) grant)
        (\<lambda>_. if sa_payload grant \<noteq> req \<or> physical_id (sa_sender grant) \<notin> ctl_configured ctl \<or>
                 physical_id (sa_sender grant) \<in> physical
              then Inl (AdmissionDenied ''grant mismatch or duplicate physical issuer'')
              else collect_grants hmac to_vec ctl req rest (insert (physical_id (sa_sender grant)) physical)
                     (insert (sa_sender grant) exact)))"

definition complete ::
  "mac \<Rightarrow> encoder \<Rightarrow> instant \<Rightarrow> received_grant list \<Rightarrow> admission_controller \<Rightarrow> admission_round \<Rightarrow>
   admission_round \<times> verified_admission admitted" where
  "complete hmac to_vec now grants ctl rd =
     (let req = rd_request rd in
      if ar_mode req = Join None \<or> ar_mode req = Renew None
      then (rd, Inl (AdmissionDenied ''admission round lacks committed evidence''))
      else if rd_completed rd \<or> rd_deadline rd \<le> now
      then (rd\<lparr>rd_completed := True\<rparr>, Inl (AdmissionDenied ''admission round expired or already consumed''))
      else if ar_consumer req \<noteq> ctl_local ctl
      then (rd, Inl (AdmissionDenied ''admission round belongs to another boot''))
      else case collect_grants hmac to_vec ctl req grants {} {} of
        Inl e \<Rightarrow> (rd, Inl e)
      | Inr (physical, exact) \<Rightarrow>
          if card physical \<le> card (ctl_configured ctl) div 2
          then (rd, Inl (AdmissionDenied ''admission grants lack a physical majority''))
          else if ar_mode req = Cold \<and> exact \<noteq> g_voters (ar_genesis req)
          then (rd, Inl (AdmissionDenied ''cold genesis lacks every exact boot's consent''))
          else (rd\<lparr>rd_completed := True\<rparr>,
                Inr \<lparr>va_context = \<lparr>ctx_local_replica = ctl_local ctl, ctx_genesis = ar_genesis req\<rparr>,
                     va_deadline = rd_deadline rd, va_mode = ar_mode req,
                     va_bootstrap = rd_prepared_join rd\<rparr>))"

subsection \<open>What each operation establishes\<close>

lemma sa_sign_Inr:
  assumes "sa_sign hmac to_vec secret role sender recipient binding payload = Inr rec"
  shows "sa_sender rec = sender \<and> sa_recipient rec = recipient \<and> sa_binding rec = binding \<and> sa_payload rec = payload"
  using assms by (auto simp: sa_sign_def split: option.splits sum.splits)

lemma sa_verify_Inr:
  "sa_verify hmac to_vec secret role sender recipient binding rec = Inr u \<Longrightarrow>
   sa_sender rec = sender \<and> sa_recipient rec = recipient \<and> sa_binding rec = binding"
  by (simp add: sa_verify_def split: if_splits)

text \<open>What is signed verifies, for the same secret, role, ends and channel.\<close>

lemma sa_verify_sign:
  assumes "sa_sign hmac to_vec secret role sender recipient binding payload = Inr rec"
  shows "sa_verify hmac to_vec secret role sender recipient binding rec = Inr ()"
proof -
  obtain bytes tag where b: "to_vec (binding, payload) = Some bytes"
    and t: "sign_admission_record hmac secret role sender recipient bytes = Inr tag"
    and rec: "rec = \<lparr>sa_sender = sender, sa_recipient = recipient, sa_binding = binding, sa_payload = payload, sa_tag = tag\<rparr>"
    using assms by (auto simp: sa_sign_def split: option.splits sum.splits)
  have "verify_admission_record hmac secret role sender recipient bytes tag = Inr ()"
    using t by (auto simp: sign_admission_record_def verify_admission_record_def)
  then show ?thesis using b by (simp add: sa_verify_def rec)
qed

lemma begin_round_Inr:
  assumes "begin_round now entropy g mode ctl = Inr rd"
  shows "\<exists>nonce. entropy = Some nonce \<and>
    rd_request rd = \<lparr>ar_consumer = ctl_local ctl, ar_genesis = g, ar_request_nonce = nonce, ar_mode = mode\<rparr> \<and>
    rd_started rd = now \<and> rd_deadline rd = now + lt_consumer_use (ctl_timing ctl) \<and>
    \<not> rd_completed rd \<and> ctl_quarantine_until ctl \<le> now"
  using assms
  by (auto simp: begin_round_def deadlines_Inr split: if_splits option.splits)

lemma bind_frame:
  "bind_progress now applied rd = Inr rd' \<Longrightarrow>
    rd_deadline rd' = rd_deadline rd \<and> ar_consumer (rd_request rd') = ar_consumer (rd_request rd) \<and>
    ar_genesis (rd_request rd') = ar_genesis (rd_request rd) \<and>
    ar_request_nonce (rd_request rd') = ar_request_nonce (rd_request rd)"
  "bind_prepared sha now prepared rd = Inr rd' \<Longrightarrow>
    rd_deadline rd' = rd_deadline rd \<and> ar_consumer (rd_request rd') = ar_consumer (rd_request rd) \<and>
    ar_genesis (rd_request rd') = ar_genesis (rd_request rd) \<and>
    ar_request_nonce (rd_request rd') = ar_request_nonce (rd_request rd)"
  by (auto simp: bind_progress_def bind_prepared_def split: if_splits)

lemma reserve_frame:
  assumes "reserve sha hmac to_vec fv now received binding state ctl = (ctl', r)"
  shows "ctl_local ctl' = ctl_local ctl \<and> ctl_configured ctl' = ctl_configured ctl \<and>
    ctl_timing ctl' = ctl_timing ctl \<and> ctl_quarantine_until ctl' = ctl_quarantine_until ctl"
  using assms by (auto simp: reserve_def Let_def split: sum.splits)

lemma reserve_checks_Inr:
  assumes "reserve_checks sha hmac to_vec fv now received binding state ctl = Inr until"
  shows "until = now + lt_issuer_reservation (ctl_timing ctl) \<and> now < until \<and> ctl_quarantine_until ctl \<le> now \<and>
    (\<forall>r. ctl_reservation ctl = Some r \<longrightarrow> now < rs_until r \<longrightarrow> rs_genesis r = ar_genesis (sa_payload received))"
  using assms by (auto simp: reserve_checks_def Let_def deadlines_Inr)

text \<open>A reservation for a genesis covers its whole duration and every earlier reservation for that genesis;
  it replaces one for another genesis only when that one has run out.\<close>

definition reserved_for :: "instant \<Rightarrow> genesis \<Rightarrow> admission_controller \<Rightarrow> admission_controller \<Rightarrow> bool" where
  "reserved_for now g ctl ctl' =
     (\<exists>until. ctl_reservation ctl' = Some \<lparr>rs_genesis = g, rs_until = until\<rparr> \<and>
        now + lt_issuer_reservation (ctl_timing ctl) \<le> until \<and>
        (\<forall>r. ctl_reservation ctl = Some r \<longrightarrow> (if rs_genesis r = g then rs_until r \<le> until else rs_until r \<le> now)))"

lemma extend_reserved:
  assumes "reserve_checks sha hmac to_vec fv now received binding state ctl = Inr until"
  shows "reserved_for now (ar_genesis (sa_payload received)) ctl
    (ctl\<lparr>ctl_reservation := Some (extend_reservation (ar_genesis (sa_payload received)) until (ctl_reservation ctl))\<rparr>)"
  using reserve_checks_Inr [OF assms]
  by (cases "ctl_reservation ctl") (force simp: reserved_for_def extend_reservation_def)+

lemma reserve_Inr:
  assumes "reserve sha hmac to_vec fv now received binding state ctl = (ctl', Inr grant)"
  shows "sa_sender grant = ctl_local ctl \<and> sa_payload grant = sa_payload received \<and>
    ctl_quarantine_until ctl \<le> now \<and> reserved_for now (ar_genesis (sa_payload received)) ctl ctl'"
proof (cases "reserve_checks sha hmac to_vec fv now received binding state ctl")
  case (Inr until)
  then show ?thesis
    using assms extend_reserved [OF Inr] reserve_checks_Inr [OF Inr]
    by (auto simp: reserve_def Let_def dest!: sa_sign_Inr)
qed (use assms in \<open>simp add: reserve_def Let_def\<close>)

lemma reserve_cases:
  assumes "reserve sha hmac to_vec fv now received binding state ctl = (ctl', r)"
  shows "ctl' = ctl \<or> reserved_for now (ar_genesis (sa_payload received)) ctl ctl'"
proof (cases "reserve_checks sha hmac to_vec fv now received binding state ctl")
  case (Inr until)
  then show ?thesis using assms extend_reserved [OF Inr] by (auto simp: reserve_def Let_def)
qed (use assms in \<open>simp add: reserve_def Let_def\<close>)

lemma collect_grants_Cons:
  "collect_grants hmac to_vec ctl req (g # gs) physical exact = Inr r \<Longrightarrow>
   sa_payload (rg_record g) = req \<and> physical_id (sa_sender (rg_record g)) \<in> ctl_configured ctl \<and>
   collect_grants hmac to_vec ctl req gs (insert (physical_id (sa_sender (rg_record g))) physical)
     (insert (sa_sender (rg_record g)) exact) = Inr r"
  by (auto simp: Let_def split: if_splits)

lemma collect_grants_Inr:
  assumes "collect_grants hmac to_vec ctl req grants physical exact = Inr (physical', exact')"
    "physical \<subseteq> ctl_configured ctl"
  shows "physical' \<subseteq> ctl_configured ctl \<and>
    physical' = physical \<union> (\<lambda>g. physical_id (sa_sender (rg_record g))) ` set grants \<and>
    (\<forall>g \<in> set grants. sa_payload (rg_record g) = req)"
  using assms
proof (induction grants arbitrary: physical exact)
  case (Cons g gs)
  note c = collect_grants_Cons [OF Cons.prems(1)]
  show ?case
    using Cons.IH [of "insert (physical_id (sa_sender (rg_record g))) physical" "insert (sa_sender (rg_record g)) exact"]
      c Cons.prems(2) by auto
qed simp

lemma complete_Inr:
  assumes "complete hmac to_vec now grants ctl rd = (rd', Inr va)" "finite (ctl_configured ctl)"
  shows "rd' = rd\<lparr>rd_completed := True\<rparr> \<and> now < rd_deadline rd \<and> \<not> rd_completed rd \<and>
    ar_consumer (rd_request rd) = ctl_local ctl \<and>
    va_context va = \<lparr>ctx_local_replica = ctl_local ctl, ctx_genesis = ar_genesis (rd_request rd)\<rparr> \<and>
    va_deadline va = rd_deadline rd \<and> va_mode va = ar_mode (rd_request rd) \<and>
    (\<forall>g \<in> set grants. sa_payload (rg_record g) = rd_request rd) \<and>
    majority_of (ctl_configured ctl) ((\<lambda>g. physical_id (sa_sender (rg_record g))) ` set grants)"
proof -
  obtain physical exact where c: "collect_grants hmac to_vec ctl (rd_request rd) grants {} {} = Inr (physical, exact)"
    using assms(1) by (auto simp: complete_def Let_def split: if_splits sum.splits)
  have p: "physical \<subseteq> ctl_configured ctl" "physical = (\<lambda>g. physical_id (sa_sender (rg_record g))) ` set grants"
    "\<forall>g \<in> set grants. sa_payload (rg_record g) = rd_request rd"
    using collect_grants_Inr [OF c] by auto
  show ?thesis
    using assms p(1,3)
    by (clarsimp simp: complete_def Let_def c majority_of_def p(2) [symmetric] not_le split: if_splits)
qed

end
