(* ===== verification/Runtime_Authority.thy ===== *)
theory Runtime_Authority
  imports Runtime_Permission Admission_Controller
begin

text \<open>
  The authority of one runtime (\<open>src/runtime_permission/admission.rs\<close>): it accepts verified admissions for
  its own boot, remembers the join it was admitted for, is promoted once the join is committed, and answers
  the fence's checks. The lock around the join binding is never poisoned, because no code that holds it
  panics. Each clock reading of an operation is an argument of its own.
\<close>

record runtime_authority =
  ra_local :: replica_id
  ra_permission :: perm_state
  ra_join_binding :: "join_binding option"

definition authority_new :: "replica_id \<Rightarrow> lease_timing \<Rightarrow> instant \<Rightarrow> runtime_authority anyhow_result" where
  "authority_new local_id timing boot =
     rbind (deadline boot (lt_restart_quarantine timing)) (\<lambda>until.
     Inr \<lparr>ra_local = local_id, ra_permission = Quarantined until, ra_join_binding = None\<rparr>)"

definition authority_identity :: "(u8 list \<Rightarrow> bytes32) \<Rightarrow> runtime_authority \<Rightarrow> admission_context \<Rightarrow> authority_context" where
  "authority_identity sha ra ctx =
     \<lparr>ac_boot_nonce = boot_nonce (ra_local ra), ac_cluster_epoch = g_epoch (ctx_genesis ctx),
      ac_genesis_digest = genesis_digest sha (ctx_genesis ctx), ac_admission_generation = 1\<rparr>"

definition authority_current ::
  "instant \<Rightarrow> runtime_authority \<Rightarrow> runtime_authority \<times> (authority_context \<times> instant) option" where
  "authority_current now ra =
     (let (st, _, current) = perm_current now (ra_permission ra) in (ra\<lparr>ra_permission := st\<rparr>, current))"

definition authority_check ::
  "(u8 list \<Rightarrow> bytes32) \<Rightarrow> instant \<Rightarrow> admission_context \<Rightarrow> runtime_authority \<Rightarrow> runtime_authority \<times> instant admitted" where
  "authority_check sha now expected ra =
     (let (ra', current) = authority_current now ra in
      (ra', case current of
              None \<Rightarrow> Inl (AdmissionDenied ''runtime has no active admission'')
            | Some (ctx, until) \<Rightarrow>
                if ctx_local_replica expected \<noteq> ra_local ra \<or> ctx \<noteq> authority_identity sha ra expected
                then Inl (AdmissionDenied ''runtime authority context mismatch'')
                else Inr until))"

definition authority_seal :: "runtime_authority \<Rightarrow> runtime_authority" where
  "authority_seal ra = ra\<lparr>ra_permission := fst (perm_seal (ra_permission ra))\<rparr>"

text \<open>A check of a session that points at this authority: the fence, then the clock once more.\<close>

definition authority_session ::
  "(u8 list \<Rightarrow> bytes32) \<Rightarrow> instant \<Rightarrow> instant \<Rightarrow> admission_context \<Rightarrow> runtime_authority \<Rightarrow>
   runtime_authority \<times> instant admitted" where
  "authority_session sha now later ctx ra =
     (fst (authority_check sha now ctx ra),
      session_check \<lparr>fv_check = (\<lambda>c. snd (authority_check sha now c ra)), fv_now = later\<rparr> ctx)"

definition authority_transition ::
  "(u8 list \<Rightarrow> bytes32) \<Rightarrow> instant \<Rightarrow> verified_admission \<Rightarrow> runtime_authority \<Rightarrow> runtime_authority \<times> bool admitted" where
  "authority_transition sha now va ra =
     (let ctx = authority_identity sha ra (va_context va) in
      case va_mode va of
        Cold \<Rightarrow>
          let (st, _, ok) = perm_admit now ctx (va_deadline va) (ra_permission ra)
          in (ra\<lparr>ra_permission := st\<rparr>, Inr ok)
      | Join (Some prepared) \<Rightarrow>
          if ra_join_binding ra \<noteq> None \<and> ra_join_binding ra \<noteq> Some prepared
          then (ra, Inl (AdmissionDenied ''join differs from the admitted operation''))
          else let (st, _, ok) = perm_join now ctx (jb_log_id prepared) (va_deadline va) (ra_permission ra)
               in (ra\<lparr>ra_permission := st,
                      ra_join_binding := if ok then Some prepared else ra_join_binding ra\<rparr>, Inr ok)
      | Renew (Some _) \<Rightarrow>
          let (st, _, ok) = perm_renew now ctx (va_deadline va) (ra_permission ra)
          in (ra\<lparr>ra_permission := st\<rparr>, Inr ok)
      | _ \<Rightarrow> (ra, Inr False))"

definition accept ::
  "(u8 list \<Rightarrow> bytes32) \<Rightarrow> instant \<Rightarrow> instant \<Rightarrow> instant \<Rightarrow> verified_admission \<Rightarrow> runtime_authority \<Rightarrow>
   runtime_authority \<times> admission_context admitted" where
  "accept sha now checked later va ra =
     (if ctx_local_replica (va_context va) \<noteq> ra_local ra
      then (ra, Inl (AdmissionDenied ''admission result belongs to another runtime''))
      else let (ra1, accepted) = authority_transition sha now va ra in
        case accepted of
          Inl e \<Rightarrow> (ra1, Inl e)
        | Inr False \<Rightarrow> (ra1, Inl (AdmissionDenied ''runtime cannot accept this admission transition''))
        | Inr True \<Rightarrow>
            let (ra2, r) = authority_session sha checked later (va_context va) ra1
            in (ra2, rbind r (\<lambda>_. Inr (va_context va))))"

text \<open>The comparison of a promotion with what the local store has applied.\<close>

definition promotion_applied ::
  "(u8 list \<Rightarrow> bytes32) \<Rightarrow> runtime_authority \<Rightarrow> admission_context \<Rightarrow> admission_context \<Rightarrow> prepared_join \<Rightarrow> log_id \<Rightarrow>
   log_id \<Rightarrow> completed_join \<Rightarrow> kaf_storage_state \<Rightarrow> bool" where
  "promotion_applied sha ra session expected prepared acknowledged membership_log done st =
     (let m = sm_membership (last_membership st) in
      session = expected \<and> genesis st = Some (ctx_genesis expected) \<and>
      ra_join_binding ra = Some (from_prepared sha prepared) \<and> cj_prepared done = prepared \<and>
      \<not> (case prepared_join st of None \<Rightarrow> False
         | Some pending \<Rightarrow> pj_prepared pending = pj_prepared prepared \<and> pj_plan pending = pj_plan prepared) \<and>
      get_joint_config m \<noteq> [] \<and> (\<forall>voters \<in> set (get_joint_config m). ra_local ra \<in> voters) \<and>
      length (filter (\<lambda>r. physical_id r = physical_id (ra_local ra)) (voter_ids m)) = 1 \<and>
      index (pj_prepared prepared) < index acknowledged \<and> index acknowledged < index (cj_promoted done) \<and>
      index (cj_promoted done) \<le> index membership_log \<and>
      \<not> (index membership_log = index (cj_promoted done) \<and> membership_log \<noteq> cj_promoted done) \<and>
      (case last_applied_log st of
         None \<Rightarrow> False
       | Some applied \<Rightarrow> index membership_log \<le> index applied \<and>
           \<not> (index applied = index membership_log \<and> applied \<noteq> membership_log)))"

definition mark_promoted ::
  "(u8 list \<Rightarrow> bytes32) \<Rightarrow> instant \<Rightarrow> instant \<Rightarrow> instant \<Rightarrow> instant \<Rightarrow> prepared_join \<Rightarrow> kaf_storage_state \<Rightarrow>
   runtime_authority \<Rightarrow> runtime_authority \<times> unit admitted" where
  "mark_promoted sha now checked later marked prepared st ra =
     (let expected = \<lparr>ctx_local_replica = jp_consumer (pj_plan prepared), ctx_genesis = jp_genesis (pj_plan prepared)\<rparr> in
      case validate_plan (pj_plan prepared) of Inl e \<Rightarrow> (ra, Inl e) | Inr _ \<Rightarrow>
      let (ra1, c) = authority_check sha now expected ra in
      case c of Inl e \<Rightarrow> (ra1, Inl e) | Inr _ \<Rightarrow>
      case admission st of None \<Rightarrow> (ra1, Inl (AdmissionDenied ''promotion requires local admission'')) | Some session \<Rightarrow>
      let (ra2, s) = authority_session sha checked later session ra1 in
      case s of Inl e \<Rightarrow> (ra2, Inl e) | Inr _ \<Rightarrow>
      case pj_learner_applied prepared of
        None \<Rightarrow> (ra2, Inl (AdmissionDenied ''promotion requires committed learner acknowledgement'')) | Some acknowledged \<Rightarrow>
      case sm_log_id (last_membership st) of
        None \<Rightarrow> (ra2, Inl (AdmissionDenied ''promotion requires committed final membership'')) | Some membership_log \<Rightarrow>
      case bm_get (completed_joins st) (physical_id (ra_local ra2)) of
        None \<Rightarrow> (ra2, Inl (AdmissionDenied ''promotion requires the committed completion receipt'')) | Some done \<Rightarrow>
      if \<not> promotion_applied sha ra2 session expected prepared acknowledged membership_log done st
      then (ra2, Inl (AdmissionDenied ''promotion differs from locally applied join completion''))
      else let (p, _, promoted) = perm_mark_promoted marked (authority_identity sha ra2 expected) (pj_prepared prepared)
                                    (ra_permission ra2)
           in (ra2\<lparr>ra_permission := p\<rparr>,
               ensure promoted (AdmissionDenied ''runtime is not this operation's active learner'')))"

subsection \<open>What may become of the permission\<close>

lemma perm_current_keeps: "fst (perm_current now st) = Active c s u \<Longrightarrow> st = Active c s u"
  by (cases st) (auto simp: perm_current_def split: if_splits)

lemma authority_current_frame:
  "ra_local (fst (authority_current now ra)) = ra_local ra"
  "ra_join_binding (fst (authority_current now ra)) = ra_join_binding ra"
  "ra_permission (fst (authority_current now ra)) = fst (perm_current now (ra_permission ra))"
  by (simp_all add: authority_current_def case_prod_beta)

lemma authority_check_fst: "fst (authority_check sha now expected ra) = fst (authority_current now ra)"
  by (simp add: authority_check_def case_prod_beta Let_def)

lemma authority_check_Inr:
  assumes "snd (authority_check sha now expected ra) = Inr until"
  shows "\<exists>s. ra_permission ra = Active (authority_identity sha ra expected) s until \<and> now < until \<and>
    ctx_local_replica expected = ra_local ra"
  using assms
  by (auto simp: authority_check_def authority_current_def case_prod_beta Let_def perm_current_Some
      split: option.splits if_splits)

lemma perm_admit_active:
  "fst (perm_admit now ctx until st) = Active c s u \<Longrightarrow> st = Active c s u \<or> c = ctx \<and> u = until"
  by (cases st) (auto simp: perm_admit_def Let_def split: if_splits)

lemma perm_join_active:
  "fst (perm_join now ctx prepared until st) = Active c s u \<Longrightarrow> st = Active c s u \<or> c = ctx \<and> u = until"
  by (cases st) (auto simp: perm_join_def Let_def split: if_splits stage.splits)

lemma perm_renew_active:
  "fst (perm_renew now ctx until st) = Active c s u \<Longrightarrow> st = Active c s u \<or> c = ctx \<and> u = until"
  by (cases st) (auto simp: perm_renew_def Let_def split: if_splits stage.splits)

lemma perm_promote_active:
  "fst (perm_mark_promoted now ctx prepared st) = Active c s u \<Longrightarrow> \<exists>s'. st = Active c s' u"
  by (cases st) (auto simp: perm_mark_promoted_def Let_def split: if_splits stage.splits)

lemma authority_transition_active:
  assumes "authority_transition sha now va ra = (ra', r)"
  shows "ra_local ra' = ra_local ra \<and>
    (ra_permission ra' = Active c s u \<longrightarrow> ra_permission ra = Active c s u \<or>
      c = authority_identity sha ra (va_context va) \<and> u = va_deadline va)"
  using assms
  by (auto simp: authority_transition_def Let_def case_prod_beta
      split: admission_mode.splits option.splits if_splits
      dest: perm_admit_active perm_join_active perm_renew_active)

lemma accept_active:
  assumes "accept sha now checked later va ra = (ra', r)"
  shows "ra_local ra' = ra_local ra \<and>
    (ra_permission ra' = Active c s u \<longrightarrow> ra_permission ra = Active c s u \<or>
      c = authority_identity sha ra (va_context va) \<and> u = va_deadline va \<and>
      ctx_local_replica (va_context va) = ra_local ra)"
proof (cases "ctx_local_replica (va_context va) = ra_local ra")
  case True
  obtain ra1 acc where t: "authority_transition sha now va ra = (ra1, acc)" by (metis prod.collapse)
  have "ra' = ra1 \<or> ra' = fst (authority_current checked ra1)"
    using assms True t
    by (auto simp: accept_def authority_session_def authority_check_fst split: sum.splits bool.splits)
  then show ?thesis
    using authority_transition_active [OF t, of c s u] True
    by (auto simp: authority_current_frame dest: perm_current_keeps)
qed (use assms in \<open>simp add: accept_def\<close>)

lemma accept_Inr:
  assumes "accept sha now checked later va ra = (ra', Inr ctx)"
  shows "ctx = va_context va \<and> (\<exists>s until. ra_permission ra' = Active (authority_identity sha ra' ctx) s until \<and> checked < until)"
proof -
  obtain ra1 until where ctx: "ctx = va_context va" and ra': "ra' = fst (authority_current checked ra1)"
    and u: "snd (authority_check sha checked ctx ra1) = Inr until"
    using assms
    by (auto simp: accept_def authority_session_def authority_check_fst Let_def elim!: rbind_InrE
        split: sum.splits bool.splits if_splits prod.splits)
  obtain s where "ra_permission ra1 = Active (authority_identity sha ra1 ctx) s until" "checked < until"
    using authority_check_Inr [OF u] by blast
  then show ?thesis by (auto simp: ctx ra' authority_current_frame perm_current_def authority_identity_def)
qed

lemma mark_promoted_active:
  assumes "mark_promoted sha now checked later marked prepared st ra = (ra', r)"
  shows "ra_local ra' = ra_local ra \<and>
    (ra_permission ra' = Active c s u \<longrightarrow> (\<exists>s'. ra_permission ra = Active c s' u))"
proof -
  define ra1 where "ra1 = fst (authority_current now ra)"
  define ra2 where "ra2 = fst (authority_current checked ra1)"
  have keeps: "ra_permission ra2 = Active c s' u \<Longrightarrow> ra_permission ra1 = Active c s' u"
    "ra_permission ra1 = Active c s' u \<Longrightarrow> ra_permission ra = Active c s' u" for s'
    by (simp_all add: ra1_def ra2_def authority_current_frame perm_current_keeps)
  have loc: "ra_local ra1 = ra_local ra" "ra_local ra2 = ra_local ra"
    by (simp_all add: ra1_def ra2_def authority_current_frame)
  have "ra' = ra \<or> ra' = ra1 \<or> ra' = ra2 \<or>
      (\<exists>ctx. ra' = ra2\<lparr>ra_permission := fst (perm_mark_promoted marked ctx (pj_prepared prepared) (ra_permission ra2))\<rparr>)"
    using assms
    by (auto simp: mark_promoted_def Let_def case_prod_beta authority_check_fst authority_session_def
        ra1_def ra2_def split: sum.splits option.splits if_splits)
  then show ?thesis using keeps loc perm_promote_active by fastforce
qed

end
