(* ===== verification/Admission_World.thy ===== *)
theory Admission_World
  imports Runtime_Authority
begin

text \<open>
  The admission protocol across the configured members: boots, rounds, grants, completions and the
  authority of each runtime, interleaved in any order. \<open>clk r t\<close> is what runtime \<open>r\<close>'s monotonic clock reads
  at time \<open>t\<close>; no clock runs more than twice as fast as another, the bound that
  \<open>src/runtime_permission/timing.rs\<close> supports. A boot has a fresh identity and a round a fresh nonce. Only
  records signed with the cluster secret verify, so a reservation answers a request of a round that was
  begun, and a completion takes grants that were issued. Time at which something happened is kept beside
  it for the proofs; no operation reads it.
\<close>

record admission_env =
  env_sha :: "u8 list \<Rightarrow> bytes32"
  env_hmac :: mac
  env_to_vec :: encoder
  env_clock :: "replica_id \<Rightarrow> nat \<Rightarrow> instant"
  env_members :: "u64 set"
  env_timing :: lease_timing

record admission_world =
  aw_time :: nat
  aw_controllers :: "u64 \<Rightarrow> admission_controller option"
  aw_authorities :: "replica_id \<Rightarrow> runtime_authority option"
  aw_rounds :: "replica_id \<Rightarrow> bytes32 \<Rightarrow> (admission_round \<times> nat) option"
  aw_boots :: "replica_id \<Rightarrow> nat option"
  aw_grants :: "(signed_admission \<times> nat) set"
  aw_verified :: "(replica_id \<times> verified_admission) set"

definition world_start :: admission_world where
  "world_start =
     \<lparr>aw_time = 0, aw_controllers = (\<lambda>_. None), aw_authorities = (\<lambda>_. None), aw_rounds = (\<lambda>_ _. None),
      aw_boots = (\<lambda>_. None), aw_grants = {}, aw_verified = {}\<rparr>"

definition set_round :: "replica_id \<Rightarrow> bytes32 \<Rightarrow> admission_round \<times> nat \<Rightarrow> admission_world \<Rightarrow> admission_world" where
  "set_round r n x w = w\<lparr>aw_rounds := (aw_rounds w)(r := (aw_rounds w r)(n \<mapsto> x))\<rparr>"

text \<open>A signed request comes from a round that its consumer has begun, for that round's genesis.\<close>

definition requested :: "admission_world \<Rightarrow> admission_request \<Rightarrow> bool" where
  "requested w req =
     (case aw_rounds w (ar_consumer req) (ar_request_nonce req) of
        None \<Rightarrow> False
      | Some (rd, _) \<Rightarrow> ar_genesis (rd_request rd) = ar_genesis req)"

inductive admission_step :: "admission_env \<Rightarrow> admission_world \<Rightarrow> admission_world \<Rightarrow> bool" for env where
  time_passes: "aw_time w \<le> t \<Longrightarrow> admission_step env w (w\<lparr>aw_time := t\<rparr>)"
| boots:
    "aw_boots w r = None \<Longrightarrow> peer_id ` set (cfg_peers cfg) = env_members env \<Longrightarrow>
     controller_new cfg (Some fp) r (env_clock env r (aw_time w)) (env_timing env) = Inr ctl \<Longrightarrow>
     authority_new r (env_timing env) (env_clock env r (aw_time w)) = Inr ra \<Longrightarrow>
     admission_step env w
       (w\<lparr>aw_controllers := (aw_controllers w)(physical_id r \<mapsto> ctl),
          aw_authorities := (aw_authorities w)(r \<mapsto> ra), aw_boots := (aw_boots w)(r \<mapsto> aw_time w)\<rparr>)"
| begins:
    "aw_controllers w p = Some ctl \<Longrightarrow> aw_rounds w (ctl_local ctl) nonce = None \<Longrightarrow>
     begin_round (env_clock env (ctl_local ctl) (aw_time w)) (Some nonce) g mode ctl = Inr rd \<Longrightarrow>
     admission_step env w (set_round (ctl_local ctl) nonce (rd, aw_time w) w)"
| binds_progress:
    "aw_rounds w r n = Some (rd, t0) \<Longrightarrow> bind_progress now applied rd = Inr rd' \<Longrightarrow>
     admission_step env w (set_round r n (rd', t0) w)"
| binds_prepared:
    "aw_rounds w r n = Some (rd, t0) \<Longrightarrow> bind_prepared (env_sha env) now prepared rd = Inr rd' \<Longrightarrow>
     admission_step env w (set_round r n (rd', t0) w)"
| grants:
    "aw_controllers w p = Some ctl \<Longrightarrow> requested w (sa_payload received) \<Longrightarrow>
     reserve (env_sha env) (env_hmac env) (env_to_vec env) fv (env_clock env (ctl_local ctl) (aw_time w))
       received binding state ctl = (ctl', Inr grant) \<Longrightarrow>
     admission_step env w
       (w\<lparr>aw_controllers := (aw_controllers w)(p \<mapsto> ctl'), aw_grants := insert (grant, aw_time w) (aw_grants w)\<rparr>)"
| denies:
    "aw_controllers w p = Some ctl \<Longrightarrow>
     reserve (env_sha env) (env_hmac env) (env_to_vec env) fv (env_clock env (ctl_local ctl) (aw_time w))
       received binding state ctl = (ctl', Inl e) \<Longrightarrow>
     admission_step env w (w\<lparr>aw_controllers := (aw_controllers w)(p \<mapsto> ctl')\<rparr>)"
| completes:
    "aw_controllers w p = Some ctl \<Longrightarrow> aw_rounds w (ctl_local ctl) n = Some (rd, t0) \<Longrightarrow>
     \<forall>g \<in> set gs. \<exists>t. (rg_record g, t) \<in> aw_grants w \<Longrightarrow>
     complete (env_hmac env) (env_to_vec env) (env_clock env (ctl_local ctl) (aw_time w)) gs ctl rd = (rd', Inr va) \<Longrightarrow>
     admission_step env w
       ((set_round (ctl_local ctl) n (rd', t0) w)\<lparr>aw_verified := insert (ctl_local ctl, va) (aw_verified w)\<rparr>)"
| abandons:
    "aw_controllers w p = Some ctl \<Longrightarrow> aw_rounds w (ctl_local ctl) n = Some (rd, t0) \<Longrightarrow>
     complete (env_hmac env) (env_to_vec env) (env_clock env (ctl_local ctl) (aw_time w)) gs ctl rd = (rd', Inl e) \<Longrightarrow>
     admission_step env w (set_round (ctl_local ctl) n (rd', t0) w)"
| accepts:
    "aw_authorities w r = Some ra \<Longrightarrow> (r, va) \<in> aw_verified w \<Longrightarrow>
     accept (env_sha env) now checked later va ra = (ra', res) \<Longrightarrow>
     admission_step env w (w\<lparr>aw_authorities := (aw_authorities w)(r \<mapsto> ra')\<rparr>)"
| promotes:
    "aw_authorities w r = Some ra \<Longrightarrow>
     mark_promoted (env_sha env) now checked later marked prepared st ra = (ra', res2) \<Longrightarrow>
     admission_step env w (w\<lparr>aw_authorities := (aw_authorities w)(r \<mapsto> ra')\<rparr>)"
| checks:
    "aw_authorities w r = Some ra \<Longrightarrow>
     admission_step env w (w\<lparr>aw_authorities := (aw_authorities w)(r \<mapsto> fst (authority_check (env_sha env) now ctx ra))\<rparr>)"
| seals:
    "aw_authorities w r = Some ra \<Longrightarrow>
     admission_step env w (w\<lparr>aw_authorities := (aw_authorities w)(r \<mapsto> authority_seal ra)\<rparr>)"

subsection \<open>Invariant\<close>

abbreviation use_of :: "admission_env \<Rightarrow> duration" where
  "use_of env \<equiv> lt_consumer_use (env_timing env)"

abbreviation reserve_of :: "admission_env \<Rightarrow> duration" where
  "reserve_of env \<equiv> lt_issuer_reservation (env_timing env)"

abbreviation quarantine_of :: "admission_env \<Rightarrow> duration" where
  "quarantine_of env \<equiv> lt_restart_quarantine (env_timing env)"

text \<open>Everything known of a member's current controller: it is a boot of that member and the latest.\<close>

definition controllers_ok :: "admission_env \<Rightarrow> admission_world \<Rightarrow> bool" where
  "controllers_ok env w =
     ((\<forall>r t. aw_boots w r = Some t \<longrightarrow> t \<le> aw_time w) \<and>
      (\<forall>p ctl. aw_controllers w p = Some ctl \<longrightarrow>
        physical_id (ctl_local ctl) = p \<and> ctl_configured ctl = env_members env \<and>
        ctl_timing ctl = env_timing env \<and>
        (\<exists>tb. aw_boots w (ctl_local ctl) = Some tb \<and>
           ctl_quarantine_until ctl = env_clock env (ctl_local ctl) tb + quarantine_of env)))"

definition rounds_ok :: "admission_env \<Rightarrow> admission_world \<Rightarrow> bool" where
  "rounds_ok env w =
     (\<forall>r n rd t0. aw_rounds w r n = Some (rd, t0) \<longrightarrow>
        ar_consumer (rd_request rd) = r \<and> ar_request_nonce (rd_request rd) = n \<and>
        rd_deadline rd = env_clock env r t0 + use_of env \<and> t0 \<le> aw_time w)"

text \<open>A grant was issued after its round had begun, by a boot that was not replaced before. While that
  boot lasts, it is reserved for the grant's genesis or the reservation has run out.\<close>

definition grant_ok :: "admission_env \<Rightarrow> admission_world \<Rightarrow> signed_admission \<Rightarrow> nat \<Rightarrow> bool" where
  "grant_ok env w rec tg =
     (tg \<le> aw_time w \<and> aw_boots w (sa_sender rec) \<noteq> None \<and>
      (\<exists>rd t0. aw_rounds w (ar_consumer (sa_payload rec)) (ar_request_nonce (sa_payload rec)) = Some (rd, t0) \<and>
         ar_genesis (rd_request rd) = ar_genesis (sa_payload rec) \<and> t0 \<le> tg) \<and>
      (\<forall>ctl. aw_controllers w (physical_id (sa_sender rec)) = Some ctl \<longrightarrow>
         (if ctl_local ctl = sa_sender rec
          then env_clock env (sa_sender rec) tg + reserve_of env \<le> env_clock env (sa_sender rec) (aw_time w) \<or>
               (\<exists>r. ctl_reservation ctl = Some r \<and> rs_genesis r = ar_genesis (sa_payload rec) \<and>
                    env_clock env (sa_sender rec) tg + reserve_of env \<le> rs_until r)
          else (\<forall>tb. aw_boots w (ctl_local ctl) = Some tb \<longrightarrow> tg \<le> tb))))"

text \<open>Two grants of one member for different geneses: every lease begun before the first has ended by the
  second.\<close>

definition apart :: "admission_env \<Rightarrow> nat \<Rightarrow> nat \<Rightarrow> bool" where
  "apart env t1 t2 = (\<forall>c. \<forall>t0 \<le> t1. env_clock env c t0 + use_of env \<le> env_clock env c t2)"

definition grants_ok :: "admission_env \<Rightarrow> admission_world \<Rightarrow> bool" where
  "grants_ok env w =
     ((\<forall>(rec, tg) \<in> aw_grants w. grant_ok env w rec tg) \<and>
      (\<forall>(rec1, t1) \<in> aw_grants w. \<forall>(rec2, t2) \<in> aw_grants w.
         physical_id (sa_sender rec1) = physical_id (sa_sender rec2) \<longrightarrow>
         ar_genesis (sa_payload rec1) \<noteq> ar_genesis (sa_payload rec2) \<longrightarrow> t1 \<le> t2 \<longrightarrow> apart env t1 t2))"

text \<open>A lease of a runtime: a majority of the members granted its genesis after it began.\<close>

definition leased :: "admission_env \<Rightarrow> admission_world \<Rightarrow> replica_id \<Rightarrow> genesis \<Rightarrow> instant \<Rightarrow> bool" where
  "leased env w r g until =
     (\<exists>t0 M. t0 \<le> aw_time w \<and> until = env_clock env r t0 + use_of env \<and> majority_of (env_members env) M \<and>
        (\<forall>p \<in> M. \<exists>(rec, tg) \<in> aw_grants w.
           physical_id (sa_sender rec) = p \<and> ar_genesis (sa_payload rec) = g \<and> t0 \<le> tg))"

definition backed :: "admission_env \<Rightarrow> admission_world \<Rightarrow> replica_id \<Rightarrow> authority_context \<Rightarrow> instant \<Rightarrow> bool" where
  "backed env w r c u =
     (\<exists>g. leased env w r g u \<and> ac_cluster_epoch c = g_epoch g \<and> ac_genesis_digest c = genesis_digest (env_sha env) g)"

definition leases_ok :: "admission_env \<Rightarrow> admission_world \<Rightarrow> bool" where
  "leases_ok env w =
     ((\<forall>r va. (r, va) \<in> aw_verified w \<longrightarrow> leased env w r (ctx_genesis (va_context va)) (va_deadline va)) \<and>
      (\<forall>r ra. aw_authorities w r = Some ra \<longrightarrow>
         ra_local ra = r \<and> (\<forall>c s u. ra_permission ra = Active c s u \<longrightarrow> backed env w r c u)))"

definition world_ok :: "admission_env \<Rightarrow> admission_world \<Rightarrow> bool" where
  "world_ok env w = (controllers_ok env w \<and> rounds_ok env w \<and> grants_ok env w \<and> leases_ok env w)"

definition env_ok :: "admission_env \<Rightarrow> bool" where
  "env_ok env = (finite (env_members env) \<and> timing_ok (env_timing env) \<and> drift_bounded (env_clock env))"

lemma apart_same_boot:
  assumes "env_ok env" "t1 \<le> t2" "env_clock env i t1 + reserve_of env \<le> env_clock env i t2"
  shows "apart env t1 t2"
  using assms lease.issuer_outlasts_consumer [of "env_clock env" "env_timing env" _ t1 t2 i]
  by (simp add: apart_def env_ok_def)

lemma apart_reboot:
  assumes "env_ok env" "t1 \<le> tb" "tb \<le> t2" "env_clock env b tb + quarantine_of env \<le> env_clock env b t2"
  shows "apart env t1 t2"
  using assms lease.restart_outlasts_consumer [of "env_clock env" "env_timing env" _ t1 tb t2 b]
  by (simp add: apart_def env_ok_def)

lemma leased_mono:
  "leased env w r g u \<Longrightarrow> aw_time w \<le> aw_time w' \<Longrightarrow> aw_grants w \<subseteq> aw_grants w' \<Longrightarrow> leased env w' r g u"
  unfolding leased_def by (elim exE conjE, intro exI conjI) (auto intro: order_trans, blast)

subsection \<open>Every step keeps the invariant\<close>

lemma controllers_ok_step:
  assumes "admission_step env w w'" "controllers_ok env w"
  shows "controllers_ok env w'"
  using assms(1)
proof cases
  case (time_passes t)
  then show ?thesis using assms(2) by (force simp: controllers_ok_def)
next
  case (boots r cfg fp ctl ra)
  have "ctl_local ctl = r \<and> ctl_configured ctl = env_members env \<and> ctl_timing ctl = env_timing env \<and>
      ctl_quarantine_until ctl = env_clock env r (aw_time w) + quarantine_of env"
    using boots by (auto simp: controller_new_def deadlines_Inr Let_def split: if_splits)
  then show ?thesis using assms(2) boots by (fastforce simp: controllers_ok_def)
next
  case (grants p ctl received fv binding state ctl' grant)
  then show ?thesis
    using assms(2) reserve_frame [OF grants(4)] by (auto simp: controllers_ok_def)
next
  case (denies p ctl fv received binding state ctl' e)
  then show ?thesis
    using assms(2) reserve_frame [OF denies(3)] by (auto simp: controllers_ok_def)
qed (use assms(2) in \<open>simp_all add: controllers_ok_def set_round_def\<close>)

lemma rounds_ok_set:
  assumes "rounds_ok env w" "aw_rounds w r n = Some (rd, t0)"
    "ar_consumer (rd_request rd') = ar_consumer (rd_request rd)"
    "ar_request_nonce (rd_request rd') = ar_request_nonce (rd_request rd)" "rd_deadline rd' = rd_deadline rd"
  shows "rounds_ok env (set_round r n (rd', t0) w)"
  using assms by (auto simp: rounds_ok_def set_round_def)

lemma complete_frame:
  "complete hmac to_vec now gs ctl rd = (rd', r) \<Longrightarrow> rd_request rd' = rd_request rd \<and> rd_deadline rd' = rd_deadline rd"
  by (auto simp: complete_def Let_def split: if_splits sum.splits prod.splits)

lemma rounds_ok_step:
  assumes "admission_step env w w'" "controllers_ok env w" "rounds_ok env w"
  shows "rounds_ok env w'"
  using assms(1)
proof cases
  case (time_passes t)
  then show ?thesis using assms(3) by (force simp: rounds_ok_def)
next
  case (begins p ctl nonce g mode rd)
  then have "ctl_timing ctl = env_timing env" using assms(2) by (auto simp: controllers_ok_def)
  then show ?thesis using begin_round_Inr [OF begins(4)] begins(1) assms(3) by (auto simp: rounds_ok_def set_round_def)
next
  case (binds_progress r n rd t0 now applied rd')
  then show ?thesis using bind_frame(1) assms(3) by (auto intro!: rounds_ok_set)
next
  case (binds_prepared r n rd t0 now prepared rd')
  then show ?thesis using bind_frame(2) assms(3) by (auto intro!: rounds_ok_set)
next
  case (completes p ctl n rd t0 gs rd' va)
  have "rounds_ok env (set_round (ctl_local ctl) n (rd', t0) w)"
    using complete_frame [OF completes(5)] completes(3) assms(3) by (auto intro!: rounds_ok_set)
  then show ?thesis by (simp add: completes(1) rounds_ok_def)
next
  case (abandons p ctl n rd t0 gs rd' e)
  then show ?thesis using complete_frame assms(3) by (auto intro!: rounds_ok_set)
qed (use assms(3) in \<open>simp_all add: rounds_ok_def\<close>)

text \<open>Later worlds in which a known round keeps its genesis and its beginning.\<close>

definition rounds_kept :: "admission_world \<Rightarrow> admission_world \<Rightarrow> bool" where
  "rounds_kept w w' =
     (\<forall>r n rd t0. aw_rounds w r n = Some (rd, t0) \<longrightarrow>
        (\<exists>rd'. aw_rounds w' r n = Some (rd', t0) \<and> ar_genesis (rd_request rd') = ar_genesis (rd_request rd)))"

lemma rounds_kept_same [simp]: "aw_rounds w' = aw_rounds w \<Longrightarrow> rounds_kept w w'"
  by (simp add: rounds_kept_def)

lemma rounds_kept_set:
  "aw_rounds w r n = Some (rd, t0) \<Longrightarrow> ar_genesis (rd_request rd') = ar_genesis (rd_request rd) \<Longrightarrow>
   rounds_kept w (set_round r n (rd', t0) w)"
  "aw_rounds w r n = None \<Longrightarrow> rounds_kept w (set_round r n x w)"
  by (auto simp: rounds_kept_def set_round_def)

lemma grant_ok_later:
  assumes "grant_ok env w rec tg" "drift_bounded (env_clock env)" "rounds_kept w w'" "aw_time w \<le> aw_time w'"
    "aw_boots w' = aw_boots w" "aw_controllers w' = aw_controllers w"
  shows "grant_ok env w' rec tg"
proof -
  let ?c = "env_clock env (sa_sender rec)"
  have "?c (aw_time w) \<le> ?c (aw_time w')" using assms(2,4) by (rule drift_mono)
  moreover obtain rd t0 where
    "aw_rounds w (ar_consumer (sa_payload rec)) (ar_request_nonce (sa_payload rec)) = Some (rd, t0)"
    "ar_genesis (rd_request rd) = ar_genesis (sa_payload rec)" "t0 \<le> tg"
    using assms(1) by (auto simp: grant_ok_def)
  then have "\<exists>rd t0. aw_rounds w' (ar_consumer (sa_payload rec)) (ar_request_nonce (sa_payload rec)) = Some (rd, t0) \<and>
      ar_genesis (rd_request rd) = ar_genesis (sa_payload rec) \<and> t0 \<le> tg"
    using assms(3) by (fastforce simp: rounds_kept_def)
  ultimately show ?thesis
    using assms(1,4) by (auto simp: grant_ok_def assms(5,6) split: if_splits)
qed

lemma grant_ok_reserve:
  assumes "grant_ok env w rec tg" "controllers_ok env w" "aw_controllers w p = Some ctl"
    "ctl_local ctl' = ctl_local ctl"
    "ctl' = ctl \<or> reserved_for (env_clock env (ctl_local ctl) (aw_time w)) g ctl ctl'"
    "aw_controllers w' = (aw_controllers w)(p \<mapsto> ctl')" "aw_boots w' = aw_boots w"
    "aw_rounds w' = aw_rounds w" "aw_time w' = aw_time w"
  shows "grant_ok env w' rec tg"
proof (cases "physical_id (sa_sender rec) = p \<and> ctl_local ctl = sa_sender rec \<and> ctl' \<noteq> ctl")
  case True
  let ?c = "env_clock env (sa_sender rec)"
  obtain until where res: "ctl_reservation ctl' = Some \<lparr>rs_genesis = g, rs_until = until\<rparr>"
    "\<And>r. ctl_reservation ctl = Some r \<Longrightarrow> (if rs_genesis r = g then rs_until r \<le> until else rs_until r \<le> ?c (aw_time w))"
    using assms(5) True by (auto simp: reserved_for_def)
  have "?c tg + reserve_of env \<le> ?c (aw_time w) \<or>
      (\<exists>r. ctl_reservation ctl = Some r \<and> rs_genesis r = ar_genesis (sa_payload rec) \<and> ?c tg + reserve_of env \<le> rs_until r)"
    using assms(1,3) True by (auto simp: grant_ok_def)
  then have "?c tg + reserve_of env \<le> ?c (aw_time w) \<or>
      (\<exists>r. ctl_reservation ctl' = Some r \<and> rs_genesis r = ar_genesis (sa_payload rec) \<and> ?c tg + reserve_of env \<le> rs_until r)"
    using res by (fastforce split: if_splits)
  then show ?thesis using assms True by (simp add: grant_ok_def)
next
  case False
  then show ?thesis using assms by (auto simp: grant_ok_def)
qed

lemma grant_ok_boot:
  assumes "grant_ok env w rec tg" "controllers_ok env w" "aw_boots w r = None" "ctl_local ctl = r"
  shows "grant_ok env
    (w\<lparr>aw_controllers := (aw_controllers w)(physical_id r \<mapsto> ctl),
       aw_authorities := as, aw_boots := (aw_boots w)(r \<mapsto> aw_time w)\<rparr>) rec tg"
proof -
  have "sa_sender rec \<noteq> r" using assms(1,3) by (auto simp: grant_ok_def)
  moreover have "ctl_local c \<noteq> r" if "aw_controllers w p = Some c" for p c
    using assms(2,3) that by (fastforce simp: controllers_ok_def)
  ultimately show ?thesis using assms(1,4) by (auto simp: grant_ok_def split: if_splits)
qed

text \<open>A new grant keeps its distance from every earlier grant of the member for another genesis.\<close>

lemma new_grant_apart:
  assumes "env_ok env" "controllers_ok env w" "grant_ok env w rec tg" "aw_controllers w p = Some ctl"
    and res: "reserve sha hmac to_vec fv (env_clock env (ctl_local ctl) (aw_time w)) received binding state ctl =
      (ctl', Inr grant)"
    and other: "physical_id (sa_sender rec) = p" "ar_genesis (sa_payload rec) \<noteq> ar_genesis (sa_payload grant)"
  shows "apart env tg (aw_time w)"
proof -
  let ?now = "env_clock env (ctl_local ctl) (aw_time w)"
  have tg: "tg \<le> aw_time w" using assms(3) by (simp add: grant_ok_def)
  have new: "sa_payload grant = sa_payload received" "ctl_quarantine_until ctl \<le> ?now"
    "reserved_for ?now (ar_genesis (sa_payload received)) ctl ctl'"
    using reserve_Inr [OF res] by simp_all
  show ?thesis
  proof (cases "ctl_local ctl = sa_sender rec")
    case True
    then have "env_clock env (sa_sender rec) tg + reserve_of env \<le> ?now \<or>
        (\<exists>r. ctl_reservation ctl = Some r \<and> rs_genesis r = ar_genesis (sa_payload rec) \<and>
           env_clock env (sa_sender rec) tg + reserve_of env \<le> rs_until r)"
      using assms(3,4) other(1) by (simp add: grant_ok_def)
    then have "env_clock env (sa_sender rec) tg + reserve_of env \<le> ?now"
      using new other(2) by (fastforce simp: reserved_for_def)
    then show ?thesis using apart_same_boot [OF assms(1) tg] True by simp
  next
    case False
    obtain tb where tb: "aw_boots w (ctl_local ctl) = Some tb" "tb \<le> aw_time w"
      "ctl_quarantine_until ctl = env_clock env (ctl_local ctl) tb + quarantine_of env"
      using assms(2,4) by (fastforce simp: controllers_ok_def)
    then have "tg \<le> tb" using assms(3,4) other(1) False by (auto simp: grant_ok_def split: if_splits)
    then show ?thesis using apart_reboot [OF assms(1) _ tb(2)] tb(3) new(2) by simp
  qed
qed

lemma grants_ok_frame:
  assumes "grants_ok env w" "aw_grants w' = aw_grants w"
    "\<And>rec tg. grant_ok env w rec tg \<Longrightarrow> grant_ok env w' rec tg"
  shows "grants_ok env w'"
  using assms unfolding grants_ok_def by auto

lemma grants_ok_grant:
  assumes env: "env_ok env" and ok: "controllers_ok env w" "grants_ok env w"
    and ctl: "aw_controllers w p = Some ctl" and req: "requested w (sa_payload received)"
    "rounds_ok env w"
    and res: "reserve sha hmac to_vec fv (env_clock env (ctl_local ctl) (aw_time w)) received binding state ctl =
      (ctl', Inr grant)"
    and w': "w' = w\<lparr>aw_controllers := (aw_controllers w)(p \<mapsto> ctl'), aw_grants := insert (grant, aw_time w) (aw_grants w)\<rparr>"
  shows "grants_ok env w'"
proof -
  note new = reserve_Inr [OF res]
  have sender: "physical_id (sa_sender grant) = p" "aw_boots w (sa_sender grant) \<noteq> None" "ctl_timing ctl = env_timing env"
    using new ok(1) ctl by (fastforce simp: controllers_ok_def)+
  have frame: "ctl_local ctl' = ctl_local ctl" using reserve_frame [OF res] by simp
  have old: "grant_ok env w' rec tg" if "(rec, tg) \<in> aw_grants w" for rec tg
  proof -
    have "grant_ok env w rec tg" using that ok(2) by (auto simp: grants_ok_def)
    then show ?thesis
      by (rule grant_ok_reserve [OF _ ok(1) ctl frame reserve_cases [OF res]]) (simp_all add: w')
  qed
  have this_ok: "grant_ok env w' grant (aw_time w)"
    using new req sender frame
    by (auto simp: grant_ok_def w' requested_def rounds_ok_def reserved_for_def split: option.splits)
  have far: "apart env tg (aw_time w)"
    if "(rec, tg) \<in> aw_grants w" "physical_id (sa_sender rec) = p" "ar_genesis (sa_payload rec) \<noteq> ar_genesis (sa_payload grant)"
    for rec tg
    using new_grant_apart [OF env ok(1) _ ctl res that(2,3)] ok(2) that(1) by (auto simp: grants_ok_def)
  have time: "tg \<le> aw_time w" if "(rec, tg) \<in> aw_grants w" for rec tg
    using ok(2) that by (auto simp: grants_ok_def grant_ok_def)
  have gr: "aw_grants w' = insert (grant, aw_time w) (aw_grants w)" by (simp add: w')
  have all: "grant_ok env w' rec tg" if "(rec, tg) \<in> aw_grants w'" for rec tg
    using that old this_ok by (auto simp: gr)
  have pair: "apart env t1 t2"
    if "(rec1, t1) \<in> aw_grants w'" "(rec2, t2) \<in> aw_grants w'" "t1 \<le> t2"
      "physical_id (sa_sender rec1) = physical_id (sa_sender rec2)"
      "ar_genesis (sa_payload rec1) \<noteq> ar_genesis (sa_payload rec2)" for rec1 t1 rec2 t2
    using that far [of rec1 t1] far [of rec2 t2] time [of rec2 t2] ok(2) sender(1)
    by (auto simp: grants_ok_def gr)
  show ?thesis unfolding grants_ok_def using all pair by blast
qed

lemma grants_ok_later:
  assumes "grants_ok env w" "env_ok env" "rounds_kept w w'" "aw_time w \<le> aw_time w'"
    "aw_boots w' = aw_boots w" "aw_controllers w' = aw_controllers w" "aw_grants w' = aw_grants w"
  shows "grants_ok env w'"
  using assms(2)
  by (intro grants_ok_frame [OF assms(1,7)]) (simp add: env_ok_def grant_ok_later [OF _ _ assms(3-6)])

lemma grants_ok_round:
  assumes "grants_ok env w" "env_ok env" "aw_rounds w r n = Some (rd, t0)"
    "ar_genesis (rd_request rd') = ar_genesis (rd_request rd)"
  shows "grants_ok env (set_round r n (rd', t0) w)"
  by (rule grants_ok_later [OF assms(1,2) rounds_kept_set(1) [OF assms(3,4)]]) (simp_all add: set_round_def)

lemma grants_ok_step:
  assumes "env_ok env" "admission_step env w w'" "controllers_ok env w" "rounds_ok env w" "grants_ok env w"
  shows "grants_ok env w'"
  using assms(2)
proof cases
  case (boots r cfg fp ctl ra)
  have "ctl_local ctl = r" using boots by (auto simp: controller_new_def Let_def split: if_splits)
  then show ?thesis
    unfolding boots(1)
    by (intro grants_ok_frame [OF assms(5)] grant_ok_boot [OF _ assms(3) boots(2)]) simp_all
next
  case (begins p ctl nonce g mode rd)
  show ?thesis
    unfolding begins(1)
    by (rule grants_ok_later [OF assms(5,1) rounds_kept_set(2) [OF begins(3)]]) (simp_all add: set_round_def)
next
  case (binds_progress r n rd t0 now applied rd')
  then show ?thesis using grants_ok_round [OF assms(5,1)] bind_frame(1) by simp
next
  case (binds_prepared r n rd t0 now prepared rd')
  then show ?thesis using grants_ok_round [OF assms(5,1)] bind_frame(2) by simp
next
  case (grants p ctl received fv binding state ctl' grant)
  then show ?thesis using grants_ok_grant [OF assms(1,3,5) grants(2,3) assms(4) grants(4)] by simp
next
  case (denies p ctl fv received binding state ctl' e)
  have "ctl_local ctl' = ctl_local ctl" using reserve_frame [OF denies(3)] by simp
  then have "grant_ok env w' rec tg" if "grant_ok env w rec tg" for rec tg
    by (rule grant_ok_reserve [OF that assms(3) denies(2) _ reserve_cases [OF denies(3)]])
       (simp_all add: denies(1))
  then show ?thesis using grants_ok_frame [OF assms(5), of w'] denies(1) by simp
next
  case (completes p ctl n rd t0 gs rd' va)
  have "grants_ok env (set_round (ctl_local ctl) n (rd', t0) w)"
    using grants_ok_round [OF assms(5,1) completes(3)] complete_frame [OF completes(5)] by simp
  then show ?thesis
    unfolding completes(1) by (rule grants_ok_later [OF _ assms(1)]) simp_all
next
  case (abandons p ctl n rd t0 gs rd' e)
  then show ?thesis using grants_ok_round [OF assms(5,1) abandons(3)] complete_frame [OF abandons(4)] by simp
qed (simp_all add: grants_ok_later [OF assms(5,1)])

lemma leases_ok_frame:
  assumes "leases_ok env w" "aw_time w \<le> aw_time w'" "aw_grants w \<subseteq> aw_grants w'"
    "aw_verified w' = aw_verified w" "aw_authorities w' = aw_authorities w"
  shows "leases_ok env w'"
  using assms(1) leased_mono [OF _ assms(2,3)] unfolding leases_ok_def backed_def assms(4,5) by blast

lemma leases_ok_authority:
  assumes "leases_ok env w" "aw_authorities w r = Some ra"
    "w' = w\<lparr>aw_authorities := (aw_authorities w)(r \<mapsto> ra')\<rparr>" "ra_local ra' = ra_local ra"
    "\<And>c s u. ra_permission ra' = Active c s u \<Longrightarrow> (\<exists>s'. ra_permission ra = Active c s' u) \<or> backed env w r c u"
  shows "leases_ok env w'"
proof -
  have same: "leased env w' = leased env w" "backed env w' = backed env w"
    by (simp_all add: assms(3) leased_def backed_def fun_eq_iff)
  have ra: "ra_local ra = r" and old: "ra_permission ra = Active c s u \<Longrightarrow> backed env w r c u" for c s u
    using assms(1,2) by (auto simp: leases_ok_def)
  have new: "backed env w r c u" if "ra_permission ra' = Active c s u" for c s u
    using assms(5) [OF that] old by blast
  show ?thesis
    using assms(1,4) new ra unfolding leases_ok_def same by (simp add: assms(3))
qed

lemma completed_leased:
  assumes "env_ok env" "controllers_ok env w" "rounds_ok env w" "grants_ok env w" "aw_controllers w p = Some ctl"
    "aw_rounds w (ctl_local ctl) n = Some (rd, t0)" "\<forall>g \<in> set gs. \<exists>t. (rg_record g, t) \<in> aw_grants w"
    "complete hmac to_vec now gs ctl rd = (rd', Inr va)"
  shows "leased env w (ctl_local ctl) (ctx_genesis (va_context va)) (va_deadline va)"
proof -
  have conf: "ctl_configured ctl = env_members env" and fin: "finite (ctl_configured ctl)"
    using assms(1,2,5) by (auto simp: controllers_ok_def env_ok_def)
  note c = complete_Inr [OF assms(8) fin]
  have rd: "ar_consumer (rd_request rd) = ctl_local ctl" "ar_request_nonce (rd_request rd) = n"
    "rd_deadline rd = env_clock env (ctl_local ctl) t0 + use_of env" "t0 \<le> aw_time w"
    using assms(3,6) by (auto simp: rounds_ok_def)
  let ?M = "(\<lambda>g. physical_id (sa_sender (rg_record g))) ` set gs"
  have "\<exists>(rec, tg) \<in> aw_grants w. physical_id (sa_sender rec) = p \<and>
      ar_genesis (sa_payload rec) = ctx_genesis (va_context va) \<and> t0 \<le> tg" if member: "p \<in> ?M" for p
  proof -
    obtain g t where g: "g \<in> set gs" "p = physical_id (sa_sender (rg_record g))" "(rg_record g, t) \<in> aw_grants w"
      using member assms(7) by blast
    have "sa_payload (rg_record g) = rd_request rd" using c g(1) by blast
    moreover have "grant_ok env w (rg_record g) t" using assms(4) g(3) by (auto simp: grants_ok_def)
    ultimately have "t0 \<le> t" using assms(6) rd by (auto simp: grant_ok_def)
    then show ?thesis using g c \<open>sa_payload (rg_record g) = rd_request rd\<close> by (intro bexI [of _ "(rg_record g, t)"]) auto
  qed
  then show ?thesis using c rd conf unfolding leased_def by (intro exI [of _ t0] exI [of _ ?M]) simp
qed

lemma leases_ok_step:
  assumes "env_ok env" "admission_step env w w'" "controllers_ok env w" "rounds_ok env w" "grants_ok env w"
    "leases_ok env w"
  shows "leases_ok env w'"
proof -
  note later = leases_ok_frame [OF assms(6)]
  show ?thesis
    using assms(2)
  proof cases
    case (time_passes t)
    then show ?thesis by (intro later) simp_all
  next
    case (boots r cfg fp ctl ra)
    have ra: "ra_local ra = r" "\<And>c s u. ra_permission ra \<noteq> Active c s u"
      using boots by (auto simp: authority_new_def)
    have same: "leased env w' = leased env w" "backed env w' = backed env w"
      by (simp_all add: boots(1) leased_def backed_def fun_eq_iff)
    show ?thesis using assms(6) ra unfolding leases_ok_def same by (simp add: boots(1))
  next
    case (completes p ctl n rd t0 gs rd' va)
    have new: "leased env w (ctl_local ctl) (ctx_genesis (va_context va)) (va_deadline va)"
      using completed_leased [OF assms(1,3,4,5) completes(2-5)] .
    have same: "leased env w' = leased env w" "backed env w' = backed env w"
      by (simp_all add: completes(1) leased_def backed_def set_round_def fun_eq_iff)
    show ?thesis using assms(6) new unfolding leases_ok_def same by (auto simp: completes(1) set_round_def)
  next
    case (accepts r ra va now checked later ra' res)
    have "leased env w r (ctx_genesis (va_context va)) (va_deadline va)"
      using assms(6) accepts(3) by (auto simp: leases_ok_def)
    then have "backed env w r (authority_identity (env_sha env) ra (va_context va)) (va_deadline va)"
      unfolding backed_def by (intro exI conjI) (simp_all add: authority_identity_def)
    then show ?thesis
      using accept_active [OF accepts(4)] by (intro leases_ok_authority [OF assms(6) accepts(2,1)]) blast+
  next
    case (promotes r ra now checked later marked prepared st ra' res2)
    then show ?thesis
      using mark_promoted_active [OF promotes(3)] by (intro leases_ok_authority [OF assms(6) promotes(2,1)]) blast+
  next
    case (checks r ra now ctx)
    show ?thesis
      by (rule leases_ok_authority [OF assms(6) checks(2,1)])
         (auto simp: authority_check_fst authority_current_frame dest: perm_current_keeps)
  next
    case (seals r ra)
    show ?thesis
      by (rule leases_ok_authority [OF assms(6) seals(2,1)])
         (auto simp: authority_seal_def perm_seal_def split: if_splits)
  qed (intro later; simp add: set_round_def subset_insertI)+
qed

lemma world_ok_start: "world_ok env world_start"
  by (simp add: world_ok_def controllers_ok_def rounds_ok_def grants_ok_def leases_ok_def world_start_def)

interpretation world: step_system "\<lambda>w. w = world_start \<and> env_ok env" "admission_step env"
  "\<lambda>w. env_ok env \<and> world_ok env w" for env
proof unfold_locales
  fix w w' assume "admission_step env w w'" "env_ok env \<and> world_ok env w"
  then show "env_ok env \<and> world_ok env w'"
    using controllers_ok_step rounds_ok_step grants_ok_step leases_ok_step unfolding world_ok_def by blast
qed (simp add: world_ok_start)

lemma live_lease_unexpired:
  assumes "drift_bounded (env_clock env)" "apart env t1 t2" "t2 \<le> aw_time w" "t0 \<le> t1"
  shows "env_clock env r t0 + use_of env \<le> env_clock env r (aw_time w)"
  using assms(2,4) drift_mono [OF assms(1,3), of r] unfolding apart_def by (meson order_trans)

lemma live_leases_agree:
  assumes "env_ok env" "grants_ok env w" "leased env w r1 g1 u1" "leased env w r2 g2 u2"
    "env_clock env r1 (aw_time w) < u1" "env_clock env r2 (aw_time w) < u2"
  shows "g1 = g2"
proof (rule ccontr)
  assume ne: "g1 \<noteq> g2"
  obtain t1 M1 where l1: "u1 = env_clock env r1 t1 + use_of env" "majority_of (env_members env) M1"
    "\<forall>p \<in> M1. \<exists>(rec, tg) \<in> aw_grants w. physical_id (sa_sender rec) = p \<and> ar_genesis (sa_payload rec) = g1 \<and> t1 \<le> tg"
    using assms(3) by (auto simp: leased_def)
  obtain t2 M2 where l2: "u2 = env_clock env r2 t2 + use_of env" "majority_of (env_members env) M2"
    "\<forall>p \<in> M2. \<exists>(rec, tg) \<in> aw_grants w. physical_id (sa_sender rec) = p \<and> ar_genesis (sa_payload rec) = g2 \<and> t2 \<le> tg"
    using assms(4) by (auto simp: leased_def)
  obtain p where "p \<in> M1" "p \<in> M2" using majority.common_member [OF l1(2) l2(2)] .
  then obtain rec1 s1 rec2 s2 where g: "(rec1, s1) \<in> aw_grants w" "(rec2, s2) \<in> aw_grants w" "t1 \<le> s1" "t2 \<le> s2"
    "physical_id (sa_sender rec1) = physical_id (sa_sender rec2)"
    "ar_genesis (sa_payload rec1) = g1" "ar_genesis (sa_payload rec2) = g2"
    using l1(3) l2(3) by fast
  have drift: "drift_bounded (env_clock env)" using assms(1) by (simp add: env_ok_def)
  have time: "s1 \<le> aw_time w" "s2 \<le> aw_time w" using assms(2) g(1,2) by (auto simp: grants_ok_def grant_ok_def)
  have "apart env s1 s2 \<or> apart env s2 s1"
    using assms(2) g ne nat_le_linear [of s1 s2] unfolding grants_ok_def by fastforce
  then show False
    using live_lease_unexpired [OF drift _ time(2) g(3), of r1] live_lease_unexpired [OF drift _ time(1) g(4), of r2]
      assms(5,6) l1(1) l2(1) by force
qed

text \<open>C2. At most one cluster formation has live authority at any time. However boots, restarts, rounds,
  grants, completions and renewals interleave, if the members run the configured roster and lease durations
  and no clock runs more than twice as fast as another, then any two runtimes whose authority is live at the
  same time agree on the epoch and the genesis they were admitted to.\<close>

theorem one_live_genesis:
  assumes "env_ok env" "(admission_step env)\<^sup>*\<^sup>* world_start w"
    and "aw_authorities w r1 = Some ra1" "aw_authorities w r2 = Some ra2"
    and "snd (authority_current (env_clock env r1 (aw_time w)) ra1) = Some (c1, u1)"
    and "snd (authority_current (env_clock env r2 (aw_time w)) ra2) = Some (c2, u2)"
  shows "ac_cluster_epoch c1 = ac_cluster_epoch c2 \<and> ac_genesis_digest c1 = ac_genesis_digest c2"
proof -
  have ok: "world_ok env w" using world.reachable_inv [of world_start env w] assms(1,2) by simp
  have live: "\<exists>s. ra_permission ra1 = Active c1 s u1" "env_clock env r1 (aw_time w) < u1"
    "\<exists>s. ra_permission ra2 = Active c2 s u2" "env_clock env r2 (aw_time w) < u2"
    using assms(5,6) by (auto simp: authority_current_def case_prod_beta perm_current_Some)
  have "backed env w r1 c1 u1" "backed env w r2 c2 u2"
    using ok live(1,3) assms(3,4) by (auto simp: world_ok_def leases_ok_def)
  then obtain g1 g2 where g: "leased env w r1 g1 u1" "ac_cluster_epoch c1 = g_epoch g1"
    "ac_genesis_digest c1 = genesis_digest (env_sha env) g1" "leased env w r2 g2 u2"
    "ac_cluster_epoch c2 = g_epoch g2" "ac_genesis_digest c2 = genesis_digest (env_sha env) g2"
    unfolding backed_def by blast
  then show ?thesis
    using live_leases_agree [OF assms(1) _ g(1,4) live(2,4)] ok by (simp add: world_ok_def)
qed

subsection \<open>Two members form a cluster\<close>

definition adm_replica :: "u64 \<Rightarrow> replica_id" where
  "adm_replica i = ReplicaId i (ucast i)"

definition adm_lease :: lease_timing where
  "adm_lease = \<lparr>lt_consumer_use = 1, lt_issuer_reservation = 2, lt_restart_quarantine = 4, lt_vip_activation_delay = 2,
     lt_rpc_budget = 0, lt_renewal_interval = 0, lt_renewal_round_budget = 1\<rparr>"

definition adm_env :: admission_env where
  "adm_env = \<lparr>env_sha = (\<lambda>_. 0), env_hmac = (\<lambda>_ _. 0), env_to_vec = (\<lambda>_. Some []), env_clock = (\<lambda>_ t. t),
     env_members = {1, 2}, env_timing = adm_lease\<rparr>"

definition adm_member :: "u64 \<Rightarrow> config" where
  "adm_member i = sample_config\<lparr>cfg_node_id := i,
     cfg_peers := [sample_peer 1 ''10.0.0.1'', sample_peer 2 ''10.0.0.2'']\<rparr>"

definition adm_print :: config_fingerprint where
  "adm_print = \<lparr>fp_version = 1, fp_digest = 5\<rparr>"

definition adm_genesis :: genesis where
  "adm_genesis = \<lparr>g_config = adm_print, g_epoch = 7, g_voters = {adm_replica 1, adm_replica 2}\<rparr>"

definition adm_request :: "u64 \<Rightarrow> admission_request" where
  "adm_request i = \<lparr>ar_consumer = adm_replica i, ar_genesis = adm_genesis, ar_request_nonce = 9, ar_mode = Cold\<rparr>"

definition adm_signed :: "replica_id \<Rightarrow> replica_id \<Rightarrow> u64 \<Rightarrow> signed_admission" where
  "adm_signed from to i = \<lparr>sa_sender = from, sa_recipient = to, sa_binding = 0, sa_payload = adm_request i, sa_tag = 0\<rparr>"

definition adm_round :: "u64 \<Rightarrow> bool \<Rightarrow> admission_round" where
  "adm_round i done = \<lparr>rd_request = adm_request i, rd_started = 4, rd_deadline = 5, rd_completed = done, rd_prepared_join = None\<rparr>"

definition adm_controller :: "u64 \<Rightarrow> bool \<Rightarrow> admission_controller" where
  "adm_controller i reserved =
     \<lparr>ctl_secret = cluster_secret sample_config, ctl_configured = {1, 2}, ctl_config_identity = adm_print,
      ctl_local = adm_replica i, ctl_timing = adm_lease, ctl_quarantine_until = 4,
      ctl_reservation = (if reserved then Some \<lparr>rs_genesis = adm_genesis, rs_until = 6\<rparr> else None)\<rparr>"

definition adm_context :: "u64 \<Rightarrow> admission_context" where
  "adm_context i = \<lparr>ctx_local_replica = adm_replica i, ctx_genesis = adm_genesis\<rparr>"

definition adm_admitted :: "u64 \<Rightarrow> verified_admission" where
  "adm_admitted i = \<lparr>va_context = adm_context i, va_deadline = 5, va_mode = Cold, va_bootstrap = None\<rparr>"

definition adm_authority :: "u64 \<Rightarrow> perm_state \<Rightarrow> runtime_authority" where
  "adm_authority i st = \<lparr>ra_local = adm_replica i, ra_permission = st, ra_join_binding = None\<rparr>"

definition adm_live :: "u64 \<Rightarrow> perm_state" where
  "adm_live i = Active (authority_identity (\<lambda>_. 0) (adm_authority i Sealed) (adm_context i)) Voting 5"

definition adm_world ::
  "nat \<Rightarrow> (u64 \<rightharpoonup> bool) \<Rightarrow> (u64 \<Rightarrow> perm_state) \<Rightarrow> (u64 \<rightharpoonup> bool) \<Rightarrow> (signed_admission \<times> nat) set \<Rightarrow> u64 set \<Rightarrow> admission_world" where
  "adm_world t cs ps rs gs vs =
     \<lparr>aw_time = t, aw_controllers = (\<lambda>p. map_option (adm_controller p) (cs p)),
      aw_authorities = (\<lambda>r. if r = adm_replica (physical_id r) \<and> cs (physical_id r) \<noteq> None
                             then Some (adm_authority (physical_id r) (ps (physical_id r))) else None),
      aw_rounds = (\<lambda>r n. if r = adm_replica (physical_id r) \<and> n = 9
                          then map_option (\<lambda>d. (adm_round (physical_id r) d, 4)) (rs (physical_id r)) else None),
      aw_boots = (\<lambda>r. if r = adm_replica (physical_id r) \<and> cs (physical_id r) \<noteq> None then Some 0 else None),
      aw_grants = gs, aw_verified = (\<lambda>i. (adm_replica i, adm_admitted i)) ` vs\<rparr>"

lemma adm_replica_sel [simp]: "physical_id (adm_replica i) = i" "adm_replica i = adm_replica j \<longleftrightarrow> i = j"
  by (auto simp: adm_replica_def)

lemma adm_env_sel [simp]:
  "env_sha adm_env = (\<lambda>_. 0)" "env_hmac adm_env = (\<lambda>_ _. 0)" "env_to_vec adm_env = (\<lambda>_. Some [])"
  "env_clock adm_env = (\<lambda>_ t. t)" "env_members adm_env = {1, 2}" "env_timing adm_env = adm_lease"
  by (simp_all add: adm_env_def)

lemma adm_env_ok: "env_ok adm_env"
  by (simp add: env_ok_def timing_ok_def adm_lease_def duration_max_def)

lemma adm_boot:
  assumes "i = 1 \<or> i = 2" "cs i = None"
  shows "admission_step adm_env (adm_world 0 cs (\<lambda>_. Quarantined 4) rs gs vs)
    (adm_world 0 (cs(i \<mapsto> False)) (\<lambda>_. Quarantined 4) rs gs vs)"
proof -
  have ctl: "controller_new (adm_member i) (Some adm_print) (adm_replica i) 0 adm_lease = Inr (adm_controller i False)"
    using assms(1)
    by (auto simp: controller_new_def adm_member_def sample_peer_def adm_controller_def deadlines_Inr adm_lease_def
        instant_max_def)
  have ra: "authority_new (adm_replica i) adm_lease 0 = Inr (adm_authority i (Quarantined 4))"
    by (simp add: authority_new_def adm_authority_def adm_lease_def instant_max_def)
  let ?w = "adm_world 0 cs (\<lambda>_. Quarantined 4) rs gs vs"
  have eq: "?w\<lparr>aw_controllers := (aw_controllers ?w)(physical_id (adm_replica i) \<mapsto> adm_controller i False),
      aw_authorities := (aw_authorities ?w)(adm_replica i \<mapsto> adm_authority i (Quarantined 4)),
      aw_boots := (aw_boots ?w)(adm_replica i \<mapsto> aw_time ?w)\<rparr> =
      adm_world 0 (cs(i \<mapsto> False)) (\<lambda>_. Quarantined 4) rs gs vs"
    by (auto simp: adm_world_def fun_eq_iff)
  show ?thesis
    unfolding eq [symmetric]
    by (rule admission_step.boots [where cfg = "adm_member i" and fp = adm_print])
       (use assms(2) ctl ra in \<open>auto simp: adm_world_def adm_member_def sample_peer_def\<close>)
qed

lemma adm_begin_round: "begin_round 4 (Some 9) adm_genesis Cold (adm_controller i b) = Inr (adm_round i False)"
  by (simp add: begin_round_def validate_genesis_def validate_roster_def adm_controller_def adm_genesis_def adm_lease_def
      deadlines_Inr instant_max_def adm_round_def adm_request_def Let_def)

lemma adm_begin:
  assumes "i = 1 \<or> i = 2" "cs i = Some b" "rs i = None"
  shows "admission_step adm_env (adm_world 4 cs ps rs gs vs) (adm_world 4 cs ps (rs(i \<mapsto> False)) gs vs)"
proof -
  note rd = adm_begin_round [of i b]
  let ?w = "adm_world 4 cs ps rs gs vs"
  have eq: "set_round (ctl_local (adm_controller i b)) 9 (adm_round i False, aw_time ?w) ?w =
      adm_world 4 cs ps (rs(i \<mapsto> False)) gs vs"
    by (auto simp: adm_world_def set_round_def adm_controller_def fun_eq_iff)
  show ?thesis
    unfolding eq [symmetric]
    by (rule admission_step.begins [where p = i and g = adm_genesis and mode = Cold])
       (use assms rd in \<open>auto simp: adm_world_def adm_controller_def\<close>)
qed

lemma adm_grant:
  assumes "i = 1 \<or> i = 2" "j = 1 \<or> j = 2" "cs j = Some b" "rs i = Some d"
  shows "admission_step adm_env (adm_world 4 cs ps rs gs vs)
    (adm_world 4 (cs(j \<mapsto> True)) ps rs (insert (adm_signed (adm_replica j) (adm_replica i) i, 4) gs) vs)"
proof -
  have checks: "reserve_checks (\<lambda>_. 0) (\<lambda>_ _. 0) (\<lambda>_. Some []) fv 4 (adm_signed (adm_replica i) (adm_replica j) i) 0 None
      (adm_controller j b) = Inr 6" for fv
    using assms(1,2)
    by (auto simp: reserve_checks_def sa_verify_def verify_admission_record_def secret_key_def adm_signed_def
        adm_controller_def sample_config_def validate_genesis_def validate_roster_def adm_genesis_def adm_request_def
        evidence_def cold_evidence_def deadlines_Inr adm_lease_def instant_max_def Let_def)
  have sign: "sa_sign (\<lambda>_ _. 0) (\<lambda>_. Some []) (ctl_secret (adm_controller j b)) 11 (adm_replica j) (adm_replica i) 0 (adm_request i) =
      Inr (adm_signed (adm_replica j) (adm_replica i) i)"
    by (simp add: sa_sign_def sign_admission_record_def secret_key_def adm_controller_def sample_config_def adm_signed_def)
  have res: "reserve (\<lambda>_. 0) (\<lambda>_ _. 0) (\<lambda>_. Some []) fv 4 (adm_signed (adm_replica i) (adm_replica j) i) 0 None
      (adm_controller j b) = (adm_controller j True, Inr (adm_signed (adm_replica j) (adm_replica i) i))" for fv
    unfolding reserve_def checks using sign
    by (simp add: adm_signed_def adm_request_def adm_controller_def extend_reservation_def)
  let ?w = "adm_world 4 cs ps rs gs vs"
  have eq: "?w\<lparr>aw_controllers := (aw_controllers ?w)(j \<mapsto> adm_controller j True),
      aw_grants := insert (adm_signed (adm_replica j) (adm_replica i) i, aw_time ?w) (aw_grants ?w)\<rparr> =
      adm_world 4 (cs(j \<mapsto> True)) ps rs (insert (adm_signed (adm_replica j) (adm_replica i) i, 4) gs) vs"
    using assms(3) by (auto simp: adm_world_def fun_eq_iff)
  show ?thesis
    unfolding eq [symmetric]
    by (rule admission_step.grants [where ctl = "adm_controller j b" and received = "adm_signed (adm_replica i) (adm_replica j) i"
          and binding = 0 and state = None and fv = "\<lparr>fv_check = (\<lambda>_. Inl (AdmissionDenied [])), fv_now = 0\<rparr>"])
       (use assms(3,4) res in \<open>auto simp: adm_world_def requested_def adm_signed_def adm_request_def adm_round_def\<close>)
qed

definition adm_grant_of :: "u64 \<Rightarrow> u64 \<Rightarrow> received_grant" where
  "adm_grant_of i j = \<lparr>rg_record = adm_signed (adm_replica j) (adm_replica i) i, rg_issuer = adm_replica j, rg_binding = 0\<rparr>"

lemma adm_verify:
  "sa_verify (\<lambda>_ _. 0) (\<lambda>_. Some []) (cluster_secret sample_config) 11 (adm_replica j) (adm_replica i) 0
      (adm_signed (adm_replica j) (adm_replica i) i) = Inr ()"
  by (simp add: sa_verify_def verify_admission_record_def secret_key_def sample_config_def adm_signed_def)

lemma adm_completed:
  "complete (\<lambda>_ _. 0) (\<lambda>_. Some []) 4 [adm_grant_of i 1, adm_grant_of i 2] (adm_controller i b) (adm_round i False) =
   (adm_round i True, Inr (adm_admitted i))"
proof -
  have "collect_grants (\<lambda>_ _. 0) (\<lambda>_. Some []) (adm_controller i b) (adm_request i) [adm_grant_of i 1, adm_grant_of i 2] {} {} =
      Inr ({1, 2}, {adm_replica 1, adm_replica 2})"
    using adm_verify by (auto simp: adm_grant_of_def adm_controller_def adm_signed_def)
  then show ?thesis
    by (simp add: complete_def adm_round_def Let_def adm_admitted_def adm_context_def)
       (simp add: adm_request_def adm_controller_def adm_genesis_def)
qed

lemma adm_complete:
  assumes "i = 1 \<or> i = 2" "cs i = Some b" "rs i = Some False"
    "(adm_signed (adm_replica 1) (adm_replica i) i, 4) \<in> gs" "(adm_signed (adm_replica 2) (adm_replica i) i, 4) \<in> gs"
  shows "admission_step adm_env (adm_world 4 cs ps rs gs vs) (adm_world 4 cs ps (rs(i \<mapsto> True)) gs (insert i vs))"
proof -
  note c = adm_completed [of i b]
  let ?w = "adm_world 4 cs ps rs gs vs"
  have eq: "(set_round (ctl_local (adm_controller i b)) 9 (adm_round i True, 4) ?w)
      \<lparr>aw_verified := insert (ctl_local (adm_controller i b), adm_admitted i) (aw_verified ?w)\<rparr> =
      adm_world 4 cs ps (rs(i \<mapsto> True)) gs (insert i vs)"
    by (auto simp: adm_world_def set_round_def adm_controller_def fun_eq_iff)
  show ?thesis
    unfolding eq [symmetric]
    by (rule admission_step.completes [where p = i and gs = "[adm_grant_of i 1, adm_grant_of i 2]" and rd = "adm_round i False"])
       (use assms c in \<open>auto simp: adm_world_def adm_grant_of_def adm_controller_def\<close>)
qed

lemma adm_accepted:
  "accept (\<lambda>_. 0) 4 4 4 (adm_admitted i) (adm_authority i (Quarantined 4)) = (adm_authority i (adm_live i), Inr (adm_context i))"
  by (simp add: accept_def adm_admitted_def adm_context_def adm_authority_def authority_transition_def perm_admit_def
      authority_session_def authority_check_def authority_current_def perm_current_def session_check_def
      adm_live_def authority_identity_def Let_def)

lemma adm_accept:
  assumes "cs i = Some b" "ps i = Quarantined 4" "i \<in> vs"
  shows "admission_step adm_env (adm_world 4 cs ps rs gs vs) (adm_world 4 cs (ps(i := adm_live i)) rs gs vs)"
proof -
  note a = adm_accepted [of i]
  let ?w = "adm_world 4 cs ps rs gs vs"
  have eq: "?w\<lparr>aw_authorities := (aw_authorities ?w)(adm_replica i \<mapsto> adm_authority i (adm_live i))\<rparr> =
      adm_world 4 cs (ps(i := adm_live i)) rs gs vs"
    using assms(1) by (auto simp: adm_world_def fun_eq_iff)
  show ?thesis
    unfolding eq [symmetric]
    by (rule admission_step.accepts [where va = "adm_admitted i" and now = 4 and checked = 4 and later = 4])
       (use assms a in \<open>auto simp: adm_world_def\<close>)
qed

definition adm_grants :: "(signed_admission \<times> nat) set" where
  "adm_grants = {(adm_signed (adm_replica 2) (adm_replica 2) 2, 4), (adm_signed (adm_replica 1) (adm_replica 2) 2, 4),
     (adm_signed (adm_replica 2) (adm_replica 1) 1, 4), (adm_signed (adm_replica 1) (adm_replica 1) 1, 4)}"

definition adm_formed_world :: admission_world where
  "adm_formed_world =
     adm_world 4 [1 \<mapsto> True, 2 \<mapsto> True] ((\<lambda>_. Quarantined 4)(1 := adm_live 1, 2 := adm_live 2)) [1 \<mapsto> True, 2 \<mapsto> True]
       adm_grants {1, 2}"

lemma adm_formed_reachable: "(admission_step adm_env)\<^sup>*\<^sup>* world_start adm_formed_world"
proof -
  let ?q = "\<lambda>_. Quarantined 4" and ?s = "\<lambda>j i. (adm_signed (adm_replica j) (adm_replica i) i, 4)"
  let ?R = "(admission_step adm_env)\<^sup>*\<^sup>* world_start"
  note go = rtranclp.rtrancl_into_rtrancl
  have "world_start = adm_world 0 (\<lambda>_. None) ?q (\<lambda>_. None) {} {}"
    by (simp add: adm_world_def world_start_def fun_eq_iff)
  then have "?R (adm_world 0 (\<lambda>_. None) ?q (\<lambda>_. None) {} {})" by simp
  from go [OF this adm_boot [of 1]] have "?R (adm_world 0 [1 \<mapsto> False] ?q (\<lambda>_. None) {} {})" by simp
  from go [OF this adm_boot [of 2]] have "?R (adm_world 0 [1 \<mapsto> False, 2 \<mapsto> False] ?q (\<lambda>_. None) {} {})" by simp
  from go [OF this admission_step.time_passes [of _ 4]]
  have "?R (adm_world 4 [1 \<mapsto> False, 2 \<mapsto> False] ?q (\<lambda>_. None) {} {})" by (simp add: adm_world_def)
  from go [OF this adm_begin [of 1 _ False]] have "?R (adm_world 4 [1 \<mapsto> False, 2 \<mapsto> False] ?q [1 \<mapsto> False] {} {})" by simp
  from go [OF this adm_begin [of 2 _ False]]
  have "?R (adm_world 4 [1 \<mapsto> False, 2 \<mapsto> False] ?q [1 \<mapsto> False, 2 \<mapsto> False] {} {})" by simp
  from go [OF this adm_grant [of 1 1, where b = False and d = False]]
  have "?R (adm_world 4 [1 \<mapsto> True, 2 \<mapsto> False] ?q [1 \<mapsto> False, 2 \<mapsto> False] {?s 1 1} {})" by (simp add: fun_upd_twist)
  from go [OF this adm_grant [of 1 2, where b = False and d = False]]
  have "?R (adm_world 4 [1 \<mapsto> True, 2 \<mapsto> True] ?q [1 \<mapsto> False, 2 \<mapsto> False] {?s 2 1, ?s 1 1} {})" by simp
  from go [OF this adm_grant [of 2 1, where b = True and d = False]]
  have "?R (adm_world 4 [1 \<mapsto> True, 2 \<mapsto> True] ?q [1 \<mapsto> False, 2 \<mapsto> False] {?s 1 2, ?s 2 1, ?s 1 1} {})"
    by (simp add: fun_upd_twist)
  from go [OF this adm_grant [of 2 2, where b = True and d = False]]
  have "?R (adm_world 4 [1 \<mapsto> True, 2 \<mapsto> True] ?q [1 \<mapsto> False, 2 \<mapsto> False] adm_grants {})" by (simp add: adm_grants_def)
  from go [OF this adm_complete [of 1, where b = True]]
  have "?R (adm_world 4 [1 \<mapsto> True, 2 \<mapsto> True] ?q [1 \<mapsto> True, 2 \<mapsto> False] adm_grants {1})"
    by (simp add: adm_grants_def fun_upd_twist)
  from go [OF this adm_complete [of 2, where b = True]]
  have "?R (adm_world 4 [1 \<mapsto> True, 2 \<mapsto> True] ?q [1 \<mapsto> True, 2 \<mapsto> True] adm_grants {1, 2})"
    by (simp add: adm_grants_def insert_commute)
  from go [OF this adm_accept [where i = 1 and b = True]]
  have "?R (adm_world 4 [1 \<mapsto> True, 2 \<mapsto> True] (?q(1 := adm_live 1)) [1 \<mapsto> True, 2 \<mapsto> True] adm_grants {1, 2})" by simp
  from go [OF this adm_accept [where i = 2 and b = True]] show ?thesis by (simp add: adm_formed_world_def)
qed

theorem one_live_genesis_witness:
  "\<exists>w ra1 ra2 c1 c2. (admission_step adm_env)\<^sup>*\<^sup>* world_start w \<and>
     aw_authorities w (adm_replica 1) = Some ra1 \<and> aw_authorities w (adm_replica 2) = Some ra2 \<and>
     snd (authority_current (aw_time w) ra1) = Some (c1, 5) \<and> snd (authority_current (aw_time w) ra2) = Some (c2, 5) \<and>
     ac_genesis_digest c1 = ac_genesis_digest c2 \<and> ac_cluster_epoch c1 = ac_cluster_epoch c2"
proof -
  let ?ra = "\<lambda>i. adm_authority i (adm_live i)"
  let ?c = "\<lambda>i. authority_identity (\<lambda>_. 0) (adm_authority i Sealed) (adm_context i)"
  have a: "aw_authorities adm_formed_world (adm_replica 1) = Some (?ra 1)"
    "aw_authorities adm_formed_world (adm_replica 2) = Some (?ra 2)" "aw_time adm_formed_world = 4"
    by (auto simp: adm_formed_world_def adm_world_def)
  have c: "snd (authority_current 4 (?ra i)) = Some (?c i, 5)" for i
    by (simp add: authority_current_def adm_authority_def perm_current_def adm_live_def case_prod_beta)
  have "ac_cluster_epoch (?c 1) = ac_cluster_epoch (?c 2) \<and> ac_genesis_digest (?c 1) = ac_genesis_digest (?c 2)"
    by (rule one_live_genesis [OF adm_env_ok adm_formed_reachable a(1,2)]) (simp_all add: a(3) c)
  then show ?thesis using adm_formed_reachable a c by metis
qed


end
