(* ===== verification/Config_Validation.thy ===== *)
theory Config_Validation
  imports Kaf_Config
begin

text \<open>
  Validation and normalization of a loaded configuration (\<open>src/config/validation.rs\<close>,
  \<open>src/config/vip_validation.rs\<close>, \<open>src/config/secret.rs\<close>). The file system and the YAML reader are
  arguments. UTF-8 is decoded where the source looks at characters.
\<close>

subsection \<open>Characters\<close>

definition continuation :: "nat \<Rightarrow> bool" where
  "continuation b = (128 \<le> b \<and> b < 192)"

text \<open>\<open>str::from_utf8\<close>: the scalar values of well-formed UTF-8, without overlong forms and surrogates.\<close>

fun utf8_decode :: "nat list \<Rightarrow> nat list option" where
  "utf8_decode [] = Some []"
| "utf8_decode (a # bs) =
     (if a < 128 then map_option (\<lambda>cs. a # cs) (utf8_decode bs)
      else case bs of
        [] \<Rightarrow> None
      | b # bs1 \<Rightarrow>
          if \<not> continuation b then None
          else if 194 \<le> a \<and> a < 224
          then map_option (\<lambda>cs. ((a - 192) * 64 + (b - 128)) # cs) (utf8_decode bs1)
          else case bs1 of
            [] \<Rightarrow> None
          | c # bs2 \<Rightarrow>
              if \<not> continuation c then None
              else if 224 \<le> a \<and> a < 240
              then let v = ((a - 224) * 64 + (b - 128)) * 64 + (c - 128) in
                   if v < 2048 \<or> 55296 \<le> v \<and> v < 57344 then None
                   else map_option (\<lambda>cs. v # cs) (utf8_decode bs2)
              else case bs2 of
                [] \<Rightarrow> None
              | d # bs3 \<Rightarrow>
                  if \<not> continuation d \<or> a < 240 \<or> 245 \<le> a then None
                  else let v = (((a - 240) * 64 + (b - 128)) * 64 + (c - 128)) * 64 + (d - 128) in
                       if v < 65536 \<or> 1114112 \<le> v then None
                       else map_option (\<lambda>cs. v # cs) (utf8_decode bs3))"

text \<open>The characters of a string; a string is always well formed.\<close>

definition chars :: "string \<Rightarrow> nat list" where
  "chars s = (case utf8_decode (map of_char s) of None \<Rightarrow> [] | Some cs \<Rightarrow> cs)"

definition is_whitespace :: "nat \<Rightarrow> bool" where
  "is_whitespace c =
     (9 \<le> c \<and> c \<le> 13 \<or> c = 32 \<or> c = 133 \<or> c = 160 \<or> c = 5760 \<or> 8192 \<le> c \<and> c \<le> 8202 \<or>
      c = 8232 \<or> c = 8233 \<or> c = 8239 \<or> c = 8287 \<or> c = 12288)"

definition is_control :: "nat \<Rightarrow> bool" where
  "is_control c = (c \<le> 31 \<or> 127 \<le> c \<and> c \<le> 159)"

subsection \<open>The shared secret\<close>

definition MIN_SECRET_BYTES :: nat where
  "MIN_SECRET_BYTES = 32"

definition MAX_SECRET_BYTES :: nat where
  "MAX_SECRET_BYTES = 256"

definition ensured :: "bool \<Rightarrow> string \<Rightarrow> unit anyhow_result" where
  "ensured b m = (if b then Inr () else bail m)"

definition strip_line_end :: "u8 list \<Rightarrow> u8 list" where
  "strip_line_end bs =
     (if bs \<noteq> [] \<and> last bs = 10
      then let rest = butlast bs in if rest \<noteq> [] \<and> last rest = 13 then butlast rest else rest
      else bs)"

text \<open>\<open>opened\<close> is the opened file: whether it is regular, and its content.\<close>

definition read_secret :: "(bool \<times> u8 list) anyhow_result \<Rightarrow> string anyhow_result" where
  "read_secret opened =
     rbind opened (\<lambda>(is_file, content).
     rbind (ensured is_file ''cluster_secret_file must be a regular file'') (\<lambda>_.
     let bytes = take (MAX_SECRET_BYTES + 3) content in
     rbind (ensured (length bytes \<le> MAX_SECRET_BYTES + 2) ''cluster_secret_file is too large'') (\<lambda>_.
     let text = strip_line_end bytes in
     case utf8_decode (map unat text) of
       None \<Rightarrow> bail ''cluster_secret_file must contain UTF-8 text''
     | Some _ \<Rightarrow> Inr (map (\<lambda>b. char_of (unat b)) text))))"

text \<open>\<open>open_secret\<close> opens a path relative to the configuration's directory.\<close>

definition resolve_secret ::
  "(string \<Rightarrow> (bool \<times> u8 list) anyhow_result) \<Rightarrow> unit anyhow_result \<Rightarrow> config \<Rightarrow> config anyhow_result" where
  "resolve_secret open_secret inspected c =
     rbind (ensured (cluster_secret c = None \<or> cluster_secret_file c = None)
              ''configure exactly one of cluster_secret and cluster_secret_file'') (\<lambda>_.
     case cluster_secret_file c of
       Some path \<Rightarrow>
         rbind (ensured (path \<noteq> []) ''cluster_secret_file must not be empty'') (\<lambda>_.
         rbind (with_context (CauseMessage ''read cluster_secret_file'') (read_secret (open_secret path))) (\<lambda>s.
         Inr (c\<lparr>cluster_secret := Some s, cluster_secret_file := None\<rparr>)))
     | None \<Rightarrow>
         if cluster_secret c = None then Inr c
         else rbind (with_context (CauseMessage ''inspect config permissions'') inspected) (\<lambda>_. Inr c))"

definition validate_secret :: "config \<Rightarrow> unit anyhow_result" where
  "validate_secret c =
     rbind (ensured (cluster_secret_file c = None) ''cluster_secret_file must be resolved at load time'') (\<lambda>_.
     case cluster_secret c of
       None \<Rightarrow> bail ''cluster_secret is required (inline or file)''
     | Some secret \<Rightarrow>
         rbind (ensured (secret \<noteq> INSECURE_CLUSTER_SECRET_PLACEHOLDER \<and> secret \<noteq> ''lab-shared-secret-please-change'')
                  ''replace cluster_secret placeholder with a unique random secret'') (\<lambda>_.
         rbind (ensured (MIN_SECRET_BYTES \<le> length secret \<and> length secret \<le> MAX_SECRET_BYTES)
                  ''cluster_secret must contain 32 to 256 UTF-8 bytes'') (\<lambda>_.
         ensured (\<not> (\<exists>ch \<in> set (chars secret). is_whitespace ch \<or> is_control ch))
           ''cluster_secret must not contain whitespace or control characters'')))"

subsection \<open>VIPs\<close>

fun is_unspecified :: "ip_addr \<Rightarrow> bool" where
  "is_unspecified (V4 a) = (a = 0)"
| "is_unspecified (V6 a) = (a = 0)"

fun is_multicast :: "ip_addr \<Rightarrow> bool" where
  "is_multicast (V4 a) = (drop_bit 28 a = 14)"
| "is_multicast (V6 a) = (drop_bit 120 a = 255)"

fun is_loopback :: "ip_addr \<Rightarrow> bool" where
  "is_loopback (V4 a) = (drop_bit 24 a = 127)"
| "is_loopback (V6 a) = (a = 1)"

definition interface_name_ok :: "string \<Rightarrow> bool" where
  "interface_name_ok name =
     (name \<noteq> [] \<and> length name \<le> 15 \<and> name \<noteq> ''.'' \<and> name \<noteq> ''..'' \<and>
      \<not> (\<exists>ch \<in> set (chars name). is_whitespace ch \<or> is_control ch \<or> ch = of_char (CHR ''/'') \<or> ch = of_char (CHR '':'')))"

definition validate_interface :: "string \<Rightarrow> unit anyhow_result" where
  "validate_interface name =
     ensured (interface_name_ok name)
       ''interface must be a Linux name of 1 to 15 bytes without whitespace, controls, '/', ':' or dot-only names''"

text \<open>An IPv4-mapped VIP becomes its IPv4 form.\<close>

definition unmap_vip :: "vip_addr \<Rightarrow> vip_addr anyhow_result" where
  "unmap_vip v =
     (case vip_ip v of
        V6 a \<Rightarrow>
          (case to_ipv4_mapped a of
             Some ipv4 \<Rightarrow>
               if 97 \<le> vip_prefix v \<and> vip_prefix v \<le> 128
               then Inr \<lparr>vip_ip = V4 ipv4, vip_prefix = vip_prefix v - 96\<rparr>
               else bail ''mapped IPv4 prefix must be /97 to /128''
           | None \<Rightarrow> Inr v)
      | V4 _ \<Rightarrow> Inr v)"

text \<open>The host part of an IPv4 address under its prefix is neither all zeros nor all ones.\<close>

definition host_address_ok :: "u32 \<Rightarrow> u8 \<Rightarrow> bool" where
  "host_address_ok a prefix =
     (prefix < 31 \<longrightarrow>
        (let host_mask = drop_bit (unat prefix) (- 1 :: u32); host = and a host_mask
         in host \<noteq> 0 \<and> host \<noteq> host_mask))"

definition check_vip_addr :: "vip_addr \<Rightarrow> unit anyhow_result" where
  "check_vip_addr v =
     (let address = vip_ip v in
      rbind (ensured (\<not> is_unspecified address \<and> \<not> is_multicast address \<and> \<not> is_loopback address)
               ''VIP must be a non-loopback unicast host address'') (\<lambda>_.
      rbind (ensured (1 \<le> vip_prefix v \<and> vip_prefix v \<le> host_prefix address)
               ''VIP prefix must be between 1 and the family's maximum'') (\<lambda>_.
      case address of
        V6 _ \<Rightarrow> Inr ()
      | V4 a \<Rightarrow>
          rbind (ensured (a \<noteq> - 1) ''broadcast is not a VIP host address'') (\<lambda>_.
          ensured (host_address_ok a (vip_prefix v))
            ''VIP must not be the subnet network or broadcast address''))))"

definition check_vlan :: "vip_config \<Rightarrow> unit anyhow_result" where
  "check_vlan v =
     (case vc_vlan v of
        None \<Rightarrow> Inr ()
      | Some vlan \<Rightarrow>
          rbind (ensured (1 \<le> vlan \<and> vlan \<le> 4094) ''vlan is out of range: IEEE 802.1Q allows 1-4094'') (\<lambda>_.
          ensured (CHR ''.'' \<notin> set (vc_interface v)) ''interface must not contain a dot when vlan is set''))"

definition check_vip :: "vip_config \<Rightarrow> vip_config anyhow_result" where
  "check_vip v =
     rbind (unmap_vip (vc_address v)) (\<lambda>addr.
     rbind (check_vip_addr addr) (\<lambda>_.
     rbind (validate_interface (vc_interface v)) (\<lambda>_.
     rbind (check_vlan v) (\<lambda>_.
     rbind (validate_interface (effective_interface v)) (\<lambda>_.
     Inr (v\<lparr>vc_address := addr\<rparr>))))))"

text \<open>The loop keeps the binding of every address and compares a repeated address with it.\<close>

fun check_vips :: "vip_config list \<Rightarrow> (ip_addr \<rightharpoonup> u8 \<times> string) \<Rightarrow> vip_config list anyhow_result" where
  "check_vips [] bindings = Inr []"
| "check_vips (v # vs) bindings =
     rbind (check_vip v) (\<lambda>v'.
     let address = vip_ip (vc_address v'); binding = (vip_prefix (vc_address v'), effective_interface v') in
     rbind (ensured (case bindings address of None \<Rightarrow> True | Some previous \<Rightarrow> previous = binding)
              ''conflicting VIP: prefix and effective interface must agree'') (\<lambda>_.
     rbind (check_vips vs (bindings(address \<mapsto> binding))) (\<lambda>rest. Inr (v' # rest))))"

fun dedup_by_key :: "('a \<Rightarrow> 'k) \<Rightarrow> 'a list \<Rightarrow> 'a list" where
  "dedup_by_key f (x # y # ys) = (if f x = f y then dedup_by_key f (x # ys) else x # dedup_by_key f (y # ys))"
| "dedup_by_key f xs = xs"

abbreviation vip_key :: "vip_config \<Rightarrow> ip_addr" where
  "vip_key v \<equiv> vip_ip (vc_address v)"

definition normalize_vips :: "config \<Rightarrow> config anyhow_result" where
  "normalize_vips c =
     rbind (check_vips (cfg_vips c) Map.empty) (\<lambda>vs.
     Inr (c\<lparr>cfg_vips := dedup_by_key vip_key (sort_key vip_key vs)\<rparr>))"

subsection \<open>Peers\<close>

record roster =
  ro_owners :: "socket_addr \<rightharpoonup> u64 \<times> string"
  ro_raft_ipv4 :: "bool option"
  ro_submit_ipv4 :: "bool option"

definition claim_endpoint :: "u64 \<Rightarrow> string \<Rightarrow> socket_addr \<Rightarrow> roster \<Rightarrow> roster anyhow_result" where
  "claim_endpoint i kind address ro =
     (case ro_owners ro address of
        Some _ \<Rightarrow> bail ''peer endpoint is used twice''
      | None \<Rightarrow> Inr (ro\<lparr>ro_owners := (ro_owners ro)(address \<mapsto> (i, kind))\<rparr>))"

definition one_family :: "bool option \<Rightarrow> bool \<Rightarrow> bool" where
  "one_family expected actual = (expected = None \<or> expected = Some actual)"

text \<open>The checks on the two parsed addresses of a peer.\<close>

definition admit_peer :: "u64 \<Rightarrow> socket_addr \<Rightarrow> socket_addr \<Rightarrow> roster \<Rightarrow> roster anyhow_result" where
  "admit_peer i raft submit ro =
     (let raft4 = is_ipv4 (socket_ip raft); submit4 = is_ipv4 (socket_ip submit) in
      rbind (ensured (one_family (ro_raft_ipv4 ro) raft4) ''raft_address roster must use one IP family'') (\<lambda>_.
      rbind (ensured (one_family (ro_submit_ipv4 ro) submit4) ''client_submit_address roster must use one IP family'') (\<lambda>_.
      rbind (ensured (\<not> is_unspecified (socket_ip raft)) ''raft_address must not use an unspecified IP'') (\<lambda>_.
      rbind (ensured (\<not> is_unspecified (socket_ip submit)) ''client_submit_address must not use an unspecified IP'') (\<lambda>_.
      rbind (ensured (raft \<noteq> submit) ''raft_address and client_submit_address must differ'') (\<lambda>_.
      rbind (claim_endpoint i ''raft_address'' raft ro) (\<lambda>ro1.
      rbind (claim_endpoint i ''client_submit_address'' submit ro1) (\<lambda>ro2.
      Inr (ro2\<lparr>ro_raft_ipv4 := Some raft4, ro_submit_ipv4 := Some submit4\<rparr>)))))))))"

definition check_peer :: "peer_config \<Rightarrow> roster \<Rightarrow> (peer_config \<times> roster) anyhow_result" where
  "check_peer p ro =
     rbind (parse_socket_addr (raft_address p)) (\<lambda>raft.
     rbind (parse_socket_addr (client_submit_address p)) (\<lambda>submit.
     rbind (admit_peer (peer_id p) raft submit ro) (\<lambda>ro'.
     Inr (p\<lparr>raft_address := socket_display raft, client_submit_address := socket_display submit\<rparr>, ro'))))"

fun check_peers :: "peer_config list \<Rightarrow> roster \<Rightarrow> peer_config list anyhow_result" where
  "check_peers [] ro = Inr []"
| "check_peers (p # ps) ro =
     rbind (check_peer p ro) (\<lambda>(p', ro'). rbind (check_peers ps ro') (\<lambda>rest. Inr (p' # rest)))"

definition empty_roster :: roster where
  "empty_roster = \<lparr>ro_owners = Map.empty, ro_raft_ipv4 = None, ro_submit_ipv4 = None\<rparr>"

subsection \<open>The whole configuration\<close>

definition check_timing :: "config \<Rightarrow> unit anyhow_result" where
  "check_timing c =
     (let h = cfg_health c; r = cfg_raft c in
      rbind (ensured (hc_command h \<noteq> []) ''health.command must be non-empty'') (\<lambda>_.
      rbind (ensured (0 < interval_ms h) ''health.interval_ms must be > 0'') (\<lambda>_.
      rbind (ensured (0 < timeout_ms h) ''health.timeout_ms must be > 0'') (\<lambda>_.
      rbind (ensured (timeout_ms h \<le> sat_mul (interval_ms h) 10) ''health.timeout_ms suspiciously large vs interval_ms'') (\<lambda>_.
      rbind (ensured (0 < election_timeout_min_ms r) ''raft.election_timeout_min_ms must be > 0'') (\<lambda>_.
      rbind (ensured (0 < election_timeout_max_ms r) ''raft.election_timeout_max_ms must be > 0'') (\<lambda>_.
      rbind (ensured (0 < heartbeat_interval_ms r) ''raft.heartbeat_interval_ms must be > 0'') (\<lambda>_.
      rbind (ensured (heartbeat_interval_ms r < election_timeout_min_ms r)
               ''raft.heartbeat_interval_ms must be < raft.election_timeout_min_ms'') (\<lambda>_.
      rbind (ensured (election_timeout_min_ms r < election_timeout_max_ms r)
               ''raft.election_timeout_min_ms must be < raft.election_timeout_max_ms'') (\<lambda>_.
      let interval_secs = max (of_nat (div_ceil (unat (interval_ms h)) 1000)) 1;
          stale_ms = sat_mul (interval_ms h) (effective_stale_missed_probes h) in
      rbind (ensured (interval_secs \<le> effective_stale_secs h) ''health.stale_secs must be >= ceil(interval_ms/1000)'') (\<lambda>_.
      ensured (timeout_ms h < stale_ms) ''health.timeout_ms must be less than the effective stale window'')))))))))))"

definition check_limits :: "config \<Rightarrow> unit anyhow_result" where
  "check_limits c =
     rbind (ensured (64 * 1024 \<le> max_frame_bytes c) ''max_frame_bytes must be >= 64 KiB to fit Raft heartbeats'') (\<lambda>_.
     rbind (ensured (max_frame_bytes c \<le> MAX_RAFT_FRAME_BYTES) ''max_frame_bytes must be <= 16 MiB'') (\<lambda>_.
     rbind (ensured (0 < submit_timeout_ms c) ''submit_timeout_ms must be > 0'') (\<lambda>_.
     ensured (0 < address_protocol c) ''address_protocol must be between 1 and 255'')))"

definition check_listeners :: "config \<Rightarrow> socket_addr \<Rightarrow> socket_addr \<Rightarrow> unit anyhow_result" where
  "check_listeners c raft_l submit_l =
     (case get_peer c (cfg_node_id c) of
        None \<Rightarrow> bail ''node_id must appear in peers after validation''
      | Some p \<Rightarrow>
          rbind (parse_socket_addr (raft_address p)) (\<lambda>raft.
          rbind (parse_socket_addr (client_submit_address p)) (\<lambda>submit.
          rbind (ensured (raft_l = raft) ''raft_listen must match the peer's raft_address'') (\<lambda>_.
          ensured (submit_l = submit) ''client_submit_listen must match the peer's client_submit_address''))))"

definition normalize :: "config \<Rightarrow> config anyhow_result" where
  "normalize c =
     rbind (ensured (cfg_peers c \<noteq> []) ''peers must be non-empty'') (\<lambda>_.
     rbind (ensured (cfg_vips c \<noteq> []) ''vips must be non-empty'') (\<lambda>_.
     rbind (validate_secret c) (\<lambda>_.
     rbind (check_timing c) (\<lambda>_.
     rbind (ensured (card (set (map peer_id (cfg_peers c))) = length (cfg_peers c)) ''duplicate peer id'') (\<lambda>_.
     rbind (ensured (\<exists>p \<in> set (cfg_peers c). peer_id p = cfg_node_id c) ''node_id must appear in peers'') (\<lambda>_.
     rbind (parse_socket_addr (raft_listen c)) (\<lambda>raft_l.
     rbind (parse_socket_addr (client_submit_listen c)) (\<lambda>submit_l.
     rbind (check_peers (cfg_peers c) empty_roster) (\<lambda>peers.
     let c1 = c\<lparr>raft_listen := socket_display raft_l, client_submit_listen := socket_display submit_l, cfg_peers := peers\<rparr> in
     rbind (check_listeners c1 raft_l submit_l) (\<lambda>_.
     rbind (check_limits c1) (\<lambda>_.
     normalize_vips c1)))))))))))"

text \<open>\<open>raw\<close> is the file that was read and \<open>from_yaml\<close> the YAML reader.\<close>

definition load_path ::
  "(string \<Rightarrow> config anyhow_result) \<Rightarrow> (string \<Rightarrow> (bool \<times> u8 list) anyhow_result) \<Rightarrow> unit anyhow_result \<Rightarrow>
   string io \<Rightarrow> config anyhow_result" where
  "load_path from_yaml open_secret inspected raw =
     rbind (with_context (CauseMessage ''read configuration'') (from_io raw)) (\<lambda>text.
     rbind (with_context (CauseMessage ''parse yaml'') (from_yaml text)) (\<lambda>c.
     rbind (resolve_secret open_secret inspected c) normalize))"

subsection \<open>What normalization establishes\<close>

lemma ensured_Inr [simp]: "ensured b m = Inr u \<longleftrightarrow> b"
  by (simp add: ensured_def bail_def)

lemma ensured_True [simp]: "ensured True m = Inr ()"
  by (simp add: ensured_def)

lemma parse_socket_flow:
  assumes "parse_socket_addr s = Inr a"
  shows "case a of SocketV4 _ _ \<Rightarrow> True | SocketV6 _ _ flow _ \<Rightarrow> flow = 0"
proof -
  obtain b where b: "socket_parse s = Some b" "a = canonical_socket_addr b"
    using assms by (auto simp: parse_socket_addr_def bail_def split: option.splits)
  have "case b of SocketV4 _ _ \<Rightarrow> True | SocketV6 _ _ flow _ \<Rightarrow> flow = 0"
    using b(1)
    by (auto simp: socket_parse_def read_socket_addr_v4_def read_socket_addr_v6_def bind_eq_Some_conv Let_def
        split: option.splits if_splits prod.splits)
  then show ?thesis by (cases b) (auto simp: b(2) split: option.split)
qed

lemma parse_socket_again: "parse_socket_addr s = Inr a \<Longrightarrow> parse_socket_addr (socket_display a) = Inr a"
  by (intro parse_socket_display parse_socket_flow parse_socket_canonical)

definition peer_endpoints :: "peer_config \<Rightarrow> socket_addr list" where
  "peer_endpoints p =
     (case (parse_socket_addr (raft_address p), parse_socket_addr (client_submit_address p)) of
        (Inr a, Inr b) \<Rightarrow> [a, b] | _ \<Rightarrow> [])"

text \<open>An admitted peer claims its two endpoints, which nobody had claimed.\<close>

definition endpoint_ok :: "socket_addr \<Rightarrow> roster \<Rightarrow> bool option \<Rightarrow> bool" where
  "endpoint_ok a ro family =
     (a \<notin> dom (ro_owners ro) \<and> \<not> is_unspecified (socket_ip a) \<and> one_family family (is_ipv4 (socket_ip a)))"

lemma claim_endpoint_Inr:
  "claim_endpoint i k a ro = Inr ro' \<longleftrightarrow> a \<notin> dom (ro_owners ro) \<and> ro' = ro\<lparr>ro_owners := (ro_owners ro)(a \<mapsto> (i, k))\<rparr>"
  by (auto simp: claim_endpoint_def bail_def split: option.splits)

lemma admit_peer_Inr:
  assumes "admit_peer i a b ro = Inr ro'"
  shows "a \<noteq> b \<and> endpoint_ok a ro (ro_raft_ipv4 ro) \<and> endpoint_ok b ro (ro_submit_ipv4 ro) \<and>
    dom (ro_owners ro') = insert a (insert b (dom (ro_owners ro))) \<and>
    ro_raft_ipv4 ro' = Some (is_ipv4 (socket_ip a)) \<and> ro_submit_ipv4 ro' = Some (is_ipv4 (socket_ip b))"
  using assms by (auto simp: admit_peer_def Let_def claim_endpoint_Inr endpoint_ok_def)

lemma check_peer_Inr:
  assumes "check_peer p ro = Inr (p', ro')"
  obtains a b where "peer_endpoints p' = [a, b]" "admit_peer (peer_id p) a b ro = Inr ro'"
    "check_peer p' ro = Inr (p', ro')" "peer_id p' = peer_id p"
proof -
  obtain a b where ab: "parse_socket_addr (raft_address p) = Inr a" "parse_socket_addr (client_submit_address p) = Inr b"
    and adm: "admit_peer (peer_id p) a b ro = Inr ro'"
    and p': "p' = p\<lparr>raft_address := socket_display a, client_submit_address := socket_display b\<rparr>"
    using assms by (auto simp: check_peer_def)
  have again: "parse_socket_addr (raft_address p') = Inr a" "parse_socket_addr (client_submit_address p') = Inr b"
    "peer_id p' = peer_id p"
    using ab by (simp_all add: p' parse_socket_again)
  show ?thesis
  proof (rule that)
    show "peer_endpoints p' = [a, b]" by (simp add: peer_endpoints_def again)
    show "check_peer p' ro = Inr (p', ro')" by (simp add: check_peer_def again adm) (simp add: p')
  qed (fact adm again)+
qed

definition roster_ok :: "roster \<Rightarrow> peer_config list \<Rightarrow> bool" where
  "roster_ok ro ps =
     (distinct (concat (map peer_endpoints ps)) \<and> set (concat (map peer_endpoints ps)) \<inter> dom (ro_owners ro) = {} \<and>
      (\<forall>p \<in> set ps. \<exists>a b. peer_endpoints p = [a, b] \<and> \<not> is_unspecified (socket_ip a) \<and> \<not> is_unspecified (socket_ip b) \<and>
         one_family (ro_raft_ipv4 ro) (is_ipv4 (socket_ip a)) \<and> one_family (ro_submit_ipv4 ro) (is_ipv4 (socket_ip b))))"

lemma roster_ok_Cons:
  assumes "roster_ok ro' ps" "peer_endpoints p = [a, b]" "admit_peer i a b ro = Inr ro'"
  shows "roster_ok ro (p # ps)"
proof -
  note adm = admit_peer_Inr [OF assms(3)]
  have fam: "one_family (ro_raft_ipv4 ro') f \<Longrightarrow> one_family (ro_raft_ipv4 ro) f"
    "one_family (ro_submit_ipv4 ro') f \<Longrightarrow> one_family (ro_submit_ipv4 ro) f" for f
    using adm by (auto simp: endpoint_ok_def one_family_def)
  have "a \<notin> set (concat (map peer_endpoints ps))" "b \<notin> set (concat (map peer_endpoints ps))"
    "set (concat (map peer_endpoints ps)) \<inter> dom (ro_owners ro) = {}"
    using assms(1) adm unfolding roster_ok_def by blast+
  then show ?thesis
    using assms(1,2) adm fam unfolding roster_ok_def endpoint_ok_def by (simp del: set_concat) blast
qed

lemma check_peers_Inr:
  assumes "check_peers ps ro = Inr ps'"
  shows "check_peers ps' ro = Inr ps' \<and> map peer_id ps' = map peer_id ps \<and> roster_ok ro ps'"
  using assms
proof (induction ps arbitrary: ro ps')
  case (Cons p ps)
  then obtain p1 ro1 rest where p1: "check_peer p ro = Inr (p1, ro1)" "check_peers ps ro1 = Inr rest" "ps' = p1 # rest"
    by auto
  show ?case
  proof (rule check_peer_Inr [OF p1(1)])
    fix a b
    assume "peer_endpoints p1 = [a, b]" "admit_peer (peer_id p) a b ro = Inr ro1"
      "check_peer p1 ro = Inr (p1, ro1)" "peer_id p1 = peer_id p"
    then show ?thesis using Cons.IH [OF p1(2)] roster_ok_Cons [of ro1 rest p1 a b "peer_id p" ro] by (simp add: p1(3))
  qed
qed (simp add: roster_ok_def)

subsection \<open>VIPs in normal form\<close>

lemma unmap_again: "unmap_vip v = Inr v' \<Longrightarrow> unmap_vip v' = Inr v'"
  by (auto simp: unmap_vip_def bail_def split: ip_addr.splits option.splits if_splits)

lemma vip_address_frame [simp]:
  "effective_interface (v\<lparr>vc_address := a\<rparr>) = effective_interface v" "check_vlan (v\<lparr>vc_address := a\<rparr>) = check_vlan v"
  by (simp_all add: effective_interface_def check_vlan_def cong: option.case_cong)

lemma check_vip_again: "check_vip v = Inr v' \<Longrightarrow> check_vip v' = Inr v'"
  by (auto simp: check_vip_def dest: unmap_again)

lemma check_vips_Inr: "check_vips vs m = Inr ws \<Longrightarrow> \<forall>w \<in> set ws. check_vip w = Inr w"
  by (induction vs m arbitrary: ws rule: check_vips.induct) (auto simp: Let_def dest: check_vip_again)

lemma check_vips_distinct:
  "\<forall>w \<in> set ws. check_vip w = Inr w \<Longrightarrow> distinct (map vip_key ws) \<Longrightarrow> vip_key ` set ws \<inter> dom m = {} \<Longrightarrow>
   check_vips ws m = Inr ws"
proof (induction ws arbitrary: m)
  case (Cons w ws)
  have "m (vip_key w) = None" using Cons.prems(3) by auto
  then show ?case using Cons by (auto simp: Let_def)
qed simp

lemma dedup_set: "set (dedup_by_key f xs) \<subseteq> set xs" "f ` set (dedup_by_key f xs) = f ` set xs"
  by (induction f xs rule: dedup_by_key.induct) auto

lemma dedup_strict: "sorted (map f xs) \<Longrightarrow> sorted_wrt (<) (map f (dedup_by_key f xs))" for f :: "'a \<Rightarrow> 'k::linorder"
proof (induction f xs rule: dedup_by_key.induct)
  case (1 f x y ys)
  show ?case
  proof (cases "f x = f y")
    case False
    have "f ` set (dedup_by_key f (y # ys)) = f ` set (y # ys)" by (rule dedup_set)
    then have "\<forall>z \<in> set (dedup_by_key f (y # ys)). f x < f z"
      using 1(3) False by (force simp: image_iff dest!: equalityD1)
    then show ?thesis using 1 False by auto
  qed (use 1 in auto)
qed simp_all

lemma dedup_distinct: "distinct (map f xs) \<Longrightarrow> dedup_by_key f xs = xs"
  by (induction f xs rule: dedup_by_key.induct) auto

lemma normalize_vips_Inr:
  assumes "normalize_vips c = Inr c'"
  shows "sorted_wrt (<) (map vip_key (cfg_vips c')) \<and> (\<forall>v \<in> set (cfg_vips c'). check_vip v = Inr v) \<and>
    normalize_vips c' = Inr c' \<and> c' = c\<lparr>cfg_vips := cfg_vips c'\<rparr>"
proof -
  obtain vs where vs: "check_vips (cfg_vips c) Map.empty = Inr vs"
    and c': "c' = c\<lparr>cfg_vips := dedup_by_key vip_key (sort_key vip_key vs)\<rparr>"
    using assms by (auto simp: normalize_vips_def)
  let ?ws = "dedup_by_key vip_key (sort_key vip_key vs)"
  have ok: "\<forall>w \<in> set ?ws. check_vip w = Inr w"
    using check_vips_Inr [OF vs] dedup_set(1) [of vip_key "sort_key vip_key vs"] by auto
  have strict: "sorted_wrt (<) (map vip_key ?ws)" by (rule dedup_strict) simp
  then have "distinct (map vip_key ?ws)" "sorted (map vip_key ?ws)"
    by (simp_all add: strict_sorted_iff)
  then have "check_vips ?ws Map.empty = Inr ?ws" "sort_key vip_key ?ws = ?ws" "dedup_by_key vip_key ?ws = ?ws"
    using check_vips_distinct [OF ok] by (simp_all add: sort_key_id_if_sorted dedup_distinct)
  then show ?thesis using ok strict by (simp add: c' normalize_vips_def)
qed

subsection \<open>Normal configurations\<close>

definition vip_wellformed :: "vip_config \<Rightarrow> bool" where
  "vip_wellformed v =
     (let a = vip_key v in
      \<not> is_unspecified a \<and> \<not> is_multicast a \<and> \<not> is_loopback a \<and>
      1 \<le> vip_prefix (vc_address v) \<and> vip_prefix (vc_address v) \<le> host_prefix a \<and>
      (case a of V4 w \<Rightarrow> w \<noteq> - 1 \<and> host_address_ok w (vip_prefix (vc_address v)) | V6 w \<Rightarrow> to_ipv4_mapped w = None) \<and>
      interface_name_ok (vc_interface v) \<and> interface_name_ok (effective_interface v) \<and>
      (case vc_vlan v of None \<Rightarrow> True | Some vlan \<Rightarrow> 1 \<le> vlan \<and> vlan \<le> 4094 \<and> CHR ''.'' \<notin> set (vc_interface v)))"

lemma check_vip_fixed:
  assumes "check_vip v = Inr v"
  shows "unmap_vip (vc_address v) = Inr (vc_address v)" "check_vip_addr (vc_address v) = Inr ()"
    "interface_name_ok (vc_interface v) \<and> interface_name_ok (effective_interface v) \<and> check_vlan v = Inr ()"
proof -
  obtain addr where a: "unmap_vip (vc_address v) = Inr addr" "check_vip_addr addr = Inr ()"
    "validate_interface (vc_interface v) = Inr ()" "check_vlan v = Inr ()"
    "validate_interface (effective_interface v) = Inr ()" "v\<lparr>vc_address := addr\<rparr> = v"
    using assms by (auto simp: check_vip_def)
  have "addr = vc_address v" using arg_cong [OF a(6), of vc_address] by simp
  then show "unmap_vip (vc_address v) = Inr (vc_address v)" "check_vip_addr (vc_address v) = Inr ()"
    "interface_name_ok (vc_interface v) \<and> interface_name_ok (effective_interface v) \<and> check_vlan v = Inr ()"
    using a by (simp_all add: validate_interface_def)
qed

lemma unmap_fixed: "unmap_vip a = Inr a \<Longrightarrow> (case vip_ip a of V4 w \<Rightarrow> True | V6 w \<Rightarrow> to_ipv4_mapped w = None)"
  by (cases a) (auto simp: unmap_vip_def bail_def split: ip_addr.splits option.splits if_splits)

lemma check_vip_wellformed: "check_vip v = Inr v \<Longrightarrow> vip_wellformed v"
  using check_vip_fixed [of v] unmap_fixed [of "vc_address v"]
  by (cases "vip_key v") (simp_all add: check_vip_addr_def vip_wellformed_def check_vlan_def Let_def split: option.splits)

definition timing_wellformed :: "config \<Rightarrow> bool" where
  "timing_wellformed c =
     (let h = cfg_health c; r = cfg_raft c in
      hc_command h \<noteq> [] \<and> 0 < interval_ms h \<and> 0 < timeout_ms h \<and>
      timeout_ms h \<le> sat_mul (interval_ms h) 10 \<and>
      timeout_ms h < sat_mul (interval_ms h) (effective_stale_missed_probes h) \<and>
      max (of_nat (div_ceil (unat (interval_ms h)) 1000)) 1 \<le> effective_stale_secs h \<and>
      0 < heartbeat_interval_ms r \<and> heartbeat_interval_ms r < election_timeout_min_ms r \<and>
      election_timeout_min_ms r < election_timeout_max_ms r)"

lemma check_timing_wellformed: "check_timing c = Inr u \<Longrightarrow> timing_wellformed c"
  by (auto simp: check_timing_def timing_wellformed_def Let_def)

lemma check_peers_family:
  assumes "check_peers ps empty_roster = Inr ps'"
  shows "\<exists>r4 s4. \<forall>p \<in> set ps'. \<exists>a b. peer_endpoints p = [a, b] \<and> is_ipv4 (socket_ip a) = r4 \<and> is_ipv4 (socket_ip b) = s4"
proof (cases ps)
  case (Cons p qs)
  then obtain p1 ro1 rest where p1: "check_peer p empty_roster = Inr (p1, ro1)" "check_peers qs ro1 = Inr rest" "ps' = p1 # rest"
    using assms by auto
  obtain a b where ab: "peer_endpoints p1 = [a, b]" "admit_peer (peer_id p) a b empty_roster = Inr ro1"
    by (rule check_peer_Inr [OF p1(1)])
  have "roster_ok ro1 rest" using check_peers_Inr [OF p1(2)] by simp
  then have rest: "\<exists>a' b'. peer_endpoints q = [a', b'] \<and> is_ipv4 (socket_ip a') = is_ipv4 (socket_ip a) \<and>
      is_ipv4 (socket_ip b') = is_ipv4 (socket_ip b)" if "q \<in> set rest" for q
    using that admit_peer_Inr [OF ab(2)] unfolding roster_ok_def one_family_def by (metis option.distinct(1) option.inject)
  then have "\<forall>q \<in> set ps'. \<exists>a' b'. peer_endpoints q = [a', b'] \<and> is_ipv4 (socket_ip a') = is_ipv4 (socket_ip a) \<and>
      is_ipv4 (socket_ip b') = is_ipv4 (socket_ip b)"
    using ab(1) unfolding p1(3) by simp
  then show ?thesis by blast
qed (use assms in simp)

lemma listener_frame:
  "check_timing (c\<lparr>raft_listen := x, client_submit_listen := y, cfg_peers := ps\<rparr>) = check_timing c"
  "check_limits (c\<lparr>raft_listen := x, client_submit_listen := y, cfg_peers := ps\<rparr>) = check_limits c"
  "validate_secret (c\<lparr>raft_listen := x, client_submit_listen := y, cfg_peers := ps\<rparr>) = validate_secret c"
  by (simp_all add: check_timing_def check_limits_def validate_secret_def)

lemma vips_frame:
  "check_timing (c\<lparr>cfg_vips := vs\<rparr>) = check_timing c" "check_limits (c\<lparr>cfg_vips := vs\<rparr>) = check_limits c"
  "validate_secret (c\<lparr>cfg_vips := vs\<rparr>) = validate_secret c"
  "check_listeners (c\<lparr>cfg_vips := vs\<rparr>) a b = check_listeners c a b"
  by (simp_all add: check_timing_def check_limits_def validate_secret_def check_listeners_def get_peer_def)

text \<open>The steps of a successful normalization.\<close>

lemma normalize_Inr:
  assumes "normalize c = Inr c'"
  obtains raft_l submit_l peers c1 where
    "cfg_peers c \<noteq> []" "cfg_vips c \<noteq> []" "validate_secret c = Inr ()" "check_timing c = Inr ()"
    "card (set (map peer_id (cfg_peers c))) = length (cfg_peers c)" "\<exists>p \<in> set (cfg_peers c). peer_id p = cfg_node_id c"
    "parse_socket_addr (raft_listen c) = Inr raft_l" "parse_socket_addr (client_submit_listen c) = Inr submit_l"
    "check_peers (cfg_peers c) empty_roster = Inr peers"
    "c1 = c\<lparr>raft_listen := socket_display raft_l, client_submit_listen := socket_display submit_l, cfg_peers := peers\<rparr>"
    "check_listeners c1 raft_l submit_l = Inr ()" "check_limits c = Inr ()" "normalize_vips c1 = Inr c'"
proof -
  have "\<exists>raft_l submit_l peers.
    cfg_peers c \<noteq> [] \<and> cfg_vips c \<noteq> [] \<and> validate_secret c = Inr () \<and> check_timing c = Inr () \<and>
    card (set (map peer_id (cfg_peers c))) = length (cfg_peers c) \<and> (\<exists>p \<in> set (cfg_peers c). peer_id p = cfg_node_id c) \<and>
    parse_socket_addr (raft_listen c) = Inr raft_l \<and> parse_socket_addr (client_submit_listen c) = Inr submit_l \<and>
    check_peers (cfg_peers c) empty_roster = Inr peers \<and> check_limits c = Inr () \<and>
    (let c1 = c\<lparr>raft_listen := socket_display raft_l, client_submit_listen := socket_display submit_l, cfg_peers := peers\<rparr>
     in check_listeners c1 raft_l submit_l = Inr () \<and> normalize_vips c1 = Inr c')"
    using assms unfolding normalize_def Let_def rbind_Inr_iff ensured_Inr listener_frame by simp metis
  then show ?thesis unfolding Let_def by (elim exE conjE) (rule that; (assumption | rule refl))
qed

lemma normalized_vips_nonempty:
  assumes "normalize_vips c = Inr c'" "cfg_vips c \<noteq> []"
  shows "cfg_vips c' \<noteq> []"
proof -
  obtain vs where vs: "check_vips (cfg_vips c) Map.empty = Inr vs"
    and c': "cfg_vips c' = dedup_by_key vip_key (sort_key vip_key vs)"
    using assms(1) by (auto simp: normalize_vips_def)
  have "vs \<noteq> []" using vs assms(2) by (cases "cfg_vips c") (auto simp: Let_def)
  then show ?thesis
    using dedup_set(2) [of vip_key "sort_key vip_key vs"] unfolding c' by (metis image_is_empty set_empty set_sort)
qed

text \<open>This node listens on the two addresses the roster announces for it.\<close>

definition listeners_match :: "config \<Rightarrow> bool" where
  "listeners_match c =
     (\<exists>p \<in> set (cfg_peers c). peer_id p = cfg_node_id c \<and>
        raft_listen c = raft_address p \<and> client_submit_listen c = client_submit_address p)"

lemma check_peers_display:
  assumes "check_peers ps ro = Inr ps'" "p \<in> set ps'" "parse_socket_addr (raft_address p) = Inr a"
    "parse_socket_addr (client_submit_address p) = Inr b"
  shows "raft_address p = socket_display a \<and> client_submit_address p = socket_display b"
  using assms
proof (induction ps arbitrary: ro ps')
  case (Cons q qs)
  then obtain q' ro1 rest where q: "check_peer q ro = Inr (q', ro1)" "check_peers qs ro1 = Inr rest" "ps' = q' # rest"
    by auto
  show ?case
  proof (cases "p = q'")
    case True
    then show ?thesis using q(1) Cons.prems(3,4) by (auto simp: check_peer_def dest: parse_socket_again)
  next
    case False
    then show ?thesis using Cons.IH [OF q(2)] Cons.prems(2-4) by (simp add: q(3))
  qed
qed simp

lemma check_listeners_match:
  assumes "check_peers ps ro = Inr peers"
    "c1 = c\<lparr>raft_listen := socket_display raft_l, client_submit_listen := socket_display submit_l, cfg_peers := peers\<rparr>"
    "check_listeners c1 raft_l submit_l = Inr ()"
  shows "listeners_match c1"
proof -
  obtain p where p: "get_peer c1 (cfg_node_id c1) = Some p" "parse_socket_addr (raft_address p) = Inr raft_l"
    "parse_socket_addr (client_submit_address p) = Inr submit_l"
    using assms(3) by (auto simp: check_listeners_def bail_def split: option.splits)
  have "p \<in> set peers" "peer_id p = cfg_node_id c1"
    using p(1) by (auto simp: get_peer_def find_Some_iff assms(2))
  then show ?thesis
    using check_peers_display [OF assms(1) _ p(2,3)] by (auto simp: listeners_match_def assms(2))
qed

text \<open>The secret is inline, is neither published example, and is 32 to 256 bytes of printable text.\<close>

definition secret_wellformed :: "config \<Rightarrow> bool" where
  "secret_wellformed c =
     (cluster_secret_file c = None \<and>
      (case cluster_secret c of
         None \<Rightarrow> False
       | Some s \<Rightarrow>
           s \<notin> {INSECURE_CLUSTER_SECRET_PLACEHOLDER, ''lab-shared-secret-please-change''} \<and>
           MIN_SECRET_BYTES \<le> length s \<and> length s \<le> MAX_SECRET_BYTES \<and>
           list_all (\<lambda>ch. \<not> is_whitespace ch \<and> \<not> is_control ch) (chars s)))"

lemma validate_secret_wellformed: "validate_secret c = Inr u \<Longrightarrow> secret_wellformed c"
  by (auto simp: validate_secret_def secret_wellformed_def list_all_iff bail_def split: option.splits)

definition config_ok :: "config \<Rightarrow> bool" where
  "config_ok c =
     (distinct (map peer_id (cfg_peers c)) \<and> cfg_node_id c \<in> peer_id ` set (cfg_peers c) \<and>
      roster_ok empty_roster (cfg_peers c) \<and>
      (\<exists>r4 s4. \<forall>p \<in> set (cfg_peers c). \<exists>a b. peer_endpoints p = [a, b] \<and>
         is_ipv4 (socket_ip a) = r4 \<and> is_ipv4 (socket_ip b) = s4) \<and>
      cfg_vips c \<noteq> [] \<and> sorted_wrt (<) (map vip_key (cfg_vips c)) \<and> list_all vip_wellformed (cfg_vips c) \<and>
      listeners_match c \<and> timing_wellformed c \<and> validate_secret c = Inr () \<and> secret_wellformed c \<and>
      64 * 1024 \<le> max_frame_bytes c \<and> max_frame_bytes c \<le> MAX_RAFT_FRAME_BYTES \<and>
      0 < submit_timeout_ms c \<and> 0 < address_protocol c)"

subsection \<open>A configuration that is accepted\<close>

definition sample_normal :: config where
  "sample_normal = sample_config\<lparr>cfg_vips := rev (cfg_vips sample_config)\<rparr>"

lemma sample_display:
  "v4_display 0x0A000001 = ''10.0.0.1''" "v4_display 0x0A000002 = ''10.0.0.2''" "v4_display 0x0A000003 = ''10.0.0.3''"
  "dec_fmt 7001 = ''7001''" "dec_fmt 7002 = ''7002''"
proof -
  have four: "(4 :: nat) = Suc (Suc (Suc (Suc 0)))" by simp
  show "v4_display 0x0A000001 = ''10.0.0.1''" "v4_display 0x0A000002 = ''10.0.0.2''" "v4_display 0x0A000003 = ''10.0.0.3''"
    unfolding v4_display_def four by (simp_all add: radix_fmt_def radix_digits.simps hex_char_def)
  show "dec_fmt 7001 = ''7001''" "dec_fmt 7002 = ''7002''"
    by (simp_all add: radix_fmt_def radix_digits.simps hex_char_def)
qed

lemma parse_v4_display: "parse_socket_addr (v4_display a @ '':'' @ dec_fmt (unat p)) = Inr (SocketV4 a p)"
  using parse_socket_display [of "SocketV4 a p"] by simp

lemma sample_parse:
  "parse_socket_addr ''10.0.0.1:7001'' = Inr (SocketV4 0x0A000001 7001)"
  "parse_socket_addr ''10.0.0.1:7002'' = Inr (SocketV4 0x0A000001 7002)"
  "parse_socket_addr ''10.0.0.2:7001'' = Inr (SocketV4 0x0A000002 7001)"
  "parse_socket_addr ''10.0.0.2:7002'' = Inr (SocketV4 0x0A000002 7002)"
  "parse_socket_addr ''10.0.0.3:7001'' = Inr (SocketV4 0x0A000003 7001)"
  "parse_socket_addr ''10.0.0.3:7002'' = Inr (SocketV4 0x0A000003 7002)"
  using parse_v4_display [of "0x0A000001" 7001] parse_v4_display [of "0x0A000001" 7002] parse_v4_display [of "0x0A000002" 7001]
    parse_v4_display [of "0x0A000002" 7002] parse_v4_display [of "0x0A000003" 7001] parse_v4_display [of "0x0A000003" 7002]
  by (simp_all add: sample_display)

lemma sample_peers: "check_peers (cfg_peers sample_config) empty_roster = Inr (cfg_peers sample_config)"
  by (simp add: sample_config_def sample_peer_def check_peer_def sample_parse sample_display admit_peer_def claim_endpoint_def
      empty_roster_def one_family_def Let_def del: rbind_Inr_iff)

lemma ascii_decode: "\<forall>c \<in> set s. of_char c < (128 :: nat) \<Longrightarrow> chars s = map of_char s"
proof -
  have "utf8_decode bs = Some bs" if "\<forall>b \<in> set bs. b < 128" for bs
    using that by (induction bs rule: utf8_decode.induct) (simp_all del: not_None_eq)
  then show "\<forall>c \<in> set s. of_char c < (128 :: nat) \<Longrightarrow> chars s = map of_char s" by (simp add: chars_def)
qed

lemma sample_secret: "validate_secret sample_config = Inr ()"
  by (simp add: sample_config_def validate_secret_def ascii_decode is_whitespace_def is_control_def
      INSECURE_CLUSTER_SECRET_PLACEHOLDER_def MIN_SECRET_BYTES_def MAX_SECRET_BYTES_def)

lemma sample_interfaces:
  "interface_name_ok ''eth0''" "interface_name_ok ''eth0.100''"
  by (simp_all add: interface_name_ok_def ascii_decode is_whitespace_def is_control_def)

lemma sample_vlan: "effective_interface \<lparr>vc_address = a, vc_interface = ''eth0'', vc_vlan = Some 100\<rparr> = ''eth0.100''"
  "effective_interface \<lparr>vc_address = a, vc_interface = ''eth0'', vc_vlan = None\<rparr> = ''eth0''"
  by (simp_all add: effective_interface_def radix_fmt_def radix_digits.simps hex_char_def)

lemma sample_vip_ok: "list_all (\<lambda>v. check_vip v = Inr v) (cfg_vips sample_config)"
  by (simp add: sample_config_def check_vip_def unmap_vip_def check_vip_addr_def validate_interface_def sample_interfaces
      sample_vlan check_vlan_def Let_def host_address_ok_def mask_eq_exp_minus_1 del: rbind_Inr_iff)

lemma sample_vips: "normalize_vips sample_config = Inr sample_normal"
  using sample_vip_ok
  by (simp add: normalize_vips_def sample_config_def sample_normal_def Let_def del: rbind_Inr_iff)

lemma sample_timing_ok: "check_timing sample_config = Inr ()"
  by (simp add: sample_config_def check_timing_def Let_def default_raft_tune_def effective_stale_secs_def
     effective_stale_missed_probes_def div_ceil_def sat_mul_def sat_add_def max_def del: rbind_Inr_iff)

lemma sample_limits: "check_limits sample_config = Inr ()"
  by (simp add: sample_config_def check_limits_def MAX_RAFT_FRAME_BYTES_def DEFAULT_MAX_FRAME_BYTES_def
     DEFAULT_SUBMIT_TIMEOUT_MS_def DEFAULT_VIP_ADDRESS_PROTOCOL_def)

lemma sample_listeners:
  "check_listeners sample_config (SocketV4 0x0A000001 7001) (SocketV4 0x0A000001 7002) = Inr ()"
  by (simp add: sample_config_def check_listeners_def get_peer_def sample_peer_def sample_parse)

lemma sample_normalizes: "normalize sample_config = Inr sample_normal"
proof -
  have "parse_socket_addr (raft_listen sample_config) = Inr (SocketV4 0x0A000001 7001)"
    "parse_socket_addr (client_submit_listen sample_config) = Inr (SocketV4 0x0A000001 7002)"
    "card (set (map peer_id (cfg_peers sample_config))) = length (cfg_peers sample_config)"
    "\<exists>p \<in> set (cfg_peers sample_config). peer_id p = cfg_node_id sample_config"
    "cfg_peers sample_config \<noteq> []" "cfg_vips sample_config \<noteq> []"
    "sample_config\<lparr>raft_listen := socket_display (SocketV4 0x0A000001 7001),
       client_submit_listen := socket_display (SocketV4 0x0A000001 7002), cfg_peers := cfg_peers sample_config\<rparr> =
     sample_config"
    by (simp_all add: sample_config_def sample_parse sample_display sample_peer_def)
  then show ?thesis
    unfolding normalize_def
    by (simp add: sample_peers sample_secret sample_timing_ok sample_limits sample_listeners sample_vips Let_def
        del: rbind_Inr_iff set_map)
qed

text \<open>C36. A configuration that normalization accepts is well formed: the roster has distinct node ids and
contains this node; all endpoints parse, are distinct and specified, and each kind uses one IP family; this
node listens on the addresses its own roster entry announces; the VIPs are strictly sorted by address, and each
is a unicast host address under a prefix of its own family on a valid interface name, with a VLAN of 1 to 4094 if
it has one; heartbeat, election and probe timings are ordered and the stale window covers a probe interval; the
secret is 32 to 256 bytes without whitespace and is no published example; and the frame bound is within its
limits.\<close>

theorem normalized_config_ok:
  assumes "normalize c = Inr c'"
  shows "config_ok c' \<and> map peer_id (cfg_peers c') = map peer_id (cfg_peers c)"
proof -
  obtain raft_l submit_l peers c1 where n:
    "validate_secret c = Inr ()" "check_timing c = Inr ()" "cfg_vips c \<noteq> []"
    "card (set (map peer_id (cfg_peers c))) = length (cfg_peers c)" "\<exists>p \<in> set (cfg_peers c). peer_id p = cfg_node_id c"
    "check_peers (cfg_peers c) empty_roster = Inr peers"
    "c1 = c\<lparr>raft_listen := socket_display raft_l, client_submit_listen := socket_display submit_l, cfg_peers := peers\<rparr>"
    "check_limits c = Inr ()" "normalize_vips c1 = Inr c'" "check_listeners c1 raft_l submit_l = Inr ()"
    by (rule normalize_Inr [OF assms])
  note ps = check_peers_Inr [OF n(6)] and fam = check_peers_family [OF n(6)] and vs = normalize_vips_Inr [OF n(9)]
  obtain ws where c': "c' = c1\<lparr>cfg_vips := ws\<rparr>" using vs by blast
  have ids: "map peer_id (cfg_peers c') = map peer_id (cfg_peers c)" and peers: "cfg_peers c' = peers"
    and node: "cfg_node_id c' = cfg_node_id c"
    using ps by (simp_all add: c' n(7))
  have "distinct (map peer_id (cfg_peers c'))" unfolding ids using n(4) by (intro card_distinct) simp
  moreover have "cfg_node_id c' \<in> set (map peer_id (cfg_peers c'))" unfolding ids node using n(5) by force
  then have "cfg_node_id c' \<in> peer_id ` set peers" unfolding set_map peers .
  moreover have "cfg_vips c' \<noteq> []" by (rule normalized_vips_nonempty [OF n(9)]) (simp add: n(7) n(3))
  moreover have "timing_wellformed c'" "validate_secret c' = Inr ()" "check_limits c' = Inr ()"
    using n(1,2,8) by (auto intro!: check_timing_wellformed simp: c' n(7) vips_frame listener_frame)
  moreover from this(2) have "secret_wellformed c'" by (rule validate_secret_wellformed)
  moreover have "listeners_match c'" using check_listeners_match [OF n(6,7,10)] by (simp add: listeners_match_def c')
  moreover have "list_all vip_wellformed (cfg_vips c')" using vs by (auto simp: list_all_iff intro: check_vip_wellformed)
  ultimately show ?thesis using ps fam vs ids by (simp add: config_ok_def peers check_limits_def)
qed

theorem normalized_config_ok_witness:
  "config_ok sample_normal \<and> map peer_id (cfg_peers sample_normal) = map peer_id (cfg_peers sample_config)"
  using normalized_config_ok [OF sample_normalizes] .

text \<open>Normalization is idempotent: a configuration it returned is accepted again and comes back unchanged,
so every spelling of one configuration has one normal form that re-reading keeps.\<close>

theorem normalize_idempotent:
  assumes "normalize c = Inr c'"
  shows "normalize c' = Inr c'"
proof -
  obtain raft_l submit_l peers c1 where n:
    "cfg_peers c \<noteq> []" "validate_secret c = Inr ()" "check_timing c = Inr ()" "cfg_vips c \<noteq> []"
    "card (set (map peer_id (cfg_peers c))) = length (cfg_peers c)" "\<exists>p \<in> set (cfg_peers c). peer_id p = cfg_node_id c"
    "parse_socket_addr (raft_listen c) = Inr raft_l" "parse_socket_addr (client_submit_listen c) = Inr submit_l"
    "check_peers (cfg_peers c) empty_roster = Inr peers"
    "c1 = c\<lparr>raft_listen := socket_display raft_l, client_submit_listen := socket_display submit_l, cfg_peers := peers\<rparr>"
    "check_listeners c1 raft_l submit_l = Inr ()" "check_limits c = Inr ()" "normalize_vips c1 = Inr c'"
    by (rule normalize_Inr [OF assms])
  note ps = check_peers_Inr [OF n(9)] and vs = normalize_vips_Inr [OF n(13)]
  obtain ws where c': "c' = c1\<lparr>cfg_vips := ws\<rparr>" using vs by blast
  have ids: "map peer_id (cfg_peers c') = map peer_id (cfg_peers c)" and peers: "cfg_peers c' = peers"
    and node: "cfg_node_id c' = cfg_node_id c"
    using ps by (simp_all add: c' n(10))
  have len: "length (cfg_peers c') = length (cfg_peers c)" using arg_cong [OF ids, of length] by simp
  have "cfg_peers c' \<noteq> []" using len n(1) by auto
  moreover have "cfg_node_id c' \<in> set (map peer_id (cfg_peers c'))" unfolding ids node using n(6) by force
  then have "\<exists>p \<in> set (cfg_peers c'). peer_id p = cfg_node_id c'" by auto
  moreover have "cfg_vips c' \<noteq> []" by (rule normalized_vips_nonempty [OF n(13)]) (simp add: n(10) n(4))
  moreover have "validate_secret c' = Inr ()" "check_timing c' = Inr ()" "check_limits c' = Inr ()"
    "check_listeners c' raft_l submit_l = Inr ()"
    using n(2,3,11,12) by (simp_all add: c' vips_frame) (simp_all add: n(10) listener_frame)
  moreover have "parse_socket_addr (raft_listen c') = Inr raft_l" "parse_socket_addr (client_submit_listen c') = Inr submit_l"
    using n(7,8) by (simp_all add: c' n(10) parse_socket_again)
  moreover have "c'\<lparr>raft_listen := socket_display raft_l, client_submit_listen := socket_display submit_l, cfg_peers := peers\<rparr> = c'"
    by (simp add: c' n(10))
  moreover have "check_peers (cfg_peers c') empty_roster = Inr peers" "normalize_vips c' = Inr c'"
    using ps vs by (simp_all add: peers)
  moreover have "card (set (map peer_id (cfg_peers c'))) = length (cfg_peers c')" unfolding ids len by (rule n(5))
  ultimately show ?thesis unfolding normalize_def Let_def by (simp del: set_map)
qed

theorem normalize_idempotent_witness: "normalize sample_normal = Inr sample_normal"
  using normalize_idempotent [OF sample_normalizes] .

end
