(* ===== verification/Config_Fingerprint.thy ===== *)
theory Config_Fingerprint
  imports Config_Validation Kaf_Interfaces
begin

text \<open>
  The identity of the cluster-wide configuration (\<open>src/config/fingerprint.rs\<close>): the canonical bytes of
  everything that can change what the cluster decides, and their digest. The hash function is an argument.
  The bytes are read back piece by piece: every encoder is interpreted as a \<open>prefix_code\<close>.
\<close>

subsection \<open>Canonical bytes\<close>

definition FINGERPRINT_VERSION :: u8 where
  "FINGERPRINT_VERSION = 1"

definition DOMAIN_SEPARATOR :: "u8 list" where
  "DOMAIN_SEPARATOR = ascii ''keepafloatd-cluster-config''"

definition canonical_bool :: "bool \<Rightarrow> u8 list" where
  "canonical_bool b = [if b then 1 else 0]"

definition canonical_field :: "u8 list \<Rightarrow> u8 list" where
  "canonical_field bs = be_bytes 8 (of_nat (length bs) :: u64) @ bs"

definition canonical_text :: "string \<Rightarrow> u8 list" where
  "canonical_text s = canonical_field (ascii s)"

fun canonical_ip :: "ip_addr \<Rightarrow> u8 list" where
  "canonical_ip (V4 a) = 4 # be_bytes 4 a"
| "canonical_ip (V6 a) = 6 # be_bytes 16 a"

fun canonical_socket :: "socket_addr \<Rightarrow> u8 list" where
  "canonical_socket (SocketV4 a port) = canonical_ip (V4 a) @ be_bytes 2 port"
| "canonical_socket (SocketV6 a port flow scope) =
     canonical_ip (V6 a) @ be_bytes 2 port @ be_bytes 4 flow @ be_bytes 4 scope"

definition canonical_new :: "u8 list" where
  "canonical_new = canonical_field DOMAIN_SEPARATOR @ [FINGERPRINT_VERSION]"

definition sorted_peers :: "peer_config list \<Rightarrow> peer_config list" where
  "sorted_peers ps = sort_key peer_id ps"

definition parse_peer_socket :: "string \<Rightarrow> string \<Rightarrow> socket_addr anyhow_result" where
  "parse_peer_socket context s =
     with_context (CauseMessage context)
       (case socket_parse s of
          None \<Rightarrow> bail ''invalid socket address syntax''
        | Some a \<Rightarrow> Inr (canonical_socket_addr a))"

fun peers_bytes :: "peer_config list \<Rightarrow> u8 list anyhow_result" where
  "peers_bytes [] = Inr []"
| "peers_bytes (p # ps) =
     rbind (parse_peer_socket ''invalid raft address for peer'' (raft_address p)) (\<lambda>raft.
     rbind (parse_peer_socket ''invalid submit address for peer'' (client_submit_address p)) (\<lambda>submit.
     rbind (peers_bytes ps) (\<lambda>rest.
     Inr (be_bytes 8 (peer_id p) @ canonical_socket raft @ canonical_socket submit @ rest))))"

definition vip_bytes :: "vip_addr \<times> string \<Rightarrow> u8 list" where
  "vip_bytes v = canonical_ip (vip_ip (fst v)) @ [vip_prefix (fst v)] @ canonical_text (snd v)"

definition tuning_bytes :: "config \<Rightarrow> u8 list" where
  "tuning_bytes c =
     be_bytes 8 (interval_ms (cfg_health c)) @ be_bytes 8 (effective_stale_missed_probes (cfg_health c)) @
     be_bytes 8 (election_timeout_min_ms (cfg_raft c)) @ be_bytes 8 (election_timeout_max_ms (cfg_raft c)) @
     be_bytes 8 (heartbeat_interval_ms (cfg_raft c)) @ be_bytes 4 (max_frame_bytes c) @
     be_bytes 8 (effective_failover_delay_ticks c) @ canonical_bool (cfg_failback c) @
     be_bytes 8 (if cfg_failback c then effective_failback_delay_ticks c else 0)"

definition canonical_config :: "config \<Rightarrow> u8 list anyhow_result" where
  "canonical_config c =
     (let peers = sorted_peers (cfg_peers c); vips = sorted_vips c in
      rbind (peers_bytes peers) (\<lambda>ps.
      Inr (canonical_new @ be_bytes 8 (of_nat (length peers) :: u64) @ ps @
           be_bytes 8 (of_nat (length vips) :: u64) @ concat (map vip_bytes vips) @ tuning_bytes c)))"

definition cluster_config_fingerprint :: "(u8 list \<Rightarrow> bytes32) \<Rightarrow> config \<Rightarrow> config_fingerprint anyhow_result" where
  "cluster_config_fingerprint sha c =
     rbind (canonical_config c) (\<lambda>bytes. Inr \<lparr>fp_version = FINGERPRINT_VERSION, fp_digest = sha bytes\<rparr>)"

definition fingerprint_display :: "config_fingerprint \<Rightarrow> string" where
  "fingerprint_display f =
     ''v'' @ dec_fmt (unat (fp_version f)) @ '':'' @
     concat (map (\<lambda>b. hex_fmt 2 (unat b)) (be_bytes 32 (fp_digest f)))"

subsection \<open>Reading the bytes back\<close>

text \<open>A byte code whose words can be cut off the front of what follows them.\<close>

locale prefix_code =
  fixes enc :: "'a \<Rightarrow> 'b list"
    and valid :: "'a \<Rightarrow> bool"
  assumes cut: "valid x \<Longrightarrow> valid y \<Longrightarrow> enc x @ r = enc y @ s \<Longrightarrow> x = y \<and> r = s"
begin

lemma cut_iff: "valid x \<Longrightarrow> valid y \<Longrightarrow> enc x @ r = enc y @ s \<longleftrightarrow> x = y \<and> r = s"
  using cut by blast

lemma concat_cut:
  assumes "length xs = length ys" "list_all valid xs" "list_all valid ys"
    and "concat (map enc xs) @ r = concat (map enc ys) @ s"
  shows "xs = ys \<and> r = s"
  using assms by (induction xs ys rule: list_induct2) (auto simp: cut_iff)

end

definition fits :: "'a list \<Rightarrow> bool" where
  "fits xs = (length xs < 2 ^ 64)"

lemma length_cut:
  assumes "fits xs" "fits ys"
  shows "(of_nat (length xs) :: u64) = of_nat (length ys) \<longleftrightarrow> length xs = length ys"
proof
  assume "(of_nat (length xs) :: u64) = of_nat (length ys)"
  then have "unat (of_nat (length xs) :: u64) = unat (of_nat (length ys) :: u64)" by simp
  then show "length xs = length ys" using assms by (simp add: unat_of_nat fits_def)
qed simp

interpretation ip_code: prefix_code canonical_ip "\<lambda>_. True"
proof
  fix x y r s
  assume "canonical_ip x @ r = canonical_ip y @ s"
  then show "x = y \<and> r = s" by (cases x; cases y) (auto simp: be_bytes_inject)
qed

interpretation socket_code: prefix_code canonical_socket "\<lambda>_. True"
proof
  fix x y r s
  assume "canonical_socket x @ r = canonical_socket y @ s"
  then show "x = y \<and> r = s" by (cases x; cases y) (auto simp: be_bytes_inject)
qed

interpretation field_code: prefix_code canonical_field fits
proof
  fix x y r s :: "u8 list"
  assume "fits x" "fits y" "canonical_field x @ r = canonical_field y @ s"
  then show "x = y \<and> r = s" by (auto simp: canonical_field_def be_bytes_inject length_cut)
qed

lemma ascii_inject: "ascii s = ascii t \<longleftrightarrow> s = t"
proof -
  have "inj (of_char :: char \<Rightarrow> u8)"
  proof (rule injI)
    fix c d
    assume "(of_char c :: u8) = of_char d"
    then have "unat (of_nat (of_char c) :: u8) = unat (of_nat (of_char d) :: u8)" by (simp add: of_nat_of_char)
    then have "(of_char c :: nat) = of_char d" using nat_of_char_less_256 by (simp add: unat_of_nat)
    then show "c = d" by simp
  qed
  then show ?thesis by (simp add: ascii_def inj_map_eq_map)
qed

interpretation vip_code: prefix_code vip_bytes "\<lambda>v. fits (snd v)"
proof
  fix x y :: "vip_addr \<times> string" and r s
  assume fit: "fits (snd x)" "fits (snd y)" and eq: "vip_bytes x @ r = vip_bytes y @ s"
  have "fits (ascii (snd x))" "fits (ascii (snd y))" using fit by (simp_all add: fits_def ascii_def)
  then show "x = y \<and> r = s"
    using eq by (cases x; cases y) (auto simp: vip_bytes_def ip_code.cut_iff canonical_text_def field_code.cut_iff ascii_inject)
qed

subsection \<open>What the bytes say\<close>

text \<open>The part of a configuration that the cluster acts on, with every default and derived count resolved.\<close>

type_synonym peer_view = "u64 \<times> socket_addr \<times> socket_addr"

record cluster_view =
  cv_peers :: "peer_view list"
  cv_vips :: vip_table
  cv_interval :: u64
  cv_stale_rounds :: u64
  cv_raft :: raft_tune_config
  cv_frame :: u32
  cv_failover_ticks :: u64
  cv_failback_ticks :: "u64 option"

fun peers_view :: "peer_config list \<Rightarrow> peer_view list anyhow_result" where
  "peers_view [] = Inr []"
| "peers_view (p # ps) =
     rbind (parse_peer_socket ''invalid raft address for peer'' (raft_address p)) (\<lambda>raft.
     rbind (parse_peer_socket ''invalid submit address for peer'' (client_submit_address p)) (\<lambda>submit.
     rbind (peers_view ps) (\<lambda>rest. Inr ((peer_id p, raft, submit) # rest))))"

definition cluster_view :: "config \<Rightarrow> cluster_view anyhow_result" where
  "cluster_view c =
     rbind (peers_view (sorted_peers (cfg_peers c))) (\<lambda>ps.
     Inr \<lparr>cv_peers = ps, cv_vips = sorted_vips c, cv_interval = interval_ms (cfg_health c),
          cv_stale_rounds = effective_stale_missed_probes (cfg_health c), cv_raft = cfg_raft c,
          cv_frame = max_frame_bytes c, cv_failover_ticks = effective_failover_delay_ticks c,
          cv_failback_ticks = (if cfg_failback c then Some (effective_failback_delay_ticks c) else None)\<rparr>)"

definition peer_bytes :: "peer_view \<Rightarrow> u8 list" where
  "peer_bytes p = be_bytes 8 (fst p) @ canonical_socket (fst (snd p)) @ canonical_socket (snd (snd p))"

interpretation peer_code: prefix_code peer_bytes "\<lambda>_. True"
proof
  fix x y :: peer_view and r s
  assume "peer_bytes x @ r = peer_bytes y @ s"
  then show "x = y \<and> r = s"
    by (cases x; cases y) (auto simp: peer_bytes_def be_bytes_inject socket_code.cut_iff)
qed

lemma peers_bytes_view: "peers_bytes ps = rbind (peers_view ps) (\<lambda>vs. Inr (concat (map peer_bytes vs)))"
proof (induction ps)
  case (Cons p ps)
  then show ?case
    by (cases "parse_peer_socket ''invalid raft address for peer'' (raft_address p)";
        cases "parse_peer_socket ''invalid submit address for peer'' (client_submit_address p)";
        cases "peers_view ps") (simp_all add: peer_bytes_def)
qed simp

lemma peers_view_length: "peers_view ps = Inr vs \<Longrightarrow> length vs = length ps"
  by (induction ps arbitrary: vs) auto

definition config_fits :: "config \<Rightarrow> bool" where
  "config_fits c = (fits (cfg_peers c) \<and> fits (cfg_vips c) \<and> list_all (\<lambda>v. fits (snd v)) (sorted_vips c))"

lemma tuning_bytes_inject:
  "tuning_bytes c = tuning_bytes d \<longleftrightarrow>
   interval_ms (cfg_health c) = interval_ms (cfg_health d) \<and>
   effective_stale_missed_probes (cfg_health c) = effective_stale_missed_probes (cfg_health d) \<and>
   cfg_raft c = cfg_raft d \<and> max_frame_bytes c = max_frame_bytes d \<and>
   effective_failover_delay_ticks c = effective_failover_delay_ticks d \<and>
   (if cfg_failback c then Some (effective_failback_delay_ticks c) else None) =
   (if cfg_failback d then Some (effective_failback_delay_ticks d) else None)"
  by (cases "cfg_raft c"; cases "cfg_raft d") (auto simp: tuning_bytes_def be_bytes_inject canonical_bool_def)

lemma canonical_config_inject:
  assumes "canonical_config c = Inr x" "canonical_config d = Inr y" "config_fits c" "config_fits d"
  shows "x = y \<longleftrightarrow> cluster_view c = cluster_view d"
proof -
  obtain ps qs where ps: "peers_view (sorted_peers (cfg_peers c)) = Inr ps" and qs: "peers_view (sorted_peers (cfg_peers d)) = Inr qs"
    and x0: "x = canonical_new @ be_bytes 8 (of_nat (length (sorted_peers (cfg_peers c))) :: u64) @ concat (map peer_bytes ps) @
      be_bytes 8 (of_nat (length (sorted_vips c)) :: u64) @ concat (map vip_bytes (sorted_vips c)) @ tuning_bytes c"
    and y0: "y = canonical_new @ be_bytes 8 (of_nat (length (sorted_peers (cfg_peers d))) :: u64) @ concat (map peer_bytes qs) @
      be_bytes 8 (of_nat (length (sorted_vips d)) :: u64) @ concat (map vip_bytes (sorted_vips d)) @ tuning_bytes d"
    using assms(1,2) by (auto simp: canonical_config_def Let_def peers_bytes_view)
  note x = x0 [folded peers_view_length [OF ps]] and y = y0 [folded peers_view_length [OF qs]]
  have fit: "fits ps" "fits qs" "fits (sorted_vips c)" "fits (sorted_vips d)"
    using assms(3,4) peers_view_length [OF ps] peers_view_length [OF qs]
    by (simp_all add: config_fits_def fits_def sorted_peers_def sorted_vips_def)
  have "ps = qs \<and> sorted_vips c = sorted_vips d \<and> tuning_bytes c = tuning_bytes d" if eq: "x = y"
  proof -
    have len: "length ps = length qs"
      and rest: "concat (map peer_bytes ps) @ be_bytes 8 (of_nat (length (sorted_vips c)) :: u64) @
          concat (map vip_bytes (sorted_vips c)) @ tuning_bytes c =
        concat (map peer_bytes qs) @ be_bytes 8 (of_nat (length (sorted_vips d)) :: u64) @
          concat (map vip_bytes (sorted_vips d)) @ tuning_bytes d"
      using eq length_cut [OF fit(1,2)] by (simp_all add: x y be_bytes_inject)
    have vips: "ps = qs" "length (sorted_vips c) = length (sorted_vips d)"
      "concat (map vip_bytes (sorted_vips c)) @ tuning_bytes c = concat (map vip_bytes (sorted_vips d)) @ tuning_bytes d"
      using peer_code.concat_cut [OF len _ _ rest] length_cut [OF fit(3,4)] by (simp_all add: be_bytes_inject list_all_iff)
    then show ?thesis using vip_code.concat_cut [OF vips(2) _ _ vips(3)] assms(3,4) by (simp add: config_fits_def)
  qed
  then show ?thesis by (auto simp: cluster_view_def ps qs x y tuning_bytes_inject)
qed

text \<open>C38. Two nodes compute the same configuration fingerprint exactly when they agree on everything the
  cluster acts on: the sorted roster with its canonical endpoints, the VIP table with effective interfaces,
  probe cadence and staleness rounds, Raft timing, frame limit, failover delay and, where failback is on,
  its delay; provided the hash does not collide on the two byte strings.\<close>

theorem fingerprint_identifies_config:
  assumes "cluster_config_fingerprint sha c = Inr f" "cluster_config_fingerprint sha d = Inr g"
    and "config_fits c" "config_fits d"
    and no_collision: "\<And>x y. canonical_config c = Inr x \<Longrightarrow> canonical_config d = Inr y \<Longrightarrow> sha x = sha y \<Longrightarrow> x = y"
  shows "f = g \<longleftrightarrow> cluster_view c = cluster_view d"
proof -
  obtain x y where xy: "canonical_config c = Inr x" "canonical_config d = Inr y" "f = \<lparr>fp_version = FINGERPRINT_VERSION, fp_digest = sha x\<rparr>"
      "g = \<lparr>fp_version = FINGERPRINT_VERSION, fp_digest = sha y\<rparr>"
    using assms(1,2) by (auto simp: cluster_config_fingerprint_def)
  have "f = g \<longleftrightarrow> x = y" using no_collision [OF xy(1,2)] by (auto simp: xy(3,4))
  then show ?thesis using canonical_config_inject [OF xy(1,2) assms(3,4)] by simp
qed

text \<open>The order of the peers and the node-local settings do not matter.\<close>

lemma sorted_peers_order:
  assumes "set ps = set qs" "distinct (map peer_id ps)" "distinct (map peer_id qs)"
  shows "sorted_peers ps = sorted_peers qs"
  unfolding sorted_peers_def
  by (rule map_sorted_distinct_set_unique [of peer_id]) (use assms in \<open>auto simp: distinct_map\<close>)

lemma fingerprint_node_local:
  assumes "set ps = set (cfg_peers c)" "distinct (map peer_id ps)" "distinct (map peer_id (cfg_peers c))"
  shows "cluster_config_fingerprint sha
      (c\<lparr>cfg_node_id := n, raft_listen := rl, client_submit_listen := sl, cfg_peers := ps, cluster_secret := secret,
         submit_timeout_ms := t, address_protocol := proto, dry_run := dry, cfg_notify := note\<rparr>) =
    cluster_config_fingerprint sha c"
  using sorted_peers_order [OF assms]
  by (simp add: cluster_config_fingerprint_def canonical_config_def sorted_vips_def tuning_bytes_def
      effective_failover_delay_ticks_def effective_failback_delay_ticks_def)

text \<open>The sample configuration and its copy on the second node, with the roster written in another order.\<close>

definition other_node :: config where
  "other_node = sample_normal\<lparr>cfg_node_id := 2, raft_listen := ''10.0.0.2:7001'', client_submit_listen := ''10.0.0.2:7002'',
     cfg_peers := rev (cfg_peers sample_normal), cluster_secret := cluster_secret sample_normal,
     submit_timeout_ms := 1000, address_protocol := 7, dry_run := True, cfg_notify := None\<rparr>"

lemma parse_peer_socket_again: "parse_socket_addr s = Inr a \<Longrightarrow> parse_peer_socket m s = Inr a"
  by (auto simp: parse_socket_addr_def parse_peer_socket_def split: option.splits)

lemma other_node_same:
  "canonical_config other_node = canonical_config sample_normal" "config_fits other_node" "config_fits sample_normal"
  "\<exists>x. canonical_config sample_normal = Inr x"
proof -
  have peers: "sorted_peers (rev (cfg_peers sample_normal)) = cfg_peers sample_normal"
    "sorted_peers (cfg_peers sample_normal) = cfg_peers sample_normal"
    by (simp_all add: sorted_peers_def sample_normal_def sample_config_def sample_peer_def word_le_nat_alt)
  then show "canonical_config other_node = canonical_config sample_normal"
    by (simp add: other_node_def canonical_config_def sorted_vips_def tuning_bytes_def
        effective_failover_delay_ticks_def effective_failback_delay_ticks_def)
  show "config_fits other_node" "config_fits sample_normal"
    by (simp_all add: config_fits_def fits_def other_node_def sample_normal_def sample_config_def sorted_vips_def sample_vlan)
  have "\<exists>vs. peers_view (cfg_peers sample_normal) = Inr vs"
    by (simp add: sample_normal_def sample_config_def sample_peer_def parse_peer_socket_again sample_parse)
  then show "\<exists>x. canonical_config sample_normal = Inr x"
    by (auto simp: canonical_config_def Let_def peers_bytes_view peers)
qed

theorem fingerprint_identifies_config_witness:
  "\<exists>f. cluster_config_fingerprint (\<lambda>bs. of_nat (length bs)) sample_normal = Inr f \<and>
       cluster_config_fingerprint (\<lambda>bs. of_nat (length bs)) other_node = Inr f \<and>
       cluster_view sample_normal = cluster_view other_node"
proof -
  obtain f where f: "cluster_config_fingerprint (\<lambda>bs. of_nat (length bs)) sample_normal = Inr f"
    "cluster_config_fingerprint (\<lambda>bs. of_nat (length bs)) other_node = Inr f"
    using other_node_same(1,4) by (auto simp: cluster_config_fingerprint_def)
  have "cluster_view sample_normal = cluster_view other_node"
    using fingerprint_identifies_config [OF f other_node_same(3,2)] other_node_same(1) by simp
  then show ?thesis using f by blast
qed

end
