(* ===== verification/Raft_Authorization.thy ===== *)
theory Raft_Authorization
  imports Config_Fingerprint
begin

text \<open>
  The checks of \<open>src/raft/network/authorization.rs\<close> on what an authenticated peer may send: votes, log
  identities, memberships, join plans and replicated commands. The view they use is built in
  \<open>Authorization_State\<close>; replicated entries are replayed in \<open>Replication_Replay\<close>, snapshots are checked in
  \<open>Snapshot_Check\<close>. \<open>Membership::new\<close> of openraft is the argument \<open>mk\<close>.
\<close>

subsection \<open>The authorization view\<close>

record replication_history =
  rh_nodes :: "(u64, string) btree_map"
  rh_entries :: "(u64, log_entry) btree_map"
  rh_committed :: "log_id option"

record raft_authorization =
  au_session :: admission_context
  au_peer :: replica_id
  au_configured :: "u64 set"
  au_voters :: "replica_id set"
  au_log_replicas :: "replica_id set"
  au_memberships :: "membership list"
  au_committed_membership :: stored_membership
  au_last_applied :: "log_id option"
  au_prepared_join :: "prepared_join option"
  au_verified_bootstrap :: "prepared_join option"
  au_replication :: "replication_history option"

type_synonym membership_new = "replica_id set list \<Rightarrow> (replica_id \<times> string) list \<Rightarrow> (string, membership) result"

text \<open>\<open>?\<close> on a \<open>Result\<close> with \<open>AdmissionDenied\<close> inside a function that returns \<open>anyhow::Result\<close>.\<close>

definition from_denied :: "'a admitted \<Rightarrow> 'a anyhow_result" where
  "from_denied r = (case r of Inl d \<Rightarrow> Inl [CauseDenied d] | Inr a \<Rightarrow> Inr a)"

lemma from_denied_Inr [simp]: "from_denied r = Inr a \<longleftrightarrow> r = Inr a"
  by (cases r) (simp_all add: from_denied_def)

subsection \<open>Identities\<close>

definition auth_check :: "fence_view \<Rightarrow> replica_id \<Rightarrow> replica_id \<Rightarrow> raft_authorization \<Rightarrow> unit anyhow_result" where
  "auth_check fv local peer au =
     rbind (from_denied (session_check fv (au_session au))) (\<lambda>_.
     ensured (ctx_local_replica (au_session au) = local \<and> au_peer au = peer)
       ''admission authorization belongs to another boot'')"

definition auth_vote :: "raft_authorization \<Rightarrow> raft_vote \<Rightarrow> unit anyhow_result" where
  "auth_vote au v =
     (let node = leader_node (vote_leader v) in
      ensured (node \<in> au_voters au \<and> physical_id node \<in> au_configured au) ''Raft vote names an unauthorized replica'')"

definition sender_vote :: "raft_authorization \<Rightarrow> replica_id \<Rightarrow> raft_vote \<Rightarrow> unit anyhow_result" where
  "sender_vote au sender v =
     rbind (ensured (leader_node (vote_leader v) = sender) ''Raft sender differs from the authenticated boot'') (\<lambda>_.
     auth_vote au v)"

definition auth_log :: "raft_authorization \<Rightarrow> log_id option \<Rightarrow> unit anyhow_result" where
  "auth_log au lid =
     (case lid of
        None \<Rightarrow> Inr ()
      | Some l \<Rightarrow> ensured (physical_id (leader_node (committed_leader_id l)) \<in> au_configured au)
                   ''Raft log names an unauthorized replica'')"

definition auth_membership :: "raft_authorization \<Rightarrow> membership \<Rightarrow> unit anyhow_result" where
  "auth_membership au m =
     ensured (m \<in> set (au_memberships au) \<and> (\<forall>r \<in> set (nodes m). physical_id r \<in> au_configured au))
       ''Raft membership is outside the authorized transition''"

definition auth_stored_membership :: "raft_authorization \<Rightarrow> stored_membership \<Rightarrow> unit anyhow_result" where
  "auth_stored_membership au m =
     rbind (auth_log au (sm_log_id m)) (\<lambda>_. auth_membership au (sm_membership m))"

definition stable_previous :: "membership \<Rightarrow> join_plan \<Rightarrow> bool" where
  "stable_previous m plan = (get_joint_config m = [jp_previous_voters plan])"

subsection \<open>Join plans and commands\<close>

definition join_plan_data :: "raft_authorization \<Rightarrow> join_plan \<Rightarrow> unit anyhow_result" where
  "join_plan_data au plan =
     rbind (from_denied (validate_plan plan)) (\<lambda>_.
     rbind (from_denied (validate_roster (jp_genesis plan) (au_configured au))) (\<lambda>_.
     rbind (ensured (jp_genesis plan = ctx_genesis (au_session au)) ''join plan differs from admission'') (\<lambda>_.
     ensured (\<forall>r \<in> jp_previous_voters plan \<union> jp_next_voters plan. physical_id r \<in> au_configured au)
       ''join plan names an unconfigured physical member'')))"

definition join_plan_stage :: "raft_authorization \<Rightarrow> join_plan \<Rightarrow> bool \<Rightarrow> unit anyhow_result" where
  "join_plan_stage au plan historical =
     ensured
       (if historical then \<exists>m \<in> set (au_memberships au). stable_previous m plan
        else stable_previous (sm_membership (au_committed_membership au)) plan \<and>
             sm_membership (au_committed_membership au) \<in> set (au_memberships au))
       ''join plan requires the exact authorized stable previous membership''"

definition auth_join_plan :: "raft_authorization \<Rightarrow> join_plan \<Rightarrow> bool \<Rightarrow> unit anyhow_result" where
  "auth_join_plan au plan historical =
     rbind (join_plan_data au plan) (\<lambda>_.
     case (historical, au_prepared_join au) of
       (False, Some pending) \<Rightarrow> ensured (pj_plan pending = plan) ''another committed join is pending''
     | _ \<Rightarrow> join_plan_stage au plan historical)"

fun auth_admission_command :: "raft_authorization \<Rightarrow> admission_command \<Rightarrow> log_id \<Rightarrow> bool \<Rightarrow> unit anyhow_result" where
  "auth_admission_command au (PrepareJoin plan) lid historical = auth_join_plan au plan historical"
| "auth_admission_command au (CancelJoin plan prepared) lid historical =
     rbind (join_plan_data au plan) (\<lambda>_.
     rbind (auth_log au (Some prepared)) (\<lambda>_.
     rbind (ensured (index prepared < index lid) ''cancellation precedes preparation'') (\<lambda>_.
     if historical then Inr ()
     else case au_prepared_join au of
       None \<Rightarrow> bail ''no committed join is pending''
     | Some pending \<Rightarrow>
         let m = sm_membership (au_committed_membership au) in
         ensured (pj_plan pending = plan \<and> pj_prepared pending = prepared \<and> stable_previous m plan \<and>
                  jp_consumer plan \<notin> set (nodes m))
           ''cancellation differs from the committed pending operation or removed learner'')))"
| "auth_admission_command au (LearnerApplied consumer nonce prepared) lid historical =
     rbind (ensured (physical_id consumer \<in> au_configured au) ''learner names an unauthorized replica'') (\<lambda>_.
     rbind (auth_log au (Some prepared)) (\<lambda>_.
     rbind (ensured (index prepared < index lid) ''learner acknowledgement precedes preparation'') (\<lambda>_.
     if historical then Inr ()
     else case au_prepared_join au of
       None \<Rightarrow> bail ''no committed join is pending''
     | Some pending \<Rightarrow>
         rbind (join_plan_data au (pj_plan pending)) (\<lambda>_.
         rbind (ensured (jp_consumer (pj_plan pending) = consumer \<and> jp_request_nonce (pj_plan pending) = nonce \<and>
                         pj_prepared pending = prepared)
                  ''learner acknowledgement differs from committed preparation'') (\<lambda>_.
         let m = sm_membership (au_committed_membership au) in
         ensured (pj_learner_applied pending \<noteq> None \<or>
                  stable_previous m (pj_plan pending) \<and> consumer \<in> set (learner_ids m))
           ''learner acknowledgement requires the committed learner stage'')))))"

definition auth_command :: "raft_authorization \<Rightarrow> kaf_request \<Rightarrow> log_id \<Rightarrow> unit anyhow_result" where
  "auth_command au command lid =
     (let ctx = au_session au;
          historical = (case au_last_applied au of None \<Rightarrow> False | Some applied \<Rightarrow> index lid \<le> index applied) in
      case command of
        AdmissionMembership c \<Rightarrow> auth_admission_command au c lid historical
      | AdmissionGenesis g \<Rightarrow> ensured (g = ctx_genesis ctx) ''Raft genesis differs from admission''
      | HealthProgress p \<Rightarrow>
          rbind (from_denied (validate_progress p)) (\<lambda>_.
          ensured (hp_genesis p = ctx_genesis ctx \<and> physical_id (hp_replica p) \<in> au_configured au)
            ''Raft progress differs from admission'')
      | ClusterFormed cluster_id _ _ \<Rightarrow> ensured (cluster_id = g_epoch (ctx_genesis ctx)) ''Raft epoch differs from admission''
      | _ \<Rightarrow> Inr ())"

subsection \<open>Facts about the checks\<close>

text \<open>\<open>Membership::new\<close>, as documented: the membership has the given configurations and nodes, its voters are
  the union of the configurations and its learners are the other nodes.\<close>

definition membership_new_ok :: "membership_new \<Rightarrow> bool" where
  "membership_new_ok mk =
     (\<forall>cs ns m. mk cs ns = Inr m \<longrightarrow>
        get_joint_config m = cs \<and> nodes m = map fst ns \<and> node_addresses m = map snd ns \<and> membership_ok m)"

lemma join_plan_data_Inr:
  "join_plan_data au plan = Inr () \<longleftrightarrow>
   validate_plan plan = Inr () \<and> validate_roster (jp_genesis plan) (au_configured au) = Inr () \<and>
   jp_genesis plan = ctx_genesis (au_session au) \<and>
   (\<forall>r \<in> jp_previous_voters plan \<union> jp_next_voters plan. physical_id r \<in> au_configured au)"
  by (auto simp: join_plan_data_def)

end
