(* ===== verification/Replication_Replay.thy ===== *)
theory Replication_Replay
  imports Raft_Authorization State_Machine
begin

text \<open>
  Validation of replicated entries (\<open>src/raft/network/authorization/replay.rs\<close>): an append request is replayed
  from the applied state, over the entries the local log already has, through the entries it carries. Every
  membership change on the way must be the next one of a prepared, acknowledged and committed join.
\<close>

subsection \<open>History and source state\<close>

record source_state =
  so_membership :: stored_membership
  so_pending :: "prepared_join option"
  so_cursor :: "log_id option"

record append_request =
  ar_vote :: raft_vote
  ar_prev_log_id :: "log_id option"
  ar_entries :: "log_entry list"
  ar_leader_commit :: "log_id option"

definition conflict :: anyhow where
  "conflict = [CauseConflict]"

definition history_from_state :: "config \<Rightarrow> kaf_storage_state \<Rightarrow> replication_history" where
  "history_from_state cfg st =
     \<lparr>rh_nodes = bm_collect (map (\<lambda>p. (peer_id p, raft_address p)) (cfg_peers cfg)),
      rh_entries = bm_retain (\<lambda>i _. case last_applied_log st of None \<Rightarrow> True | Some l \<Rightarrow> index l < i) (log st),
      rh_committed = committed st\<rparr>"

definition history_membership ::
  "membership_new \<Rightarrow> replication_history \<Rightarrow> replica_id set list \<Rightarrow> replica_id set \<Rightarrow> membership anyhow_result" where
  "history_membership mk h configs ids =
     (if \<forall>r \<in> ids. bm_contains (rh_nodes h) (physical_id r)
      then case mk configs (map (\<lambda>r. (r, the (bm_get (rh_nodes h) (physical_id r)))) (sorted_list_of_set ids)) of
             Inl e \<Rightarrow> bail e
           | Inr m \<Rightarrow> Inr m
      else bail ''historical member is not configured'')"

definition history_committed :: "log_id \<Rightarrow> log_id option \<Rightarrow> bool" where
  "history_committed l frontier =
     (case frontier of None \<Rightarrow> False | Some f \<Rightarrow> index l < index f \<or> l = f)"

subsection \<open>Data of one entry\<close>

fun history_command_data ::
  "replication_history \<Rightarrow> raft_authorization \<Rightarrow> admission_command \<Rightarrow> log_id \<Rightarrow> unit anyhow_result" where
  "history_command_data h au (PrepareJoin plan) lid = join_plan_data au plan"
| "history_command_data h au (CancelJoin plan prepared) lid =
     rbind (join_plan_data au plan) (\<lambda>_.
     rbind (auth_log au (Some prepared)) (\<lambda>_.
     ensured (index prepared < index lid) ''cancellation precedes preparation''))"
| "history_command_data h au (LearnerApplied consumer nonce prepared) lid =
     rbind (ensured (bm_contains (rh_nodes h) (physical_id consumer)) ''learner is not configured'') (\<lambda>_.
     rbind (auth_log au (Some prepared)) (\<lambda>_.
     ensured (index prepared < index lid) ''acknowledgement precedes preparation''))"

fun check_voter_sets :: "replica_id set list \<Rightarrow> unit anyhow_result" where
  "check_voter_sets [] = Inr ()"
| "check_voter_sets (voters # rest) =
     rbind (ensured (voters \<noteq> {} \<and> card (physical_id ` voters) = card voters) ''invalid historical voter identities'') (\<lambda>_.
     check_voter_sets rest)"

definition history_data ::
  "membership_new \<Rightarrow> replication_history \<Rightarrow> raft_authorization \<Rightarrow> log_entry \<Rightarrow> unit anyhow_result" where
  "history_data mk h au entry =
     rbind (auth_log au (Some (e_log_id entry))) (\<lambda>_.
     case e_payload entry of
       MembershipEntry m \<Rightarrow>
         let configs = get_joint_config m in
         rbind (ensured (configs \<noteq> [] \<and> length configs \<le> 2) ''invalid historical membership shape'') (\<lambda>_.
         rbind (check_voter_sets configs) (\<lambda>_.
         rbind (history_membership mk h configs (set (nodes m))) (\<lambda>expected.
         ensured (expected = m) ''historical membership differs from configured addresses'')))
     | Normal (AdmissionMembership command) \<Rightarrow> history_command_data h au command (e_log_id entry)
     | Normal command \<Rightarrow> auth_command au command (e_log_id entry)
     | Blank \<Rightarrow> Inr ())"

subsection \<open>One entry of the source\<close>

fun source_command :: "log_id option \<Rightarrow> source_state \<Rightarrow> admission_command \<Rightarrow> log_id \<Rightarrow> source_state anyhow_result" where
  "source_command frontier src (PrepareJoin plan) lid =
     (case so_pending src of
        Some pending \<Rightarrow>
          rbind (ensured (pj_plan pending = plan) ''source has another pending join'') (\<lambda>_. Inr src)
      | None \<Rightarrow>
          rbind (ensured (stable_previous (sm_membership (so_membership src)) plan)
                   ''source preparation differs from stable previous voters'') (\<lambda>_.
          Inr (src\<lparr>so_pending := Some \<lparr>pj_plan = plan, pj_prepared = lid, pj_learner_applied = None\<rparr>\<rparr>)))"
| "source_command frontier src (CancelJoin plan prepared) lid =
     (case so_pending src of
        None \<Rightarrow> bail ''source cancellation has no pending join''
      | Some pending \<Rightarrow>
          let m = sm_membership (so_membership src) in
          rbind (ensured (pj_plan pending = plan \<and> pj_prepared pending = prepared \<and> history_committed prepared frontier \<and>
                          stable_previous m plan \<and> jp_consumer plan \<notin> set (nodes m))
                   ''source cancellation differs from removed committed learner'') (\<lambda>_.
          Inr (src\<lparr>so_pending := None\<rparr>)))"
| "source_command frontier src (LearnerApplied consumer nonce prepared) lid =
     (case so_pending src of
        None \<Rightarrow> bail ''source acknowledgement has no pending join''
      | Some pending \<Rightarrow>
          let m = sm_membership (so_membership src) in
          rbind (ensured (jp_consumer (pj_plan pending) = consumer \<and> jp_request_nonce (pj_plan pending) = nonce \<and>
                          pj_prepared pending = prepared \<and> history_committed prepared frontier)
                   ''source acknowledgement differs from committed preparation'') (\<lambda>_.
          if pj_learner_applied pending \<noteq> None then Inr src
          else
            rbind (ensured (stable_previous m (pj_plan pending) \<and> consumer \<in> set (learner_ids m) \<and>
                            (case sm_log_id (so_membership src) of None \<Rightarrow> False | Some l \<Rightarrow> history_committed l frontier))
                     ''source acknowledgement requires a committed learner'') (\<lambda>_.
            Inr (src\<lparr>so_pending := Some (pending\<lparr>pj_learner_applied := Some lid\<rparr>)\<rparr>))))"

definition acknowledged :: "log_id option \<Rightarrow> prepared_join \<Rightarrow> bool" where
  "acknowledged frontier pending =
     (case pj_learner_applied pending of None \<Rightarrow> False | Some ack \<Rightarrow> history_committed ack frontier)"

text \<open>The memberships that may follow a stable membership: with the learner, without it, and, after its
  acknowledgement is committed, the joint one.\<close>

definition stable_successors ::
  "membership_new \<Rightarrow> replication_history \<Rightarrow> log_id option \<Rightarrow> prepared_join \<Rightarrow> membership \<Rightarrow> membership list anyhow_result" where
  "stable_successors mk h frontier pending current =
     (let plan = pj_plan pending; ids = set (nodes current); learners = insert (jp_consumer plan) ids in
      rbind (history_membership mk h [jp_previous_voters plan] learners) (\<lambda>with_learner.
      rbind (history_membership mk h [jp_previous_voters plan] (ids - {jp_consumer plan})) (\<lambda>removed.
      if acknowledged frontier pending \<and> jp_consumer plan \<in> set (learner_ids current)
      then rbind (history_membership mk h [jp_previous_voters plan, jp_next_voters plan] learners) (\<lambda>joint.
           Inr [with_learner, removed, joint])
      else Inr [with_learner, removed])))"

definition joint_successors ::
  "membership_new \<Rightarrow> replication_history \<Rightarrow> log_id option \<Rightarrow> prepared_join \<Rightarrow> stored_membership \<Rightarrow> membership list anyhow_result" where
  "joint_successors mk h frontier pending stored =
     (let plan = pj_plan pending; current = sm_membership stored in
      rbind (ensured (get_joint_config current = [jp_previous_voters plan, jp_next_voters plan] \<and>
                      acknowledged frontier pending \<and>
                      (case sm_log_id stored of None \<Rightarrow> False | Some l \<Rightarrow> history_committed l frontier))
               ''source final promotion requires committed joint membership'') (\<lambda>_.
      rbind (history_membership mk h [jp_next_voters plan]
               (set (nodes current) - (jp_previous_voters plan - jp_next_voters plan))) (\<lambda>promoted.
      Inr [promoted])))"

definition transition ::
  "membership_new \<Rightarrow> replication_history \<Rightarrow> log_id option \<Rightarrow> source_state \<Rightarrow> membership \<Rightarrow> log_id \<Rightarrow> source_state anyhow_result" where
  "transition mk h frontier src m lid =
     (let stored = \<lparr>sm_log_id = Some lid, sm_membership = m\<rparr>; current = sm_membership (so_membership src) in
      if m = current then Inr (src\<lparr>so_membership := stored\<rparr>)
      else case so_pending src of
        None \<Rightarrow> bail ''source membership has no prepared transition''
      | Some pending \<Rightarrow>
          rbind (ensured (history_committed (pj_prepared pending) frontier) ''source preparation is not committed'') (\<lambda>_.
          let final_stage = (\<not> stable_previous current (pj_plan pending)) in
          rbind (if final_stage then joint_successors mk h frontier pending (so_membership src)
                 else stable_successors mk h frontier pending current) (\<lambda>permitted.
          rbind (ensured (m \<in> set permitted) ''source membership skips a committed transition barrier'') (\<lambda>_.
          Inr (src\<lparr>so_membership := stored, so_pending := if final_stage then None else so_pending src\<rparr>)))))"

definition source_apply ::
  "membership_new \<Rightarrow> replication_history \<Rightarrow> raft_authorization \<Rightarrow> log_id option \<Rightarrow> source_state \<Rightarrow> log_entry \<Rightarrow>
   source_state anyhow_result" where
  "source_apply mk h au frontier src entry =
     rbind
       (case e_payload entry of
          MembershipEntry m \<Rightarrow> transition mk h frontier src m (e_log_id entry)
        | Normal (AdmissionMembership command) \<Rightarrow> source_command frontier src command (e_log_id entry)
        | Normal command \<Rightarrow> rbind (auth_command au command (e_log_id entry)) (\<lambda>_. Inr src)
        | Blank \<Rightarrow> Inr src)
       (\<lambda>src'. Inr (src'\<lparr>so_cursor := Some (e_log_id entry)\<rparr>))"

subsection \<open>The whole request\<close>

fun check_consecutive ::
  "membership_new \<Rightarrow> replication_history \<Rightarrow> raft_authorization \<Rightarrow> u64 option \<Rightarrow> log_entry list \<Rightarrow> unit anyhow_result" where
  "check_consecutive mk h au expected [] = Inr ()"
| "check_consecutive mk h au expected (e # es) =
     rbind (ensured (Some (index (e_log_id e)) = expected) ''replicated entries are not consecutive'') (\<lambda>_.
     rbind (history_data mk h au e) (\<lambda>_.
     check_consecutive mk h au (chk_add (index (e_log_id e)) 1) es))"

text \<open>\<open>max_by_key\<close> keeps the last of several maximal elements.\<close>

definition later_log :: "log_id \<Rightarrow> log_id option \<Rightarrow> log_id option" where
  "later_log l best = (case best of None \<Rightarrow> Some l | Some b \<Rightarrow> if index b \<le> index l then Some l else Some b)"

definition commit_frontier :: "replication_history \<Rightarrow> raft_authorization \<Rightarrow> append_request \<Rightarrow> log_id option" where
  "commit_frontier h au req =
     fold later_log (List.map_filter id [rh_committed h, au_last_applied au, ar_leader_commit req]) None"

definition initial_source ::
  "membership_new \<Rightarrow> replication_history \<Rightarrow> raft_authorization \<Rightarrow> source_state anyhow_result" where
  "initial_source mk h au =
     (case au_last_applied au of
        Some _ \<Rightarrow>
          Inr \<lparr>so_membership = au_committed_membership au, so_pending = au_prepared_join au, so_cursor = au_last_applied au\<rparr>
      | None \<Rightarrow>
          let voters = g_voters (ctx_genesis (au_session au)) in
          rbind (history_membership mk h [voters] voters) (\<lambda>m.
          Inr \<lparr>so_membership = \<lparr>sm_log_id = None, sm_membership = m\<rparr>, so_pending = None, so_cursor = None\<rparr>))"

text \<open>The next index after the cursor; an index of \<open>u64::MAX\<close> has no successor and is never followed.\<close>

definition next_index :: "source_state \<Rightarrow> u64" where
  "next_index src = (case so_cursor src of None \<Rightarrow> 0 | Some l \<Rightarrow> index l + 1)"

fun replay_local ::
  "membership_new \<Rightarrow> replication_history \<Rightarrow> raft_authorization \<Rightarrow> log_id option \<Rightarrow> source_state \<Rightarrow> u64 list \<Rightarrow>
   source_state anyhow_result" where
  "replay_local mk h au frontier src [] = Inr src"
| "replay_local mk h au frontier src (i # is) =
     (case bm_get (rh_entries h) i of
        None \<Rightarrow> Inl conflict
      | Some entry \<Rightarrow>
          rbind (history_data mk h au entry) (\<lambda>_.
          rbind (source_apply mk h au frontier src entry) (\<lambda>src'.
          replay_local mk h au frontier src' is)))"

definition replay_prefix ::
  "membership_new \<Rightarrow> replication_history \<Rightarrow> raft_authorization \<Rightarrow> log_id option \<Rightarrow> source_state \<Rightarrow> log_id option \<Rightarrow>
   source_state anyhow_result" where
  "replay_prefix mk h au frontier src prev =
     (case prev of
        None \<Rightarrow> Inr src
      | Some previous \<Rightarrow>
          if (case so_cursor src of None \<Rightarrow> True | Some l \<Rightarrow> index l < index previous)
          then rbind (replay_local mk h au frontier src
                        (map of_nat [unat (next_index src) ..< Suc (unat (index previous))])) (\<lambda>src'.
               rbind (ensure (so_cursor src' = Some previous) conflict) (\<lambda>_. Inr src'))
          else if map_option index (so_cursor src) = Some (index previous)
          then rbind (ensure (so_cursor src = Some previous) conflict) (\<lambda>_. Inr src)
          else Inr src)"

fun replay_entries ::
  "membership_new \<Rightarrow> replication_history \<Rightarrow> raft_authorization \<Rightarrow> log_id option \<Rightarrow> source_state \<Rightarrow> log_entry list \<Rightarrow>
   source_state anyhow_result" where
  "replay_entries mk h au frontier src [] = Inr src"
| "replay_entries mk h au frontier src (e # es) =
     (case au_last_applied au of
        Some applied \<Rightarrow>
          if index (e_log_id e) \<le> index applied
          then rbind (ensure (index (e_log_id e) = index applied \<longrightarrow> applied = e_log_id e) conflict) (\<lambda>_.
               replay_entries mk h au frontier src es)
          else rbind (ensure (index (e_log_id e) = next_index src) conflict) (\<lambda>_.
               rbind (source_apply mk h au frontier src e) (\<lambda>src'. replay_entries mk h au frontier src' es))
      | None \<Rightarrow>
          rbind (ensure (index (e_log_id e) = next_index src) conflict) (\<lambda>_.
          rbind (source_apply mk h au frontier src e) (\<lambda>src'. replay_entries mk h au frontier src' es)))"

definition replay_request ::
  "membership_new \<Rightarrow> replication_history \<Rightarrow> raft_authorization \<Rightarrow> append_request \<Rightarrow> source_state anyhow_result" where
  "replay_request mk h au req =
     rbind (check_consecutive mk h au (case ar_prev_log_id req of None \<Rightarrow> Some 0 | Some l \<Rightarrow> chk_add (index l) 1) (ar_entries req)) (\<lambda>_.
     rbind (initial_source mk h au) (\<lambda>src.
     let frontier = commit_frontier h au req in
     rbind (replay_prefix mk h au frontier src (ar_prev_log_id req)) (\<lambda>src'.
     replay_entries mk h au frontier src' (ar_entries req))))"

definition history_validate ::
  "membership_new \<Rightarrow> replication_history \<Rightarrow> raft_authorization \<Rightarrow> append_request \<Rightarrow> unit anyhow_result" where
  "history_validate mk h au req = rbind (replay_request mk h au req) (\<lambda>_. Inr ())"

subsection \<open>What an accepted request replays\<close>

text \<open>The entries of the local log between the applied state and the request, then the entries of the request
  above the applied state.\<close>

definition local_gap :: "replication_history \<Rightarrow> raft_authorization \<Rightarrow> append_request \<Rightarrow> u64 list" where
  "local_gap h au req =
     (case ar_prev_log_id req of
        None \<Rightarrow> []
      | Some previous \<Rightarrow>
          (case au_last_applied au of
             None \<Rightarrow> map of_nat [0 ..< Suc (unat (index previous))]
           | Some l \<Rightarrow> if index l < index previous
                       then map of_nat [unat (index l + 1) ..< Suc (unat (index previous))] else []))"

definition above_applied :: "raft_authorization \<Rightarrow> log_entry \<Rightarrow> bool" where
  "above_applied au e = (case au_last_applied au of None \<Rightarrow> True | Some l \<Rightarrow> index l < index (e_log_id e))"

definition replayed_entries :: "replication_history \<Rightarrow> raft_authorization \<Rightarrow> append_request \<Rightarrow> log_entry list" where
  "replayed_entries h au req =
     map (\<lambda>i. the (bm_get (rh_entries h) i)) (local_gap h au req) @ filter (above_applied au) (ar_entries req)"

definition after_cursor :: "source_state \<Rightarrow> log_entry \<Rightarrow> bool" where
  "after_cursor src e = (case so_cursor src of None \<Rightarrow> True | Some l \<Rightarrow> index l < index (e_log_id e))"

inductive accepted_run ::
  "membership_new \<Rightarrow> replication_history \<Rightarrow> raft_authorization \<Rightarrow> log_id option \<Rightarrow> source_state \<Rightarrow> log_entry list \<Rightarrow>
   source_state \<Rightarrow> bool"
  for mk h au frontier where
  run_done: "accepted_run mk h au frontier src [] src"
| run_entry: "history_data mk h au e = Inr () \<Longrightarrow> after_cursor src e \<Longrightarrow>
    source_apply mk h au frontier src e = Inr src1 \<Longrightarrow> accepted_run mk h au frontier src1 es src2 \<Longrightarrow>
    accepted_run mk h au frontier src (e # es) src2"

inductive_cases run_doneE [elim!]: "accepted_run mk h au frontier src [] src'"

inductive_cases run_entryE: "accepted_run mk h au frontier src (e # es) src'"

lemma accepted_run_append:
  "accepted_run mk h au frontier src es src1 \<Longrightarrow> accepted_run mk h au frontier src1 fs src2 \<Longrightarrow>
   accepted_run mk h au frontier src (es @ fs) src2"
  by (induction rule: accepted_run.induct) (auto intro: accepted_run.intros)

lemma source_apply_cursor: "source_apply mk h au frontier src e = Inr src' \<Longrightarrow> so_cursor src' = Some (e_log_id e)"
  by (auto simp: source_apply_def)

definition history_keyed :: "replication_history \<Rightarrow> bool" where
  "history_keyed h = (\<forall>i e. bm_get (rh_entries h) i = Some e \<longrightarrow> index (e_log_id e) = i)"

lemma replay_local_run:
  assumes "replay_local mk h au frontier src is = Inr src'" "history_keyed h" "sorted_wrt (<) is"
    and "case so_cursor src of None \<Rightarrow> True | Some l \<Rightarrow> \<forall>i \<in> set is. index l < i"
  shows "accepted_run mk h au frontier src (map (\<lambda>i. the (bm_get (rh_entries h) i)) is) src'"
  using assms
proof (induction "is" arbitrary: src)
  case (Cons i "is")
  obtain e src1 where e: "bm_get (rh_entries h) i = Some e" "history_data mk h au e = Inr ()"
    "source_apply mk h au frontier src e = Inr src1" "replay_local mk h au frontier src1 is = Inr src'"
    using Cons.prems(1) by (auto split: option.splits)
  have i: "index (e_log_id e) = i" using Cons.prems(2) e(1) by (simp add: history_keyed_def)
  have "accepted_run mk h au frontier src1 (map (\<lambda>i. the (bm_get (rh_entries h) i)) is) src'"
    by (rule Cons.IH) (use Cons.prems e source_apply_cursor [OF e(3)] i in auto)
  moreover have "after_cursor src e" using Cons.prems(4) i by (auto simp: after_cursor_def split: option.splits)
  ultimately show ?case using e by (auto intro: run_entry)
qed (auto intro: run_done)

lemma check_consecutive_Inr:
  assumes "check_consecutive mk h au expected es = Inr ()"
  shows "\<forall>e \<in> set es. history_data mk h au e = Inr ()"
    "\<forall>e \<in> set es. \<exists>i. expected = Some i \<and> i \<le> index (e_log_id e)"
    "sorted_wrt (\<lambda>e f. index (e_log_id e) < index (e_log_id f)) es"
proof -
  have "(\<forall>e \<in> set es. history_data mk h au e = Inr ()) \<and>
    (\<forall>e \<in> set es. \<exists>i. expected = Some i \<and> i \<le> index (e_log_id e)) \<and>
    sorted_wrt (\<lambda>e f. index (e_log_id e) < index (e_log_id f)) es"
    using assms
  proof (induction es arbitrary: expected)
    case (Cons e es)
    let ?n = "chk_add (index (e_log_id e)) 1"
    have e: "expected = Some (index (e_log_id e))" "history_data mk h au e = Inr ()" "check_consecutive mk h au ?n es = Inr ()"
      using Cons.prems by auto
    have above: "index (e_log_id e) < i" if "?n = Some i" for i
      using unat_chk_add [OF that] by (simp add: word_less_nat_alt)
    have later: "index (e_log_id e) < index (e_log_id f)" if f: "f \<in> set es" for f
    proof -
      obtain i where "?n = Some i" "i \<le> index (e_log_id f)" using Cons.IH [OF e(3)] f by blast
      then show ?thesis using above less_le_trans by blast
    qed
    then have "\<forall>f \<in> set (e # es). \<exists>i. expected = Some i \<and> i \<le> index (e_log_id f)" by (auto simp: e(1) less_imp_le)
    then show ?case using Cons.IH [OF e(3)] e(2) later by simp
  qed simp
  then show "\<forall>e \<in> set es. history_data mk h au e = Inr ()"
    "\<forall>e \<in> set es. \<exists>i. expected = Some i \<and> i \<le> index (e_log_id e)"
    "sorted_wrt (\<lambda>e f. index (e_log_id e) < index (e_log_id f)) es" by simp_all
qed

lemma replay_entries_above:
  "replay_entries mk h au frontier src (e # es) =
     (if above_applied au e
      then rbind (ensure (index (e_log_id e) = next_index src) conflict) (\<lambda>_.
           rbind (source_apply mk h au frontier src e) (\<lambda>src'. replay_entries mk h au frontier src' es))
      else rbind (ensure (\<forall>l. au_last_applied au = Some l \<longrightarrow> index (e_log_id e) = index l \<longrightarrow> l = e_log_id e) conflict) (\<lambda>_.
           replay_entries mk h au frontier src es))"
  by (auto simp: above_applied_def not_less dest: leD split: option.split)

lemma replay_entries_run:
  assumes "replay_entries mk h au frontier src es = Inr src'"
    and "\<forall>e \<in> set es. history_data mk h au e = Inr ()"
    and "sorted_wrt (\<lambda>e f. index (e_log_id e) < index (e_log_id f)) es"
    and "\<forall>e \<in> set es. above_applied au e \<longrightarrow> after_cursor src e"
  shows "accepted_run mk h au frontier src (filter (above_applied au) es) src'"
  using assms
proof (induction es arbitrary: src)
  case (Cons e es)
  show ?case
  proof (cases "above_applied au e")
    case True
    then obtain src1 where s1: "source_apply mk h au frontier src e = Inr src1" "replay_entries mk h au frontier src1 es = Inr src'"
      using Cons.prems(1) unfolding replay_entries_above by auto
    have "\<forall>f \<in> set es. above_applied au f \<longrightarrow> after_cursor src1 f"
      using Cons.prems(3) by (simp add: after_cursor_def source_apply_cursor [OF s1(1)])
    then have "accepted_run mk h au frontier src1 (filter (above_applied au) es) src'"
      using Cons.IH [OF s1(2)] Cons.prems(2,3) by simp
    then show ?thesis using True Cons.prems(2,4) s1(1) by (simp add: run_entry)
  next
    case False
    then have "replay_entries mk h au frontier src es = Inr src'"
      using Cons.prems(1) unfolding replay_entries_above by simp
    then show ?thesis using False Cons.IH [of src] Cons.prems(2,3,4) by simp
  qed
qed (simp add: run_done)

lemma sorted_of_nat:
  assumes "b \<le> 2 ^ 64"
  shows "sorted_wrt (<) (map (of_nat :: nat \<Rightarrow> u64) [a ..< b])"
proof -
  have "(of_nat x :: u64) < of_nat y" if "x \<in> set [a ..< b]" "y \<in> set [a ..< b]" "x < y" for x y
    using that assms by (simp add: word_less_nat_alt unat_of_nat)
  then show ?thesis unfolding sorted_wrt_map using sorted_wrt_upt [of a b] by (rule sorted_wrt_mono_rel)
qed

lemma replay_prefix_run:
  assumes "replay_prefix mk h au frontier src (ar_prev_log_id req) = Inr src'" "history_keyed h"
    and cursor: "so_cursor src = au_last_applied au"
  shows "accepted_run mk h au frontier src (map (\<lambda>i. the (bm_get (rh_entries h) i)) (local_gap h au req)) src' \<and>
    (\<forall>l. so_cursor src' = Some l \<longrightarrow> Some l = ar_prev_log_id req \<or> Some l = au_last_applied au)"
proof (cases "ar_prev_log_id req")
  case (Some previous)
  define behind where "behind = (case so_cursor src of None \<Rightarrow> True | Some l \<Rightarrow> index l < index previous)"
  define gap where "gap = map (of_nat :: nat \<Rightarrow> u64) [unat (next_index src) ..< Suc (unat (index previous))]"
  show ?thesis
  proof (cases behind)
    case True
    have run: "replay_local mk h au frontier src gap = Inr src'" "so_cursor src' = Some previous"
      using assms(1) Some True by (simp_all add: replay_prefix_def behind_def gap_def)
    have "index l < i" if l: "so_cursor src = Some l" and i: "i \<in> set gap" for l i
    proof -
      have "index l < index previous" using True l by (simp add: behind_def)
      then have "unat (index l + 1) = unat (index l) + 1"
        using unsigned_less [of "index previous", where ?'a = nat] by (simp add: word_less_nat_alt unat_word_ariths)
      then show ?thesis using i l unsigned_less [of "index previous", where ?'a = nat]
        by (auto simp: gap_def next_index_def word_less_nat_alt unat_of_nat)
    qed
    moreover have "sorted_wrt (<) gap"
      unfolding gap_def by (rule sorted_of_nat) (use unsigned_less [of "index previous", where ?'a = nat] in simp)
    moreover have "local_gap h au req = gap"
      using True by (simp add: local_gap_def Some gap_def behind_def next_index_def cursor split: option.splits)
    ultimately show ?thesis using replay_local_run [OF run(1) assms(2)] run(2) Some by (auto split: option.split)
  next
    case False
    then have "src' = src" "local_gap h au req = []"
      using assms(1) Some cursor
      by (auto simp: replay_prefix_def behind_def local_gap_def split: option.splits if_splits)
    then show ?thesis using cursor by (auto intro: run_done)
  qed
qed (use assms in \<open>auto simp: replay_prefix_def local_gap_def intro: run_done\<close>)

lemma initial_source_cursor: "initial_source mk h au = Inr src \<Longrightarrow> so_cursor src = au_last_applied au"
  by (auto simp: initial_source_def Let_def split: option.splits)

lemma replay_request_run:
  assumes "replay_request mk h au req = Inr src'" "history_keyed h"
  obtains src where "initial_source mk h au = Inr src"
    "accepted_run mk h au (commit_frontier h au req) src (replayed_entries h au req) src'"
proof -
  define expected where "expected = (case ar_prev_log_id req of None \<Rightarrow> Some 0 | Some l \<Rightarrow> chk_add (index l) 1)"
  obtain src src1 where s: "check_consecutive mk h au expected (ar_entries req) = Inr ()"
    "initial_source mk h au = Inr src" "replay_prefix mk h au (commit_frontier h au req) src (ar_prev_log_id req) = Inr src1"
    "replay_entries mk h au (commit_frontier h au req) src1 (ar_entries req) = Inr src'"
    using assms(1) by (auto simp: replay_request_def Let_def expected_def)
  note data = check_consecutive_Inr [OF s(1)]
    and pre = replay_prefix_run [OF s(3) assms(2) initial_source_cursor [OF s(2)]]
  have "after_cursor src1 e" if e: "e \<in> set (ar_entries req)" "above_applied au e" for e
  proof (cases "so_cursor src1")
    case (Some l)
    obtain i where i: "expected = Some i" "i \<le> index (e_log_id e)" using data(2) e(1) by blast
    show ?thesis
    proof (cases "Some l = ar_prev_log_id req")
      case True
      then have "chk_add (index l) 1 = Some i" using i(1) by (auto simp: expected_def split: option.splits)
      from unat_chk_add [OF this] i(2) show ?thesis by (simp add: after_cursor_def Some word_less_nat_alt word_le_nat_alt)
    next
      case False
      then show ?thesis using pre Some e(2) by (auto simp: after_cursor_def above_applied_def)
    qed
  qed (simp add: after_cursor_def)
  then have "accepted_run mk h au (commit_frontier h au req) src1 (filter (above_applied au) (ar_entries req)) src'"
    using replay_entries_run [OF s(4) data(1,3)] by blast
  then show ?thesis
    using that [OF s(2)] accepted_run_append [OF conjunct1 [OF pre]] by (simp add: replayed_entries_def)
qed

subsection \<open>Quorums along the replay\<close>

definition raft_quorum :: "membership \<Rightarrow> replica_id set \<Rightarrow> bool" where
  "raft_quorum m Q = (get_joint_config m \<noteq> [] \<and> (\<forall>c \<in> set (get_joint_config m). majority_of c (Q \<inter> c)))"

definition common_quorums :: "membership \<Rightarrow> membership \<Rightarrow> bool" where
  "common_quorums m m' = (\<forall>Q Q'. raft_quorum m Q \<longrightarrow> raft_quorum m' Q' \<longrightarrow> Q \<inter> Q' \<noteq> {})"

definition one_boot_each :: "membership \<Rightarrow> bool" where
  "one_boot_each m =
     (get_joint_config m \<noteq> [] \<and> (\<forall>c \<in> set (get_joint_config m). c \<noteq> {} \<and> inj_on physical_id c))"

definition memberships_of :: "log_entry list \<Rightarrow> membership list" where
  "memberships_of es = List.map_filter (\<lambda>e. case e_payload e of MembershipEntry m \<Rightarrow> Some m | _ \<Rightarrow> None) es"

lemma memberships_of_simps [simp]:
  "memberships_of [] = []"
  "memberships_of (e # es) = (case e_payload e of MembershipEntry m \<Rightarrow> m # memberships_of es | _ \<Rightarrow> memberships_of es)"
  by (simp_all add: memberships_of_def map_filter_simps split: entry_payload.split)

lemma shared_config_meets:
  assumes "c \<in> set (get_joint_config m)" "c \<in> set (get_joint_config m')"
  shows "common_quorums m m'"
  unfolding common_quorums_def
proof (intro allI impI)
  fix Q Q'
  assume "raft_quorum m Q" "raft_quorum m' Q'"
  then have "majority_of c (Q \<inter> c)" "majority_of c (Q' \<inter> c)" using assms by (simp_all add: raft_quorum_def)
  then show "Q \<inter> Q' \<noteq> {}" by (rule majority.common_member) blast
qed

lemma check_voter_sets_Inr:
  "check_voter_sets cs = Inr () \<Longrightarrow> \<forall>c \<in> set cs. c \<noteq> {} \<and> inj_on physical_id c"
proof (induction cs)
  case (Cons c cs)
  have c: "c \<noteq> {}" "card (physical_id ` c) = card c" using Cons.prems by auto
  have "0 < card (physical_id ` c)" using c(1) by (simp add: card_gt_0_iff)
  then have "finite c" using c(2) by (metis card.infinite less_irrefl)
  then show ?case using Cons c eq_card_imp_inj_on [of c physical_id] by auto
qed simp

lemma history_data_membership:
  assumes "history_data mk h au e = Inr ()" "e_payload e = MembershipEntry m"
  shows "one_boot_each m" "history_membership mk h (get_joint_config m) (set (nodes m)) = Inr m"
  using assms by (auto simp: history_data_def Let_def one_boot_each_def dest: check_voter_sets_Inr)

lemma history_membership_config:
  "membership_new_ok mk \<Longrightarrow> history_membership mk h cs ids = Inr m \<Longrightarrow> get_joint_config m = cs \<and> membership_ok m"
  by (auto simp: history_membership_def membership_new_ok_def split: if_splits sum.splits)

lemma stable_successors_Inr:
  assumes "membership_new_ok mk" "stable_successors mk h frontier pending current = Inr permitted" "m \<in> set permitted"
  shows "get_joint_config m = [jp_previous_voters (pj_plan pending)] \<or>
    get_joint_config m = [jp_previous_voters (pj_plan pending), jp_next_voters (pj_plan pending)] \<and> acknowledged frontier pending"
  using assms(2,3) history_membership_config [OF assms(1)]
  by (fastforce simp: stable_successors_def Let_def split: if_splits)

lemma joint_successors_Inr:
  assumes "membership_new_ok mk" "joint_successors mk h frontier pending stored = Inr permitted" "m \<in> set permitted"
  shows "get_joint_config m = [jp_next_voters (pj_plan pending)]"
    "get_joint_config (sm_membership stored) = [jp_previous_voters (pj_plan pending), jp_next_voters (pj_plan pending)]"
    "acknowledged frontier pending"
  using assms(2,3) history_membership_config [OF assms(1)] by (auto simp: joint_successors_def Let_def)

text \<open>The three ways a membership entry passes: nothing changes, a stage of the join begins from its stable
  membership, or the joint membership is left.\<close>

lemma transition_cases:
  assumes "membership_new_ok mk" "transition mk h frontier src m lid = Inr src'"
  obtains (same) "m = sm_membership (so_membership src)" "src' = src\<lparr>so_membership := \<lparr>sm_log_id = Some lid, sm_membership = m\<rparr>\<rparr>"
  | (stage) pending where "so_pending src = Some pending" "stable_previous (sm_membership (so_membership src)) (pj_plan pending)"
      "get_joint_config m = [jp_previous_voters (pj_plan pending)] \<or>
       get_joint_config m = [jp_previous_voters (pj_plan pending), jp_next_voters (pj_plan pending)] \<and> acknowledged frontier pending"
      "src' = src\<lparr>so_membership := \<lparr>sm_log_id = Some lid, sm_membership = m\<rparr>\<rparr>"
  | (promoted) pending where "so_pending src = Some pending" "acknowledged frontier pending"
      "get_joint_config (sm_membership (so_membership src)) = [jp_previous_voters (pj_plan pending), jp_next_voters (pj_plan pending)]"
      "get_joint_config m = [jp_next_voters (pj_plan pending)]"
      "src' = src\<lparr>so_membership := \<lparr>sm_log_id = Some lid, sm_membership = m\<rparr>, so_pending := None\<rparr>"
proof (cases "m = sm_membership (so_membership src)")
  case True
  then show ?thesis using assms(2) same by (simp add: transition_def)
next
  case False
  then obtain pending where p: "so_pending src = Some pending" using assms(2) by (auto simp: transition_def Let_def split: option.splits)
  show ?thesis
  proof (cases "stable_previous (sm_membership (so_membership src)) (pj_plan pending)")
    case True
    then obtain permitted where "stable_successors mk h frontier pending (sm_membership (so_membership src)) = Inr permitted"
      "m \<in> set permitted" "src' = src\<lparr>so_membership := \<lparr>sm_log_id = Some lid, sm_membership = m\<rparr>\<rparr>"
      using assms(2) False p by (auto simp: transition_def Let_def)
    then show ?thesis using stage [OF p True] stable_successors_Inr [OF assms(1)] by blast
  next
    case unstable: False
    then obtain permitted where "joint_successors mk h frontier pending (so_membership src) = Inr permitted"
      "m \<in> set permitted" "src' = src\<lparr>so_membership := \<lparr>sm_log_id = Some lid, sm_membership = m\<rparr>, so_pending := None\<rparr>"
      using assms(2) False p by (auto simp: transition_def Let_def)
    then show ?thesis using promoted [OF p] joint_successors_Inr [OF assms(1)] by blast
  qed
qed

lemma transition_meets:
  assumes "membership_new_ok mk" "transition mk h frontier src m lid = Inr src'" "get_joint_config m \<noteq> []"
  shows "so_membership src' = \<lparr>sm_log_id = Some lid, sm_membership = m\<rparr> \<and> common_quorums (sm_membership (so_membership src)) m"
  using assms(1,2)
proof (cases rule: transition_cases)
  case same
  then show ?thesis using shared_config_meets [of "hd (get_joint_config m)" m m] assms(3) by simp
next
  case (stage pending)
  then show ?thesis using shared_config_meets [of "jp_previous_voters (pj_plan pending)"] by (auto simp: stable_previous_def)
next
  case (promoted pending)
  then show ?thesis using shared_config_meets [of "jp_next_voters (pj_plan pending)"] by simp
qed

lemma source_command_membership: "source_command frontier src c lid = Inr src' \<Longrightarrow> so_membership src' = so_membership src"
  by (cases c) (auto simp: Let_def split: option.splits if_splits)

lemma source_apply_membership:
  assumes "source_apply mk h au frontier src e = Inr src'"
  shows "case e_payload e of
      MembershipEntry m \<Rightarrow> \<exists>s. transition mk h frontier src m (e_log_id e) = Inr s \<and> src' = s\<lparr>so_cursor := Some (e_log_id e)\<rparr>
    | _ \<Rightarrow> so_membership src' = so_membership src"
  using assms by (auto simp: source_apply_def split: entry_payload.splits kaf_request.splits dest: source_command_membership)

lemma accepted_run_chain:
  assumes "membership_new_ok mk" "accepted_run mk h au frontier src es src'"
  shows "successively common_quorums (sm_membership (so_membership src) # memberships_of es) \<and>
    list_all one_boot_each (memberships_of es)"
  using assms(2)
proof (induction rule: accepted_run.induct)
  case (run_entry e src src1 es src2)
  show ?case
  proof (cases "e_payload e")
    case (MembershipEntry m)
    note data = history_data_membership [OF run_entry.hyps(1) MembershipEntry]
    then have "get_joint_config m \<noteq> []" by (simp add: one_boot_each_def)
    moreover obtain s where s: "transition mk h frontier src m (e_log_id e) = Inr s" "so_membership src1 = so_membership s"
      using source_apply_membership [OF run_entry.hyps(3)] MembershipEntry by auto
    ultimately have "so_membership src1 = \<lparr>sm_log_id = Some (e_log_id e), sm_membership = m\<rparr>" "common_quorums (sm_membership (so_membership src)) m"
      using transition_meets [OF assms(1) s(1)] by simp_all
    then show ?thesis using run_entry.IH data(1) by (simp add: MembershipEntry)
  qed (use run_entry.IH source_apply_membership [OF run_entry.hyps(3)] in simp_all)
qed simp

end
