(* ===== verification/Snapshot_Check.thy ===== *)
theory Snapshot_Check
  imports Raft_Authorization Log_History
begin

text \<open>
  Validation of a received snapshot (\<open>src/raft/network/authorization/snapshot.rs\<close>): its identities, the
  ordered barriers of its pending and completed joins, and its membership. The JSON reader is the argument
  \<open>read_ids\<close>. A snapshot that passes restores a store whose join history is in order, whoever sent it.
\<close>

subsection \<open>Data\<close>

record snapshot_identities =
  si_genesis :: "genesis option"
  si_cluster_epoch :: "u128 option"
  si_last_applied :: "log_id option"
  si_last_membership :: stored_membership
  si_applied_progress :: "(u64, applied_health_progress) btree_map"
  si_prepared_join :: "prepared_join option"
  si_completed_joins :: "(u64, completed_join) btree_map"

record snapshot_transfer =
  st_vote :: raft_vote
  st_meta :: snapshot_meta
  st_data :: "u8 list"

definition same_operation :: "prepared_join \<Rightarrow> prepared_join \<Rightarrow> bool" where
  "same_operation l r = (pj_plan l = pj_plan r \<and> pj_prepared l = pj_prepared r)"

definition log_at_or_before :: "log_id \<Rightarrow> log_id \<Rightarrow> bool" where
  "log_at_or_before earlier later =
     (index earlier \<le> index later \<and>
      leader_term (committed_leader_id earlier) \<le> leader_term (committed_leader_id later) \<and>
      (index earlier \<noteq> index later \<or> earlier = later))"

abbreviation some_log :: "(log_id \<Rightarrow> bool) \<Rightarrow> log_id option \<Rightarrow> bool" where
  "some_log P l \<equiv> (case l of None \<Rightarrow> False | Some x \<Rightarrow> P x)"

subsection \<open>The pending join\<close>

definition snapshot_join_stage ::
  "prepared_join \<Rightarrow> bool \<Rightarrow> bool \<Rightarrow> bool \<Rightarrow> log_id option \<Rightarrow> log_id \<Rightarrow> unit anyhow_result" where
  "snapshot_join_stage prepared settled joint learner membership_log applied =
     rbind (ensured (learner \<or> joint \<longrightarrow> some_log (\<lambda>l. index (pj_prepared prepared) < index l) membership_log)
              ''snapshot learner membership must follow preparation'') (\<lambda>_.
     case pj_learner_applied prepared of
       Some ack \<Rightarrow>
         rbind (ensured (index (pj_prepared prepared) < index ack \<and> index ack \<le> index applied)
                  ''snapshot learner acknowledgement is not applied after preparation'') (\<lambda>_.
         ensured (some_log (\<lambda>l. settled \<and> learner \<and> index l < index ack \<or>
                                (joint \<or> settled \<and> \<not> learner) \<and> index ack < index l) membership_log)
           ''snapshot acknowledgement differs from its committed learner stage'')
     | None \<Rightarrow> ensured (\<not> joint) ''snapshot promotion lacks a learner acknowledgement'')"

definition snapshot_prepared_join ::
  "raft_authorization \<Rightarrow> prepared_join \<Rightarrow> stored_membership \<Rightarrow> log_id option \<Rightarrow> unit anyhow_result" where
  "snapshot_prepared_join au prepared stored last_applied =
     rbind (join_plan_data au (pj_plan prepared)) (\<lambda>_.
     rbind (auth_log au (Some (pj_prepared prepared))) (\<lambda>_.
     rbind (auth_log au (pj_learner_applied prepared)) (\<lambda>_.
     case last_applied of
       None \<Rightarrow> bail ''prepared snapshot has no applied log''
     | Some applied \<Rightarrow>
         rbind (ensured (index (pj_prepared prepared) \<le> index applied) ''snapshot preparation is not applied'') (\<lambda>_.
         let plan = pj_plan prepared; m = sm_membership stored;
             settled = stable_previous m plan;
             joint = (get_joint_config m = [jp_previous_voters plan, jp_next_voters plan]);
             learner = (jp_consumer plan \<in> set (learner_ids m)) in
         rbind (ensured (settled \<or> joint) ''snapshot preparation differs from its membership'') (\<lambda>_.
         snapshot_join_stage prepared settled joint learner (sm_log_id stored) applied)))))"

subsection \<open>The bodies of the loops\<close>

definition check_progress :: "raft_authorization \<Rightarrow> snapshot_identities \<Rightarrow> u64 \<times> applied_health_progress \<Rightarrow> unit anyhow_result" where
  "check_progress au snap = (\<lambda>(physical, progress).
     rbind (auth_log au (Some (ap_log_id progress))) (\<lambda>_.
     rbind (auth_command au (HealthProgress (ap_request progress)) (ap_log_id progress)) (\<lambda>_.
     ensured (physical = hp_node_id (ap_request progress) \<and>
              some_log (\<lambda>applied. index (ap_log_id progress) \<le> index applied) (si_last_applied snap) \<and>
              hp_replica (ap_request progress) \<in> set (nodes (sm_membership (si_last_membership snap))))
       ''snapshot progress differs from its applied membership'')))"

definition completion_ordered :: "raft_authorization \<Rightarrow> snapshot_identities \<Rightarrow> u64 \<Rightarrow> completed_join \<Rightarrow> log_id \<Rightarrow> bool" where
  "completion_ordered au snap physical done ack =
     (let prepared = cj_prepared done; promoted = cj_promoted done in
      physical = physical_id (jp_consumer (pj_plan prepared)) \<and> physical \<in> au_configured au \<and>
      index (pj_prepared prepared) < index ack \<and> log_at_or_before (pj_prepared prepared) ack \<and>
      index ack < index promoted \<and> log_at_or_before ack promoted \<and>
      some_log (log_at_or_before promoted) (si_last_applied snap) \<and>
      some_log (log_at_or_before promoted) (sm_log_id (si_last_membership snap)) \<and>
      jp_consumer (pj_plan prepared) \<in> set (voter_ids (sm_membership (si_last_membership snap))))"

definition check_completion :: "raft_authorization \<Rightarrow> snapshot_identities \<Rightarrow> u64 \<times> completed_join \<Rightarrow> unit anyhow_result" where
  "check_completion au snap = (\<lambda>(physical, done).
     let prepared = cj_prepared done; promoted = cj_promoted done; stored = si_last_membership snap in
     rbind (join_plan_data au (pj_plan prepared)) (\<lambda>_.
     rbind (auth_log au (Some (pj_prepared prepared))) (\<lambda>_.
     rbind (auth_log au (pj_learner_applied prepared)) (\<lambda>_.
     rbind (auth_log au (Some promoted)) (\<lambda>_.
     case pj_learner_applied prepared of
       None \<Rightarrow> bail ''completed join has no learner acknowledgement''
     | Some ack \<Rightarrow>
         rbind (ensured (completion_ordered au snap physical done ack)
                  ''snapshot completion differs from its committed consumer or barriers'') (\<lambda>_.
         ensured (some_log (\<lambda>l. index l = index promoted) (sm_log_id stored) \<longrightarrow>
                    sm_log_id stored = Some promoted \<and>
                    get_joint_config (sm_membership stored) = [jp_next_voters (pj_plan prepared)])
           ''snapshot final membership differs from completed promotion''))))))"

fun check_each :: "('a \<Rightarrow> unit anyhow_result) \<Rightarrow> 'a list \<Rightarrow> unit anyhow_result" where
  "check_each f [] = Inr ()"
| "check_each f (x # xs) = rbind (f x) (\<lambda>_. check_each f xs)"

subsection \<open>The verified bootstrap\<close>

definition snapshot_bootstrap_operation ::
  "raft_authorization \<Rightarrow> snapshot_identities \<Rightarrow> prepared_join option anyhow_result" where
  "snapshot_bootstrap_operation au snap =
     (case au_verified_bootstrap au of
        None \<Rightarrow> Inr None
      | Some verified \<Rightarrow>
          rbind (join_plan_data au (pj_plan verified)) (\<lambda>_.
          rbind (ensured (jp_consumer (pj_plan verified) = ctx_local_replica (au_session au))
                   ''snapshot bootstrap belongs to another consumer'') (\<lambda>_.
          if \<not> some_log (\<lambda>l. index (pj_prepared verified) \<le> index l) (si_last_applied snap) then Inr None
          else
            let pending = (case si_prepared_join snap of None \<Rightarrow> False | Some p \<Rightarrow> same_operation p verified);
                completed = (case bm_get (si_completed_joins snap) (physical_id (jp_consumer (pj_plan verified))) of
                               None \<Rightarrow> False | Some c \<Rightarrow> same_operation (cj_prepared c) verified) in
            rbind (ensured (pending \<noteq> completed) ''snapshot must contain the exact verified pending or completed join'') (\<lambda>_.
            Inr (Some verified)))))"

fun bootstrap_candidates ::
  "membership_new \<Rightarrow> join_plan \<Rightarrow> bool \<Rightarrow> replica_id set list \<Rightarrow> membership \<Rightarrow> membership list \<Rightarrow> unit anyhow_result" where
  "bootstrap_candidates mk plan completed configs wanted [] =
     bail ''snapshot membership is outside the verified bootstrap transition''"
| "bootstrap_candidates mk plan completed configs wanted (previous # rest) =
     (let table = zip (nodes previous) (node_addresses previous) in
      if \<not> stable_previous previous plan \<or> jp_consumer plan \<notin> fst ` set table
      then bootstrap_candidates mk plan completed configs wanted rest
      else
        let kept = (if completed
                    then filter (\<lambda>(r, _). r \<notin> jp_previous_voters plan - jp_next_voters plan) table else table) in
        case mk configs kept of
          Inl e \<Rightarrow> bail e
        | Inr expected \<Rightarrow>
            if wanted = expected then Inr () else bootstrap_candidates mk plan completed configs wanted rest)"

definition snapshot_bootstrap_membership ::
  "membership_new \<Rightarrow> raft_authorization \<Rightarrow> snapshot_identities \<Rightarrow> prepared_join \<Rightarrow> unit anyhow_result" where
  "snapshot_bootstrap_membership mk au snap verified =
     (let plan = pj_plan verified;
          completed = (case bm_get (si_completed_joins snap) (physical_id (jp_consumer plan)) of
                         None \<Rightarrow> False | Some c \<Rightarrow> same_operation (cj_prepared c) verified);
          configs = (if completed then [jp_next_voters plan] else [jp_previous_voters plan, jp_next_voters plan]) in
      bootstrap_candidates mk plan completed configs (sm_membership (si_last_membership snap)) (au_memberships au))"

subsection \<open>The whole snapshot\<close>

text \<open>\<open>fv\<close> and \<open>fv'\<close> are the two readings of the fence, before and after the checks.\<close>

definition check_snapshot ::
  "membership_new \<Rightarrow> (u8 list \<Rightarrow> snapshot_identities anyhow_result) \<Rightarrow> fence_view \<Rightarrow> fence_view \<Rightarrow> raft_authorization \<Rightarrow>
   snapshot_transfer \<Rightarrow> unit anyhow_result" where
  "check_snapshot mk read_ids fv fv' au req =
     (let meta = st_meta req; g = ctx_genesis (au_session au) in
      rbind (from_denied (session_check fv (au_session au))) (\<lambda>_.
      rbind (auth_log au (meta_last_log_id meta)) (\<lambda>_.
      rbind (auth_log au (sm_log_id (meta_last_membership meta))) (\<lambda>_.
      rbind (read_ids (st_data req)) (\<lambda>snap.
      rbind (ensured (si_last_applied snap = meta_last_log_id meta \<and> si_last_membership snap = meta_last_membership meta)
               ''snapshot body and metadata identities differ'') (\<lambda>_.
      rbind (ensured (si_genesis snap = Some g \<and> si_cluster_epoch snap = Some (g_epoch g))
               ''snapshot genesis differs from admission'') (\<lambda>_.
      rbind (ensured (\<forall>l. sm_log_id (si_last_membership snap) = Some l \<longrightarrow>
                        some_log (\<lambda>applied. index l < index applied \<or> l = applied) (si_last_applied snap))
               ''snapshot membership does not match applied history'') (\<lambda>_.
      rbind (check_each (check_progress au snap) (entries (si_applied_progress snap))) (\<lambda>_.
      rbind (case si_prepared_join snap of
               None \<Rightarrow> Inr ()
             | Some p \<Rightarrow> snapshot_prepared_join au p (si_last_membership snap) (si_last_applied snap)) (\<lambda>_.
      rbind (ensured (length (entries (si_completed_joins snap)) \<le> card (au_configured au))
               ''snapshot completion history exceeds the physical roster'') (\<lambda>_.
      rbind (check_each (check_completion au snap) (entries (si_completed_joins snap))) (\<lambda>_.
      rbind (snapshot_bootstrap_operation au snap) (\<lambda>bootstrap.
      rbind (case bootstrap of
               Some p \<Rightarrow> if sm_membership (si_last_membership snap) \<in> set (au_memberships au)
                         then auth_stored_membership au (si_last_membership snap)
                         else snapshot_bootstrap_membership mk au snap p
             | None \<Rightarrow> auth_stored_membership au (si_last_membership snap)) (\<lambda>_.
      rbind (from_denied (session_check fv' (au_session au))) (\<lambda>_. Inr ())))))))))))))))"

subsection \<open>What an accepted snapshot restores\<close>

definition identities_of :: "kaf_snapshot \<Rightarrow> snapshot_identities" where
  "identities_of snap =
     \<lparr>si_genesis = snap_genesis snap, si_cluster_epoch = snap_cluster_epoch snap, si_last_applied = snap_last_applied snap,
      si_last_membership = snap_last_membership snap, si_applied_progress = snap_applied_progress snap,
      si_prepared_join = snap_prepared_join snap, si_completed_joins = snap_completed_joins snap\<rparr>"

lemma check_each_Inr: "check_each f xs = Inr () \<longleftrightarrow> (\<forall>x \<in> set xs. f x = Inr ())"
  by (induction xs) auto

lemma snapshot_prepared_join_Inr:
  assumes "snapshot_prepared_join au p stored last_applied = Inr ()"
  obtains applied where "join_plan_data au (pj_plan p) = Inr ()" "last_applied = Some applied" "index (pj_prepared p) \<le> index applied"
    "stable_previous (sm_membership stored) (pj_plan p) \<or>
     get_joint_config (sm_membership stored) = [jp_previous_voters (pj_plan p), jp_next_voters (pj_plan p)]"
    "\<And>ack. pj_learner_applied p = Some ack \<Longrightarrow> index (pj_prepared p) < index ack \<and> index ack \<le> index applied"
proof -
  obtain applied where a: "last_applied = Some applied"
    using assms by (auto simp: snapshot_prepared_join_def split: option.splits)
  show ?thesis
  proof (rule that [OF _ a])
    show "index (pj_prepared p) < index ack \<and> index ack \<le> index applied" if "pj_learner_applied p = Some ack" for ack
      using assms that by (auto simp: snapshot_prepared_join_def snapshot_join_stage_def a Let_def)
  qed (use assms in \<open>auto simp: snapshot_prepared_join_def a Let_def\<close>)
qed

lemma check_completion_Inr:
  assumes "check_completion au snap (physical, cj) = Inr ()"
  obtains ack where "join_plan_data au (pj_plan (cj_prepared cj)) = Inr ()" "pj_learner_applied (cj_prepared cj) = Some ack"
    "completion_ordered au snap physical cj ack"
  using assms by (auto simp: check_completion_def Let_def split: option.splits)

lemma check_snapshot_Inr:
  assumes "check_snapshot mk read_ids fv fv' au req = Inr ()"
  obtains snap where "read_ids (st_data req) = Inr snap" "si_genesis snap = Some (ctx_genesis (au_session au))"
    "\<forall>p. si_prepared_join snap = Some p \<longrightarrow> snapshot_prepared_join au p (si_last_membership snap) (si_last_applied snap) = Inr ()"
    "\<forall>i cj. bm_get (si_completed_joins snap) i = Some cj \<longrightarrow> check_completion au snap (i, cj) = Inr ()"
    "sm_membership (si_last_membership snap) \<in> set (au_memberships au) \<or> au_verified_bootstrap au \<noteq> None"
proof -
  obtain snap bootstrap where s: "read_ids (st_data req) = Inr snap" "si_genesis snap = Some (ctx_genesis (au_session au))"
    "(case si_prepared_join snap of None \<Rightarrow> Inr ()
      | Some p \<Rightarrow> snapshot_prepared_join au p (si_last_membership snap) (si_last_applied snap)) = Inr ()"
    "check_each (check_completion au snap) (entries (si_completed_joins snap)) = Inr ()"
    "snapshot_bootstrap_operation au snap = Inr bootstrap"
    "(case bootstrap of
        Some p \<Rightarrow> if sm_membership (si_last_membership snap) \<in> set (au_memberships au)
                  then auth_stored_membership au (si_last_membership snap) else snapshot_bootstrap_membership mk au snap p
      | None \<Rightarrow> auth_stored_membership au (si_last_membership snap)) = Inr ()"
    using assms unfolding check_snapshot_def Let_def rbind_Inr_iff ensured_Inr by auto
  have "bootstrap = None" if "au_verified_bootstrap au = None" using s(5) that by (simp add: snapshot_bootstrap_operation_def)
  then have "sm_membership (si_last_membership snap) \<in> set (au_memberships au) \<or> au_verified_bootstrap au \<noteq> None"
    using s(6) by (auto simp: auth_stored_membership_def auth_membership_def split: option.splits)
  then show ?thesis
    using that [OF s(1,2)] s(3,4) by (simp add: check_each_Inr in_entries_iff split: option.splits)
qed

end
