(* ===== verification/Authorization_State.thy ===== *)
theory Authorization_State
  imports Replication_Replay Snapshot_Check
begin

text \<open>
  The authorization of one peer, built from the local admission and the applied state
  (\<open>src/raft/network/authorization/state.rs\<close>), and the dispatch of a request or response to the checks
  (\<open>validate_request\<close> and \<open>validate_response\<close> of \<open>src/raft/network/authorization.rs\<close>).
\<close>

subsection \<open>Building the view\<close>

definition make_membership ::
  "membership_new \<Rightarrow> config \<Rightarrow> replica_id set list \<Rightarrow> replica_id set \<Rightarrow> membership admitted" where
  "make_membership mk cfg configs ids =
     (if \<forall>r \<in> ids. get_peer cfg (physical_id r) \<noteq> None
      then case mk configs (map (\<lambda>r. (r, raft_address (the (get_peer cfg (physical_id r))))) (sorted_list_of_set ids)) of
             Inl _ \<Rightarrow> Inl (AdmissionDenied ''invalid authorized membership'')
           | Inr m \<Rightarrow> Inr m
      else Inl (AdmissionDenied ''membership contains an unconfigured physical member''))"

definition bound_context ::
  "(u8 list \<Rightarrow> bytes32) \<Rightarrow> config \<Rightarrow> kaf_storage_state \<Rightarrow> admission_context \<Rightarrow> prepared_join option \<Rightarrow> unit admitted" where
  "bound_context sha cfg st ctx bootstrap =
     (let unbound = AdmissionDenied ''authorization context or bootstrap is not bound to applied state''; g = ctx_genesis ctx in
      if physical_id (ctx_local_replica ctx) \<noteq> cfg_node_id cfg then Inl unbound
      else case cluster_config_fingerprint sha cfg of
        Inl _ \<Rightarrow> Inl (AdmissionDenied ''invalid local configuration'')
      | Inr fp \<Rightarrow>
          ensure (g_config g = fp \<and>
                  (case genesis st of None \<Rightarrow> True | Some g' \<Rightarrow> g' = g) \<and>
                  (case cluster_epoch st of None \<Rightarrow> True | Some epoch \<Rightarrow> epoch = g_epoch g) \<and>
                  (case bootstrap of
                     None \<Rightarrow> True
                   | Some p \<Rightarrow> jp_consumer (pj_plan p) = ctx_local_replica ctx \<and> jp_genesis (pj_plan p) = g \<and>
                              pj_learner_applied p = None)) unbound)"

text \<open>A bootstrap counts until its preparation is applied; from then on the applied history must contain it.\<close>

definition bootstrapping :: "kaf_storage_state \<Rightarrow> prepared_join option \<Rightarrow> prepared_join option" where
  "bootstrapping st bootstrap =
     (case bootstrap of
        None \<Rightarrow> None
      | Some p \<Rightarrow> if some_log (\<lambda>l. index (pj_prepared p) \<le> index l) (last_applied_log st) then None else Some p)"

definition applied_bootstrap ::
  "kaf_storage_state \<Rightarrow> admission_context \<Rightarrow> prepared_join option \<Rightarrow> unit admitted" where
  "applied_bootstrap st ctx bootstrap =
     (case bootstrap of
        None \<Rightarrow> Inr ()
      | Some p \<Rightarrow>
          if bootstrapping st bootstrap \<noteq> None then Inr ()
          else ensure
            ((case prepared_join st of None \<Rightarrow> False | Some pending \<Rightarrow> same_operation pending p) \<or>
             (case bm_get (completed_joins st) (physical_id (ctx_local_replica ctx)) of
                None \<Rightarrow> False | Some receipt \<Rightarrow> same_operation (cj_prepared receipt) p))
            (AdmissionDenied ''applied history does not contain the verified join''))"

definition committed_view ::
  "membership_new \<Rightarrow> config \<Rightarrow> kaf_storage_state \<Rightarrow> admission_context \<Rightarrow> prepared_join option \<Rightarrow> stored_membership admitted" where
  "committed_view mk cfg st ctx boot =
     (let g = ctx_genesis ctx in
      rbind
        (if voter_ids (sm_membership (last_membership st)) = []
         then rbind (ensure (boot \<noteq> None \<or> ctx_local_replica ctx \<in> g_voters g)
                       (AdmissionDenied ''bootstrap requires a verified exact join roster'')) (\<lambda>_.
              rbind (make_membership mk cfg [g_voters g] (g_voters g)) (\<lambda>m.
              Inr \<lparr>sm_log_id = None, sm_membership = m\<rparr>))
         else Inr (last_membership st)) (\<lambda>stored.
      rbind (ensure (\<forall>l. sm_log_id stored = Some l \<longrightarrow> some_log (\<lambda>applied. index l \<le> index applied) (last_applied_log st))
               (AdmissionDenied ''membership is not committed locally'')) (\<lambda>_.
      rbind (make_membership mk cfg (get_joint_config (sm_membership stored)) (set (nodes (sm_membership stored)))) (\<lambda>m.
      rbind (ensure (m = sm_membership stored) (AdmissionDenied ''membership addresses differ from configured roster'')) (\<lambda>_.
      Inr stored)))))"

text \<open>The memberships that a joining boot without applied history may see.\<close>

definition bootstrap_memberships ::
  "membership_new \<Rightarrow> config \<Rightarrow> prepared_join option \<Rightarrow> raft_authorization \<Rightarrow> raft_authorization admitted" where
  "bootstrap_memberships mk cfg boot au =
     (case boot of
        None \<Rightarrow> Inr au
      | Some p \<Rightarrow>
          let plan = pj_plan p; previous = jp_previous_voters plan in
          rbind (ensure (join_plan_data au plan = Inr ()) (AdmissionDenied ''invalid verified bootstrap roster'')) (\<lambda>_.
          rbind (make_membership mk cfg [previous] previous) (\<lambda>m1.
          rbind (make_membership mk cfg [previous] (insert (jp_consumer plan) previous)) (\<lambda>m2.
          Inr (au\<lparr>au_voters := previous, au_memberships := au_memberships au @ [m1, m2]\<rparr>)))))"

text \<open>The memberships that may follow the committed one while a join is pending.\<close>

definition pending_successors ::
  "membership_new \<Rightarrow> config \<Rightarrow> prepared_join \<Rightarrow> membership \<Rightarrow> membership list admitted" where
  "pending_successors mk cfg pending current =
     (let plan = pj_plan pending; previous = jp_previous_voters plan; ids = set (nodes current);
          learners = insert (jp_consumer plan) ids in
      if stable_previous current plan
      then rbind (make_membership mk cfg [previous] learners) (\<lambda>with_learner.
           rbind (make_membership mk cfg [previous] (ids - {jp_consumer plan})) (\<lambda>removed.
           if pj_learner_applied pending \<noteq> None \<and> jp_consumer plan \<in> set (learner_ids current)
           then rbind (make_membership mk cfg [previous, jp_next_voters plan] learners) (\<lambda>joint.
                Inr [with_learner, removed, joint])
           else Inr [with_learner, removed]))
      else if pj_learner_applied pending \<noteq> None
      then rbind (make_membership mk cfg [jp_next_voters plan] (ids - (previous - jp_next_voters plan))) (\<lambda>promoted.
           Inr [promoted])
      else Inr [])"

definition pending_memberships ::
  "membership_new \<Rightarrow> config \<Rightarrow> kaf_storage_state \<Rightarrow> membership \<Rightarrow> raft_authorization \<Rightarrow> raft_authorization admitted" where
  "pending_memberships mk cfg st current au =
     (case prepared_join st of
        None \<Rightarrow>
          rbind (ensure (length (get_joint_config current) = 1)
                   (AdmissionDenied ''joint membership lacks a committed join operation'')) (\<lambda>_. Inr au)
      | Some pending \<Rightarrow>
          rbind (ensure (snapshot_prepared_join au pending (au_committed_membership au) (au_last_applied au) = Inr ())
                   (AdmissionDenied ''pending join has no consistent committed barriers'')) (\<lambda>_.
          rbind (pending_successors mk cfg pending current) (\<lambda>successors.
          Inr (au\<lparr>au_log_replicas := au_log_replicas au \<union> (jp_previous_voters (pj_plan pending) \<union> jp_next_voters (pj_plan pending)),
                  au_memberships := au_memberships au @ successors\<rparr>))))"

definition known_leaders :: "kaf_storage_state \<Rightarrow> replica_id set" where
  "known_leaders st =
     (\<lambda>l. leader_node (committed_leader_id l)) `
       set (List.map_filter id [last_purged_log_id st, last_applied_log st, committed st, sm_log_id (last_membership st)])"

definition admitted_peer ::
  "prepared_join option \<Rightarrow> replica_id set \<Rightarrow> replica_id \<Rightarrow> prepared_join option \<Rightarrow> bool" where
  "admitted_peer boot ids peer pending =
     ((case boot of Some p \<Rightarrow> peer \<in> jp_previous_voters (pj_plan p) | None \<Rightarrow> peer \<in> ids) \<or>
      (case pending of None \<Rightarrow> False | Some p \<Rightarrow> jp_consumer (pj_plan p) = peer))"

definition from_state ::
  "fence_view \<Rightarrow> (u8 list \<Rightarrow> bytes32) \<Rightarrow> membership_new \<Rightarrow> config \<Rightarrow> kaf_storage_state \<Rightarrow> replica_id \<Rightarrow>
   prepared_join option \<Rightarrow> raft_authorization admitted" where
  "from_state fv sha mk cfg st peer bootstrap =
     (case admission st of
        None \<Rightarrow> Inl (AdmissionDenied ''no active admission session'')
      | Some ctx \<Rightarrow>
          let configured = peer_id ` set (cfg_peers cfg); g = ctx_genesis ctx in
          rbind (session_check fv ctx) (\<lambda>_.
          rbind (validate_roster g configured) (\<lambda>_.
          rbind (bound_context sha cfg st ctx bootstrap) (\<lambda>_.
          rbind (case bootstrap of None \<Rightarrow> Inr () | Some p \<Rightarrow> validate_plan (pj_plan p)) (\<lambda>_.
          let boot = bootstrapping st bootstrap in
          rbind (applied_bootstrap st ctx bootstrap) (\<lambda>_.
          rbind (committed_view mk cfg st ctx boot) (\<lambda>stored.
          let current = sm_membership stored; ids = set (nodes current);
              au0 = \<lparr>au_session = ctx, au_peer = peer, au_configured = configured, au_voters = set (voter_ids current),
                     au_log_replicas = g_voters g \<union> ids, au_memberships = [current], au_committed_membership = stored,
                     au_last_applied = last_applied_log st, au_prepared_join = prepared_join st,
                     au_verified_bootstrap = bootstrap, au_replication = Some (history_from_state cfg st)\<rparr> in
          rbind (bootstrap_memberships mk cfg boot au0) (\<lambda>au1.
          rbind (pending_memberships mk cfg st current au1) (\<lambda>au2.
          rbind (ensure (admitted_peer boot ids peer (prepared_join st))
                   (AdmissionDenied ''peer is not an exact committed member or prepared learner'')) (\<lambda>_.
          Inr (au2\<lparr>au_log_replicas := au_log_replicas au2 \<union> known_leaders st\<rparr>)))))))))))"

subsection \<open>Requests and responses\<close>

record vote_request =
  vr_vote :: raft_vote
  vr_last_log_id :: "log_id option"

datatype raft_request =
    RaftStatus
  | RaftAdmission
  | RaftAdmissionControl
  | RaftPreVote vote_request
  | RaftAppendEntries append_request
  | RaftSnapshot snapshot_transfer
  | RaftVoteRequest vote_request

text \<open>Without a history the entries are checked one by one against the authorized memberships.\<close>

definition check_entry :: "raft_authorization \<Rightarrow> log_entry \<Rightarrow> unit anyhow_result" where
  "check_entry au e =
     rbind (auth_log au (Some (e_log_id e))) (\<lambda>_.
     case e_payload e of
       MembershipEntry m \<Rightarrow> auth_membership au m
     | Normal command \<Rightarrow> auth_command au command (e_log_id e)
     | Blank \<Rightarrow> Inr ())"

definition validate_request ::
  "membership_new \<Rightarrow> (u8 list \<Rightarrow> snapshot_identities anyhow_result) \<Rightarrow> fence_view list \<Rightarrow> raft_authorization \<Rightarrow> replica_id \<Rightarrow>
   raft_request \<Rightarrow> unit anyhow_result" where
  "validate_request mk read_ids fvs au sender request =
     rbind (from_denied (session_check (fvs ! 0) (au_session au))) (\<lambda>_.
     case request of
       RaftPreVote req \<Rightarrow> rbind (sender_vote au sender (vr_vote req)) (\<lambda>_. auth_log au (vr_last_log_id req))
     | RaftVoteRequest req \<Rightarrow> rbind (sender_vote au sender (vr_vote req)) (\<lambda>_. auth_log au (vr_last_log_id req))
     | RaftAppendEntries req \<Rightarrow>
         rbind (sender_vote au sender (ar_vote req)) (\<lambda>_.
         rbind (auth_log au (ar_prev_log_id req)) (\<lambda>_.
         rbind (auth_log au (ar_leader_commit req)) (\<lambda>_.
         case au_replication au of
           Some history \<Rightarrow> history_validate mk history au req
         | None \<Rightarrow> check_each (check_entry au) (ar_entries req))))
     | RaftSnapshot req \<Rightarrow>
         rbind (sender_vote au sender (st_vote req)) (\<lambda>_. check_snapshot mk read_ids (fvs ! 1) (fvs ! 2) au req)
     | _ \<Rightarrow> bail ''discovery is not Raft authorization'')"

datatype append_response = AppendSuccess | AppendPartial "log_id option" | AppendConflict | AppendHigherVote raft_vote

datatype raft_response =
    PreVoteResponse raft_vote "log_id option"
  | VoteResponse raft_vote "log_id option"
  | AppendResponse append_response
  | SnapshotResponse raft_vote

definition validate_response ::
  "(u8 list \<Rightarrow> raft_response anyhow_result) \<Rightarrow> fence_view \<Rightarrow> raft_authorization \<Rightarrow> u8 list \<Rightarrow> unit anyhow_result" where
  "validate_response read_response fv au bytes =
     rbind (from_denied (session_check fv (au_session au))) (\<lambda>_.
     rbind (read_response bytes) (\<lambda>response.
     case response of
       PreVoteResponse v l \<Rightarrow> rbind (auth_vote au v) (\<lambda>_. auth_log au l)
     | VoteResponse v l \<Rightarrow> rbind (auth_vote au v) (\<lambda>_. auth_log au l)
     | SnapshotResponse v \<Rightarrow> auth_vote au v
     | AppendResponse r \<Rightarrow>
         (case r of
            AppendHigherVote v \<Rightarrow> auth_vote au v
          | AppendPartial l \<Rightarrow> auth_log au l
          | AppendSuccess \<Rightarrow> Inr ()
          | AppendConflict \<Rightarrow> Inr ())))"

end
