(* ===== verification/Replay_Simulation.thy ===== *)
theory Replay_Simulation
  imports Authorization_State Log_Store
begin

text \<open>
  The replay of a request against the state machine. The source state that \<open>Replication_Replay\<close> computes for
  an accepted request is the membership, the pending join and the cursor that the state machine reaches when
  it applies the same entries, and the state machine rejects none of their admission commands.
\<close>

subsection \<open>Frames of the state machine\<close>

definition same_joins :: "kaf_storage_state \<Rightarrow> kaf_storage_state \<Rightarrow> bool" where
  "same_joins a b =
     (last_membership a = last_membership b \<and> prepared_join a = prepared_join b \<and> genesis a = genesis b \<and>
      last_applied_log a = last_applied_log b)"

lemma same_joins_recompute: "same_joins (recompute st) st"
  by (simp add: same_joins_def joins_frame applied_frame)

lemma same_joins_health: "same_joins (apply_health i b st) st"
  by (simp add: same_joins_def apply_health_def Let_def)

lemma same_joins_activate: "same_joins (activate_v2 st) st"
  by (simp add: same_joins_def activate_v2_def Let_def)

lemma same_joins_request:
  assumes "auth_command au req lid = Inr ()" "genesis st = Some (ctx_genesis (au_session au))"
    and "\<And>c. req \<noteq> AdmissionMembership c"
  shows "same_joins (fst (apply_request req lid st)) st"
proof (cases req)
  case (HealthProgress p)
  then show ?thesis
    using same_joins_health [of "hp_node_id p"] by (auto simp: same_joins_def Let_def split: option.split)
next
  case (AdmissionGenesis g)
  then have "g = ctx_genesis (au_session au)" using assms(1) by (simp add: auth_command_def Let_def)
  then show ?thesis using AdmissionGenesis assms(2) by (simp add: same_joins_def Let_def)
next
  case (ClusterFormed i s b)
  then show ?thesis
    using same_joins_activate [of "st\<lparr>cluster_epoch := Some i, config_identity_enforced := (config_identity_enforced st \<or> b)\<rparr>"]
    by (simp add: same_joins_def Let_def)
next
  case (HealthUpdate i b)
  then show ?thesis using same_joins_health [of i b st] by (simp add: same_joins_def)
next
  case (VipReleased i v g)
  then show ?thesis by (simp add: same_joins_def split: option.split)
next
  case EnableFailoverSemanticsV2
  then show ?thesis using same_joins_activate [of st] by simp
qed (use assms(3) in \<open>simp_all add: same_joins_def\<close>)

subsection \<open>The simulation relation\<close>

definition tracks :: "kaf_storage_state \<Rightarrow> source_state \<Rightarrow> bool" where
  "tracks st src =
     (last_membership st = so_membership src \<and> prepared_join st = so_pending src \<and> last_applied_log st = so_cursor src)"

definition pending_in_order :: "raft_authorization \<Rightarrow> source_state \<Rightarrow> prepared_join \<Rightarrow> bool" where
  "pending_in_order au src p =
     (validate_plan (pj_plan p) = Inr () \<and> jp_genesis (pj_plan p) = ctx_genesis (au_session au) \<and>
      (stable_previous (sm_membership (so_membership src)) (pj_plan p) \<or>
       get_joint_config (sm_membership (so_membership src)) =
         [jp_previous_voters (pj_plan p), jp_next_voters (pj_plan p)]) \<and>
      some_log (\<lambda>c. index (pj_prepared p) \<le> index c \<and> (\<forall>ack. pj_learner_applied p = Some ack \<longrightarrow> index ack \<le> index c))
        (so_cursor src))"

definition source_ok :: "raft_authorization \<Rightarrow> source_state \<Rightarrow> bool" where
  "source_ok au src =
     (membership_ok (sm_membership (so_membership src)) \<and> (\<forall>p. so_pending src = Some p \<longrightarrow> pending_in_order au src p))"

lemma plan_changes_voters: "validate_plan p = Inr () \<Longrightarrow> jp_previous_voters p \<noteq> jp_next_voters p"
  by (auto simp: validate_plan_def Let_def split: if_splits)

lemma single_config_voters: "membership_ok m \<Longrightarrow> get_joint_config m = [c] \<Longrightarrow> set (voter_ids m) = c"
  by (simp add: membership_ok_def)

text \<open>Both sides agree on an admission command.\<close>

lemma simulate_command:
  assumes "source_command frontier src c lid = Inr src'" "history_command_data h au c lid = Inr ()"
    and "last_membership st = so_membership src" "prepared_join st = so_pending src"
    and g: "genesis st = Some (ctx_genesis (au_session au))" and ok: "source_ok au src"
    and cursor: "some_log (\<lambda>l. index l < index lid) (so_cursor src)"
  shows "snd (apply_admission_membership c lid st) = Ok \<and>
    last_membership (fst (apply_admission_membership c lid st)) = so_membership src' \<and>
    prepared_join (fst (apply_admission_membership c lid st)) = so_pending src' \<and>
    genesis (fst (apply_admission_membership c lid st)) = genesis st \<and>
    last_applied_log (fst (apply_admission_membership c lid st)) = last_applied_log st"
proof -
  let ?m = "sm_membership (so_membership src)"
  have voters: "set (voter_ids ?m) = jp_previous_voters plan \<and> length (get_joint_config ?m) = 1" if "stable_previous ?m plan" for plan
    using that ok single_config_voters [of ?m] by (simp add: source_ok_def stable_previous_def)
  show ?thesis
  proof (cases c)
    case (PrepareJoin plan)
    then have plan: "validate_plan plan = Inr ()" "jp_genesis plan = ctx_genesis (au_session au)"
      using assms(2) by (simp_all add: join_plan_data_Inr)
    show ?thesis
    proof (cases "so_pending src")
      case None
      then have st: "stable_previous ?m plan" and
        "src' = src\<lparr>so_pending := Some \<lparr>pj_plan = plan, pj_prepared = lid, pj_learner_applied = None\<rparr>\<rparr>"
        using assms(1) PrepareJoin by simp_all
      then show ?thesis using assms(3,4) g voters [OF st] plan PrepareJoin None by (simp add: Let_def)
    next
      case (Some pending)
      then have "pj_plan pending = plan" "src' = src" using assms(1) PrepareJoin by simp_all
      then show ?thesis using assms(3,4) g plan PrepareJoin Some by (simp add: Let_def)
    qed
  next
    case (CancelJoin plan prepared)
    then have plan: "jp_genesis plan = ctx_genesis (au_session au)" "\<not> index lid \<le> index prepared"
      using assms(2) by (simp_all add: join_plan_data_Inr not_le)
    obtain pending where p: "so_pending src = Some pending" using assms(1) CancelJoin by (cases "so_pending src") simp_all
    then have "pj_plan pending = plan" "pj_prepared pending = prepared" and st: "stable_previous ?m plan" and "jp_consumer plan \<notin> set (nodes ?m)"
      "src' = src\<lparr>so_pending := None\<rparr>"
      using assms(1) CancelJoin by (simp_all add: Let_def)
    then show ?thesis using assms(3,4) g voters [OF st] plan CancelJoin p by (simp add: Let_def)
  next
    case (LearnerApplied consumer nonce prepared)
    obtain pending where p: "so_pending src = Some pending" using assms(1) LearnerApplied by (cases "so_pending src") simp_all
    then have plan: "jp_genesis (pj_plan pending) = ctx_genesis (au_session au)" "\<not> index lid \<le> index prepared"
      using assms(2) ok LearnerApplied by (simp_all add: source_ok_def pending_in_order_def not_le)
    have same: "jp_consumer (pj_plan pending) = consumer" "jp_request_nonce (pj_plan pending) = nonce" "pj_prepared pending = prepared"
      using assms(1) LearnerApplied p by (simp_all add: Let_def)
    show ?thesis
    proof (cases "pj_learner_applied pending")
      case None
      then have st: "stable_previous ?m (pj_plan pending)" and "consumer \<in> set (learner_ids ?m)"
        "src' = src\<lparr>so_pending := Some (pending\<lparr>pj_learner_applied := Some lid\<rparr>)\<rparr>"
        using assms(1) LearnerApplied p by (simp_all add: Let_def)
      then show ?thesis using assms(3,4) g voters [OF st] plan LearnerApplied p same None by (simp add: Let_def)
    next
      case (Some ack)
      then have "src' = src" using assms(1) LearnerApplied p by (simp add: Let_def)
      then show ?thesis using assms(3,4) g plan LearnerApplied p same Some by (simp add: Let_def)
    qed
  qed
qed

lemma source_command_ok:
  assumes "source_command frontier src c lid = Inr src'" "history_command_data h au c lid = Inr ()" "source_ok au src"
    and cursor: "some_log (\<lambda>l. index l < index lid) (so_cursor src)"
  shows "source_ok au (src'\<lparr>so_cursor := Some lid\<rparr>)"
proof -
  obtain l where l: "so_cursor src = Some l" "index l \<le> index lid" using cursor by (auto split: option.splits)
  have m: "so_membership src' = so_membership src" by (rule source_command_membership [OF assms(1)])
  have "pending_in_order au (src'\<lparr>so_cursor := Some lid\<rparr>) p" if p: "so_pending src' = Some p" for p
  proof (cases "so_pending src")
    case None
    then obtain plan where plan: "c = PrepareJoin plan" "p = \<lparr>pj_plan = plan, pj_prepared = lid, pj_learner_applied = None\<rparr>"
      "stable_previous (sm_membership (so_membership src)) plan"
      using assms(1) p by (cases c) auto
    then show ?thesis using assms(2) by (simp add: pending_in_order_def join_plan_data_Inr m)
  next
    case (Some q)
    have pq: "p = q \<or> p = q\<lparr>pj_learner_applied := Some lid\<rparr>"
      using assms(1) p Some by (cases c) (auto simp: Let_def split: if_splits)
    have "pending_in_order au src q" using assms(3) Some by (simp add: source_ok_def)
    then show ?thesis using pq l by (auto simp: pending_in_order_def m)
  qed
  then show ?thesis using assms(3) by (simp add: source_ok_def m)
qed

lemma simulate_membership:
  assumes mk: "membership_new_ok mk" and "transition mk h frontier src m lid = Inr src'"
    and "last_membership st = so_membership src" "prepared_join st = so_pending src" and ok: "source_ok au src"
    and m: "membership_ok m" and cursor: "some_log (\<lambda>l. index l < index lid) (so_cursor src)"
  shows "prepared_join (complete_join m lid st) = so_pending src' \<and> source_ok au (src'\<lparr>so_cursor := Some lid\<rparr>)"
proof -
  obtain l where l: "so_cursor src = Some l" "index l < index lid" using cursor by (auto split: option.splits)
  have no_change: "\<not> (length (get_joint_config m) = 1 \<and> set (voter_ids m) = jp_next_voters (pj_plan p))"
    if p: "so_pending src = Some p" and c: "get_joint_config m = [jp_previous_voters (pj_plan p)] \<or>
      get_joint_config m = [jp_previous_voters (pj_plan p), jp_next_voters (pj_plan p)]" for p
    using c plan_changes_voters [of "pj_plan p"] ok p single_config_voters [OF m]
    by (auto simp: source_ok_def pending_in_order_def)
  have kept: "prepared_join (complete_join m lid st) = so_pending src \<and>
      source_ok au (src\<lparr>so_membership := \<lparr>sm_log_id = Some lid, sm_membership = m\<rparr>, so_cursor := Some lid\<rparr>)"
    if c: "\<And>p. so_pending src = Some p \<Longrightarrow> get_joint_config m = [jp_previous_voters (pj_plan p)] \<or>
      get_joint_config m = [jp_previous_voters (pj_plan p), jp_next_voters (pj_plan p)]"
  proof
    show "prepared_join (complete_join m lid st) = so_pending src"
    proof (cases "so_pending src")
      case (Some p)
      then show ?thesis using no_change [OF Some c [OF Some]] assms(4) by (simp add: complete_join_def)
    qed (simp add: complete_join_def assms(4))
    show "source_ok au (src\<lparr>so_membership := \<lparr>sm_log_id = Some lid, sm_membership = m\<rparr>, so_cursor := Some lid\<rparr>)"
      unfolding source_ok_def
    proof (intro conjI allI impI)
      fix p
      assume "so_pending (src\<lparr>so_membership := \<lparr>sm_log_id = Some lid, sm_membership = m\<rparr>, so_cursor := Some lid\<rparr>) = Some p"
      then have p: "so_pending src = Some p" by simp
      then have "pending_in_order au src p" using ok by (simp add: source_ok_def)
      then show "pending_in_order au (src\<lparr>so_membership := \<lparr>sm_log_id = Some lid, sm_membership = m\<rparr>, so_cursor := Some lid\<rparr>) p"
        using c [OF p] l by (auto simp: pending_in_order_def stable_previous_def)
    qed (simp add: m)
  qed
  show ?thesis
    using mk assms(2)
  proof (cases rule: transition_cases)
    case same
    have "get_joint_config m = [jp_previous_voters (pj_plan p)] \<or>
      get_joint_config m = [jp_previous_voters (pj_plan p), jp_next_voters (pj_plan p)]" if "so_pending src = Some p" for p
      using ok that same(1) by (simp add: source_ok_def pending_in_order_def stable_previous_def)
    from kept [OF this] show ?thesis using same(2) by simp
  next
    case (stage pending)
    have "get_joint_config m = [jp_previous_voters (pj_plan p)] \<or>
      get_joint_config m = [jp_previous_voters (pj_plan p), jp_next_voters (pj_plan p)]" if "so_pending src = Some p" for p
      using stage(1,3) that by auto
    from kept [OF this] show ?thesis using stage(4) by simp
  next
    case (promoted pending)
    then obtain ack where ack: "pj_learner_applied pending = Some ack" by (auto simp: acknowledged_def split: option.splits)
    then have "index ack < index lid" using ok promoted(1) l by (fastforce simp: source_ok_def pending_in_order_def)
    then have "prepared_join (complete_join m lid st) = None"
      using promoted(1,4) ack assms(4) single_config_voters [OF m] by (simp add: complete_join_def)
    then show ?thesis using promoted(5) m by (simp add: source_ok_def)
  qed
qed

subsection \<open>Entries and runs\<close>

fun join_command :: "entry_payload \<Rightarrow> admission_command option" where
  "join_command (Normal (AdmissionMembership c)) = Some c"
| "join_command _ = None"

lemma source_ok_advance:
  assumes "source_ok au src" "so_cursor src = Some l" "index l \<le> index lid"
  shows "source_ok au (src\<lparr>so_cursor := Some lid\<rparr>)"
proof -
  have "pending_in_order au (src\<lparr>so_cursor := Some lid\<rparr>) p" if "so_pending src = Some p" for p
  proof -
    have "pending_in_order au src p" using assms(1) that by (simp add: source_ok_def)
    then show ?thesis using assms(2,3) by (auto simp: pending_in_order_def)
  qed
  then show ?thesis using assms(1) by (simp add: source_ok_def)
qed

lemma simulate_entry:
  assumes mk: "membership_new_ok mk" and "history_data mk h au e = Inr ()" "after_cursor src e"
    and "source_apply mk h au frontier src e = Inr src'"
    and "tracks st src" "source_ok au src" and g: "genesis st = Some (ctx_genesis (au_session au))" and "so_cursor src \<noteq> None"
  shows "tracks (fst (apply_one e st)) src' \<and> source_ok au src' \<and> genesis (fst (apply_one e st)) = genesis st \<and>
    (join_command (e_payload e) \<noteq> None \<longrightarrow> snd (apply_one e st) = Ok)"
proof -
  let ?lid = "e_log_id e"
  let ?st = "st\<lparr>last_applied_log := Some ?lid\<rparr>"
  have cursor: "some_log (\<lambda>l. index l < index ?lid) (so_cursor src)"
    using assms(3,8) by (auto simp: after_cursor_def split: option.splits)
  have fields: "last_membership ?st = so_membership src" "prepared_join ?st = so_pending src"
    using assms(5) by (simp_all add: tracks_def)
  have advance: "source_ok au (src\<lparr>so_cursor := Some ?lid\<rparr>)"
    using source_ok_advance [OF assms(6)] cursor by (auto split: option.splits)
  have quiet: ?thesis if "src' = src\<lparr>so_cursor := Some ?lid\<rparr>" "same_joins (fst (apply_one e st)) ?st" "join_command (e_payload e) = None"
    using that fields advance by (simp add: same_joins_def tracks_def)
  have other: ?thesis if req: "e_payload e = Normal req" "\<And>c. req \<noteq> AdmissionMembership c" for req
  proof (rule quiet)
    have cmd: "auth_command au req ?lid = Inr ()" and src': "src' = src\<lparr>so_cursor := Some ?lid\<rparr>"
      using assms(4) req by (auto simp: source_apply_def split: kaf_request.splits)
    then show "src' = src\<lparr>so_cursor := Some ?lid\<rparr>" by simp
    have "same_joins (fst (apply_request req ?lid ?st)) ?st" by (rule same_joins_request [OF cmd]) (use g req in auto)
    then show "same_joins (fst (apply_one e st)) ?st"
      using same_joins_recompute by (auto simp: apply_one_def req(1) case_prod_beta same_joins_def)
    show "join_command (e_payload e) = None"
    proof (cases req)
      case (AdmissionMembership c)
      then show ?thesis using req(2) by blast
    qed (simp_all add: req(1))
  qed
  show ?thesis
  proof (cases "e_payload e")
    case Blank
    then show ?thesis using assms(4) by (intro quiet) (simp_all add: source_apply_def apply_one_def same_joins_def)
  next
    case (MembershipEntry m)
    note data = history_data_membership [OF assms(2) MembershipEntry]
    obtain s where s: "transition mk h frontier src m ?lid = Inr s" "src' = s\<lparr>so_cursor := Some ?lid\<rparr>"
      using source_apply_membership [OF assms(4)] MembershipEntry by auto
    have "membership_ok m" using history_membership_config [OF mk data(2)] by simp
    then have "prepared_join (complete_join m ?lid st) = so_pending s" "source_ok au src'"
      using simulate_membership [OF mk s(1) _ _ assms(6) _ cursor, of st] assms(5) s(2) by (simp_all add: tracks_def)
    then show ?thesis
      using join_fields(2) [OF MembershipEntry, of st] MembershipEntry s(2) transition_meets [OF mk s(1)] data(1)
      by (simp add: tracks_def one_boot_each_def)
  next
    case (Normal req)
    show ?thesis
    proof (cases "\<exists>c. req = AdmissionMembership c")
      case True
      then obtain c where c: "e_payload e = Normal (AdmissionMembership c)" using Normal by blast
      have s: "history_command_data h au c ?lid = Inr ()" using assms(2) c by (simp add: history_data_def)
      obtain s' where s': "source_command frontier src c ?lid = Inr s'" "src' = s'\<lparr>so_cursor := Some ?lid\<rparr>"
        using assms(4) c by (auto simp: source_apply_def)
      show ?thesis
        using simulate_command [OF s'(1) s fields _ assms(6) cursor] source_command_ok [OF s'(1) s assms(6) cursor] g c s'(2)
        by (simp add: tracks_def apply_one_def case_prod_beta)
    next
      case False
      show ?thesis by (rule other [OF Normal]) (use False in blast)
    qed
  qed
qed

fun join_responses :: "log_entry list \<Rightarrow> kaf_storage_state \<Rightarrow> kaf_response list" where
  "join_responses [] st = []"
| "join_responses (e # es) st =
     (if join_command (e_payload e) \<noteq> None then [snd (apply_one e st)] else []) @ join_responses es (fst (apply_one e st))"

lemma simulate_run:
  assumes mk: "membership_new_ok mk" and "accepted_run mk h au frontier src es src'"
    and "tracks st src" "source_ok au src" "genesis st = Some (ctx_genesis (au_session au))" "so_cursor src \<noteq> None"
  shows "tracks (apply_log es st) src' \<and> set (join_responses es st) \<subseteq> {Ok}"
  using assms(2-)
proof (induction arbitrary: st rule: accepted_run.induct)
  case (run_entry e src src1 es src2)
  note one = simulate_entry [OF mk run_entry.hyps(1,2,3) run_entry.prems]
  show ?case
    using run_entry.IH [of "fst (apply_one e st)"] one run_entry.prems(3) source_apply_cursor [OF run_entry.hyps(3)] by auto
qed simp

subsection \<open>Requests that pass\<close>

lemma bootstrap_memberships_Inr:
  "bootstrap_memberships mk cfg boot au = Inr au1 \<Longrightarrow> \<exists>v ms. au1 = au\<lparr>au_voters := v, au_memberships := ms\<rparr>"
proof (cases boot)
  case None
  then show "bootstrap_memberships mk cfg boot au = Inr au1 \<Longrightarrow> ?thesis"
    by (intro exI [of _ "au_voters au"] exI [of _ "au_memberships au"]) (simp add: bootstrap_memberships_def)
qed (auto simp: bootstrap_memberships_def Let_def)

lemma pending_memberships_Inr:
  assumes "pending_memberships mk cfg st current au = Inr au2"
  shows "(\<exists>r ms. au2 = au\<lparr>au_log_replicas := r, au_memberships := ms\<rparr>) \<and>
    (\<forall>p. prepared_join st = Some p \<longrightarrow> snapshot_prepared_join au p (au_committed_membership au) (au_last_applied au) = Inr ())"
proof (cases "prepared_join st")
  case None
  then have "au2 = au" using assms by (simp add: pending_memberships_def)
  then show ?thesis using None by (intro conjI exI [of _ "au_log_replicas au"] exI [of _ "au_memberships au"]) simp_all
qed (use assms in \<open>auto simp: pending_memberships_def\<close>)

lemma auth_frame:
  "auth_log (au\<lparr>au_voters := v\<rparr>) = auth_log au" "auth_log (au\<lparr>au_memberships := ms\<rparr>) = auth_log au"
  "auth_log (au\<lparr>au_log_replicas := r\<rparr>) = auth_log au" "join_plan_data (au\<lparr>au_voters := v\<rparr>) = join_plan_data au"
  "join_plan_data (au\<lparr>au_memberships := ms\<rparr>) = join_plan_data au" "join_plan_data (au\<lparr>au_log_replicas := r\<rparr>) = join_plan_data au"
  by (intro ext; simp add: auth_log_def join_plan_data_def cong: option.case_cong)+

lemma snapshot_prepared_join_frame:
  "snapshot_prepared_join (au\<lparr>au_voters := v\<rparr>) p m l = snapshot_prepared_join au p m l"
  "snapshot_prepared_join (au\<lparr>au_memberships := ms\<rparr>) p m l = snapshot_prepared_join au p m l"
  "snapshot_prepared_join (au\<lparr>au_log_replicas := r\<rparr>) p m l = snapshot_prepared_join au p m l"
  by (simp_all add: snapshot_prepared_join_def auth_frame)

lemma make_membership_ok: "membership_new_ok mk \<Longrightarrow> make_membership mk cfg cs ids = Inr m \<Longrightarrow> membership_ok m"
  by (auto simp: make_membership_def membership_new_ok_def split: if_splits sum.splits)

lemma committed_view_Inr:
  assumes "committed_view mk cfg st ctx boot = Inr stored" "membership_new_ok mk"
  shows "membership_ok (sm_membership stored)" "voter_ids (sm_membership (last_membership st)) \<noteq> [] \<Longrightarrow> stored = last_membership st"
proof -
  have "make_membership mk cfg (get_joint_config (sm_membership stored)) (set (nodes (sm_membership stored))) = Inr (sm_membership stored)"
    using assms(1) unfolding committed_view_def Let_def by (elim rbind_InrE) simp
  then show "membership_ok (sm_membership stored)"
    by (rule make_membership_ok [OF assms(2)])
  show "voter_ids (sm_membership (last_membership st)) \<noteq> [] \<Longrightarrow> stored = last_membership st"
    using assms(1) unfolding committed_view_def Let_def by (elim rbind_InrE) simp
qed

lemma from_state_parts:
  assumes "from_state fv sha mk cfg st peer bootstrap = Inr au"
  obtains ctx stored au1 au2 v ms r ms' where "admission st = Some ctx"
    "committed_view mk cfg st ctx (bootstrapping st bootstrap) = Inr stored"
    "pending_memberships mk cfg st (sm_membership stored) au1 = Inr au2"
    "au1 = \<lparr>au_session = ctx, au_peer = peer, au_configured = peer_id ` set (cfg_peers cfg), au_voters = v,
        au_log_replicas = g_voters (ctx_genesis ctx) \<union> set (nodes (sm_membership stored)), au_memberships = ms,
        au_committed_membership = stored, au_last_applied = last_applied_log st, au_prepared_join = prepared_join st,
        au_verified_bootstrap = bootstrap, au_replication = Some (history_from_state cfg st)\<rparr>"
    "au2 = au1\<lparr>au_log_replicas := r, au_memberships := ms'\<rparr>" "au = au2\<lparr>au_log_replicas := r \<union> known_leaders st\<rparr>"
proof -
  obtain ctx where ctx: "admission st = Some ctx" using assms by (auto simp: from_state_def split: option.splits)
  obtain stored au1 au2 where stored: "committed_view mk cfg st ctx (bootstrapping st bootstrap) = Inr stored"
    and au1: "bootstrap_memberships mk cfg (bootstrapping st bootstrap)
      \<lparr>au_session = ctx, au_peer = peer, au_configured = peer_id ` set (cfg_peers cfg),
        au_voters = set (voter_ids (sm_membership stored)),
        au_log_replicas = g_voters (ctx_genesis ctx) \<union> set (nodes (sm_membership stored)),
        au_memberships = [sm_membership stored],
        au_committed_membership = stored, au_last_applied = last_applied_log st, au_prepared_join = prepared_join st,
        au_verified_bootstrap = bootstrap, au_replication = Some (history_from_state cfg st)\<rparr> = Inr au1"
    and au2: "pending_memberships mk cfg st (sm_membership stored) au1 = Inr au2"
    and au: "au = au2\<lparr>au_log_replicas := au_log_replicas au2 \<union> known_leaders st\<rparr>"
    using assms unfolding from_state_def ctx option.case Let_def
    by (elim rbind_InrE) (rule that, assumption, assumption, assumption, simp)
  obtain v ms where a1: "au1 = \<lparr>au_session = ctx, au_peer = peer, au_configured = peer_id ` set (cfg_peers cfg), au_voters = v,
        au_log_replicas = g_voters (ctx_genesis ctx) \<union> set (nodes (sm_membership stored)), au_memberships = ms,
        au_committed_membership = stored, au_last_applied = last_applied_log st, au_prepared_join = prepared_join st,
        au_verified_bootstrap = bootstrap, au_replication = Some (history_from_state cfg st)\<rparr>"
    using bootstrap_memberships_Inr [OF au1] by auto
  obtain r ms' where a2: "au2 = au1\<lparr>au_log_replicas := r, au_memberships := ms'\<rparr>" using pending_memberships_Inr [OF au2] by blast
  have "au_log_replicas au2 = r" by (simp add: a2)
  then show ?thesis using that [OF ctx stored au2 a1 a2] au by simp
qed

lemma from_state_Inr:
  assumes "from_state fv sha mk cfg st peer bootstrap = Inr au" "membership_new_ok mk"
  shows "admission st = Some (au_session au) \<and> au_last_applied au = last_applied_log st \<and> au_prepared_join au = prepared_join st \<and>
    au_replication au = Some (history_from_state cfg st)"
    "voter_ids (sm_membership (last_membership st)) \<noteq> [] \<Longrightarrow>
       au_committed_membership au = last_membership st \<and> membership_ok (sm_membership (last_membership st))"
    "prepared_join st = Some p \<Longrightarrow> snapshot_prepared_join au p (au_committed_membership au) (last_applied_log st) = Inr ()"
proof -
  obtain ctx stored au1 au2 v ms r ms' where p: "admission st = Some ctx"
    "committed_view mk cfg st ctx (bootstrapping st bootstrap) = Inr stored"
    "pending_memberships mk cfg st (sm_membership stored) au1 = Inr au2"
    "au1 = \<lparr>au_session = ctx, au_peer = peer, au_configured = peer_id ` set (cfg_peers cfg), au_voters = v,
        au_log_replicas = g_voters (ctx_genesis ctx) \<union> set (nodes (sm_membership stored)), au_memberships = ms,
        au_committed_membership = stored, au_last_applied = last_applied_log st, au_prepared_join = prepared_join st,
        au_verified_bootstrap = bootstrap, au_replication = Some (history_from_state cfg st)\<rparr>"
    "au2 = au1\<lparr>au_log_replicas := r, au_memberships := ms'\<rparr>" "au = au2\<lparr>au_log_replicas := r \<union> known_leaders st\<rparr>"
    by (rule from_state_parts [OF assms(1)])
  show "admission st = Some (au_session au) \<and> au_last_applied au = last_applied_log st \<and> au_prepared_join au = prepared_join st \<and>
    au_replication au = Some (history_from_state cfg st)" by (simp add: p)
  show "voter_ids (sm_membership (last_membership st)) \<noteq> [] \<Longrightarrow>
       au_committed_membership au = last_membership st \<and> membership_ok (sm_membership (last_membership st))"
    using committed_view_Inr [OF p(2) assms(2)] by (simp add: p(4-6))
  assume "prepared_join st = Some p"
  then have "snapshot_prepared_join au1 p stored (last_applied_log st) = Inr ()"
    using pending_memberships_Inr [OF p(3)] by (simp add: p(4))
  moreover have "snapshot_prepared_join au p stored l = snapshot_prepared_join au1 p stored l" for l
    unfolding p(5,6) by (simp only: snapshot_prepared_join_frame)
  moreover have "au_committed_membership au = stored" by (simp add: p(4-6))
  ultimately show "snapshot_prepared_join au p (au_committed_membership au) (last_applied_log st) = Inr ()" by simp
qed

lemma history_keyed_store: "log_ok st \<Longrightarrow> history_keyed (history_from_state cfg st)"
  by (auto simp: history_keyed_def history_from_state_def log_ok_def split: option.splits if_splits)

lemma from_state_genesis:
  assumes "from_state fv sha mk cfg st peer bootstrap = Inr au" "membership_new_ok mk" "genesis st = Some g"
  shows "g = ctx_genesis (au_session au)"
proof -
  obtain ctx where ctx: "admission st = Some ctx" using assms(1) by (auto simp: from_state_def split: option.splits)
  have "bound_context sha cfg st ctx bootstrap = Inr ()"
    using assms(1) unfolding from_state_def ctx option.case Let_def by (elim rbind_InrE) simp
  then have "g = ctx_genesis ctx" using assms(3) by (auto simp: bound_context_def Let_def split: if_splits sum.splits)
  then show ?thesis using from_state_Inr(1) [OF assms(1,2)] ctx by simp
qed

lemma accepted_append:
  assumes "validate_request mk read_ids fvs au sender (RaftAppendEntries req) = Inr ()" "au_replication au = Some h"
  obtains src' where "replay_request mk h au req = Inr src'" "leader_node (vote_leader (ar_vote req)) = sender" "sender \<in> au_voters au"
  using assms by (auto simp: validate_request_def history_validate_def sender_vote_def auth_vote_def Let_def)

lemma initial_source_ok:
  assumes "from_state fv sha mk cfg st peer bootstrap = Inr au" "membership_new_ok mk" "genesis st \<noteq> None"
    and "last_applied_log st \<noteq> None" "voter_ids (sm_membership (last_membership st)) \<noteq> []" "initial_source mk h au = Inr src"
  shows "tracks st src \<and> source_ok au src \<and> genesis st = Some (ctx_genesis (au_session au)) \<and> so_cursor src \<noteq> None"
proof -
  obtain l where l: "last_applied_log st = Some l" using assms(4) by blast
  note fs = from_state_Inr [OF assms(1,2)]
  have src: "src = \<lparr>so_membership = last_membership st, so_pending = prepared_join st, so_cursor = Some l\<rparr>"
    using assms(6) fs(1) fs(2) [OF assms(5)] l by (simp add: initial_source_def)
  have "pending_in_order au src p" if p: "prepared_join st = Some p" for p
  proof -
    have s: "snapshot_prepared_join au p (last_membership st) (Some l) = Inr ()" using fs(3) [OF p] fs(2) [OF assms(5)] l by simp
    show ?thesis by (rule snapshot_prepared_join_Inr [OF s]) (auto simp: pending_in_order_def src join_plan_data_Inr)
  qed
  then show ?thesis
    using from_state_genesis [OF assms(1,2)] assms(3) fs(2) [OF assms(5)] l by (auto simp: tracks_def source_ok_def src)
qed

end
