(* ===== verification/Authorization_Properties.thy ===== *)
theory Authorization_Properties
  imports Replay_Simulation Example_Cluster
begin

text \<open>
  What the network authorization guarantees: quorums stay connected through every accepted append request, the
  replay predicts the state machine, and an accepted snapshot restores an ordered join history. The example is a
  follower of the small cluster that accepts the first two entries of a join.
\<close>

subsection \<open>The properties\<close>

text \<open>C14. A snapshot that passes the network check restores an ordered join history, whoever sent it. When the
  bytes are then installed, every pending join of the new store is a valid exact replacement of one boot under
  the genesis of the local admission with its acknowledgement after its preparation, every completed join was
  also promoted later still and is filed under its own physical node, and, except while this boot is itself
  joining under a verified plan, the membership is one that was authorized before the snapshot arrived.\<close>

theorem snapshot_restores_ordered_joins:
  assumes "check_snapshot mk read_ids fv fv' au req = Inr ()"
    and "install_snapshot show_meta from_slice fv2 (st_meta req) (st_data req) st = (st', Inr ())"
    and readers: "\<And>snap. from_slice (st_data req) = Inr snap \<Longrightarrow> read_ids (st_data req) = Inr (identities_of snap)"
  shows "joins_ok st' \<and> genesis st' = Some (ctx_genesis (au_session au)) \<and>
    (au_verified_bootstrap au = None \<longrightarrow> sm_membership (last_membership st') \<in> set (au_memberships au))"
proof -
  obtain snap where snap: "from_slice (st_data req) = Inr snap" "snapshot_of st' = snapshot_of (restore_into snap st)"
    by (rule install_snapshot_Inr [OF assms(2)])
  have fields: "genesis st' = snap_genesis snap" "prepared_join st' = snap_prepared_join snap"
    "completed_joins st' = snap_completed_joins snap" "last_membership st' = snap_last_membership snap"
    using snap(2) by (auto simp: snapshot_of_def restore_into_def reconcile_failback_def split: failover_semantics.splits)
  obtain ids where "read_ids (st_data req) = Inr ids" and ids: "si_genesis ids = Some (ctx_genesis (au_session au))"
    "\<forall>p. si_prepared_join ids = Some p \<longrightarrow> snapshot_prepared_join au p (si_last_membership ids) (si_last_applied ids) = Inr ()"
    "\<forall>i cj. bm_get (si_completed_joins ids) i = Some cj \<longrightarrow> check_completion au ids (i, cj) = Inr ()"
    "sm_membership (si_last_membership ids) \<in> set (au_memberships au) \<or> au_verified_bootstrap au \<noteq> None"
    by (rule check_snapshot_Inr [OF assms(1)])
  then have eq: "ids = identities_of snap" using readers [OF snap(1)] by simp
  have g: "genesis st' = Some (ctx_genesis (au_session au))" using ids(1) by (simp add: fields eq identities_of_def)
  have "join_pending_ok st' p" if p: "prepared_join st' = Some p" for p
    using ids(2) p
    by (auto elim!: snapshot_prepared_join_Inr simp: eq identities_of_def fields join_pending_ok_def g [unfolded fields] join_plan_data_Inr)
  moreover have "join_done_ok st' i cj" if cj: "bm_get (completed_joins st') i = Some cj" for i cj
  proof -
    have "check_completion au ids (i, cj) = Inr ()" using ids(3) cj by (simp add: eq identities_of_def fields)
    then show ?thesis
      by (rule check_completion_Inr) (auto simp: join_done_ok_def join_pending_ok_def g join_plan_data_Inr completion_ordered_def Let_def)
  qed
  ultimately show ?thesis using g ids(4) by (auto simp: joins_ok_def fields eq identities_of_def)
qed

text \<open>C3. No step of the memberships that an accepted append request proposes separates two quorums. When a node accepts
  entries, their leader is the authenticated sender and a current voter, and along the memberships that replaying
  the entries goes through, starting from the applied one and before any of them is committed, every quorum of one
  shares a replica with every quorum of the next. Each configuration on the way is nonempty and holds at most one
  boot of a physical node; the two configurations of one joint membership may hold different boots of it.\<close>

theorem accepted_append_keeps_quorums:
  assumes "membership_new_ok mk" "from_state fv sha mk cfg st peer bootstrap = Inr au" "log_ok st"
    and "validate_request mk read_ids fvs au sender (RaftAppendEntries req) = Inr ()"
  shows "leader_node (vote_leader (ar_vote req)) = sender \<and> sender \<in> au_voters au \<and>
    (\<exists>src. initial_source mk (history_from_state cfg st) au = Inr src \<and>
       (let path = memberships_of (replayed_entries (history_from_state cfg st) au req)
        in successively common_quorums (sm_membership (so_membership src) # path) \<and> list_all one_boot_each path))"
proof -
  have h: "au_replication au = Some (history_from_state cfg st)" using from_state_Inr(1) [OF assms(2,1)] by simp
  obtain src' where src': "replay_request mk (history_from_state cfg st) au req = Inr src'"
    "leader_node (vote_leader (ar_vote req)) = sender" "sender \<in> au_voters au"
    by (rule accepted_append [OF assms(4) h])
  obtain src where "initial_source mk (history_from_state cfg st) au = Inr src"
    and run: "accepted_run mk (history_from_state cfg st) au (commit_frontier (history_from_state cfg st) au req) src
      (replayed_entries (history_from_state cfg st) au req) src'"
    by (rule replay_request_run [OF src'(1) history_keyed_store [OF assms(3)]])
  then show ?thesis using accepted_run_chain [OF assms(1) run] src'(2,3) by (auto simp: Let_def)
qed

text \<open>C13. The replay predicts the state machine. On a node whose log files its entries under their own indices, that
  has applied an entry and committed its genesis, and whose applied membership has voters, applying the entries
  that an accepted request replays leaves exactly the membership, the pending join and the position that the
  replay computed, and the state machine rejects none of the join commands.\<close>

theorem accepted_append_matches_state_machine:
  assumes "membership_new_ok mk" "from_state fv sha mk cfg st peer bootstrap = Inr au" "log_ok st"
    and "validate_request mk read_ids fvs au sender (RaftAppendEntries req) = Inr ()"
    and "genesis st \<noteq> None" "last_applied_log st \<noteq> None" "voter_ids (sm_membership (last_membership st)) \<noteq> []"
  shows "\<exists>src'. replay_request mk (history_from_state cfg st) au req = Inr src' \<and>
    (let es = replayed_entries (history_from_state cfg st) au req; st' = apply_log es st
     in last_membership st' = so_membership src' \<and> prepared_join st' = so_pending src' \<and>
        last_applied_log st' = so_cursor src' \<and> set (join_responses es st) \<subseteq> {Ok})"
proof -
  have h: "au_replication au = Some (history_from_state cfg st)" using from_state_Inr(1) [OF assms(2,1)] by simp
  obtain src' where src': "replay_request mk (history_from_state cfg st) au req = Inr src'"
    by (rule accepted_append [OF assms(4) h])
  obtain src where src: "initial_source mk (history_from_state cfg st) au = Inr src"
    and run: "accepted_run mk (history_from_state cfg st) au (commit_frontier (history_from_state cfg st) au req) src
      (replayed_entries (history_from_state cfg st) au req) src'"
    by (rule replay_request_run [OF src' history_keyed_store [OF assms(3)]])
  note start = initial_source_ok [OF assms(2,1,5-7) src]
  have "tracks st src" "source_ok au src" "genesis st = Some (ctx_genesis (au_session au))" "so_cursor src \<noteq> None"
    using start by simp_all
  from simulate_run [OF assms(1) run this] src' show ?thesis by (simp add: tracks_def Let_def)
qed

subsection \<open>An accepted join\<close>

definition new_membership :: membership_new where
  "new_membership cs ns =
     (let voters = \<Union> (set cs); ids = map fst ns in
      if {} \<in> set cs \<or> \<not> voters \<subseteq> set ids \<or> \<not> distinct ids then Inl ''invalid membership''
      else Inr \<lparr>voter_ids = filter (\<lambda>r. r \<in> voters) ids, get_joint_config = cs, nodes = ids,
                learner_ids = filter (\<lambda>r. r \<notin> voters) ids, node_addresses = map snd ns\<rparr>)"

lemma new_membership_ok: "membership_new_ok new_membership"
  by (auto simp: membership_new_ok_def new_membership_def membership_ok_def Let_def split: if_splits)

definition ex_follower :: kaf_storage_state where
  "ex_follower = ex_start\<lparr>admission := Some ex_context, genesis := Some ex_genesis, cluster_epoch := Some 9,
     last_membership := \<lparr>sm_log_id = Some (ex_log_id 1), sm_membership = ex_membership\<rparr>, last_applied_log := Some (ex_log_id 2)\<rparr>"

definition ex_authorization :: raft_authorization where
  "ex_authorization =
     \<lparr>au_session = ex_context, au_peer = ex_replica 2, au_configured = {1, 2, 3}, au_voters = {ex_replica 1, ex_replica 2},
      au_log_replicas = {ex_replica 1, ex_replica 2}, au_memberships = [ex_membership],
      au_committed_membership = last_membership ex_follower, au_last_applied = Some (ex_log_id 2), au_prepared_join = None,
      au_verified_bootstrap = None, au_replication = Some (history_from_state sample_normal ex_follower)\<rparr>"

definition ex_append :: append_request where
  "ex_append = \<lparr>ar_vote = RaftVote (LeaderId 1 (ex_replica 2)) True, ar_prev_log_id = Some (ex_log_id 2),
     ar_entries = [ex_entry 3 (Normal (AdmissionMembership (PrepareJoin ex_plan))), ex_entry 4 (MembershipEntry ex_learner)],
     ar_leader_commit = Some (ex_log_id 3)\<rparr>"

lemma ex_peers:
  "get_peer sample_normal 1 = Some (sample_peer 1 ''10.0.0.1'')" "get_peer sample_normal 2 = Some (sample_peer 2 ''10.0.0.2'')"
  "get_peer sample_normal 3 = Some (sample_peer 3 ''10.0.0.3'')" "peer_id ` set (cfg_peers sample_normal) = {1, 2, 3}"
  "cfg_node_id sample_normal = 1"
  by (auto simp: get_peer_def sample_normal_def sample_config_def sample_peer_def)

lemma ex_sorted:
  "sorted_list_of_set {ex_replica 1, ex_replica 2} = [ex_replica 1, ex_replica 2]"
  "sorted_list_of_set {ex_replica 1, ex_replica 2, ex_replica 3} = [ex_replica 1, ex_replica 2, ex_replica 3]"
  by (simp_all add: ex_replica_def less_eq_replica_id_def)

lemma ex_follower_fields:
  "admission ex_follower = Some ex_context" "genesis ex_follower = Some ex_genesis" "cluster_epoch ex_follower = Some 9"
  "last_membership ex_follower = \<lparr>sm_log_id = Some (ex_log_id 1), sm_membership = ex_membership\<rparr>"
  "last_applied_log ex_follower = Some (ex_log_id 2)" "prepared_join ex_follower = None" "log ex_follower = bm_empty"
  "committed ex_follower = None" "last_purged_log_id ex_follower = None"
  by (simp_all add: ex_follower_def ex_start_def new_admitted_store_def new_store_inner_def new_storage_def)

lemma ex_admission_bound: "bound_context (\<lambda>_. 5) sample_normal ex_follower ex_context None = Inr ()"
proof -
  have "cluster_config_fingerprint (\<lambda>_. 5) sample_normal = Inr \<lparr>fp_version = 1, fp_digest = 5\<rparr>"
    using other_node_same(4) by (auto simp: cluster_config_fingerprint_def FINGERPRINT_VERSION_def)
  then show ?thesis
    by (simp add: bound_context_def ex_follower_fields ex_context_def ex_genesis_def ex_replica_def ex_peers)
qed

lemma ex_make:
  "make_membership new_membership sample_normal [{ex_replica 1, ex_replica 2}] {ex_replica 1, ex_replica 2} = Inr ex_membership"
  unfolding make_membership_def ex_sorted
  by (simp add: new_membership_def ex_replica_def ex_peers sample_peer_def ex_membership_def Let_def)

lemma ex_view: "committed_view new_membership sample_normal ex_follower ex_context None = Inr (last_membership ex_follower)"
proof -
  have "get_joint_config ex_membership = [{ex_replica 1, ex_replica 2}]" "set (nodes ex_membership) = {ex_replica 1, ex_replica 2}"
    "voter_ids ex_membership \<noteq> []" by (simp_all add: ex_membership_def)
  then show ?thesis by (simp add: committed_view_def ex_follower_fields ex_make ex_log_id_def Let_def)
qed

lemma ex_state: "from_state ex_fence (\<lambda>_. 5) new_membership sample_normal ex_follower (ex_replica 2) None = Inr ex_authorization"
proof -
  have fence: "session_check ex_fence ex_context = Inr 100" by (simp add: session_check_def ex_fence_def)
  have roster: "validate_roster (ctx_genesis ex_context) {1, 2, 3} = Inr ()"
    by (simp add: validate_roster_def ex_context_def ex_genesis_def ex_replica_def)
  have boot: "bootstrapping ex_follower None = None" "applied_bootstrap ex_follower ex_context None = Inr ()"
    "bootstrap_memberships new_membership sample_normal None au = Inr au" for au
    by (simp_all add: bootstrapping_def applied_bootstrap_def bootstrap_memberships_def)
  have pend: "pending_memberships new_membership sample_normal ex_follower ex_membership au = Inr au" for au
    by (simp add: pending_memberships_def ex_follower_fields ex_membership_def)
  have peer: "admitted_peer None {ex_replica 1, ex_replica 2} (ex_replica 2) None" by (simp add: admitted_peer_def)
  have leaders: "known_leaders ex_follower = {ex_replica 1}"
    by (simp add: known_leaders_def ex_follower_fields map_filter_simps ex_log_id_def)
  have m: "set (voter_ids ex_membership) = {ex_replica 1, ex_replica 2}" "set (nodes ex_membership) = {ex_replica 1, ex_replica 2}"
    "g_voters (ctx_genesis ex_context) = {ex_replica 1, ex_replica 2}"
    by (simp_all add: ex_membership_def ex_context_def ex_genesis_def)
  show ?thesis
    unfolding from_state_def Let_def
    by (simp add: ex_follower_fields(1) ex_peers fence roster ex_admission_bound boot ex_view pend peer leaders m del: rbind_Inr_iff)
       (simp add: ex_follower_fields pend peer m leaders ex_authorization_def insert_commute)
qed

abbreviation ex_history :: replication_history where
  "ex_history \<equiv> history_from_state sample_normal ex_follower"

lemma ex_history_fields:
  "bm_get (rh_nodes ex_history) = [1 \<mapsto> ''10.0.0.1:7001'', 2 \<mapsto> ''10.0.0.2:7001'', 3 \<mapsto> ''10.0.0.3:7001'']"
  "rh_committed ex_history = None"
  by (auto simp: history_from_state_def ex_follower_fields bm_get_collect sample_normal_def sample_config_def sample_peer_def fun_eq_iff)

lemma ex_history_membership:
  "history_membership new_membership ex_history [{ex_replica 1, ex_replica 2}] {ex_replica 1, ex_replica 2} = Inr ex_membership"
  "history_membership new_membership ex_history [{ex_replica 1, ex_replica 2}] {ex_replica 1, ex_replica 2, ex_replica 3} = Inr ex_learner"
  unfolding history_membership_def ex_sorted bm_contains_iff ex_history_fields
  by (simp_all add: new_membership_def ex_replica_def ex_membership_def ex_learner_def Let_def)

lemma ex_plan_data: "join_plan_data ex_authorization ex_plan = Inr ()"
proof -
  have "Set.filter (\<lambda>r. physical_id r \<noteq> 3) {ReplicaId 1 7, ReplicaId 2 7} = {ReplicaId 1 7, ReplicaId 2 7}" by auto
  then have "validate_plan ex_plan = Inr ()"
    by (simp add: validate_plan_def ex_plan_def ex_replica_def insert_commute)
  then show ?thesis
    by (simp add: join_plan_data_Inr ex_plan_def ex_authorization_def ex_context_def ex_genesis_def ex_replica_def validate_roster_def)
qed

lemma ex_log_known: "auth_log ex_authorization (Some (ex_log_id i)) = Inr ()"
  by (simp add: auth_log_def ex_authorization_def ex_log_id_def ex_replica_def)

lemma ex_data:
  "history_data new_membership ex_history ex_authorization (ex_entry 3 (Normal (AdmissionMembership (PrepareJoin ex_plan)))) = Inr ()"
  "history_data new_membership ex_history ex_authorization (ex_entry 4 (MembershipEntry ex_learner)) = Inr ()"
proof -
  show "history_data new_membership ex_history ex_authorization (ex_entry 3 (Normal (AdmissionMembership (PrepareJoin ex_plan)))) = Inr ()"
    by (simp add: history_data_def ex_log_known ex_plan_data)
  have "get_joint_config ex_learner = [{ex_replica 1, ex_replica 2}]" "set (nodes ex_learner) = {ex_replica 1, ex_replica 2, ex_replica 3}"
    by (simp_all add: ex_learner_def ex_membership_def)
  then show "history_data new_membership ex_history ex_authorization (ex_entry 4 (MembershipEntry ex_learner)) = Inr ()"
    by (simp add: history_data_def ex_log_known ex_history_membership Let_def) (simp add: ex_replica_def)
qed

definition ex_source :: "prepared_join option \<Rightarrow> membership \<Rightarrow> u64 \<Rightarrow> u64 \<Rightarrow> source_state" where
  "ex_source pending m mi i =
     \<lparr>so_membership = \<lparr>sm_log_id = Some (ex_log_id mi), sm_membership = m\<rparr>, so_pending = pending, so_cursor = Some (ex_log_id i)\<rparr>"

definition ex_prepared :: prepared_join where
  "ex_prepared = \<lparr>pj_plan = ex_plan, pj_prepared = ex_log_id 3, pj_learner_applied = None\<rparr>"

lemma ex_apply:
  "source_apply new_membership ex_history ex_authorization (Some (ex_log_id 3)) (ex_source None ex_membership 1 2)
     (ex_entry 3 (Normal (AdmissionMembership (PrepareJoin ex_plan)))) = Inr (ex_source (Some ex_prepared) ex_membership 1 3)"
  "source_apply new_membership ex_history ex_authorization (Some (ex_log_id 3)) (ex_source (Some ex_prepared) ex_membership 1 3)
     (ex_entry 4 (MembershipEntry ex_learner)) = Inr (ex_source (Some ex_prepared) ex_learner 4 4)"
proof -
  have prev: "stable_previous ex_membership ex_plan" "jp_previous_voters ex_plan = {ex_replica 1, ex_replica 2}" "jp_consumer ex_plan = ex_replica 3"
    "insert (ex_replica 3) (set (nodes ex_membership)) = {ex_replica 1, ex_replica 2, ex_replica 3}"
    "set (nodes ex_membership) - {ex_replica 3} = {ex_replica 1, ex_replica 2}" "ex_learner \<noteq> ex_membership"
    by (auto simp: stable_previous_def ex_membership_def ex_plan_def ex_learner_def ex_replica_def)
  then show "source_apply new_membership ex_history ex_authorization (Some (ex_log_id 3)) (ex_source None ex_membership 1 2)
     (ex_entry 3 (Normal (AdmissionMembership (PrepareJoin ex_plan)))) = Inr (ex_source (Some ex_prepared) ex_membership 1 3)"
    by (simp add: source_apply_def ex_source_def ex_prepared_def)
  have "stable_successors new_membership ex_history (Some (ex_log_id 3)) ex_prepared ex_membership = Inr [ex_learner, ex_membership]"
    using prev by (simp add: stable_successors_def ex_prepared_def Let_def acknowledged_def ex_history_membership del: rbind_Inr_iff)
  then show "source_apply new_membership ex_history ex_authorization (Some (ex_log_id 3)) (ex_source (Some ex_prepared) ex_membership 1 3)
     (ex_entry 4 (MembershipEntry ex_learner)) = Inr (ex_source (Some ex_prepared) ex_learner 4 4)"
    using prev by (simp add: source_apply_def transition_def ex_source_def ex_prepared_def history_committed_def Let_def)
qed

lemma ex_replay:
  "replay_request new_membership ex_history ex_authorization ex_append = Inr (ex_source (Some ex_prepared) ex_learner 4 4)"
proof -
  have start: "initial_source new_membership ex_history ex_authorization = Inr (ex_source None ex_membership 1 2)"
    by (simp add: initial_source_def ex_authorization_def ex_source_def ex_follower_fields)
  have frontier: "commit_frontier ex_history ex_authorization ex_append = Some (ex_log_id 3)"
    by (simp add: commit_frontier_def ex_history_fields ex_authorization_def ex_append_def map_filter_simps later_log_def ex_log_id_def)
  have idx: "index (ex_log_id i) = i" for i by (simp add: ex_log_id_def)
  have applied: "au_last_applied ex_authorization = Some (ex_log_id 2)" by (simp add: ex_authorization_def)
  have chk: "check_consecutive new_membership ex_history ex_authorization (chk_add 2 1) (ar_entries ex_append) = Inr ()"
    by (simp add: ex_append_def ex_data idx chk_add_def)
  have prefix: "replay_prefix new_membership ex_history ex_authorization f (ex_source None ex_membership 1 2) (Some (ex_log_id 2)) =
      Inr (ex_source None ex_membership 1 2)" for f
    by (simp add: replay_prefix_def ex_source_def)
  have fresh: "replay_entries new_membership ex_history ex_authorization (Some (ex_log_id 3)) (ex_source None ex_membership 1 2)
      (ar_entries ex_append) = Inr (ex_source (Some ex_prepared) ex_learner 4 4)"
    by (simp add: ex_append_def applied idx next_index_def ex_apply) (simp add: ex_source_def idx)
  have prev: "ar_prev_log_id ex_append = Some (ex_log_id 2)" by (simp add: ex_append_def)
  show ?thesis
    unfolding replay_request_def Let_def prev option.case idx frontier
    by (simp add: chk start prefix fresh)
qed

lemma ex_validate:
  "validate_request new_membership (\<lambda>_. bail []) [ex_fence] ex_authorization (ex_replica 2) (RaftAppendEntries ex_append) = Inr ()"
proof -
  have "au_replication ex_authorization = Some ex_history" "session_check ex_fence (au_session ex_authorization) = Inr 100"
    "sender_vote ex_authorization (ex_replica 2) (ar_vote ex_append) = Inr ()"
    "auth_log ex_authorization (ar_prev_log_id ex_append) = Inr ()" "auth_log ex_authorization (ar_leader_commit ex_append) = Inr ()"
    by (simp_all add: ex_authorization_def session_check_def ex_fence_def sender_vote_def auth_vote_def ex_append_def auth_log_def ex_log_id_def ex_replica_def)
  then show ?thesis by (simp add: validate_request_def history_validate_def ex_replay)
qed

lemma ex_follower_log: "log_ok ex_follower"
  by (simp add: log_ok_def ex_follower_fields)

theorem accepted_append_keeps_quorums_witness:
  "\<exists>src. initial_source new_membership ex_history ex_authorization = Inr src \<and>
     (let path = memberships_of (replayed_entries ex_history ex_authorization ex_append)
      in successively common_quorums (sm_membership (so_membership src) # path) \<and> list_all one_boot_each path)"
  using accepted_append_keeps_quorums [OF new_membership_ok ex_state ex_follower_log ex_validate] by blast

theorem accepted_append_matches_state_machine_witness:
  "last_membership (apply_log (replayed_entries ex_history ex_authorization ex_append) ex_follower) =
     \<lparr>sm_log_id = Some (ex_log_id 4), sm_membership = ex_learner\<rparr> \<and>
   prepared_join (apply_log (replayed_entries ex_history ex_authorization ex_append) ex_follower) = Some ex_prepared"
  using accepted_append_matches_state_machine [OF new_membership_ok ex_state ex_follower_log ex_validate]
  by (simp add: ex_follower_fields ex_membership_def ex_replay Let_def ex_source_def)

subsection \<open>An accepted snapshot\<close>

definition ex_transfer :: snapshot_transfer where
  "ex_transfer = \<lparr>st_vote = RaftVote (LeaderId 1 (ex_replica 2)) True,
     st_meta = \<lparr>meta_last_log_id = Some (ex_log_id 2), meta_last_membership = last_membership ex_follower\<rparr>, st_data = [1]\<rparr>"

definition ex_read_ids :: "u8 list \<Rightarrow> snapshot_identities anyhow_result" where
  "ex_read_ids data = Inr (identities_of (snapshot_of ex_follower))"

lemma ex_check_snapshot: "check_snapshot new_membership ex_read_ids ex_fence ex_fence ex_authorization ex_transfer = Inr ()"
proof -
  have ids: "si_last_applied (identities_of (snapshot_of ex_follower)) = Some (ex_log_id 2)"
    "si_last_membership (identities_of (snapshot_of ex_follower)) = last_membership ex_follower"
    "si_genesis (identities_of (snapshot_of ex_follower)) = Some ex_genesis"
    "si_cluster_epoch (identities_of (snapshot_of ex_follower)) = Some 9"
    "si_prepared_join (identities_of (snapshot_of ex_follower)) = None"
    "entries (si_completed_joins (identities_of (snapshot_of ex_follower))) = []"
    "entries (si_applied_progress (identities_of (snapshot_of ex_follower))) = []"
    by (simp_all add: identities_of_def snapshot_of_def ex_follower_fields ex_follower_def ex_start_def new_admitted_store_def
        new_store_inner_def new_storage_def bm_empty.rep_eq)
  have au: "session_check ex_fence (au_session ex_authorization) = Inr 100" "ctx_genesis (au_session ex_authorization) = ex_genesis"
    "g_epoch ex_genesis = 9" "au_verified_bootstrap ex_authorization = None"
    by (simp_all add: session_check_def ex_fence_def ex_authorization_def ex_context_def ex_genesis_def)
  have "auth_stored_membership ex_authorization (last_membership ex_follower) = Inr ()"
    by (simp add: auth_stored_membership_def ex_follower_fields ex_log_known auth_membership_def)
       (simp add: ex_authorization_def ex_membership_def ex_replica_def)
  then show ?thesis
    by (simp add: check_snapshot_def ex_read_ids_def ids au ex_transfer_def ex_follower_fields ex_log_known
        snapshot_bootstrap_operation_def from_denied_def Let_def) (simp add: ex_log_id_def)
qed

theorem snapshot_restores_ordered_joins_witness:
  "joins_ok (fst (install_snapshot (\<lambda>_. []) (\<lambda>_. Inr (snapshot_of ex_follower)) ex_fence (st_meta ex_transfer) (st_data ex_transfer) ex_follower))"
proof -
  let ?i = "install_snapshot (\<lambda>_. []) (\<lambda>_. Inr (snapshot_of ex_follower)) ex_fence (st_meta ex_transfer) (st_data ex_transfer) ex_follower"
  have "check_mutation ex_fence ex_follower = Inr ()" by (simp add: check_mutation_ok ex_follower_fields ex_fence_def)
  moreover have "snap_genesis (snapshot_of ex_follower) = Some ex_genesis" by (simp add: snapshot_of_def ex_follower_fields)
  ultimately have "snd ?i = Inr ()" by (simp add: install_snapshot_def ex_follower_fields ex_context_def)
  then have "?i = (fst ?i, Inr ())" by (metis prod.collapse)
  from snapshot_restores_ordered_joins [OF ex_check_snapshot this] show ?thesis by (simp add: ex_read_ids_def)
qed

end
