(* ===== verification/Local_Health.thy ===== *)
theory Local_Health
  imports Error_Chain
begin

text \<open>
  Local health of a node: the dampening of raw probe results (\<open>src/health.rs\<close>) and the status that
  combines the dampened probe with a bind fault of the process (\<open>src/health/local.rs\<close>). The status is
  the value of a \<open>watch\<close> channel, and each operation is one atomic update of it. A
  \<open>HealthContinuity\<close> is the loss epoch it was taken at.
\<close>

subsection \<open>Failure dampening\<close>

record failure_dampener =
  fd_delay_ticks :: u64
  fd_failure_ticks :: u64
  fd_effective_healthy :: bool

definition dampener_new :: "u64 \<Rightarrow> failure_dampener" where
  "dampener_new delay = \<lparr>fd_delay_ticks = delay, fd_failure_ticks = 0, fd_effective_healthy = False\<rparr>"

definition dampener_observe :: "bool \<Rightarrow> failure_dampener \<Rightarrow> failure_dampener \<times> bool" where
  "dampener_observe raw_healthy d =
     (if raw_healthy then (d\<lparr>fd_failure_ticks := 0, fd_effective_healthy := True\<rparr>, True)
      else if \<not> fd_effective_healthy d then (d, False)
      else let ticks = sat_add (fd_failure_ticks d) 1;
               healthy = (if fd_delay_ticks d < ticks then False else fd_effective_healthy d)
           in (d\<lparr>fd_failure_ticks := ticks, fd_effective_healthy := healthy\<rparr>, healthy))"

text \<open>One probe: the spawned command and its captured run are answers of the operating system.\<close>

definition run_health_check :: "string list \<Rightarrow> unit io \<Rightarrow> captured_run \<Rightarrow> bool" where
  "run_health_check command spawned run =
     (command \<noteq> [] \<and>
      (case spawned of Inl _ \<Rightarrow> False
       | Inr _ \<Rightarrow> (case run_completion run of
            Exited status \<Rightarrow> (case run_cleanup_error run of Some _ \<Rightarrow> False | None \<Rightarrow> exit_success status)
          | CompletionWaitFailed _ \<Rightarrow> False
          | CompletionTimedOut _ \<Rightarrow> False)))"

subsection \<open>The status of the process\<close>

record health_status =
  hs_probe_healthy :: bool
  hs_bind_fault :: "bind_fault option"
  hs_loss_epoch :: u64

definition status_healthy :: "health_status \<Rightarrow> bool" where
  "status_healthy s = (hs_probe_healthy s \<and> hs_bind_fault s = None)"

definition local_health_new :: "bool \<Rightarrow> health_status" where
  "local_health_new probe_healthy = \<lparr>hs_probe_healthy = probe_healthy, hs_bind_fault = None, hs_loss_epoch = 0\<rparr>"

definition observe_continuity :: "health_status \<Rightarrow> u64" where
  "observe_continuity s = hs_loss_epoch s"

definition continuity_check :: "u64 \<Rightarrow> health_status \<Rightarrow> bool" where
  "continuity_check epoch s = (status_healthy s \<and> hs_loss_epoch s = epoch \<and> epoch \<noteq> - 1)"

text \<open>The new status and the previous effective health.\<close>

definition observe_probe :: "bool \<Rightarrow> health_status \<Rightarrow> health_status \<times> bool" where
  "observe_probe healthy s =
     (let previous = status_healthy s; s1 = s\<lparr>hs_probe_healthy := healthy\<rparr>
      in (if previous \<and> \<not> status_healthy s1 then s1\<lparr>hs_loss_epoch := sat_add (hs_loss_epoch s1) 1\<rparr> else s1, previous))"

definition fail_binding :: "bind_fault \<Rightarrow> health_status \<Rightarrow> health_status" where
  "fail_binding fault s =
     (if hs_bind_fault s \<noteq> None then s
      else let s1 = (if status_healthy s then s\<lparr>hs_loss_epoch := sat_add (hs_loss_epoch s) 1\<rparr> else s)
           in s1\<lparr>hs_bind_fault := Some fault\<rparr>)"

definition bind_failure_seen :: "health_status \<Rightarrow> bool" where
  "bind_failure_seen s = (hs_bind_fault s \<noteq> None)"

definition restart_requested :: "health_status \<Rightarrow> bool" where
  "restart_requested s = (hs_bind_fault s = Some BindTimedOut)"

subsection \<open>Guarded operations\<close>

text \<open>The loop that both \<open>HealthContinuity::run\<close> and \<open>Permit::run\<close> have around an operation: what the
  \<open>select!\<close> wakes up for, in order, each with the view the check then reads. An end of the list before a
  result is a loop still waiting.\<close>

datatype ('v, 'a) guard_event = GuardStopped | GuardClosed | GuardChanged 'v | GuardReady 'v 'a

datatype 'a guarded = Waiting | Cancelled | Completed 'a

fun guard_loop :: "('v \<Rightarrow> bool) \<Rightarrow> ('v, 'a) guard_event list \<Rightarrow> 'a guarded" where
  "guard_loop check [] = Waiting"
| "guard_loop check (GuardStopped # es) = Cancelled"
| "guard_loop check (GuardClosed # es) = Cancelled"
| "guard_loop check (GuardChanged v # es) = (if check v then guard_loop check es else Cancelled)"
| "guard_loop check (GuardReady v a # es) = (if check v then Completed a else Cancelled)"

definition guard_run :: "('v \<Rightarrow> bool) \<Rightarrow> 'v \<Rightarrow> ('v, 'a) guard_event list \<Rightarrow> 'a guarded" where
  "guard_run check v es = (if check v then guard_loop check es else Cancelled)"

text \<open>The views a loop has read up to its result.\<close>

fun guard_views :: "('v, 'a) guard_event list \<Rightarrow> 'v list" where
  "guard_views (GuardChanged v # es) = v # guard_views es"
| "guard_views (GuardReady v a # es) = [v]"
| "guard_views _ = []"

lemma guard_loop_checked: "guard_loop check es = Completed a \<Longrightarrow> list_all check (guard_views es)"
  by (induction check es rule: guard_loop.induct) (auto split: if_splits)

definition continuity_run :: "u64 \<Rightarrow> health_status \<Rightarrow> (health_status, 'a) guard_event list \<Rightarrow> 'a guarded" where
  "continuity_run epoch = guard_run (continuity_check epoch)"

subsection \<open>Runs of the status\<close>

datatype health_event = RawProbe bool | BindFaultSeen bind_fault

definition health_step :: "health_event \<Rightarrow> failure_dampener \<times> health_status \<Rightarrow> failure_dampener \<times> health_status" where
  "health_step e x =
     (case e of
        RawProbe raw \<Rightarrow> (let (d, ok) = dampener_observe raw (fst x) in (d, fst (observe_probe ok (snd x))))
      | BindFaultSeen f \<Rightarrow> (fst x, fail_binding f (snd x)))"

definition health_run :: "health_event list \<Rightarrow> failure_dampener \<times> health_status \<Rightarrow> failure_dampener \<times> health_status" where
  "health_run es x = fold health_step es x"

fun raw_probes :: "health_event list \<Rightarrow> bool list" where
  "raw_probes [] = []"
| "raw_probes (RawProbe raw # es) = raw # raw_probes es"
| "raw_probes (BindFaultSeen f # es) = raw_probes es"

definition faulted :: "health_event list \<Rightarrow> bool" where
  "faulted es = list_ex (\<lambda>e. case e of BindFaultSeen _ \<Rightarrow> True | _ \<Rightarrow> False) es"

text \<open>What dampening means, without a state: some probe succeeded, and at most \<open>delay\<close> have failed since.\<close>

definition trailing_failures :: "bool list \<Rightarrow> nat" where
  "trailing_failures raws = length (takeWhile Not (rev raws))"

definition dampened :: "u64 \<Rightarrow> bool list \<Rightarrow> bool" where
  "dampened delay raws = (True \<in> set raws \<and> (trailing_failures raws \<le> unat delay \<or> delay = - 1))"

lemma trailing_snoc [simp]: "trailing_failures (raws @ [b]) = (if b then 0 else Suc (trailing_failures raws))"
  by (simp add: trailing_failures_def)

lemma health_run_snoc [simp]: "health_run (es @ [e]) x = health_step e (health_run es x)"
  by (simp add: health_run_def)

lemma raw_probes_append [simp]: "raw_probes (es @ fs) = raw_probes es @ raw_probes fs"
  by (induction es rule: raw_probes.induct) simp_all

lemma faulted_append [simp]: "faulted (es @ fs) \<longleftrightarrow> faulted es \<or> faulted fs"
  by (auto simp: faulted_def)

definition dampener_ok :: "u64 \<Rightarrow> bool list \<Rightarrow> failure_dampener \<Rightarrow> bool" where
  "dampener_ok delay raws d \<longleftrightarrow> fd_delay_ticks d = delay \<and> fd_effective_healthy d = dampened delay raws \<and>
     (fd_effective_healthy d \<longrightarrow> unat (fd_failure_ticks d) = min (trailing_failures raws) (2 ^ 64 - 1))"

lemma u64_max_iff: "x = - 1 \<longleftrightarrow> unat x = 2 ^ 64 - 1" for x :: u64
  using unat_max_word [where 'a = 64] by (simp add: word_unat_eq_iff)

lemma dampener_observe_ok:
  assumes "dampener_ok delay raws d"
  shows "dampener_ok delay (raws @ [b]) (fst (dampener_observe b d)) \<and>
    snd (dampener_observe b d) = dampened delay (raws @ [b])"
proof (cases "b \<or> \<not> fd_effective_healthy d")
  case True
  then show ?thesis using assms
    by (auto simp: dampener_ok_def dampener_observe_def dampened_def Let_def)
next
  case False
  have bound: "unat delay \<le> 2 ^ 64 - 1" using unsigned_less [of delay, where ?'a = nat] by simp
  have "unat (sat_add (fd_failure_ticks d) 1) = min (Suc (trailing_failures raws)) (2 ^ 64 - 1)"
    using assms False by (simp add: dampener_ok_def unat_sat_add)
  moreover from this have "delay < sat_add (fd_failure_ticks d) 1 \<longleftrightarrow> unat delay < Suc (trailing_failures raws) \<and> delay \<noteq> - 1"
    using bound by (auto simp: word_less_nat_alt u64_max_iff)
  ultimately show ?thesis using assms False
    by (auto simp: dampener_ok_def dampener_observe_def dampened_def Let_def)
qed

lemma observe_probe_fields [simp]:
  "hs_probe_healthy (fst (observe_probe b s)) = b" "hs_bind_fault (fst (observe_probe b s)) = hs_bind_fault s"
  by (simp_all add: observe_probe_def Let_def)

lemma fail_binding_fields [simp]:
  "hs_probe_healthy (fail_binding f s) = hs_probe_healthy s"
  "hs_bind_fault (fail_binding f s) = (if hs_bind_fault s = None then Some f else hs_bind_fault s)"
  by (auto simp: fail_binding_def Let_def)

text \<open>C39. Effective local health is exactly what the configuration promises. After any sequence of probe results
  and bind faults a process that started unhealthy is healthy if and only if no bind has failed in its lifetime,
  some probe has succeeded, and at most the configured number of probes have failed since the last success (with
  the largest delay no number of failures is too many).\<close>

theorem effective_health_spec:
  "status_healthy (snd (health_run es (dampener_new delay, local_health_new False))) \<longleftrightarrow>
     dampened delay (raw_probes es) \<and> \<not> faulted es"
proof -
  let ?x = "\<lambda>es. health_run es (dampener_new delay, local_health_new False)"
  have "dampener_ok delay (raw_probes es) (fst (?x es)) \<and> hs_probe_healthy (snd (?x es)) = dampened delay (raw_probes es) \<and>
    (hs_bind_fault (snd (?x es)) = None \<longleftrightarrow> \<not> faulted es)" for es
  proof (induction es rule: rev_induct)
    case Nil
    show ?case by (simp add: health_run_def dampener_ok_def dampener_new_def local_health_new_def dampened_def faulted_def)
  next
    case (snoc e es)
    show ?case
    proof (cases e)
      case (RawProbe b)
      then show ?thesis using snoc.IH dampener_observe_ok [of delay "raw_probes es" "fst (?x es)" b]
        by (simp add: health_step_def case_prod_beta Let_def faulted_def)
    next
      case (BindFaultSeen f)
      then show ?thesis using snoc.IH by (auto simp: health_step_def faulted_def)
    qed
  qed
  then show ?thesis by (simp add: status_healthy_def)
qed

subsection \<open>Continuity\<close>

lemma health_step_epoch:
  assumes "health_step e x = y"
  shows "hs_loss_epoch (snd x) \<le> hs_loss_epoch (snd y) \<and>
    (status_healthy (snd x) \<and> \<not> status_healthy (snd y) \<and> hs_loss_epoch (snd x) \<noteq> - 1 \<longrightarrow>
       hs_loss_epoch (snd x) < hs_loss_epoch (snd y))"
  using assms sat_add_one_gt [of "hs_loss_epoch (snd x)"] sat_add_ge1 [of "hs_loss_epoch (snd x)" 1]
  by (auto simp: health_step_def observe_probe_def fail_binding_def status_healthy_def Let_def split: health_event.splits prod.splits)

lemma health_run_Cons [simp]: "health_run (e # es) x = health_run es (health_step e x)"
  by (simp add: health_run_def)

lemma health_run_Nil [simp]: "health_run [] x = x"
  by (simp add: health_run_def)

lemma health_run_append: "health_run (es @ fs) x = health_run fs (health_run es x)"
  by (simp add: health_run_def)

lemma health_run_epoch: "hs_loss_epoch (snd x) \<le> hs_loss_epoch (snd (health_run es x))"
proof (induction es arbitrary: x)
  case (Cons e es)
  show ?case using health_step_epoch [OF refl, of x e] Cons.IH [of "health_step e x"] by (auto intro: order_trans)
qed simp

lemma no_loss:
  assumes "hs_loss_epoch (snd (health_run es x)) = hs_loss_epoch (snd x)" "hs_loss_epoch (snd x) \<noteq> - 1" "status_healthy (snd x)"
  shows "status_healthy (snd (health_run es x))"
  using assms
proof (induction es arbitrary: x)
  case (Cons e es)
  let ?y = "health_step e x"
  have "hs_loss_epoch (snd ?y) = hs_loss_epoch (snd x)"
    using health_step_epoch [OF refl, of x e] health_run_epoch [of ?y es] Cons.prems(1) by simp
  with Cons show ?case using health_step_epoch [OF refl, of x e] by auto
qed simp

text \<open>C40. Continuity of health cannot be faked by recovering. If a continuity taken at one point still checks later,
  then from the first moment of health on there was no loss of health in between: a node that was healthy at some
  point of the interval was healthy at every later point of it, whatever probes and faults arrived and however
  often the loss counter had saturated.\<close>

theorem continuity_means_no_loss:
  assumes "continuity_check (observe_continuity (snd x)) (snd (health_run (es @ fs @ gs) x))"
    and "status_healthy (snd (health_run es x))"
  shows "status_healthy (snd (health_run (es @ fs) x))"
proof -
  let ?y = "health_run es x"
  let ?z = "health_run fs ?y"
  have "hs_loss_epoch (snd (health_run gs ?z)) = hs_loss_epoch (snd x)" "hs_loss_epoch (snd x) \<noteq> - 1"
    using assms(1) by (simp_all add: continuity_check_def observe_continuity_def health_run_append)
  moreover have "hs_loss_epoch (snd x) \<le> hs_loss_epoch (snd ?y)" "hs_loss_epoch (snd ?y) \<le> hs_loss_epoch (snd ?z)"
    "hs_loss_epoch (snd ?z) \<le> hs_loss_epoch (snd (health_run gs ?z))"
    by (rule health_run_epoch)+
  ultimately show ?thesis using no_loss [of fs ?y] assms(2) by (simp add: health_run_append)
qed

theorem continuity_means_no_loss_witness:
  "status_healthy (snd (health_run ([RawProbe True] @ [RawProbe False]) (dampener_new 1, local_health_new False)))"
  using continuity_means_no_loss [of "(dampener_new 1, local_health_new False)" "[RawProbe True]" "[RawProbe False]" "[RawProbe True]"]
  by (simp add: health_step_def dampener_observe_def dampener_new_def local_health_new_def observe_probe_def sat_add_def
      status_healthy_def continuity_check_def observe_continuity_def Let_def)

end
