(* ===== verification/Consensus_Freshness.thy ===== *)
theory Consensus_Freshness
  imports Local_Health Admission_Controller Example_Cluster
begin

text \<open>
  How long a healthy proof of quorum contact authorizes VIP effects: \<open>src/consensus_freshness.rs\<close>, its
  permits (\<open>permits.rs\<close>) and the verified progress they rest on
  (\<open>src/raft/admission/runtime/proof.rs\<close>). The proof is the value of a \<open>watch\<close> channel and each operation
  one atomic update. A check reads the clock and the admission fence several times; the readings are
  arguments. The order of log identifiers is that of openraft, an argument as well.
\<close>

subsection \<open>Verified progress\<close>

text \<open>The session is its admission context; the fence behind it is in the readings.\<close>

record verified_progress =
  vp_started :: instant
  vp_applied :: applied_health_progress
  vp_accepted_deadline :: instant
  vp_session :: admission_context

record installed_admission =
  ia_session :: admission_context
  ia_deadline :: instant
  ia_started :: instant
  ia_request :: admission_request

record readings =
  rd_now :: instant
  rd_fence :: fence_view
  rd_after :: instant

definition progress_check :: "readings \<Rightarrow> verified_progress \<Rightarrow> unit admitted" where
  "progress_check rd p =
     rbind (session_check (rd_fence rd) (vp_session p)) (\<lambda>_.
       if vp_accepted_deadline p \<le> rd_after rd
       then Inl (AdmissionDenied ''health proof admission deadline expired'') else Inr ())"

definition verified_progress_new ::
  "readings \<Rightarrow> instant \<Rightarrow> applied_health_progress \<Rightarrow> installed_admission \<Rightarrow> verified_progress admitted" where
  "verified_progress_new rd started applied installed =
     rbind (validate_progress (ap_request applied)) (\<lambda>_.
       if hp_replica (ap_request applied) \<noteq> ctx_local_replica (ia_session installed) \<or>
          hp_genesis (ap_request applied) \<noteq> ctx_genesis (ia_session installed) \<or>
          hp_request_nonce (ap_request applied) \<noteq> ar_request_nonce (ia_request installed) \<or>
          ia_started installed < started \<or>
          ar_mode (ia_request installed) \<noteq> Renew (Some (ap_log_id applied))
       then Inl (AdmissionDenied ''health proof differs from accepted admission'')
       else let p = \<lparr>vp_started = started, vp_applied = applied, vp_accepted_deadline = ia_deadline installed,
                     vp_session = ia_session installed\<rparr>
            in rbind (progress_check rd p) (\<lambda>_. Inr p))"

definition vp_log_id :: "verified_progress \<Rightarrow> log_id" where
  "vp_log_id p = ap_log_id (vp_applied p)"

definition vp_healthy :: "verified_progress \<Rightarrow> bool option" where
  "vp_healthy p = hp_healthy (ap_request (vp_applied p))"

subsection \<open>The proof and its lifetime\<close>

record fresh_proof =
  pf_started :: "instant option"
  pf_invalidation_epoch :: u64
  pf_acquisition_epoch :: u64
  pf_available :: bool
  pf_progress :: "verified_progress option"

text \<open>The identity is the address of the allocation that \<open>Arc::ptr_eq\<close> compares.\<close>

record consensus_freshness =
  cf_proof :: fresh_proof
  cf_lifetime :: duration
  cf_identity :: nat

definition freshness_new :: "nat \<Rightarrow> duration \<Rightarrow> consensus_freshness" where
  "freshness_new ident lifetime =
     \<lparr>cf_proof = \<lparr>pf_started = None, pf_invalidation_epoch = 0, pf_acquisition_epoch = 0, pf_available = False,
                  pf_progress = None\<rparr>,
      cf_lifetime = lifetime, cf_identity = ident\<rparr>"

definition proof_deadline :: "duration \<Rightarrow> fresh_proof \<Rightarrow> instant option" where
  "proof_deadline lifetime pf =
     (case pf_started pf of None \<Rightarrow> None
      | Some started \<Rightarrow>
          (case inst_checked_add started lifetime of None \<Rightarrow> None
           | Some d \<Rightarrow> Some (case pf_progress pf of None \<Rightarrow> d | Some p \<Rightarrow> min d (vp_accepted_deadline p))))"

definition proof_fresh :: "duration \<Rightarrow> readings \<Rightarrow> fresh_proof \<Rightarrow> bool" where
  "proof_fresh lifetime rd pf =
     ((case proof_deadline lifetime pf of None \<Rightarrow> False | Some d \<Rightarrow> rd_now rd < d) \<and>
      (case pf_progress pf of None \<Rightarrow> True | Some p \<Rightarrow> is_ok (progress_check rd p)))"

datatype proof_rejected = ProofRejected string

text \<open>The readings of \<open>record_applied\<close> in order: those of the check of the new progress, the two of its
  lifetime, and those of the freshness of the proof it replaces.\<close>

record applied_readings =
  rr_check :: readings
  rr_now :: instant
  rr_again :: instant
  rr_fresh :: readings

definition not_advancing :: "(log_id \<Rightarrow> log_id \<Rightarrow> bool) \<Rightarrow> verified_progress \<Rightarrow> fresh_proof \<Rightarrow> bool" where
  "not_advancing le progress pf =
     ((case pf_started pf of None \<Rightarrow> False | Some previous \<Rightarrow> vp_started progress < previous) \<or>
      (case pf_progress pf of None \<Rightarrow> False
       | Some previous \<Rightarrow> vp_session previous = vp_session progress \<and>
           (index (vp_log_id progress) \<le> index (vp_log_id previous) \<or> le (vp_log_id progress) (vp_log_id previous))))"

definition renews :: "duration \<Rightarrow> readings \<Rightarrow> verified_progress \<Rightarrow> fresh_proof \<Rightarrow> bool" where
  "renews lifetime rd progress pf =
     (proof_fresh lifetime rd pf \<and>
      (case pf_progress pf of None \<Rightarrow> False | Some previous \<Rightarrow> vp_session previous = vp_session progress))"

definition record_applied ::
  "(log_id \<Rightarrow> log_id \<Rightarrow> bool) \<Rightarrow> applied_readings \<Rightarrow> verified_progress \<Rightarrow> consensus_freshness \<Rightarrow>
   consensus_freshness \<times> (proof_rejected, unit) result" where
  "record_applied le rr progress f =
     (if vp_healthy progress \<noteq> Some True
      then (f, Inl (ProofRejected ''only completed healthy progress can renew freshness''))
      else if \<not> is_ok (progress_check (rr_check rr) progress)
      then (f, Inl (ProofRejected ''health proof authority is revoked''))
      else case inst_checked_add (vp_started progress) (cf_lifetime f) of
        None \<Rightarrow> (f, Inl (ProofRejected ''health proof lifetime overflow''))
      | Some d \<Rightarrow>
          (let deadline = min d (vp_accepted_deadline progress) in
           if rr_now rr < vp_started progress \<or> deadline \<le> rr_again rr
           then (f, Inl (ProofRejected ''health proof is outside its original lifetime''))
           else if not_advancing le progress (cf_proof f)
           then (f, Inl (ProofRejected ''health proof does not advance verified progress''))
           else let pf = cf_proof f;
                    pf1 = (if renews (cf_lifetime f) (rr_fresh rr) progress pf then pf
                           else pf\<lparr>pf_invalidation_epoch := pf_invalidation_epoch pf + 1\<rparr>)
                in (f\<lparr>cf_proof := pf1\<lparr>pf_started := Some (vp_started progress), pf_progress := Some progress,
                                        pf_available := True\<rparr>\<rparr>, Inr ())))"

definition mark_unavailable :: "consensus_freshness \<Rightarrow> consensus_freshness" where
  "mark_unavailable f =
     (let pf = cf_proof f in
      if \<not> pf_available pf then f
      else f\<lparr>cf_proof := pf\<lparr>pf_available := False, pf_acquisition_epoch := pf_acquisition_epoch pf + 1\<rparr>\<rparr>)"

definition invalidate :: "consensus_freshness \<Rightarrow> consensus_freshness" where
  "invalidate f =
     (let pf = cf_proof f in
      f\<lparr>cf_proof := pf\<lparr>pf_started := None, pf_available := False,
                        pf_invalidation_epoch := pf_invalidation_epoch pf + 1\<rparr>\<rparr>)"

subsection \<open>Permits\<close>

record retention_stamp =
  rs_identity :: nat
  rs_context :: admission_context
  rs_epoch :: u64

record permit =
  pm_stamp :: retention_stamp
  pm_acquisition_epoch :: "u64 option"
  pm_deadline :: instant
  pm_progress :: verified_progress

definition acquire :: "readings \<Rightarrow> bool \<Rightarrow> consensus_freshness \<Rightarrow> permit option" where
  "acquire rd led f =
     (let pf = cf_proof f in
      if \<not> led \<or> \<not> pf_available pf \<or> \<not> proof_fresh (cf_lifetime f) rd pf then None
      else Option.bind (pf_progress pf) (\<lambda>progress.
           Option.bind (proof_deadline (cf_lifetime f) pf) (\<lambda>d.
             Some \<lparr>pm_stamp = \<lparr>rs_identity = cf_identity f, rs_context = vp_session progress,
                               rs_epoch = pf_invalidation_epoch pf\<rparr>,
                   pm_acquisition_epoch = Some (pf_acquisition_epoch pf), pm_deadline = d, pm_progress = progress\<rparr>)))"

definition retain :: "readings \<Rightarrow> retention_stamp \<Rightarrow> consensus_freshness \<Rightarrow> permit option" where
  "retain rd stamp f =
     (let pf = cf_proof f in
      Option.bind (pf_progress pf) (\<lambda>progress.
        if cf_identity f \<noteq> rs_identity stamp \<or> pf_invalidation_epoch pf \<noteq> rs_epoch stamp \<or>
           vp_session progress \<noteq> rs_context stamp \<or> \<not> proof_fresh (cf_lifetime f) rd pf
        then None
        else Option.bind (proof_deadline (cf_lifetime f) pf) (\<lambda>d.
             Some \<lparr>pm_stamp = stamp, pm_acquisition_epoch = None, pm_deadline = d, pm_progress = progress\<rparr>)))"

text \<open>Two readings: for the deadline and the progress of the permit, and for the progress of the proof.\<close>

definition permit_check :: "readings \<Rightarrow> readings \<Rightarrow> permit \<Rightarrow> consensus_freshness \<Rightarrow> bool" where
  "permit_check rd rd' pm f =
     (if pm_deadline pm \<le> rd_now rd \<or> \<not> is_ok (progress_check rd (pm_progress pm)) then False
      else let pf = cf_proof f in
        pf_invalidation_epoch pf = rs_epoch (pm_stamp pm) \<and>
        (case pf_progress pf of None \<Rightarrow> False
         | Some p \<Rightarrow> vp_session p = rs_context (pm_stamp pm) \<and> is_ok (progress_check rd' p)) \<and>
        (case pm_acquisition_epoch pm of None \<Rightarrow> True
         | Some e \<Rightarrow> pf_available pf \<and> pf_acquisition_epoch pf = e))"

definition permit_run ::
  "permit \<Rightarrow> readings \<times> readings \<times> consensus_freshness \<Rightarrow>
   (readings \<times> readings \<times> consensus_freshness, 'a) guard_event list \<Rightarrow> 'a guarded" where
  "permit_run pm = guard_run (\<lambda>(rd, rd', f). permit_check rd rd' pm f)"

subsection \<open>Runs\<close>

datatype freshness_op = RecordApplied applied_readings verified_progress | MarkUnavailable | Invalidate

definition freshness_step :: "(log_id \<Rightarrow> log_id \<Rightarrow> bool) \<Rightarrow> freshness_op \<Rightarrow> consensus_freshness \<Rightarrow> consensus_freshness" where
  "freshness_step le op f =
     (case op of RecordApplied rr p \<Rightarrow> fst (record_applied le rr p f)
      | MarkUnavailable \<Rightarrow> mark_unavailable f | Invalidate \<Rightarrow> invalidate f)"

definition freshness_run :: "(log_id \<Rightarrow> log_id \<Rightarrow> bool) \<Rightarrow> freshness_op list \<Rightarrow> consensus_freshness \<Rightarrow> consensus_freshness" where
  "freshness_run le ops f = fold (freshness_step le) ops f"

text \<open>Nothing was invalidated, and each proof recorded on the way replaced one of the same admission that was
  still fresh.\<close>

fun unbroken :: "(log_id \<Rightarrow> log_id \<Rightarrow> bool) \<Rightarrow> freshness_op list \<Rightarrow> consensus_freshness \<Rightarrow> bool" where
  "unbroken le [] f = True"
| "unbroken le (op # ops) f =
     ((case op of Invalidate \<Rightarrow> False | MarkUnavailable \<Rightarrow> True
       | RecordApplied rr p \<Rightarrow> snd (record_applied le rr p f) = Inr () \<longrightarrow> renews (cf_lifetime f) (rr_fresh rr) p (cf_proof f)) \<and>
      unbroken le ops (freshness_step le op f))"

lemma freshness_run_simps [simp]:
  "freshness_run le [] f = f" "freshness_run le (op # ops) f = freshness_run le ops (freshness_step le op f)"
  by (simp_all add: freshness_run_def)

lemma invalidate_fields [simp]:
  "cf_lifetime (invalidate f) = cf_lifetime f" "cf_identity (invalidate f) = cf_identity f"
  "pf_started (cf_proof (invalidate f)) = None" "pf_available (cf_proof (invalidate f)) = False"
  "pf_progress (cf_proof (invalidate f)) = pf_progress (cf_proof f)"
  "pf_invalidation_epoch (cf_proof (invalidate f)) = pf_invalidation_epoch (cf_proof f) + 1"
  "pf_acquisition_epoch (cf_proof (invalidate f)) = pf_acquisition_epoch (cf_proof f)"
  by (simp_all add: invalidate_def Let_def)

lemma mark_unavailable_fields [simp]:
  "cf_lifetime (mark_unavailable f) = cf_lifetime f" "cf_identity (mark_unavailable f) = cf_identity f"
  "pf_started (cf_proof (mark_unavailable f)) = pf_started (cf_proof f)"
  "pf_available (cf_proof (mark_unavailable f)) = False"
  "pf_progress (cf_proof (mark_unavailable f)) = pf_progress (cf_proof f)"
  "pf_invalidation_epoch (cf_proof (mark_unavailable f)) = pf_invalidation_epoch (cf_proof f)"
  "pf_acquisition_epoch (cf_proof (mark_unavailable f)) =
     pf_acquisition_epoch (cf_proof f) + (if pf_available (cf_proof f) then 1 else 0)"
  by (simp_all add: mark_unavailable_def Let_def)

lemma record_applied_cases:
  obtains (rejected) "fst (record_applied le rr p f) = f" "snd (record_applied le rr p f) \<noteq> Inr ()"
  | (recorded) "snd (record_applied le rr p f) = Inr ()" "vp_healthy p = Some True"
      "rr_again rr < vp_started p + cf_lifetime f" "rr_again rr < vp_accepted_deadline p"
      "is_ok (progress_check (rr_check rr) p)"
      "fst (record_applied le rr p f) =
         f\<lparr>cf_proof := (cf_proof f)\<lparr>pf_invalidation_epoch := pf_invalidation_epoch (cf_proof f) +
              (if renews (cf_lifetime f) (rr_fresh rr) p (cf_proof f) then 0 else 1),
            pf_started := Some (vp_started p), pf_progress := Some p, pf_available := True\<rparr>\<rparr>"
proof (cases "snd (record_applied le rr p f) = Inr ()")
  case True
  then have fits: "inst_checked_add (vp_started p) (cf_lifetime f) = Some (vp_started p + cf_lifetime f)"
    by (auto simp: record_applied_def inst_checked_add_def split: if_splits option.splits)
  have guards: "vp_healthy p = Some True" "is_ok (progress_check (rr_check rr) p)" "\<not> rr_now rr < vp_started p"
    "rr_again rr < min (vp_started p + cf_lifetime f) (vp_accepted_deadline p)" "\<not> not_advancing le p (cf_proof f)"
    using True by (auto simp: record_applied_def fits Let_def split: if_splits)
  then show ?thesis using True by (intro recorded) (auto simp: record_applied_def fits Let_def)
next
  case False
  then show ?thesis by (intro rejected) (auto simp: record_applied_def inst_checked_add_def Let_def split: if_splits)
qed

lemma step_frame [simp]:
  "cf_lifetime (freshness_step le op f) = cf_lifetime f \<and> cf_identity (freshness_step le op f) = cf_identity f"
proof (cases op)
  case (RecordApplied rr p)
  then show ?thesis by (cases rule: record_applied_cases [of le rr p f]) (simp_all add: freshness_step_def)
qed (simp_all add: freshness_step_def)

lemma run_frame [simp]:
  "cf_lifetime (freshness_run le ops f) = cf_lifetime f" "cf_identity (freshness_run le ops f) = cf_identity f"
  by (induction ops arbitrary: f) simp_all

text \<open>Epochs count. Along a run the invalidation epoch advances once for every break, the acquisition epoch once
  for every loss of availability.\<close>

lemma invalidation_count:
  "\<exists>k \<le> length ops. pf_invalidation_epoch (cf_proof (freshness_run le ops f)) = pf_invalidation_epoch (cf_proof f) + of_nat k \<and>
     (k = 0 \<longrightarrow> unbroken le ops f)"
proof (induction ops arbitrary: f)
  case (Cons op ops)
  let ?g = "freshness_step le op f"
  obtain k where k: "k \<le> length ops" "pf_invalidation_epoch (cf_proof (freshness_run le ops ?g)) =
      pf_invalidation_epoch (cf_proof ?g) + of_nat k" "k = 0 \<longrightarrow> unbroken le ops ?g"
    using Cons.IH [of ?g] by blast
  have "(pf_invalidation_epoch (cf_proof ?g) = pf_invalidation_epoch (cf_proof f) + 1) \<or>
    (pf_invalidation_epoch (cf_proof ?g) = pf_invalidation_epoch (cf_proof f) \<and> (unbroken le ops ?g \<longrightarrow> unbroken le (op # ops) f))"
  proof (cases op)
    case (RecordApplied rr p)
    then show ?thesis by (cases rule: record_applied_cases [of le rr p f]) (auto simp: freshness_step_def)
  qed (auto simp: freshness_step_def)
  then show ?case
  proof
    assume "pf_invalidation_epoch (cf_proof ?g) = pf_invalidation_epoch (cf_proof f) + 1"
    then show ?thesis using k by (intro exI [of _ "Suc k"]) (simp add: algebra_simps)
  next
    assume "pf_invalidation_epoch (cf_proof ?g) = pf_invalidation_epoch (cf_proof f) \<and> (unbroken le ops ?g \<longrightarrow> unbroken le (op # ops) f)"
    then show ?thesis using k by (intro exI [of _ k]) auto
  qed
qed auto

lemma step_available:
  assumes "\<not> (op = MarkUnavailable \<and> pf_available (cf_proof f))" "op \<noteq> Invalidate"
  shows "pf_acquisition_epoch (cf_proof (freshness_step le op f)) = pf_acquisition_epoch (cf_proof f) \<and>
    (pf_available (cf_proof f) \<longrightarrow> pf_available (cf_proof (freshness_step le op f)) \<and> op \<noteq> MarkUnavailable)"
proof (cases op)
  case (RecordApplied rr p)
  then show ?thesis by (cases rule: record_applied_cases [of le rr p f]) (auto simp: freshness_step_def)
qed (use assms in \<open>auto simp: freshness_step_def\<close>)

lemma acquisition_count:
  assumes "unbroken le ops f" "pf_available (cf_proof f)"
  shows "\<exists>k \<le> length ops. pf_acquisition_epoch (cf_proof (freshness_run le ops f)) = pf_acquisition_epoch (cf_proof f) + of_nat k \<and>
     (k = 0 \<longrightarrow> MarkUnavailable \<notin> set ops)"
proof -
  have "\<exists>k \<le> length ops. pf_acquisition_epoch (cf_proof (freshness_run le ops f)) = pf_acquisition_epoch (cf_proof f) + of_nat k \<and>
     (k = 0 \<and> pf_available (cf_proof f) \<longrightarrow> MarkUnavailable \<notin> set ops)" if "unbroken le ops f" for ops f
    using that
  proof (induction ops arbitrary: f)
    case (Cons op ops)
    let ?g = "freshness_step le op f"
    obtain k where k: "k \<le> length ops" "pf_acquisition_epoch (cf_proof (freshness_run le ops ?g)) =
        pf_acquisition_epoch (cf_proof ?g) + of_nat k" "k = 0 \<and> pf_available (cf_proof ?g) \<longrightarrow> MarkUnavailable \<notin> set ops"
      using Cons.IH [of ?g] Cons.prems by auto
    show ?case
    proof (cases "op = MarkUnavailable \<and> pf_available (cf_proof f)")
      case True
      then show ?thesis using k by (intro exI [of _ "Suc k"]) (simp add: freshness_step_def algebra_simps)
    next
      case False
      then have "pf_acquisition_epoch (cf_proof ?g) = pf_acquisition_epoch (cf_proof f)"
        "pf_available (cf_proof f) \<longrightarrow> pf_available (cf_proof ?g) \<and> op \<noteq> MarkUnavailable"
        using Cons.prems step_available [of op f le] by (auto split: freshness_op.splits)
      then show ?thesis using k by (intro exI [of _ k]) auto
    qed
  qed auto
  from this [OF assms(1)] show ?thesis using assms(2) by auto
qed

lemma epoch_unmoved:
  assumes "e + of_nat k = (e :: u64)" "k < 2 ^ 64"
  shows "k = 0"
proof -
  have "of_nat k = (0 :: u64)" using assms(1) by simp
  then show ?thesis using assms(2) by (auto simp: word_of_nat_eq_0_iff dest: dvd_imp_le)
qed

text \<open>What every reachable proof satisfies: its progress is a completed healthy one, and the start of the proof is
  the start of that progress.\<close>

definition freshness_ok :: "consensus_freshness \<Rightarrow> bool" where
  "freshness_ok f \<longleftrightarrow>
     (\<forall>p. pf_progress (cf_proof f) = Some p \<longrightarrow> vp_healthy p = Some True \<and>
        (\<forall>s. pf_started (cf_proof f) = Some s \<longrightarrow> s = vp_started p))"

lemma freshness_ok_step: "freshness_ok f \<Longrightarrow> freshness_ok (freshness_step le op f)"
proof (cases op)
  case (RecordApplied rr p)
  moreover assume "freshness_ok f"
  ultimately show ?thesis
    by (cases rule: record_applied_cases [of le rr p f]) (auto simp: freshness_step_def freshness_ok_def)
qed (auto simp: freshness_step_def freshness_ok_def)

lemma freshness_ok_run: "freshness_ok f \<Longrightarrow> freshness_ok (freshness_run le ops f)"
  by (induction ops arbitrary: f) (simp_all add: freshness_ok_step)

lemma freshness_ok_new: "freshness_ok (freshness_new i l)"
  by (simp add: freshness_ok_def freshness_new_def)

lemma proof_deadline_bound:
  assumes "freshness_ok f" "proof_deadline (cf_lifetime f) (cf_proof f) = Some d" "pf_progress (cf_proof f) = Some p"
  shows "d \<le> vp_started p + cf_lifetime f \<and> d \<le> vp_accepted_deadline p \<and> vp_healthy p = Some True"
  using assms by (auto simp: freshness_ok_def proof_deadline_def split: option.splits)

lemma acquire_SomeD:
  assumes "acquire rd led f = Some pm"
  shows "led" "pf_available (cf_proof f)" "pf_progress (cf_proof f) = Some (pm_progress pm)"
    "proof_deadline (cf_lifetime f) (cf_proof f) = Some (pm_deadline pm)"
    "pm_stamp pm = \<lparr>rs_identity = cf_identity f, rs_context = vp_session (pm_progress pm),
       rs_epoch = pf_invalidation_epoch (cf_proof f)\<rparr>"
    "pm_acquisition_epoch pm = Some (pf_acquisition_epoch (cf_proof f))"
  using assms by (auto simp: acquire_def Let_def bind_eq_Some_conv split: if_splits)

lemma retain_SomeD:
  assumes "retain rd stamp f = Some pm"
  shows "pf_progress (cf_proof f) = Some (pm_progress pm)" "proof_deadline (cf_lifetime f) (cf_proof f) = Some (pm_deadline pm)"
    "pf_invalidation_epoch (cf_proof f) = rs_epoch stamp" "vp_session (pm_progress pm) = rs_context stamp"
    "rd_now rd < pm_deadline pm" "is_ok (progress_check rd (pm_progress pm))" "pm_stamp pm = stamp"
    "cf_identity f = rs_identity stamp"
  using assms by (auto simp: retain_def Let_def bind_eq_Some_conv proof_fresh_def split: if_splits)

text \<open>The fence vouches for the session of a progress, for longer than the reading taken after it, and the admission
  that the progress was accepted under has not run out.\<close>

definition admission_live :: "readings \<Rightarrow> verified_progress \<Rightarrow> bool" where
  "admission_live rd p \<longleftrightarrow>
     (\<exists>until. fv_check (rd_fence rd) (vp_session p) = Inr until \<and> fv_now (rd_fence rd) < until) \<and>
     rd_after rd < vp_accepted_deadline p"

lemma progress_check_live: "is_ok (progress_check rd p) \<longleftrightarrow> admission_live rd p"
proof (cases "session_check (rd_fence rd) (vp_session p)")
  case (Inl e)
  have "\<nexists>until. fv_check (rd_fence rd) (vp_session p) = Inr until \<and> fv_now (rd_fence rd) < until"
    using Inl session_check_Inr by (metis sum.distinct(1))
  then show ?thesis using Inl by (simp add: progress_check_def admission_live_def is_ok_def del: session_check_Inr)
next
  case (Inr until)
  have "fv_check (rd_fence rd) (vp_session p) = Inr until" "fv_now (rd_fence rd) < until" using Inr by simp_all
  then show ?thesis unfolding progress_check_def admission_live_def is_ok_def Inr by auto
qed

text \<open>The first node of the small cluster, which has two of its healthy proofs applied one after the other.\<close>

definition ex_progress :: "u64 \<Rightarrow> instant \<Rightarrow> verified_progress" where
  "ex_progress i t =
     \<lparr>vp_started = t,
      vp_applied = \<lparr>ap_request = \<lparr>hp_node_id = 1, hp_healthy = Some True, hp_replica = ex_replica 1, hp_epoch = 9,
        hp_request_nonce = 0, hp_genesis = ex_genesis\<rparr>, ap_log_id = ex_log_id i\<rparr>,
      vp_accepted_deadline = 90, vp_session = ex_context\<rparr>"

definition ex_readings :: "instant \<Rightarrow> readings" where
  "ex_readings t = \<lparr>rd_now = t, rd_fence = ex_fence, rd_after = t\<rparr>"

definition ex_applied :: "u64 \<Rightarrow> instant \<Rightarrow> freshness_op" where
  "ex_applied i t = RecordApplied \<lparr>rr_check = ex_readings (t + 1), rr_now = t + 1, rr_again = t + 2, rr_fresh = ex_readings (t + 2)\<rparr> (ex_progress i t)"

definition ex_le :: "log_id \<Rightarrow> log_id \<Rightarrow> bool" where
  "ex_le a b = (index a \<le> index b)"

definition ex_fresh :: "u64 \<Rightarrow> instant \<Rightarrow> consensus_freshness" where
  "ex_fresh i t =
     \<lparr>cf_proof = \<lparr>pf_started = Some t, pf_invalidation_epoch = 1, pf_acquisition_epoch = 0, pf_available = True,
                  pf_progress = Some (ex_progress i t)\<rparr>,
      cf_lifetime = 50, cf_identity = 0\<rparr>"

definition ex_permit :: permit where
  "ex_permit = \<lparr>pm_stamp = \<lparr>rs_identity = 0, rs_context = ex_context, rs_epoch = 1\<rparr>, pm_acquisition_epoch = Some 0,
     pm_deadline = 60, pm_progress = ex_progress 3 10\<rparr>"

lemma ex_progress_check [simp]: "progress_check (ex_readings t) (ex_progress i u) = (if 90 \<le> t then Inl (AdmissionDenied ''health proof admission deadline expired'') else Inr ())"
  by (simp add: progress_check_def ex_readings_def ex_progress_def session_check_def ex_fence_def)

lemma ex_progress_fields [simp]:
  "vp_healthy (ex_progress i t) = Some True" "vp_started (ex_progress i t) = t" "vp_session (ex_progress i t) = ex_context"
  "vp_accepted_deadline (ex_progress i t) = 90" "index (vp_log_id (ex_progress i t)) = i"
  by (simp_all add: ex_progress_def vp_healthy_def vp_log_id_def ex_log_id_def)

lemma ex_fresh_deadline: "proof_deadline 50 (cf_proof (ex_fresh i t)) = (if t + 50 \<le> instant_max then Some (min (t + 50) 90) else None)"
  by (simp add: proof_deadline_def ex_fresh_def inst_checked_add_def)

lemma ex_first: "freshness_run ex_le [ex_applied 3 10] (freshness_new 0 50) = ex_fresh 3 10"
  by (simp add: freshness_step_def ex_applied_def record_applied_def freshness_new_def not_advancing_def renews_def
      proof_fresh_def proof_deadline_def ex_fresh_def Let_def inst_checked_add_def instant_max_def)

lemma ex_second: "freshness_run ex_le [ex_applied 4 20] (ex_fresh 3 10) = ex_fresh 4 20"
  by (simp add: freshness_step_def ex_applied_def record_applied_def not_advancing_def renews_def ex_le_def
      proof_fresh_def proof_deadline_def ex_fresh_def Let_def inst_checked_add_def instant_max_def)
     (simp add: ex_readings_def)

lemma ex_acquire: "acquire (ex_readings 15) True (ex_fresh 3 10) = Some ex_permit"
  by (simp add: acquire_def proof_fresh_def ex_fresh_deadline ex_fresh_def [of 3 10] ex_permit_def Let_def)
     (simp add: ex_readings_def proof_deadline_def inst_checked_add_def instant_max_def)

text \<open>C4. A permit to create a binding means recent quorum contact and nothing bad since. If a permit acquired from
  any reachable freshness still checks after further operations, fewer than the epochs can count, then there was
  a leader when it was acquired, the progress behind it was committed as healthy, its request started less than
  one lifetime ago, and its admission is live: the authority vouches for its session at this check and its
  accepted deadline has not passed. The proof held now is healthy too, of the same admission and live at this
  check. Since the acquisition nothing was invalidated, the quorum was never reported unavailable, and every
  renewal replaced a fresh proof of the same admission.\<close>

theorem permit_means_recent_quorum:
  assumes "f = freshness_run le ops (freshness_new ident lifetime)" "acquire rd led f = Some pm"
    and "permit_check rd1 rd2 pm (freshness_run le later f)" "length later < 2 ^ 64"
  shows "led \<and> vp_healthy (pm_progress pm) = Some True \<and>
    rd_now rd1 < vp_started (pm_progress pm) + lifetime \<and> rd_now rd1 < vp_accepted_deadline (pm_progress pm) \<and>
    admission_live rd1 (pm_progress pm) \<and>
    (\<exists>p. pf_progress (cf_proof (freshness_run le later f)) = Some p \<and> vp_session p = vp_session (pm_progress pm) \<and>
       vp_healthy p = Some True \<and> admission_live rd2 p) \<and>
    MarkUnavailable \<notin> set later \<and> unbroken le later f"
proof -
  note a = acquire_SomeD [OF assms(2)]
  have life: "cf_lifetime f = lifetime" by (simp add: assms(1)) (simp add: freshness_new_def)
  have "freshness_ok f" by (simp add: assms(1) freshness_ok_run freshness_ok_new)
  note bound = proof_deadline_bound [OF this a(4,3)]
  have c: "rd_now rd1 < pm_deadline pm"
    "pf_invalidation_epoch (cf_proof (freshness_run le later f)) = pf_invalidation_epoch (cf_proof f)"
    "pf_acquisition_epoch (cf_proof (freshness_run le later f)) = pf_acquisition_epoch (cf_proof f)"
    using assms(3) by (auto simp: permit_check_def a(5,6) Let_def split: if_splits)
  obtain k where "k \<le> length later" "pf_invalidation_epoch (cf_proof f) + of_nat k = pf_invalidation_epoch (cf_proof f)"
    "k = 0 \<longrightarrow> unbroken le later f"
    using invalidation_count [of later le f] c(2) by auto
  then have unbroken: "unbroken le later f" using epoch_unmoved assms(4) by (metis le_less_trans)
  obtain j where "j \<le> length later" "pf_acquisition_epoch (cf_proof f) + of_nat j = pf_acquisition_epoch (cf_proof f)"
    "j = 0 \<longrightarrow> MarkUnavailable \<notin> set later"
    using acquisition_count [OF unbroken a(2)] c(3) by auto
  then have "MarkUnavailable \<notin> set later" using epoch_unmoved assms(4) by (metis le_less_trans)
  moreover have "freshness_ok (freshness_run le later f)" by (simp add: assms(1) freshness_ok_run freshness_ok_new)
  then have "\<exists>p. pf_progress (cf_proof (freshness_run le later f)) = Some p \<and> vp_session p = vp_session (pm_progress pm) \<and>
      vp_healthy p = Some True \<and> admission_live rd2 p" "admission_live rd1 (pm_progress pm)"
    using assms(3) by (auto simp: permit_check_def a(5) Let_def freshness_ok_def progress_check_live split: if_splits option.splits)
  ultimately show ?thesis using a(1) bound c(1) unbroken life by simp
qed

theorem permit_means_recent_quorum_witness:
  "permit_check (ex_readings 30) (ex_readings 31) ex_permit (ex_fresh 4 20) \<and>
   admission_live (ex_readings 30) (pm_progress ex_permit) \<and> unbroken ex_le [ex_applied 4 20] (ex_fresh 3 10)"
proof -
  have "permit_check (ex_readings 30) (ex_readings 31) ex_permit (ex_fresh 4 20)"
    by (simp add: permit_check_def ex_permit_def ex_fresh_def Let_def) (simp add: ex_readings_def)
  with permit_means_recent_quorum [OF ex_first [symmetric] ex_acquire, of "ex_readings 30" "ex_readings 31" "[ex_applied 4 20]"]
  show ?thesis by (simp add: ex_second del: freshness_run_simps)
qed

text \<open>C18. Keeping a completed binding needs an unbroken chain of proofs of one tracker, not availability. Let there be
  any number of freshness trackers, told apart by their identity. If the stamp of a permit acquired from one of them
  is retained by one of them after further operations, fewer than the epochs can count, then it is the same tracker;
  nothing was invalidated in between; every renewal on the way replaced a proof that was still fresh for the same
  admission; and the proof now relied on is healthy, of the admission the binding was made under, started less than
  one lifetime ago, and its admission is live.\<close>

theorem retention_is_continuous:
  assumes "\<And>i. tracker i = freshness_run le (ops i) (freshness_new i (lifetime i))" "acquire rd led (tracker i) = Some pm"
    and "retain rd' (pm_stamp pm) (freshness_run le later (tracker j)) = Some pm'" "length later < 2 ^ 64"
  shows "j = i \<and> unbroken le later (tracker i) \<and> vp_session (pm_progress pm') = vp_session (pm_progress pm) \<and>
    vp_healthy (pm_progress pm') = Some True \<and> rd_now rd' < vp_started (pm_progress pm') + lifetime i \<and>
    rd_now rd' < vp_accepted_deadline (pm_progress pm') \<and> admission_live rd' (pm_progress pm')"
proof -
  note a = acquire_SomeD [OF assms(2)] and r = retain_SomeD [OF assms(3)]
  let ?f = "tracker i"
  have ident: "cf_identity (tracker k) = k" "cf_lifetime (tracker k) = lifetime k" for k
    by (simp_all add: assms(1)) (simp_all add: freshness_new_def)
  then have same: "j = i" using r(8) by (simp add: a(5))
  have "freshness_ok (freshness_run le later ?f)" by (simp add: assms(1) freshness_ok_run freshness_ok_new)
  note bound = proof_deadline_bound [OF this r(2,1) [unfolded same]]
  obtain k where "k \<le> length later" "pf_invalidation_epoch (cf_proof ?f) + of_nat k = pf_invalidation_epoch (cf_proof ?f)"
    "k = 0 \<longrightarrow> unbroken le later ?f"
    using invalidation_count [of later le ?f] r(3) [unfolded same] by (auto simp: a(5))
  then have "unbroken le later ?f" using epoch_unmoved assms(4) by (metis le_less_trans)
  then show ?thesis using same bound r(4,5,6) a(5) ident progress_check_live by auto
qed

definition ex_tracker :: "nat \<Rightarrow> consensus_freshness" where
  "ex_tracker i = freshness_run ex_le (if i = 0 then [ex_applied 3 10] else []) (freshness_new i 50)"

theorem retention_is_continuous_witness:
  "unbroken ex_le [ex_applied 4 20] (ex_tracker 0) \<and>
   retain (ex_readings 65) (pm_stamp ex_permit) (ex_fresh 4 20) =
     Some \<lparr>pm_stamp = pm_stamp ex_permit, pm_acquisition_epoch = None, pm_deadline = 70, pm_progress = ex_progress 4 20\<rparr> \<and>
   admission_live (ex_readings 65) (ex_progress 4 20)"
proof -
  have first: "ex_tracker 0 = ex_fresh 3 10" using ex_first by (simp add: ex_tracker_def del: freshness_run_simps)
  have r: "retain (ex_readings 65) (pm_stamp ex_permit) (ex_fresh 4 20) =
     Some \<lparr>pm_stamp = pm_stamp ex_permit, pm_acquisition_epoch = None, pm_deadline = 70, pm_progress = ex_progress 4 20\<rparr>"
    by (simp add: retain_def ex_permit_def ex_fresh_def proof_fresh_def proof_deadline_def Let_def inst_checked_add_def instant_max_def)
       (simp add: ex_readings_def)
  with retention_is_continuous [of ex_tracker ex_le _ "\<lambda>_. 50" "ex_readings 15" True 0 ex_permit "ex_readings 65" "[ex_applied 4 20]" 0,
      OF ex_tracker_def] ex_acquire
  show ?thesis by (simp add: first ex_second del: freshness_run_simps)
qed

end
