(* ===== verification/Runtime_Driver.thy ===== *)
theory Runtime_Driver
  imports Admission_World Consensus_Freshness Authorization_State
begin

text \<open>
  The admission runtime of the daemon (\<open>src/raft/admission/runtime.rs\<close>) and the rounds it drives
  (\<open>driver.rs\<close> and \<open>renewal.rs\<close> beside it). An operation takes the driver to a new driver and a result. At an
  \<open>await\<close> other tasks run: \<open>te_await te k\<close> is what they do to the driver at the \<open>k\<close>-th one, and \<open>te_cut te k\<close> is the
  error with which the work is dropped there, by a timeout or by the loop of \<open>within_admission\<close>. Clock
  readings, entropy and answers of peers are arguments. The mutexes are never poisoned, because no code that
  holds one panics.
\<close>

subsection \<open>The driver\<close>

record pending_progress =
  pp_operation :: join_binding
  pp_matched_index :: "u64 option"
  pp_acknowledged_index :: "u64 option"
  pp_since :: instant

record runtime_driver =
  rt_cfg :: config
  rt_state :: kaf_storage_state
  rt_core :: admission_controller
  rt_authority :: runtime_authority
  rt_local :: replica_id
  rt_timing :: lease_timing
  rt_boot :: instant
  rt_raft :: bool
  rt_bootstrap_join :: "prepared_join option"
  rt_first_verified :: "instant option"
  rt_pending_progress :: "pending_progress option"
  rt_stopped :: bool
  rt_running :: bool
  rt_reported :: bool

record turn_env =
  te_sha :: "u8 list \<Rightarrow> bytes32"
  te_hmac :: mac
  te_to_vec :: encoder
  te_clock :: "nat \<Rightarrow> instant"
  te_await :: "nat \<Rightarrow> runtime_driver \<Rightarrow> runtime_driver"
  te_cut :: "nat \<Rightarrow> anyhow option"

type_synonym 'a drive = "runtime_driver \<Rightarrow> runtime_driver \<times> 'a anyhow_result"

definition dbind :: "'a drive \<Rightarrow> ('a \<Rightarrow> 'b drive) \<Rightarrow> 'b drive" where
  "dbind m f d = (case m d of (d', Inl e) \<Rightarrow> (d', Inl e) | (d', Inr a) \<Rightarrow> f a d')"

definition dlift :: "'a anyhow_result \<Rightarrow> 'a drive" where
  "dlift r d = (d, r)"

definition dread :: "(runtime_driver \<Rightarrow> 'a anyhow_result) \<Rightarrow> 'a drive" where
  "dread f d = (d, f d)"

definition awaits :: "turn_env \<Rightarrow> nat \<Rightarrow> unit drive" where
  "awaits te k d = (te_await te k d, case te_cut te k of None \<Rightarrow> Inr () | Some e \<Rightarrow> Inl e)"

definition driver_new ::
  "config \<Rightarrow> config_fingerprint option \<Rightarrow> kaf_storage_state \<Rightarrow> lease_timing \<Rightarrow> instant \<Rightarrow> bytes32 option \<Rightarrow> runtime_driver anyhow_result" where
  "driver_new cfg identity st timing boot entropy =
     (case entropy of
        None \<Rightarrow> Inl [CauseIo (IoError OtherKind ''replica boot entropy unavailable'')]
      | Some nonce \<Rightarrow>
          let local_id = ReplicaId (cfg_node_id cfg) nonce in
          rbind (from_denied (controller_new cfg identity local_id boot timing)) (\<lambda>core.
          rbind (authority_new local_id timing boot) (\<lambda>authority.
          Inr \<lparr>rt_cfg = cfg, rt_state = st, rt_core = core, rt_authority = authority, rt_local = local_id,
               rt_timing = timing, rt_boot = boot, rt_raft = False, rt_bootstrap_join = None, rt_first_verified = None,
               rt_pending_progress = None, rt_stopped = False, rt_running = False, rt_reported = False\<rparr>)))"

definition ensure_running :: "runtime_driver \<Rightarrow> unit admitted" where
  "ensure_running d = (if rt_stopped d then Inl (AdmissionDenied ''admission runtime is shut down'') else Inr ())"

definition attach :: "replica_id \<Rightarrow> unit drive" where
  "attach node d =
     (case rbind (from_denied (ensure_running d)) (\<lambda>_.
           rbind (ensured (node = rt_local d) ''attached Raft has another boot identity'') (\<lambda>_.
           ensured (\<not> rt_raft d) ''Raft is already attached'')) of
        Inl e \<Rightarrow> (d, Inl e)
      | Inr _ \<Rightarrow> (d\<lparr>rt_raft := True\<rparr>, Inr ()))"

definition attached_raft :: "runtime_driver \<Rightarrow> unit anyhow_result" where
  "attached_raft d = rbind (from_denied (ensure_running d)) (\<lambda>_. ensured (rt_raft d) ''Raft has not been attached'')"

definition driver_shutdown :: "runtime_driver \<Rightarrow> runtime_driver" where
  "driver_shutdown d = d\<lparr>rt_stopped := True, rt_authority := authority_seal (rt_authority d), rt_raft := False\<rparr>"

text \<open>\<open>report_admission_once_voting\<close>; \<open>taken\<close> is whether the supervisor took the report.\<close>

definition report_admission_once_voting :: "instant \<Rightarrow> bool \<Rightarrow> runtime_driver \<Rightarrow> runtime_driver \<times> bool" where
  "report_admission_once_voting now taken d =
     (if rt_bootstrap_join d \<noteq> None then (d, False)
      else let (ra, current) = authority_current now (rt_authority d); d1 = d\<lparr>rt_authority := ra\<rparr> in
        if current = None \<or> rt_reported d then (d1, False)
        else (d1\<lparr>rt_reported := taken\<rparr>, True))"

subsection \<open>Work under a live admission\<close>

definition current_authority :: "turn_env \<Rightarrow> nat \<Rightarrow> string \<Rightarrow> unit drive" where
  "current_authority te k message d =
     (let (ra, current) = authority_current (te_clock te k) (rt_authority d) in
      (d\<lparr>rt_authority := ra\<rparr>, if current = None then Inl [CauseDenied (AdmissionDenied message)] else Inr ()))"

text \<open>The first and the last turn of the loop. The turns between them, while the work is pending, are in the
  awaits of the work.\<close>

definition within_admission :: "turn_env \<Rightarrow> nat \<Rightarrow> 'a drive \<Rightarrow> 'a drive" where
  "within_admission te k work =
     dbind (dread (\<lambda>d. from_denied (ensure_running d))) (\<lambda>_.
     dbind (current_authority te k ''runtime has no active admission'') (\<lambda>_ d.
       let (d1, result) = work d in
       dbind (dread (\<lambda>d. from_denied (ensure_running d))) (\<lambda>_.
       dbind (current_authority te (k + 1) ''runtime admission expired during work'') (\<lambda>_.
       dlift result)) d1))"

text \<open>\<open>AdmissionSession::check\<close> of a session of this runtime, which asks the authority and reads the clock.\<close>

definition check_session :: "turn_env \<Rightarrow> nat \<Rightarrow> admission_context \<Rightarrow> unit drive" where
  "check_session te k ctx d =
     (let (ra, r) = authority_session (te_sha te) (te_clock te k) (te_clock te (k + 1)) ctx (rt_authority d) in
      (d\<lparr>rt_authority := ra\<rparr>, rbind (from_denied r) (\<lambda>_. Inr ())))"

definition check_authority :: "turn_env \<Rightarrow> nat \<Rightarrow> admission_context \<Rightarrow> unit drive" where
  "check_authority te k ctx d =
     (let (ra, r) = authority_check (te_sha te) (te_clock te k) ctx (rt_authority d) in
      (d\<lparr>rt_authority := ra\<rparr>, rbind (from_denied r) (\<lambda>_. Inr ())))"

definition bound_session :: "string \<Rightarrow> admission_context drive" where
  "bound_session message =
     dread (\<lambda>d. case admission (rt_state d) of None \<Rightarrow> Inl [CauseDenied (AdmissionDenied message)] | Some ctx \<Rightarrow> Inr ctx)"

definition coherent_session :: "turn_env \<Rightarrow> nat \<Rightarrow> admission_context drive" where
  "coherent_session te k =
     within_admission te k
       (dbind (awaits te k) (\<lambda>_.
        dbind (bound_session ''runtime has no bound admission session'') (\<lambda>ctx.
        dbind (check_authority te (k + 2) ctx) (\<lambda>_.
        dbind (check_session te (k + 3) ctx) (\<lambda>_. dlift (Inr ctx))))))"

datatype publication_readiness = PublicationPending | PublicationReady

text \<open>\<open>sealed\<close>: whether a poll of \<open>wait_until_sealed\<close> is ready, which it is when the authority is sealed.\<close>

definition health_publication_ready :: "turn_env \<Rightarrow> publication_readiness drive" where
  "health_publication_ready te d =
     (case ensure_running d of
        Inl e \<Rightarrow> (d, Inl [CauseDenied e])
      | Inr _ \<Rightarrow>
          let (ra, current) = authority_current (te_clock te 0) (rt_authority d); d1 = d\<lparr>rt_authority := ra\<rparr> in
          if current = None
          then if ra_permission ra = Sealed then (d1, Inl [CauseDenied (AdmissionDenied ''runtime admission is sealed'')])
               else (d1, rbind (from_denied (ensure_running d1)) (\<lambda>_. Inr PublicationPending))
          else dbind (coherent_session te 1) (\<lambda>_. dlift (Inr PublicationReady)) d1)"

definition vip_activation_ready :: "turn_env \<Rightarrow> runtime_driver \<Rightarrow> runtime_driver \<times> bool" where
  "vip_activation_ready te d =
     (let elapsed = (case rt_first_verified d of
                       None \<Rightarrow> False
                     | Some first \<Rightarrow> (case vip_activation_deadline (rt_timing d) first of
                                        Inl _ \<Rightarrow> False | Inr dl \<Rightarrow> dl \<le> te_clock te 0)) in
      if \<not> elapsed then (d, False)
      else let (d', r) = coherent_session te 1 d in (d', is_ok r))"

subsection \<open>Grants\<close>

text \<open>The turns of \<open>reserve_grant\<close> until the local state has applied the renewal's progress; what other tasks do
  before each read of the state is in the list.\<close>

definition renewal_applied :: "turn_env \<Rightarrow> admission_request \<Rightarrow> log_id \<Rightarrow> bool drive" where
  "renewal_applied te req progress =
     dbind (bound_session ''issuer has no continuing authority'') (\<lambda>ctx.
     dbind (check_authority te 0 ctx) (\<lambda>_.
     dbind (check_session te 1 ctx) (\<lambda>_.
     dread (\<lambda>d. rbind (ensured (ctx_genesis ctx = ar_genesis req \<and> genesis (rt_state d) = Some (ar_genesis req))
                         ''renewal genesis differs from issuer authority'') (\<lambda>_.
                 Inr (some_log (\<lambda>applied. index progress \<le> index applied) (last_applied_log (rt_state d))))))))"

text \<open>The fence that the reservation asks is the authority. A clock reading plus the call budget, at most half a
  second, does not overflow.\<close>

fun reserve_grant ::
  "turn_env \<Rightarrow> (runtime_driver \<Rightarrow> runtime_driver) list \<Rightarrow> signed_admission \<Rightarrow> bytes32 \<Rightarrow> instant option \<Rightarrow> signed_admission drive" where
  "reserve_grant te [] received binding until d =
     (d, Inl [CauseMessage ''issuer progress apply timed out'', CauseElapsed])"
| "reserve_grant te (others # turns) received binding until d =
     (let finish = (\<lambda>d. if (case until of None \<Rightarrow> False | Some dl \<Rightarrow> dl \<le> te_clock te 3)
            then (d, Inl [CauseIo (IoError TimedOut ''issuer progress apply timed out'')])
            else let fv = \<lparr>fv_check = (\<lambda>c. snd (authority_check (te_sha te) (te_clock te 4) c (rt_authority d))), fv_now = te_clock te 5\<rparr>;
                     (core, r) = reserve (te_sha te) (te_hmac te) (te_to_vec te) fv (te_clock te 6) received binding
                                   (Some (rt_state d)) (rt_core d)
                 in (d\<lparr>rt_core := core\<rparr>, from_denied r))
      in dbind (dread (\<lambda>d. from_denied (ensure_running d))) (\<lambda>_.
         case ar_mode (sa_payload received) of
           Renew (Some progress) \<Rightarrow>
             dbind (renewal_applied te (sa_payload received) progress) (\<lambda>applied.
             if applied then finish else reserve_grant te turns received binding until)
         | _ \<Rightarrow> finish) (others d))"

definition dispatch ::
  "turn_env \<Rightarrow> (runtime_driver \<Rightarrow> runtime_driver) list \<Rightarrow> replica_id \<Rightarrow> bytes32 \<Rightarrow> signed_admission \<Rightarrow> signed_admission drive" where
  "dispatch te turns peer binding request =
     dbind (dread (\<lambda>d. from_denied (ensure_running d))) (\<lambda>_.
     dbind (dread (\<lambda>d. from_denied (sa_verify (te_hmac te) (te_to_vec te) (cluster_secret (rt_cfg d)) 10 peer (rt_local d) binding request))) (\<lambda>_.
     dbind (dlift (ensured (ar_consumer (sa_payload request) = peer) ''grant request names another boot'')) (\<lambda>_ d.
       case ar_mode (sa_payload request) of
         Renew _ \<Rightarrow>
           within_admission te 8 (reserve_grant te turns request binding (Some (te_clock te 7 + lt_rpc_budget (rt_timing d)))) d
       | _ \<Rightarrow> reserve_grant te turns request binding None d)))"

text \<open>\<open>collect_grants\<close> of the driver: the answers of the asked members in the order of their arrival. A local answer
  is the nonce of its channel and what \<open>dispatch\<close> returned in time.\<close>

datatype grant_answer = LocalGrant "bytes32 option" "signed_admission anyhow_result" | RemoteGrant "received_grant anyhow_result"

definition read_grant :: "turn_env \<Rightarrow> runtime_driver \<Rightarrow> admission_request \<Rightarrow> grant_answer \<Rightarrow> received_grant anyhow_result" where
  "read_grant te d request answer =
     (case answer of
        RemoteGrant r \<Rightarrow> r
      | LocalGrant nonce dispatched \<Rightarrow>
          (case nonce of
             None \<Rightarrow> bail ''admission driver entropy unavailable''
           | Some binding \<Rightarrow>
               rbind (from_denied (sa_sign (te_hmac te) (te_to_vec te) (cluster_secret (rt_cfg d)) 10 (rt_local d) (rt_local d) binding request)) (\<lambda>_.
               rbind dispatched (\<lambda>response.
               from_denied (authenticate (te_hmac te) (te_to_vec te) (cluster_secret (rt_cfg d)) (rt_local d) (rt_local d) binding request response)))))"

fun gather_grants :: "bool \<Rightarrow> received_grant anyhow_result list \<Rightarrow> received_grant list anyhow_result" where
  "gather_grants reject_invalid [] = Inr []"
| "gather_grants reject_invalid (Inr g # rs) = rbind (gather_grants reject_invalid rs) (\<lambda>gs. Inr (g # gs))"
| "gather_grants reject_invalid (Inl e # rs) =
     (if reject_invalid \<and> failure_kind e = RejectedFailure then Inl e else gather_grants reject_invalid rs)"

subsection \<open>Installing a verified admission\<close>

definition driver_begin :: "turn_env \<Rightarrow> nat \<Rightarrow> bytes32 option \<Rightarrow> genesis \<Rightarrow> admission_mode \<Rightarrow> admission_round drive" where
  "driver_begin te k entropy g mode =
     dread (\<lambda>d. rbind (from_denied (ensure_running d)) (\<lambda>_. from_denied (begin_round (te_clock te k) entropy g mode (rt_core d))))"

definition same_bootstrap :: "prepared_join option \<Rightarrow> prepared_join option \<Rightarrow> bool" where
  "same_bootstrap verified bootstrap =
     (case bootstrap of None \<Rightarrow> True
      | Some p \<Rightarrow> (case verified of None \<Rightarrow> False | Some v \<Rightarrow> pj_plan v = pj_plan p \<and> pj_prepared v = pj_prepared p))"

definition accept_admission :: "turn_env \<Rightarrow> nat \<Rightarrow> verified_admission \<Rightarrow> admission_context drive" where
  "accept_admission te k va d =
     (let (ra, r) = accept (te_sha te) (te_clock te k) (te_clock te (k + 1)) (te_clock te (k + 2)) va (rt_authority d) in
      (d\<lparr>rt_authority := ra\<rparr>, from_denied r))"

definition note_first_admission :: "turn_env \<Rightarrow> nat \<Rightarrow> verified_admission \<Rightarrow> unit drive" where
  "note_first_admission te k va d =
     ((case va_mode va of
         Renew _ \<Rightarrow> d
       | _ \<Rightarrow> (case rt_first_verified d of None \<Rightarrow> d\<lparr>rt_first_verified := Some (te_clock te k)\<rparr> | Some _ \<Rightarrow> d)), Inr ())"

definition bind_state :: "turn_env \<Rightarrow> nat \<Rightarrow> verified_admission \<Rightarrow> admission_context \<Rightarrow> unit drive" where
  "bind_state te k va session d =
     (if admission (rt_state d) \<noteq> None then (d, Inr ())
      else let fv = \<lparr>fv_check = (\<lambda>c. snd (authority_check (te_sha te) (te_clock te k) c (rt_authority d))), fv_now = te_clock te (k + 1)\<rparr> in
        case bind_admission fv session (rt_state d) of
          Inl e \<Rightarrow> (d, Inl [CauseDenied e])
        | Inr st \<Rightarrow> (d\<lparr>rt_state := st, rt_bootstrap_join := va_bootstrap va\<rparr>, Inr ()))"

text \<open>\<open>complete\<close> also marks the round consumed, a local value that no later step reads.\<close>

definition install ::
  "turn_env \<Rightarrow> nat \<Rightarrow> admission_round \<Rightarrow> received_grant list \<Rightarrow> prepared_join option \<Rightarrow> installed_admission drive" where
  "install te k round grants bootstrap =
     dbind (dread (\<lambda>d. from_denied (snd (complete (te_hmac te) (te_to_vec te) (te_clock te k) grants (rt_core d) round)))) (\<lambda>va.
     dbind (dlift (ensured (same_bootstrap (va_bootstrap va) bootstrap) ''bootstrap differs from quorum-verified operation'')) (\<lambda>_.
     dbind (awaits te k) (\<lambda>_.
     dbind (dread (\<lambda>d. from_denied (ensure_running d))) (\<lambda>_.
     dbind (accept_admission te (k + 1) va) (\<lambda>session.
     dbind (note_first_admission te (k + 4) va) (\<lambda>_.
     dbind (bind_state te (k + 5) va session) (\<lambda>_.
     dlift (Inr \<lparr>ia_session = session, ia_deadline = va_deadline va, ia_started = rd_started round, ia_request = rd_request round\<rparr>))))))))"

subsection \<open>Renewal\<close>

datatype management_result =
    DiscoveryResult "genesis option" "replica_id set"
  | PreparedResult prepared_join
  | AppliedResult log_id
  | RedirectResult replica_id

text \<open>\<open>wait_progress\<close>: what other tasks do before each look at the state, until the call budget runs out.\<close>

fun wait_progress :: "(runtime_driver \<Rightarrow> runtime_driver) list \<Rightarrow> applied_health_progress \<Rightarrow> unit drive" where
  "wait_progress [] applied d = (d, Inl [CauseMessage ''local progress apply timed out'', CauseElapsed])"
| "wait_progress (others # turns) applied d =
     (let d1 = others d; st = rt_state d1;
          reached = some_log (\<lambda>l. index (ap_log_id applied) \<le> index l) (last_applied_log st) in
      if bm_get (applied_progress st) (physical_id (rt_local d1)) = Some applied \<and> reached then (d1, Inr ())
      else if reached then (d1, bail ''locally applied progress differs from outstanding challenge'')
      else wait_progress turns applied d1)"

text \<open>The answers of peers during a renewal: the members found, the routed progress for what was asked, the turns
  of the wait, and the grants for the bound request.\<close>

record renewal_answers =
  ra_entropy :: "bytes32 option"
  ra_discovered :: "bool \<Rightarrow> replica_id set anyhow_result"
  ra_routed :: "replica_id set \<Rightarrow> health_progress \<Rightarrow> management_result anyhow_result"
  ra_turns :: "(runtime_driver \<Rightarrow> runtime_driver) list"
  ra_granted :: "replica_id set \<Rightarrow> admission_request \<Rightarrow> grant_answer list"

definition bind_round :: "turn_env \<Rightarrow> nat \<Rightarrow> applied_health_progress \<Rightarrow> admission_round \<Rightarrow> admission_round drive" where
  "bind_round te k applied round = dlift (from_denied (bind_progress (te_clock te k) applied round))"

definition prove_progress :: "turn_env \<Rightarrow> nat \<Rightarrow> instant \<Rightarrow> applied_health_progress \<Rightarrow> installed_admission \<Rightarrow> verified_progress drive" where
  "prove_progress te k started applied installed =
     dread (\<lambda>d. let fv = \<lparr>fv_check = (\<lambda>c. snd (authority_check (te_sha te) (te_clock te k) c (rt_authority d))), fv_now = te_clock te (k + 1)\<rparr>
                in from_denied (verified_progress_new \<lparr>rd_now = te_clock te k, rd_fence = fv, rd_after = te_clock te (k + 2)\<rparr> started applied installed))"

definition open_renewal :: "turn_env \<Rightarrow> bytes32 option \<Rightarrow> bool option \<Rightarrow> (admission_round \<times> health_progress) drive" where
  "open_renewal te entropy healthy =
     dbind (coherent_session te 10) (\<lambda>session.
     dbind (dread (\<lambda>d. from_denied (ensure_running d))) (\<lambda>_.
     dbind (check_session te 20 session) (\<lambda>_.
     dbind (dread (\<lambda>d. ensured (rt_bootstrap_join d = None) ''health progress awaits learner promotion'')) (\<lambda>_.
     dbind (driver_begin te 22 entropy (ctx_genesis session) (Renew None)) (\<lambda>round.
     dread (\<lambda>d. Inr (round, \<lparr>hp_node_id = physical_id (rt_local d), hp_healthy = healthy, hp_replica = rt_local d,
              hp_epoch = g_epoch (ctx_genesis session), hp_request_nonce = ar_request_nonce (rd_request round),
              hp_genesis = ctx_genesis session\<rparr>)))))))"

definition route_progress :: "turn_env \<Rightarrow> renewal_answers \<Rightarrow> health_progress \<Rightarrow> (replica_id set \<times> applied_health_progress) drive" where
  "route_progress te an progress =
     dbind (awaits te 23) (\<lambda>_.
     dbind (dlift (ra_discovered an (hp_healthy progress \<noteq> None))) (\<lambda>boots.
     dbind (awaits te 24) (\<lambda>_.
     dbind (dlift (ra_routed an boots progress)) (\<lambda>response.
     dlift (case response of AppliedResult l \<Rightarrow> Inr (boots, \<lparr>ap_request = progress, ap_log_id = l\<rparr>)
            | _ \<Rightarrow> bail ''progress response has no applied log'')))))"

definition close_renewal ::
  "turn_env \<Rightarrow> renewal_answers \<Rightarrow> instant \<Rightarrow> replica_id set \<Rightarrow> applied_health_progress \<Rightarrow> admission_round \<Rightarrow> verified_progress drive" where
  "close_renewal te an started boots applied bound =
     (let reject_invalid = (hp_healthy (ap_request applied) \<noteq> None) in
      dbind (awaits te 26) (\<lambda>_.
      dbind (dread (\<lambda>d. gather_grants reject_invalid (map (read_grant te d (rd_request bound)) (ra_granted an boots (rd_request bound))))) (\<lambda>grants.
      dbind (dread (\<lambda>d. if length grants \<le> length (cfg_peers (rt_cfg d)) div 2
                        then Inl (unavailable ''reachable admission grants lack a physical majority'') else Inr ())) (\<lambda>_.
      dbind (install te 30 bound grants None) (\<lambda>installed.
      prove_progress te 40 started applied installed)))))"

definition renew_body :: "turn_env \<Rightarrow> renewal_answers \<Rightarrow> bool option \<Rightarrow> instant \<Rightarrow> verified_progress drive" where
  "renew_body te an healthy started =
     dbind (open_renewal te (ra_entropy an) healthy) (\<lambda>(round, progress).
     dbind (route_progress te an progress) (\<lambda>(boots, applied).
     dbind (wait_progress (ra_turns an) applied) (\<lambda>_.
     dbind (bind_round te 25 applied round) (\<lambda>bound.
     close_renewal te an started boots applied bound))))"

text \<open>The lock of the round is the first await.\<close>

definition renew :: "turn_env \<Rightarrow> renewal_answers \<Rightarrow> bool option \<Rightarrow> verified_progress drive" where
  "renew te an healthy =
     within_admission te 1 (dbind (awaits te 3) (\<lambda>_. renew_body te an healthy (te_clock te 0)))"

definition submit_health_proof :: "turn_env \<Rightarrow> renewal_answers \<Rightarrow> bool \<Rightarrow> verified_progress drive" where
  "submit_health_proof te an healthy = renew te an (Some healthy)"

definition extend_join :: "turn_env \<Rightarrow> bytes32 option \<Rightarrow> replica_id set anyhow_result \<Rightarrow>
    (replica_id set \<Rightarrow> admission_request \<Rightarrow> grant_answer list) \<Rightarrow> unit drive" where
  "extend_join te entropy discovered granted =
     within_admission te 1 (dbind (awaits te 3) (\<lambda>_.
     dbind (dread (\<lambda>d. case rt_bootstrap_join d of None \<Rightarrow> bail ''no learner admission to extend'' | Some p \<Rightarrow> Inr p)) (\<lambda>prepared.
     dbind (driver_begin te 10 entropy (jp_genesis (pj_plan prepared)) (Join None)) (\<lambda>round.
     dbind (dlift (from_denied (bind_prepared (te_sha te) (te_clock te 11) prepared round))) (\<lambda>bound.
     dbind (awaits te 12) (\<lambda>_.
     dbind (dlift discovered) (\<lambda>boots.
     dbind (awaits te 13) (\<lambda>_.
     dbind (dread (\<lambda>d. gather_grants False (map (read_grant te d (rd_request bound)) (granted boots (rd_request bound))))) (\<lambda>grants.
     dbind (install te 20 bound grants None) (\<lambda>_. dlift (Inr ())))))))))))"

subsection \<open>Taking successful work apart\<close>

lemma dbind_InrE:
  assumes "dbind m f d = (d', Inr b)"
  obtains d1 a where "m d = (d1, Inr a)" "f a d1 = (d', Inr b)"
  using assms by (auto simp: dbind_def split: prod.splits sum.splits)

lemma dlift_Inr [simp]: "dlift r d = (d', Inr a) \<longleftrightarrow> d' = d \<and> r = Inr a"
  by (auto simp: dlift_def)

lemma dread_Inr [simp]: "dread f d = (d', Inr a) \<longleftrightarrow> d' = d \<and> f d = Inr a"
  by (auto simp: dread_def)

lemma ensure_running_Inr [simp]: "ensure_running d = Inr u \<longleftrightarrow> \<not> rt_stopped d"
  by (simp add: ensure_running_def)

text \<open>What no task changes: the boot, the configuration and the lifetimes of the process.\<close>

definition same_process :: "runtime_driver \<Rightarrow> runtime_driver \<Rightarrow> bool" where
  "same_process d d' \<longleftrightarrow> rt_local d' = rt_local d \<and> rt_cfg d' = rt_cfg d \<and> rt_timing d' = rt_timing d \<and>
     ctl_local (rt_core d') = ctl_local (rt_core d) \<and> ctl_configured (rt_core d') = ctl_configured (rt_core d) \<and>
     ctl_timing (rt_core d') = ctl_timing (rt_core d) \<and> ctl_secret (rt_core d') = ctl_secret (rt_core d)"

lemma same_process_refl [simp]: "same_process d d"
  by (simp add: same_process_def)

lemma same_process_trans: "same_process d d' \<Longrightarrow> same_process d' d'' \<Longrightarrow> same_process d d''"
  by (simp add: same_process_def)

text \<open>Work that stays within the process.\<close>

definition process_work :: "'a drive \<Rightarrow> bool" where
  "process_work m = (\<forall>d. same_process d (fst (m d)))"

named_theorems process_work_intro \<open>work that stays within the process\<close>

lemma process_work_bind [process_work_intro]:
  assumes "process_work m" "\<And>a. process_work (f a)"
  shows "process_work (dbind m f)"
proof -
  have "same_process d (fst (dbind m f d))" for d
  proof -
    obtain d1 r where m: "m d = (d1, r)" by (metis prod.collapse)
    then have "same_process d d1" using assms(1) by (metis fst_conv process_work_def)
    then show ?thesis using assms(2) same_process_trans [of d d1]
      by (cases r) (auto simp: process_work_def dbind_def m)
  qed
  then show ?thesis by (simp add: process_work_def)
qed

lemma process_work_pure [process_work_intro]: "process_work (dlift r)" "process_work (dread g)"
  by (simp_all add: process_work_def dlift_def dread_def)

lemma process_work_authority [process_work_intro]:
  "process_work (current_authority te k m)" "process_work (check_session te k ctx)" "process_work (check_authority te k ctx)"
  "process_work (accept_admission te k va)"
  by (simp_all add: process_work_def same_process_def current_authority_def check_session_def check_authority_def
      accept_admission_def case_prod_beta Let_def)

lemma process_work_state [process_work_intro]:
  "process_work (note_first_admission te k va)" "process_work (bind_state te k va session)"
  by (auto simp: process_work_def same_process_def note_first_admission_def bind_state_def Let_def
      split: admission_mode.splits option.splits sum.splits)

definition others_keep :: "turn_env \<Rightarrow> bool" where
  "others_keep te = (\<forall>k d. same_process d (te_await te k d))"

lemma process_work_awaits [process_work_intro]: "others_keep te \<Longrightarrow> process_work (awaits te k)"
  by (simp add: others_keep_def process_work_def awaits_def)

lemma process_work_within [process_work_intro]:
  assumes "process_work m"
  shows "process_work (within_admission te k m)"
proof -
  let ?tail = "\<lambda>result. dbind (dread (\<lambda>d. from_denied (ensure_running d))) (\<lambda>_.
       dbind (current_authority te (k + 1) ''runtime admission expired during work'') (\<lambda>_. dlift result))"
  have tail: "process_work (?tail result)" for result by (intro process_work_intro)
  have "process_work (\<lambda>d. ?tail (snd (m d)) (fst (m d)))"
    using assms tail same_process_trans unfolding process_work_def by blast
  then show ?thesis unfolding within_admission_def by (intro process_work_intro) (simp add: case_prod_beta)
qed

lemma process_work_session [process_work_intro]: "others_keep te \<Longrightarrow> process_work (coherent_session te k)"
  unfolding coherent_session_def bound_session_def by (intro process_work_intro)

lemma process_work_begin [process_work_intro]: "process_work (driver_begin te k e g mode)"
  unfolding driver_begin_def by (intro process_work_intro)

lemma process_work_install [process_work_intro]: "others_keep te \<Longrightarrow> process_work (install te k round grants bootstrap)"
  unfolding install_def by (intro process_work_intro)

lemma process_work_wait [process_work_intro]:
  assumes "\<forall>t \<in> set turns. \<forall>d. same_process d (t d)"
  shows "process_work (wait_progress turns applied)"
proof -
  have "same_process d (fst (wait_progress turns applied d))" for d
    using assms
  proof (induction turns arbitrary: d)
    case (Cons t turns)
    then show ?case using same_process_trans [of d "t d"] by (auto simp: Let_def)
  qed simp
  then show ?thesis by (simp add: process_work_def)
qed

lemma process_work_same: "process_work m \<Longrightarrow> m d = (d', r) \<Longrightarrow> same_process d d'"
  by (metis fst_conv process_work_def)

subsection \<open>What a renewal proves\<close>

lemma collect_grants_verified:
  "collect_grants hmac to_vec ctl req grants physical exact = Inr r \<Longrightarrow> g \<in> set grants \<Longrightarrow>
   sa_verify hmac to_vec (ctl_secret ctl) 11 (rg_issuer g) (ctl_local ctl) (rg_binding g) (rg_record g) = Inr ()"
  by (induction grants arbitrary: physical exact) (auto simp: Let_def split: if_splits)

lemma complete_verified:
  assumes "complete hmac to_vec now grants ctl rd = (rd', Inr va)" "g \<in> set grants"
  shows "sa_verify hmac to_vec (ctl_secret ctl) 11 (rg_issuer g) (ctl_local ctl) (rg_binding g) (rg_record g) = Inr ()"
  using assms collect_grants_verified by (fastforce simp: complete_def Let_def split: if_splits sum.splits prod.splits)

text \<open>The members whose authentic grants for a request are among the answers that came in, and whether they are a
  majority of the configured ones.\<close>

definition granting_members :: "turn_env \<Rightarrow> runtime_driver \<Rightarrow> grant_answer list \<Rightarrow> admission_request \<Rightarrow> u64 set" where
  "granting_members te d answers req =
     {physical_id (sa_sender (rg_record g)) | g. Inr g \<in> read_grant te d req ` set answers \<and> sa_payload (rg_record g) = req \<and>
        sa_verify (te_hmac te) (te_to_vec te) (ctl_secret (rt_core d)) 11 (rg_issuer g) (ctl_local (rt_core d))
          (rg_binding g) (rg_record g) = Inr ()}"

definition granted_by_majority :: "turn_env \<Rightarrow> runtime_driver \<Rightarrow> grant_answer list \<Rightarrow> admission_request \<Rightarrow> bool" where
  "granted_by_majority te d answers req = majority_of (ctl_configured (rt_core d)) (granting_members te d answers req)"

lemma granted_same_process:
  assumes "same_process d d'"
  shows "granted_by_majority te d' answers req = granted_by_majority te d answers req"
proof -
  have "rt_cfg d' = rt_cfg d" "rt_local d' = rt_local d" using assms by (simp_all add: same_process_def)
  then have "read_grant te d' req a = read_grant te d req a" for a unfolding read_grant_def by (simp only:)
  then have "read_grant te d' req = read_grant te d req" by blast
  then show ?thesis using assms by (simp add: granted_by_majority_def granting_members_def same_process_def)
qed

lemma gather_grants_Inr: "gather_grants reject_invalid rs = Inr gs \<Longrightarrow> set gs = {g. Inr g \<in> set rs}"
  by (induction reject_invalid rs arbitrary: gs rule: gather_grants.induct) (auto split: if_splits elim!: rbind_InrE)

text \<open>What an installed admission rests on: the round, the majority among the answers, and the permission it leaves.\<close>

lemma install_Inr:
  assumes "install te k round grants bootstrap d = (d', Inr inst)" "others_keep te" "finite (ctl_configured (rt_core d))"
    and "gather_grants reject_invalid (map (read_grant te d (rd_request round)) answers) = Inr grants"
  shows "granted_by_majority te d answers (rd_request round) \<and> ia_request inst = rd_request round \<and> ia_started inst = rd_started round \<and>
    ia_deadline inst = rd_deadline round \<and> same_process d d' \<and>
    ia_session inst = \<lparr>ctx_local_replica = ctl_local (rt_core d), ctx_genesis = ar_genesis (rd_request round)\<rparr> \<and>
    (\<exists>s until. ra_permission (rt_authority d') = Active (authority_identity (te_sha te) (rt_authority d') (ia_session inst)) s until)"
proof -
  have same: "same_process d d'"
    using process_work_same [OF process_work_install [OF assms(2)] assms(1)] .
  obtain va d1 d2 d3 where va: "snd (complete (te_hmac te) (te_to_vec te) (te_clock te k) grants (rt_core d) round) = Inr va"
    and inst: "ia_request inst = rd_request round" "ia_started inst = rd_started round" "ia_deadline inst = va_deadline va"
    and acc: "accept_admission te (k + 1) va d1 = (d2, Inr (ia_session inst))"
    and rest: "note_first_admission te (k + 4) va d2 = (d3, Inr ())" "bind_state te (k + 5) va (ia_session inst) d3 = (d', Inr ())"
    using assms(1) unfolding install_def by (elim dbind_InrE) (auto simp: dread_def dlift_def)
  have auth: "rt_authority d' = rt_authority d2"
    using rest by (auto simp: note_first_admission_def bind_state_def Let_def split: admission_mode.splits option.splits if_splits sum.splits)
  have "accept (te_sha te) (te_clock te (k + 1)) (te_clock te (k + 2)) (te_clock te (k + 3)) va (rt_authority d1) =
      (rt_authority d', Inr (ia_session inst))"
    using acc by (auto simp: accept_admission_def auth numeral_eq_Suc split: prod.splits)
  from accept_Inr [OF this] have live: "ia_session inst = va_context va"
    "\<exists>s until. ra_permission (rt_authority d') = Active (authority_identity (te_sha te) (rt_authority d') (ia_session inst)) s until"
    by blast+
  obtain rd' where "complete (te_hmac te) (te_to_vec te) (te_clock te k) grants (rt_core d) round = (rd', Inr va)"
    using va by (metis prod.collapse)
  note c = complete_Inr [OF this assms(3)] and v = complete_verified [OF this]
  have "granting_members te d answers (rd_request round) = (\<lambda>g. physical_id (sa_sender (rg_record g))) ` set grants"
    using c v gather_grants_Inr [OF assms(4)] by (auto simp: granting_members_def)
  then show ?thesis using c same inst live by (simp add: granted_by_majority_def)
qed

lemma wait_progress_Inr:
  assumes "wait_progress turns applied d = (d', Inr u)" "\<And>t d. t \<in> set turns \<Longrightarrow> Q (t d)"
  shows "Q d' \<and> bm_get (applied_progress (rt_state d')) (physical_id (rt_local d')) = Some applied"
  using assms by (induction turns arbitrary: d) (auto simp: Let_def bail_def split: if_splits)

lemma current_authority_Inr:
  assumes "current_authority te k m d = (d', Inr u)"
  shows "same_process d d' \<and> (\<exists>c s u. ra_permission (rt_authority d') = Active c s u \<and> te_clock te k < u)"
  using assms
  by (cases "ra_permission (rt_authority d)")
     (auto simp: current_authority_def authority_current_def perm_current_def same_process_def split: if_splits)

lemma within_admission_Inr:
  assumes "within_admission te k work d = (d', Inr a)"
  obtains d1 d2 where "work d1 = (d2, Inr a)" "same_process d d1" "same_process d2 d'"
    "\<exists>c s u. ra_permission (rt_authority d') = Active c s u \<and> te_clock te (k + 1) < u"
proof -
  obtain d1 where d1: "current_authority te k ''runtime has no active admission'' d = (d1, Inr ())"
    and tail: "dbind (dread (\<lambda>d. from_denied (ensure_running d))) (\<lambda>_.
       dbind (current_authority te (k + 1) ''runtime admission expired during work'') (\<lambda>_.
       dlift (snd (work d1)))) (fst (work d1)) = (d', Inr a)"
    using assms unfolding within_admission_def by (elim dbind_InrE) (simp add: case_prod_beta dread_def)
  obtain d3 where "current_authority te (k + 1) ''runtime admission expired during work'' (fst (work d1)) = (d3, Inr ())"
    "d' = d3" "snd (work d1) = Inr a"
    using tail by (elim dbind_InrE) (simp add: dread_def)
  then show thesis
    using current_authority_Inr [OF d1] current_authority_Inr that [of d1 "fst (work d1)"] by (metis prod.collapse)
qed

lemma open_renewal_Inr:
  assumes "open_renewal te entropy healthy d = (d', Inr (round, progress))" "others_keep te"
  shows "same_process d d' \<and> hp_healthy progress = healthy \<and> hp_request_nonce progress = ar_request_nonce (rd_request round) \<and>
    ar_consumer (rd_request round) = ctl_local (rt_core d) \<and>
    rd_deadline round = te_clock te 22 + lt_consumer_use (ctl_timing (rt_core d))"
proof -
  obtain d1 d2 session where w: "coherent_session te 10 d = (d1, Inr session)" and c: "check_session te 20 session d1 = (d2, Inr ())"
    and b: "driver_begin te 22 entropy (ctx_genesis session) (Renew None) d2 = (d', Inr round)"
    and pr: "hp_healthy progress = healthy" "hp_request_nonce progress = ar_request_nonce (rd_request round)"
    using assms(1) unfolding open_renewal_def by (elim dbind_InrE) (auto simp: dread_def)
  have s: "same_process d d1" using process_work_same [OF process_work_session [OF assms(2)] w] .
  have "same_process d1 d2" using process_work_same [OF process_work_authority(2) c] .
  then have same: "same_process d d2" using s same_process_trans by blast
  have "d' = d2" "begin_round (te_clock te 22) entropy (ctx_genesis session) (Renew None) (rt_core d2) = Inr round"
    using b by (auto simp: driver_begin_def)
  then show ?thesis using begin_round_Inr same pr by (fastforce simp: same_process_def)
qed

lemma route_progress_Inr:
  assumes "route_progress te an progress d = (d', Inr (boots, applied))" "others_keep te"
  shows "same_process d d' \<and> ap_request applied = progress \<and> ra_discovered an (hp_healthy progress \<noteq> None) = Inr boots \<and>
    ra_routed an boots progress = Inr (AppliedResult (ap_log_id applied))"
proof -
  have "process_work (route_progress te an progress)"
    unfolding route_progress_def using assms(2) by (intro process_work_intro)
  then have "same_process d d'" using assms(1) by (rule process_work_same)
  moreover have "ap_request applied = progress \<and> ra_discovered an (hp_healthy progress \<noteq> None) = Inr boots \<and>
      ra_routed an boots progress = Inr (AppliedResult (ap_log_id applied))"
    using assms(1) unfolding route_progress_def by (elim dbind_InrE) (auto simp: bail_def split: management_result.splits)
  ultimately show ?thesis by blast
qed

lemma close_renewal_Inr:
  assumes "close_renewal te an started boots applied bound d = (d', Inr vp)" "others_keep te" "finite (ctl_configured (rt_core d))"
  shows "granted_by_majority te d (ra_granted an boots (rd_request bound)) (rd_request bound) \<and> vp_started vp = started \<and>
    vp_applied vp = applied \<and> vp_accepted_deadline vp = rd_deadline bound \<and> ctx_genesis (vp_session vp) = ar_genesis (rd_request bound)"
proof -
  obtain d1 grants inst reject where w: "awaits te 26 d = (d1, Inr ())"
    and g: "gather_grants reject (map (read_grant te d1 (rd_request bound)) (ra_granted an boots (rd_request bound))) = Inr grants"
    and i: "install te 30 bound grants None d1 = (d', Inr inst)" and p: "prove_progress te 40 started applied inst d' = (d', Inr vp)"
    using assms(1) unfolding close_renewal_def Let_def by (elim dbind_InrE) (auto simp: dread_def prove_progress_def)
  have d1: "same_process d d1" using process_work_same [OF process_work_awaits [OF assms(2)] w] .
  have fin: "finite (ctl_configured (rt_core d1))" using assms(3) d1 by (simp add: same_process_def)
  have "vp_started vp = started" "vp_applied vp = applied" "vp_accepted_deadline vp = ia_deadline inst" "vp_session vp = ia_session inst"
    using p by (auto simp: prove_progress_def verified_progress_new_def Let_def split: if_splits)
  then show ?thesis using install_Inr [OF i assms(2) fin g] granted_same_process [OF d1] by simp
qed

text \<open>C10. Only a committed round with fresh majority consent becomes a proof of health. Whatever the other tasks of
  the process do at each await, when a renewal returns a proof, it carries the health that was submitted and starts
  at the reading taken before anything was sent; the local state machine had applied exactly this report at this
  log position in a state that the other tasks left behind; among the answers that the discovered boots gave to one
  request there are authentic grants of that very request by a majority of the configured members, and the request
  names that position, the nonce of the report, the genesis of the proof and this boot; the proof ends one consumer
  lifetime after the round began; and the runtime permission was live when it was handed out.\<close>

theorem renewed_proof_sound:
  assumes "renew te an healthy d = (d', Inr vp)" "others_keep te" "finite (ctl_configured (rt_core d))"
    and turns: "\<forall>t \<in> set (ra_turns an). \<forall>d. same_process d (t d) \<and> Q (rt_state (t d))"
  shows "vp_healthy vp = healthy \<and> vp_started vp = te_clock te 0 \<and>
    (\<exists>st. Q st \<and> bm_get (applied_progress st) (physical_id (rt_local d)) = Some (vp_applied vp)) \<and>
    (\<exists>boots req. ra_discovered an (healthy \<noteq> None) = Inr boots \<and> granted_by_majority te d (ra_granted an boots req) req \<and>
       ar_consumer req = ctl_local (rt_core d) \<and> ar_mode req = Renew (Some (vp_log_id vp)) \<and>
       ar_request_nonce req = hp_request_nonce (ap_request (vp_applied vp)) \<and> ar_genesis req = ctx_genesis (vp_session vp)) \<and>
    vp_accepted_deadline vp = te_clock te 22 + lt_consumer_use (ctl_timing (rt_core d)) \<and>
    (\<exists>c s u. ra_permission (rt_authority d') = Active c s u \<and> te_clock te 2 < u)"
proof (rule within_admission_Inr [OF assms(1) [unfolded renew_def]])
  fix d1 d2
  assume w: "dbind (awaits te 3) (\<lambda>_. renew_body te an healthy (te_clock te 0)) d1 = (d2, Inr vp)"
    and d1: "same_process d d1" and live: "\<exists>c s u. ra_permission (rt_authority d') = Active c s u \<and> te_clock te (1 + 1) < u"
  obtain e0 e1 e2 e3 round progress boots applied bound where e0: "awaits te 3 d1 = (e0, Inr ())"
    and e1: "open_renewal te (ra_entropy an) healthy e0 = (e1, Inr (round, progress))"
    and e2: "route_progress te an progress e1 = (e2, Inr (boots, applied))"
    and e3: "wait_progress (ra_turns an) applied e2 = (e3, Inr ())"
    and b: "bind_progress (te_clock te 25) applied round = Inr bound"
    and c: "close_renewal te an (te_clock te 0) boots applied bound e3 = (d2, Inr vp)"
    using w unfolding renew_body_def by (elim dbind_InrE) (auto simp: bind_round_def elim!: dbind_InrE)
  have keep: "\<forall>t \<in> set (ra_turns an). \<forall>d. same_process d (t d)" using turns by blast
  have "same_process d e0" using process_work_same [OF process_work_awaits [OF assms(2)] e0] d1 same_process_trans by blast
  note o = open_renewal_Inr [OF e1 assms(2)] and r = route_progress_Inr [OF e2 assms(2)]
  have s: "same_process d e0" "same_process d e3"
    using process_work_same [OF process_work_awaits [OF assms(2)] e0] d1 o r process_work_same [OF process_work_wait [OF keep] e3]
    by (meson same_process_trans)+
  have "finite (ctl_configured (rt_core e3))" using assms(3) s(2) by (simp add: same_process_def)
  note cl = close_renewal_Inr [OF c assms(2) this]
  have applied: "Q (rt_state e3)" "bm_get (applied_progress (rt_state e3)) (physical_id (rt_local e3)) = Some applied"
    using wait_progress_Inr [OF e3, of "\<lambda>d. Q (rt_state d)"] turns by auto
  have bound: "ar_mode (rd_request bound) = Renew (Some (ap_log_id applied))" "ar_consumer (rd_request bound) = ar_consumer (rd_request round)"
    "ar_request_nonce (rd_request bound) = ar_request_nonce (rd_request round)" "rd_deadline bound = rd_deadline round"
    using b by (auto simp: bind_progress_def split: if_splits)
  show ?thesis
    using o r cl applied bound s live granted_same_process [OF s(2)]
    by (auto simp: vp_healthy_def vp_log_id_def same_process_def numeral_2_eq_2 intro!: exI [of _ "rt_state e3"] exI [of _ boots])
qed

subsection \<open>Waiting before VIP effects\<close>

lemma vip_activation_ready_True:
  assumes "vip_activation_ready te d = (d', True)" "rt_first_verified d = Some first"
  shows "first + lt_vip_activation_delay (rt_timing d) \<le> te_clock te 0"
  using assms by (auto simp: vip_activation_ready_def vip_activation_deadline_def Let_def split: sum.splits if_splits)

text \<open>C16. A new boot touches no VIP before every older lease is over and cleaned up. When the runtime of a boot that
  was first admitted at some time answers that VIP effects may start, then on the clock of every runtime, with the
  lifetimes computed for the configuration and clocks whose rates differ at most by two, one full consumer lifetime
  and the removal of all configured VIPs have passed since that admission, so nobody still acts on a lease that
  began before it.\<close>

theorem activation_outwaits_leases:
  assumes "drift_bounded clk" "lease_for_config cfg vip_count = Some (Inr (rt_timing d))"
    and "vip_activation_ready te d = (d', True)" "te_clock te 0 = clk r now"
    and "rt_first_verified d = Some (clk r admitted)" "admitted \<le> now" "began \<le> admitted"
  shows "clk c began + lt_consumer_use (rt_timing d) + vip_count * SHUTDOWN_VIP_BUDGET \<le> clk c now"
proof -
  define work where "work = lt_consumer_use (rt_timing d) + vip_count * SHUTDOWN_VIP_BUDGET"
  have "2 * work \<le> lt_vip_activation_delay (rt_timing d)"
    using lease_for_config_covers [OF assms(2)] by (simp add: work_def)
  also have "\<dots> \<le> clk r now - clk r admitted" using vip_activation_ready_True [OF assms(3,5)] assms(4) by linarith
  also have "\<dots> \<le> 2 * (clk c now - clk c admitted)" by (rule drift_elapsed [OF assms(1,6)])
  finally have "work \<le> clk c now - clk c admitted" by simp
  moreover have "clk c began \<le> clk c admitted" "clk c admitted \<le> clk c now" using drift_mono [OF assms(1)] assms(6,7) by blast+
  ultimately show ?thesis by (simp add: work_def)
qed

subsection \<open>A renewal of the two-member cluster\<close>

definition rn_env :: turn_env where
  "rn_env = \<lparr>te_sha = (\<lambda>_. 0), te_hmac = (\<lambda>_ _. 0), te_to_vec = (\<lambda>_. Some []), te_clock = (\<lambda>_. 4), te_await = (\<lambda>_ d. d),
     te_cut = (\<lambda>_. None)\<rparr>"

definition rn_driver :: "kaf_storage_state \<Rightarrow> runtime_driver" where
  "rn_driver st =
     \<lparr>rt_cfg = adm_member 1, rt_state = st, rt_core = adm_controller 1 True, rt_authority = adm_authority 1 (adm_live 1),
      rt_local = adm_replica 1, rt_timing = adm_lease, rt_boot = 0, rt_raft = True, rt_bootstrap_join = None,
      rt_first_verified = Some 4, rt_pending_progress = None, rt_stopped = False, rt_running = True, rt_reported = True\<rparr>"

definition rn_progress :: health_progress where
  "rn_progress = \<lparr>hp_node_id = 1, hp_healthy = Some True, hp_replica = adm_replica 1, hp_epoch = 7, hp_request_nonce = 11, hp_genesis = adm_genesis\<rparr>"

definition rn_applied :: applied_health_progress where
  "rn_applied = \<lparr>ap_request = rn_progress, ap_log_id = ex_log_id 3\<rparr>"

definition rn_before :: kaf_storage_state where
  "rn_before = ex_start\<lparr>admission := Some (adm_context 1), genesis := Some adm_genesis\<rparr>"

definition rn_after :: kaf_storage_state where
  "rn_after = rn_before\<lparr>applied_progress := bm_insert 1 rn_applied bm_empty, last_applied_log := Some (ex_log_id 3)\<rparr>"

definition rn_grant :: "u64 \<Rightarrow> admission_request \<Rightarrow> received_grant" where
  "rn_grant i req =
     \<lparr>rg_record = \<lparr>sa_sender = adm_replica i, sa_recipient = adm_replica 1, sa_binding = 0, sa_payload = req, sa_tag = 0\<rparr>,
      rg_issuer = adm_replica i, rg_binding = 0\<rparr>"

definition rn_answers :: renewal_answers where
  "rn_answers =
     \<lparr>ra_entropy = Some 11, ra_discovered = (\<lambda>_. Inr {adm_replica 1, adm_replica 2}),
      ra_routed = (\<lambda>_ _. Inr (AppliedResult (ex_log_id 3))), ra_turns = [\<lambda>d. d\<lparr>rt_state := rn_after\<rparr>],
      ra_granted = (\<lambda>_ req. [LocalGrant (Some 0) (Inr (rg_record (rn_grant 1 req))), RemoteGrant (Inr (rn_grant 2 req))])\<rparr>"

definition rn_round :: "admission_mode \<Rightarrow> admission_round" where
  "rn_round mode =
     \<lparr>rd_request = \<lparr>ar_consumer = adm_replica 1, ar_genesis = adm_genesis, ar_request_nonce = 11, ar_mode = mode\<rparr>, rd_started = 4,
      rd_deadline = 5, rd_completed = False, rd_prepared_join = None\<rparr>"

definition rn_proof :: verified_progress where
  "rn_proof = \<lparr>vp_started = 4, vp_applied = rn_applied, vp_accepted_deadline = 5, vp_session = adm_context 1\<rparr>"

lemma rn_env_sel [simp]:
  "te_sha rn_env = (\<lambda>_. 0)" "te_hmac rn_env = (\<lambda>_ _. 0)" "te_to_vec rn_env = (\<lambda>_. Some [])" "te_clock rn_env k = 4"
  "te_await rn_env k d = d" "te_cut rn_env k = None"
  by (simp_all add: rn_env_def)

lemma rn_driver_sel [simp]:
  "rt_state (rn_driver st) = st" "rt_core (rn_driver st) = adm_controller 1 True" "rt_local (rn_driver st) = adm_replica 1"
  "rt_authority (rn_driver st) = adm_authority 1 (adm_live 1)" "rt_cfg (rn_driver st) = adm_member 1"
  "rt_bootstrap_join (rn_driver st) = None" "rt_timing (rn_driver st) = adm_lease" "rt_first_verified (rn_driver st) = Some 4"
  "rt_state_update (\<lambda>_. st') (rn_driver st) = rn_driver st'"
  "rt_authority_update (\<lambda>_. adm_authority 1 (adm_live 1)) (rn_driver st) = rn_driver st"
  by (simp_all add: rn_driver_def)

lemma rn_round_sel [simp]:
  "ar_consumer (rd_request (rn_round m)) = adm_replica 1" "ar_genesis (rd_request (rn_round m)) = adm_genesis"
  "ar_request_nonce (rd_request (rn_round m)) = 11" "ar_mode (rd_request (rn_round m)) = m" "rd_deadline (rn_round m) = 5"
  "rd_completed (rn_round m) = False" "rd_prepared_join (rn_round m) = None" "rd_started (rn_round m) = 4"
  by (simp_all add: rn_round_def)

lemma rn_controller_sel [simp]:
  "ctl_local (adm_controller 1 True) = adm_replica 1" "ctl_configured (adm_controller 1 True) = {1, 2}"
  "ctl_secret (adm_controller 1 True) = cluster_secret sample_config"
  by (simp_all add: adm_controller_def)

lemma rn_current: "authority_current 4 (adm_authority 1 (adm_live 1)) =
    (adm_authority 1 (adm_live 1), Some (authority_identity (\<lambda>_. 0) (adm_authority 1 Sealed) (adm_context 1), 5))"
  by (simp add: authority_current_def perm_current_def adm_authority_def adm_live_def)

lemma rn_checked: "authority_check (\<lambda>_. 0) 4 (adm_context 1) (adm_authority 1 (adm_live 1)) = (adm_authority 1 (adm_live 1), Inr 5)"
  by (simp add: authority_check_def rn_current authority_identity_def) (simp add: adm_authority_def adm_context_def)

lemma rn_steps:
  "current_authority rn_env k m (rn_driver st) = (rn_driver st, Inr ())"
  "check_session rn_env k (adm_context 1) (rn_driver st) = (rn_driver st, Inr ())"
  "check_authority rn_env k (adm_context 1) (rn_driver st) = (rn_driver st, Inr ())"
  "awaits rn_env k (rn_driver st) = (rn_driver st, Inr ())"
  "ensure_running (rn_driver st) = Inr ()"
  by (simp_all add: current_authority_def check_session_def check_authority_def authority_session_def session_check_def
      rn_current rn_checked awaits_def ensure_running_def from_denied_def rn_driver_def)

lemma rn_within: "work (rn_driver st) = (rn_driver st', r) \<Longrightarrow> within_admission rn_env k work (rn_driver st) = (rn_driver st', r)"
  by (simp add: within_admission_def dbind_def dread_def rn_steps from_denied_def dlift_def)

lemma rn_session: "admission st = Some (adm_context 1) \<Longrightarrow> coherent_session rn_env k (rn_driver st) = (rn_driver st, Inr (adm_context 1))"
  unfolding coherent_session_def
  by (intro rn_within) (simp add: dbind_def rn_steps bound_session_def dread_def dlift_def)

lemma rn_before_admission: "admission rn_before = Some (adm_context 1)" "admission rn_after = Some (adm_context 1)"
  by (simp_all add: rn_before_def rn_after_def)

lemma rn_open: "open_renewal rn_env (Some 11) (Some True) (rn_driver rn_before) = (rn_driver rn_before, Inr (rn_round (Renew None), rn_progress))"
proof -
  have "begin_round 4 (Some 11) adm_genesis (Renew None) (adm_controller 1 True) = Inr (rn_round (Renew None))"
    by (simp add: begin_round_def validate_genesis_def validate_roster_def adm_controller_def adm_genesis_def adm_lease_def
        deadlines_Inr instant_max_def rn_round_def Let_def)
  moreover have "ctx_genesis (adm_context 1) = adm_genesis" "g_epoch adm_genesis = 7" by (simp_all add: adm_context_def adm_genesis_def)
  ultimately show ?thesis
    by (simp add: open_renewal_def dbind_def rn_session rn_before_admission rn_steps dread_def driver_begin_def from_denied_def ensured_def)
       (simp add: rn_round_def rn_progress_def)
qed

lemma rn_route: "route_progress rn_env rn_answers rn_progress (rn_driver st) =
    (rn_driver st, Inr ({adm_replica 1, adm_replica 2}, rn_applied))"
  by (simp add: route_progress_def dbind_def rn_steps dlift_def rn_answers_def rn_applied_def)

lemma rn_wait: "wait_progress (ra_turns rn_answers) rn_applied (rn_driver st) = (rn_driver rn_after, Inr ())"
  by (simp add: rn_answers_def Let_def rn_after_def) (simp add: rn_applied_def)

lemma rn_bind: "bind_progress 4 rn_applied (rn_round (Renew None)) = Inr (rn_round (Renew (Some (ex_log_id 3))))"
  by (simp add: bind_progress_def rn_round_def rn_applied_def rn_progress_def)

lemma rn_signatures:
  "sa_verify (\<lambda>_ _. 0) (\<lambda>_. Some []) (cluster_secret sample_config) 11 (adm_replica i) (adm_replica 1) 0 (rg_record (rn_grant i req)) = Inr ()"
  "sa_sign (\<lambda>_ _. 0) (\<lambda>_. Some []) (cluster_secret sample_config) 10 (adm_replica 1) (adm_replica 1) 0 req =
     Inr \<lparr>sa_sender = adm_replica 1, sa_recipient = adm_replica 1, sa_binding = 0, sa_payload = req, sa_tag = 0\<rparr>"
  by (simp_all add: sa_verify_def sa_sign_def verify_admission_record_def sign_admission_record_def secret_key_def
      sample_config_def rn_grant_def)

lemma rn_complete:
  "complete (\<lambda>_ _. 0) (\<lambda>_. Some []) 4 [rn_grant 1 (rd_request (rn_round (Renew (Some l)))), rn_grant 2 (rd_request (rn_round (Renew (Some l))))]
     (adm_controller 1 True) (rn_round (Renew (Some l))) =
   ((rn_round (Renew (Some l)))\<lparr>rd_completed := True\<rparr>,
    Inr \<lparr>va_context = adm_context 1, va_deadline = 5, va_mode = Renew (Some l), va_bootstrap = None\<rparr>)"
proof -
  let ?r = "rd_request (rn_round (Renew (Some l)))"
  have "collect_grants (\<lambda>_ _. 0) (\<lambda>_. Some []) (adm_controller 1 True) ?r [rn_grant 1 ?r, rn_grant 2 ?r] {} {} =
      Inr ({1, 2}, {adm_replica 2, adm_replica 1})"
    using rn_signatures(1) [of 1 ?r] rn_signatures(1) [of 2 ?r]
    by (simp add: Let_def) (simp add: rn_grant_def insert_commute)
  then show ?thesis by (simp add: complete_def Let_def adm_context_def)
qed

lemma rn_accept: "accept (\<lambda>_. 0) 4 4 4 \<lparr>va_context = adm_context 1, va_deadline = 5, va_mode = Renew (Some l), va_bootstrap = None\<rparr>
    (adm_authority 1 (adm_live 1)) = (adm_authority 1 (adm_live 1), Inr (adm_context 1))"
proof -
  have "authority_transition (\<lambda>_. 0) 4 \<lparr>va_context = adm_context 1, va_deadline = 5, va_mode = Renew (Some l), va_bootstrap = None\<rparr>
    (adm_authority 1 (adm_live 1)) = (adm_authority 1 (adm_live 1), Inr True)"
    by (simp add: authority_transition_def perm_renew_def adm_live_def authority_identity_def) (simp add: adm_authority_def)
  then show ?thesis
    by (simp add: accept_def authority_session_def rn_checked session_check_def) (simp add: adm_context_def adm_authority_def)
qed

lemma rn_install:
  "install rn_env k (rn_round (Renew (Some l))) [rn_grant 1 (rd_request (rn_round (Renew (Some l)))), rn_grant 2 (rd_request (rn_round (Renew (Some l))))] None
     (rn_driver rn_after) =
   (rn_driver rn_after, Inr \<lparr>ia_session = adm_context 1, ia_deadline = 5, ia_started = 4, ia_request = rd_request (rn_round (Renew (Some l)))\<rparr>)"
  by (simp add: install_def dbind_def dread_def rn_complete from_denied_def dlift_def ensured_def same_bootstrap_def rn_steps
      accept_admission_def rn_accept note_first_admission_def bind_state_def rn_before_admission)

lemma rn_close: "close_renewal rn_env rn_answers 4 boots rn_applied (rn_round (Renew (Some (ex_log_id 3)))) (rn_driver rn_after) =
    (rn_driver rn_after, Inr rn_proof)"
proof -
  let ?b = "rn_round (Renew (Some (ex_log_id 3)))"
  have "read_grant rn_env (rn_driver rn_after) (rd_request ?b) (LocalGrant (Some 0) (Inr (rg_record (rn_grant 1 (rd_request ?b))))) =
      Inr (rn_grant 1 (rd_request ?b))"
    using rn_signatures(1) [of 1 "rd_request ?b"]
    by (simp add: read_grant_def adm_member_def authenticate_def from_denied_def rn_signatures(2)) (simp add: rn_grant_def)
  moreover have "read_grant rn_env d r (RemoteGrant x) = x" for d r x by (simp add: read_grant_def)
  ultimately have "gather_grants True (map (read_grant rn_env (rn_driver rn_after) (rd_request ?b)) (ra_granted rn_answers boots (rd_request ?b))) =
      Inr [rn_grant 1 (rd_request ?b), rn_grant 2 (rd_request ?b)]" by (simp add: rn_answers_def)
  moreover have "length (cfg_peers (adm_member 1)) = 2" by (simp add: adm_member_def)
  moreover have "verified_progress_new \<lparr>rd_now = 4, rd_fence = \<lparr>fv_check = (\<lambda>c. snd (authority_check (\<lambda>_. 0) 4 c (adm_authority 1 (adm_live 1)))), fv_now = 4\<rparr>, rd_after = 4\<rparr> 4
      rn_applied \<lparr>ia_session = adm_context 1, ia_deadline = 5, ia_started = 4, ia_request = rd_request ?b\<rparr> = Inr rn_proof"
    by (simp add: verified_progress_new_def rn_applied_def rn_progress_def validate_progress_def adm_genesis_def adm_context_def rn_round_def)
       (simp add: progress_check_def session_check_def rn_checked [unfolded adm_context_def adm_genesis_def] rn_proof_def rn_applied_def rn_progress_def adm_context_def adm_genesis_def)
  moreover have "hp_healthy (ap_request rn_applied) = Some True" by (simp add: rn_applied_def rn_progress_def)
  ultimately show ?thesis
    by (simp add: close_renewal_def dbind_def rn_steps dread_def rn_install prove_progress_def from_denied_def)
qed

lemma rn_renew: "renew rn_env rn_answers (Some True) (rn_driver rn_before) = (rn_driver rn_after, Inr rn_proof)"
  unfolding renew_def
  by (intro rn_within) (simp add: dbind_def renew_body_def rn_steps rn_answers_def [THEN arg_cong [of _ _ ra_entropy]] rn_open rn_route rn_wait
      bind_round_def dlift_def from_denied_def rn_bind rn_close)

theorem renewed_proof_sound_witness:
  "vp_healthy rn_proof = Some True \<and>
   (\<exists>boots req. granted_by_majority rn_env (rn_driver rn_before) (ra_granted rn_answers boots req) req \<and> ar_mode req = Renew (Some (ex_log_id 3)))"
proof -
  have keep: "others_keep rn_env" by (simp add: others_keep_def)
  have fin: "finite (ctl_configured (rt_core (rn_driver rn_before)))" by (simp add: adm_controller_def)
  have turns: "\<forall>t \<in> set (ra_turns rn_answers). \<forall>d. same_process d (t d) \<and> rt_state (t d) = rn_after"
    by (simp add: rn_answers_def same_process_def)
  have "vp_log_id rn_proof = ex_log_id 3" by (simp add: vp_log_id_def rn_proof_def rn_applied_def)
  with renewed_proof_sound [OF rn_renew keep fin, of "\<lambda>st. st = rn_after"] turns show ?thesis by auto
qed

definition late_driver :: runtime_driver where
  "late_driver = (rn_driver rn_before)\<lparr>rt_timing := sample_timing\<rparr>"

theorem activation_outwaits_leases_witness:
  "3 + lt_consumer_use sample_timing + 2 * SHUTDOWN_VIP_BUDGET \<le> (94300000004 :: nat)"
proof -
  let ?te = "rn_env\<lparr>te_clock := (\<lambda>k. if k = 0 then 94300000004 else 4)\<rparr>"
  have step: "current_authority ?te (Suc k) m late_driver = (late_driver, Inr ())"
    "check_session ?te (Suc k) (adm_context 1) late_driver = (late_driver, Inr ())"
    "check_authority ?te (Suc k) (adm_context 1) late_driver = (late_driver, Inr ())" "awaits ?te k late_driver = (late_driver, Inr ())"
    "ensure_running late_driver = Inr ()" for k m
    by (simp_all add: current_authority_def check_session_def check_authority_def authority_session_def session_check_def
        rn_current rn_checked awaits_def ensure_running_def from_denied_def late_driver_def) (simp_all add: rn_driver_def)
  have state: "admission (rt_state late_driver) = Some (adm_context 1)" by (simp add: late_driver_def rn_before_def)
  have "coherent_session ?te 1 late_driver = (late_driver, Inr (adm_context 1))"
    by (simp add: coherent_session_def within_admission_def dbind_def dread_def dlift_def bound_session_def step
        numeral_eq_Suc from_denied_def state)
  then have "vip_activation_ready ?te late_driver = (late_driver, True)"
    by (simp add: vip_activation_ready_def vip_activation_deadline_def late_driver_def deadline_def inst_checked_add_def
        instant_max_def sample_timing_def)
  from activation_outwaits_leases [where clk = "\<lambda>(_ :: nat) t. t" and cfg = sample_config and vip_count = 2, OF drift_identity _ this,
      where now = 94300000004 and admitted = 4 and began = 3]
  show ?thesis by (simp add: late_driver_def sample_lease)
qed

end
