(* ===== verification/Health_Publication.thy ===== *)
theory Health_Publication
  imports Runtime_Driver
begin

text \<open>
  From a probe to the permission to act on VIPs (\<open>src/health_publication.rs\<close>): one turn of the loop observes the
  probe, revokes freshness while the node is unhealthy, submits the health through the admission runtime and
  records the proof that comes back. The worker of each VIP runs beside it and may report a bind fault or revoke
  freshness at any await; what it does is an argument of the turn.
\<close>

subsection \<open>One turn of the loop\<close>

record publication =
  pb_dampener :: failure_dampener
  pb_status :: health_status
  pb_fresh :: consensus_freshness
  pb_driver :: runtime_driver
  pb_reported :: bool
  pb_committed :: bool

text \<open>What the \<open>select!\<close> at the top returns: the end of the wait for a bind fault, or a probe.\<close>

datatype wake = FaultWait bool | ProbeDone bool

record turn_inputs =
  ti_wake :: wake
  ti_faults :: "bind_fault list"
  ti_ready :: turn_env
  ti_active :: turn_env
  ti_publish :: turn_env
  ti_again :: turn_env
  ti_answers :: renewal_answers
  ti_during_ready :: "freshness_op list"
  ti_during_publish :: "freshness_op list"
  ti_during_again :: "freshness_op list"
  ti_readings :: applied_readings

definition record_probe ::
  "(log_id \<Rightarrow> log_id \<Rightarrow> bool) \<Rightarrow> applied_readings \<Rightarrow> bool \<Rightarrow> verified_progress \<Rightarrow> consensus_freshness \<Rightarrow> consensus_freshness" where
  "record_probe le rr activation_ready proof_of f =
     (if activation_ready
      then let (f', r) = record_applied le rr proof_of f in (case r of Inl _ \<Rightarrow> invalidate f' | Inr _ \<Rightarrow> f')
      else invalidate f)"

definition publish_failure :: "anyhow \<Rightarrow> consensus_freshness \<Rightarrow> consensus_freshness" where
  "publish_failure e f = (case failure_kind e of Unavailable \<Rightarrow> mark_unavailable f | RejectedFailure \<Rightarrow> invalidate f)"

definition publish_health ::
  "(log_id \<Rightarrow> log_id \<Rightarrow> bool) \<Rightarrow> turn_inputs \<Rightarrow> bool \<Rightarrow> publication \<Rightarrow> publication \<times> bool option" where
  "publish_health le ti ok pb =
     (let (d1, active) = (if ok then vip_activation_ready (ti_active ti) (pb_driver pb) else (pb_driver pb, False));
          placement_healthy = (ok \<and> active);
          (d2, r) = submit_health_proof (ti_publish ti) (ti_answers ti) placement_healthy d1;
          f1 = freshness_run le (ti_during_publish ti) (pb_fresh pb) in
      case r of
        Inr proof_of \<Rightarrow>
          let (d3, again) = vip_activation_ready (ti_again ti) d2;
              f2 = record_probe le (ti_readings ti) again proof_of (freshness_run le (ti_during_again ti) f1)
          in (pb\<lparr>pb_driver := d3, pb_fresh := f2,
                 pb_committed := pb_committed pb \<or> (pb_reported pb \<and> \<not> ok)\<rparr>, Some placement_healthy)
      | Inl e \<Rightarrow> (pb\<lparr>pb_driver := d2, pb_fresh := publish_failure e f1\<rparr>, Some placement_healthy))"

text \<open>The new state and the health that was submitted, if any. \<open>None\<close> is the return of the loop when the wait for a
  bind fault fails; the wait is enabled only until a fault has been reported.\<close>

definition publication_turn ::
  "(log_id \<Rightarrow> log_id \<Rightarrow> bool) \<Rightarrow> turn_inputs \<Rightarrow> publication \<Rightarrow> (publication \<times> bool option) option" where
  "publication_turn le ti pb =
     (if ti_wake ti = FaultWait False \<and> \<not> pb_reported pb then None
      else let reported = (pb_reported pb \<or> ti_wake ti = FaultWait True);
               raw_ok = (case ti_wake ti of FaultWait _ \<Rightarrow> False | ProbeDone b \<Rightarrow> b);
               (dampener, effective) = dampener_observe raw_ok (pb_dampener pb);
               status = fold fail_binding (ti_faults ti) (fst (observe_probe effective (pb_status pb)));
               ok = status_healthy status;
               f0 = (if ok then pb_fresh pb else invalidate (pb_fresh pb));
               (d1, ready) = health_publication_ready (ti_ready ti) (pb_driver pb);
               f1 = freshness_run le (ti_during_ready ti) f0;
               pb1 = pb\<lparr>pb_dampener := dampener, pb_status := status, pb_fresh := f1, pb_driver := d1, pb_reported := reported\<rparr> in
           Some (case ready of
                   Inr PublicationReady \<Rightarrow> publish_health le ti ok pb1
                 | Inr PublicationPending \<Rightarrow> (pb1\<lparr>pb_fresh := invalidate f1\<rparr>, None)
                 | Inl _ \<Rightarrow> (pb1\<lparr>pb_fresh := invalidate f1\<rparr>, None)))"

text \<open>Turns with what the workers do between them.\<close>

record idle_inputs =
  ii_faults :: "bind_fault list"
  ii_ops :: "freshness_op list"
  ii_driver :: "runtime_driver \<Rightarrow> runtime_driver"

definition between_turns :: "(log_id \<Rightarrow> log_id \<Rightarrow> bool) \<Rightarrow> idle_inputs \<Rightarrow> publication \<Rightarrow> publication" where
  "between_turns le ii pb =
     pb\<lparr>pb_status := fold fail_binding (ii_faults ii) (pb_status pb), pb_fresh := freshness_run le (ii_ops ii) (pb_fresh pb),
        pb_driver := ii_driver ii (pb_driver pb)\<rparr>"

fun publication_run ::
  "(log_id \<Rightarrow> log_id \<Rightarrow> bool) \<Rightarrow> (idle_inputs \<times> turn_inputs) list \<Rightarrow> publication \<Rightarrow> (publication \<times> bool option list) option" where
  "publication_run le [] pb = Some (pb, [])"
| "publication_run le ((ii, ti) # rest) pb =
     Option.bind (publication_turn le ti (between_turns le ii pb)) (\<lambda>(pb1, published).
     Option.bind (publication_run le rest pb1) (\<lambda>(pb2, pubs). Some (pb2, published # pubs)))"

subsection \<open>Revocation\<close>

text \<open>The other users of freshness only ever revoke.\<close>

definition only_revokes :: "freshness_op list \<Rightarrow> bool" where
  "only_revokes ops \<longleftrightarrow> set ops \<subseteq> {MarkUnavailable, Invalidate}"

definition workers_revoke :: "turn_inputs \<Rightarrow> bool" where
  "workers_revoke ti \<longleftrightarrow> only_revokes (ti_during_ready ti) \<and> only_revokes (ti_during_publish ti) \<and> only_revokes (ti_during_again ti)"

definition no_proof :: "consensus_freshness \<Rightarrow> bool" where
  "no_proof f \<longleftrightarrow> pf_started (cf_proof f) = None \<and> \<not> pf_available (cf_proof f)"

lemma no_proof_permits_nothing:
  assumes "no_proof f"
  shows "acquire rd led f = None" "retain rd stamp f = None"
  using assms by (auto simp: no_proof_def acquire_def retain_def proof_fresh_def proof_deadline_def Let_def split: bind_splits)

lemma no_proof_invalidate [simp]: "no_proof (invalidate f)"
  by (simp add: no_proof_def)

lemma no_proof_mark: "no_proof f \<Longrightarrow> no_proof (mark_unavailable f)"
  by (simp add: no_proof_def)

lemma no_proof_revokes: "only_revokes ops \<Longrightarrow> no_proof f \<Longrightarrow> no_proof (freshness_run le ops f)"
proof (induction ops arbitrary: f)
  case (Cons op ops)
  then have "no_proof (freshness_step le op f)"
    by (auto simp: only_revokes_def freshness_step_def no_proof_mark)
  then show ?case using Cons by (simp add: only_revokes_def)
qed simp

lemma no_proof_record:
  assumes "no_proof f" "vp_healthy p \<noteq> Some True"
  shows "no_proof (record_probe le rr again p f)"
  using assms by (simp add: record_probe_def record_applied_def)

lemma no_proof_failure: "no_proof f \<Longrightarrow> no_proof (publish_failure e f)"
  by (cases "failure_kind e") (simp_all add: publish_failure_def no_proof_mark)

lemma renew_reports_health:
  assumes "renew te an healthy d = (d', Inr vp)"
  shows "vp_healthy vp = healthy"
proof (rule within_admission_Inr [OF assms [unfolded renew_def]])
  fix d1 d2
  assume "dbind (awaits te 3) (\<lambda>_. renew_body te an healthy (te_clock te 0)) d1 = (d2, Inr vp)"
  then obtain e0 e1 e2 e3 round progress boots applied bound where
      o: "open_renewal te (ra_entropy an) healthy e0 = (e1, Inr (round, progress))"
    and r: "route_progress te an progress e1 = (e2, Inr (boots, applied))"
    and c: "close_renewal te an (te_clock te 0) boots applied bound e3 = (d2, Inr vp)"
    unfolding renew_body_def by (elim dbind_InrE) (auto elim!: dbind_InrE)
  have "hp_healthy progress = healthy" using o unfolding open_renewal_def by (elim dbind_InrE) auto
  moreover have "ap_request applied = progress"
    using r unfolding route_progress_def by (elim dbind_InrE) (auto simp: bail_def split: management_result.splits)
  moreover have "vp_applied vp = applied"
    using c unfolding close_renewal_def Let_def
    by (elim dbind_InrE) (auto simp: prove_progress_def verified_progress_new_def Let_def split: if_splits)
  ultimately show ?thesis by (simp add: vp_healthy_def)
qed

lemma publish_health_unhealthy:
  assumes "publish_health le ti False pb = (pb', published)" "no_proof (pb_fresh pb)" "workers_revoke ti"
  shows "no_proof (pb_fresh pb') \<and> published = Some False \<and> pb_status pb' = pb_status pb"
proof -
  obtain d2 r where s: "submit_health_proof (ti_publish ti) (ti_answers ti) False (pb_driver pb) = (d2, r)" by (metis prod.collapse)
  have f1: "no_proof (freshness_run le (ti_during_publish ti) (pb_fresh pb))"
    using assms(2,3) by (simp add: workers_revoke_def no_proof_revokes)
  show ?thesis
  proof (cases r)
    case (Inl e)
    then show ?thesis using assms(1) s f1 by (auto simp: publish_health_def Let_def no_proof_failure)
  next
    case (Inr vp)
    then have "vp_healthy vp = Some False" using s renew_reports_health by (auto simp: submit_health_proof_def)
    moreover have "no_proof (freshness_run le (ti_during_again ti) (freshness_run le (ti_during_publish ti) (pb_fresh pb)))"
      using assms(3) f1 by (simp add: workers_revoke_def no_proof_revokes)
    ultimately have "no_proof (record_probe le (ti_readings ti) again vp
        (freshness_run le (ti_during_again ti) (freshness_run le (ti_during_publish ti) (pb_fresh pb))))" for again
      by (intro no_proof_record) simp_all
    then show ?thesis using assms(1) s Inr by (auto simp: publish_health_def Let_def split: prod.splits)
  qed
qed

lemma publish_health_status: "publish_health le ti ok pb = (pb', published) \<Longrightarrow> pb_status pb' = pb_status pb"
  by (auto simp: publish_health_def Let_def split: prod.splits sum.splits if_splits)

text \<open>The status that a turn reads, after the faults that arrived beside it.\<close>

definition turn_status :: "turn_inputs \<Rightarrow> publication \<Rightarrow> health_status" where
  "turn_status ti pb =
     fold fail_binding (ti_faults ti)
       (fst (observe_probe (snd (dampener_observe (case ti_wake ti of FaultWait _ \<Rightarrow> False | ProbeDone b \<Rightarrow> b) (pb_dampener pb)))
          (pb_status pb)))"

lemma publication_turn_cases:
  assumes "publication_turn le ti pb = Some (pb', published)"
  obtains (pending) f where "pb_status pb' = turn_status ti pb" "pb_fresh pb' = invalidate f" "published = None"
  | (submitted) pb1 where "publish_health le ti (status_healthy (turn_status ti pb)) pb1 = (pb', published)"
      "pb_status pb1 = turn_status ti pb"
      "pb_fresh pb1 = freshness_run le (ti_during_ready ti)
         (if status_healthy (turn_status ti pb) then pb_fresh pb else invalidate (pb_fresh pb))"
  using assms
  by (auto simp: publication_turn_def turn_status_def Let_def case_prod_beta
      split: if_splits sum.splits publication_readiness.splits)

lemma turn_keeps_status: "publication_turn le ti pb = Some (pb', published) \<Longrightarrow> pb_status pb' = turn_status ti pb"
  by (erule publication_turn_cases) (auto dest: publish_health_status)

lemma unhealthy_turn:
  assumes "publication_turn le ti pb = Some (pb', published)" "\<not> status_healthy (pb_status pb')" "workers_revoke ti"
  shows "no_proof (pb_fresh pb') \<and> published \<noteq> Some True"
  using assms(1)
proof (cases rule: publication_turn_cases)
  case (pending f)
  then show ?thesis by simp
next
  case (submitted pb1)
  have "\<not> status_healthy (turn_status ti pb)" using assms(2) turn_keeps_status [OF assms(1)] by simp
  then show ?thesis
    using submitted publish_health_unhealthy [of le ti pb1 pb' published] assms(3) by (simp add: workers_revoke_def no_proof_revokes)
qed

text \<open>A bound node whose probe fails while the admission runtime is already shut down.\<close>

definition ex_publication :: "health_status \<Rightarrow> publication" where
  "ex_publication s =
     \<lparr>pb_dampener = dampener_new 0, pb_status = s, pb_fresh = ex_fresh 3 10, pb_driver = driver_shutdown (rn_driver rn_before),
      pb_reported = False, pb_committed = False\<rparr>"

definition ex_turn :: "wake \<Rightarrow> turn_inputs" where
  "ex_turn w =
     \<lparr>ti_wake = w, ti_faults = [], ti_ready = rn_env, ti_active = rn_env, ti_publish = rn_env, ti_again = rn_env,
      ti_answers = rn_answers, ti_during_ready = [MarkUnavailable], ti_during_publish = [], ti_during_again = [],
      ti_readings = \<lparr>rr_check = ex_readings 4, rr_now = 4, rr_again = 4, rr_fresh = ex_readings 4\<rparr>\<rparr>"

definition ex_idle :: "bind_fault list \<Rightarrow> idle_inputs" where
  "ex_idle fs = \<lparr>ii_faults = fs, ii_ops = [], ii_driver = (\<lambda>d. d)\<rparr>"

lemma ex_turn_workers: "workers_revoke (ex_turn w)"
  by (simp add: workers_revoke_def only_revokes_def ex_turn_def)

lemma ex_turn_runs:
  "\<exists>pb'. publication_turn ex_le (ex_turn (ProbeDone b)) (ex_publication s) = Some (pb', None) \<and>
     pb_status pb' = fst (observe_probe b s)"
  by (simp add: publication_turn_def ex_turn_def ex_publication_def dampener_observe_def dampener_new_def
      health_publication_ready_def ensure_running_def driver_shutdown_def Let_def)

text \<open>An unhealthy turn takes all permission away. If the status a turn ends with is unhealthy, then it has
  submitted nothing or that the node is unhealthy, and afterwards neither a new permit to bind can be acquired nor
  any completed binding retained, whatever the peers answered, whichever proof came back, and whatever the workers
  revoked at each await.\<close>

theorem unhealthy_turn_revokes:
  assumes "publication_turn le ti pb = Some (pb', published)" "\<not> status_healthy (pb_status pb')" "workers_revoke ti"
  shows "published \<noteq> Some True \<and> acquire rd led (pb_fresh pb') = None \<and> retain rd stamp (pb_fresh pb') = None"
  using unhealthy_turn [OF assms] no_proof_permits_nothing by blast

theorem unhealthy_turn_revokes_witness:
  "\<exists>pb'. publication_turn ex_le (ex_turn (ProbeDone False)) (ex_publication (local_health_new True)) = Some (pb', None) \<and>
     acquire (ex_readings 15) True (pb_fresh pb') = None"
proof -
  obtain pb' where t: "publication_turn ex_le (ex_turn (ProbeDone False)) (ex_publication (local_health_new True)) = Some (pb', None)"
    and "pb_status pb' = fst (observe_probe False (local_health_new True))"
    using ex_turn_runs by blast
  then have "\<not> status_healthy (pb_status pb')" by (simp add: status_healthy_def)
  from unhealthy_turn_revokes [OF t this ex_turn_workers] t show ?thesis by blast
qed

lemma fail_binding_run: "hs_bind_fault s \<noteq> None \<Longrightarrow> hs_bind_fault (fold fail_binding fs s) \<noteq> None"
  by (induction fs arbitrary: s) auto

lemma fault_kept:
  assumes "bind_failure_seen (pb_status pb)"
  shows "bind_failure_seen (turn_status ti (between_turns le ii pb))" "bind_failure_seen (turn_status ti pb)"
  using assms fail_binding_run by (simp_all add: bind_failure_seen_def turn_status_def between_turns_def)

text \<open>C11. A process whose bind has failed never serves again. Once a bind fault is recorded, every later turn of the
  loop, in any number and with any interleaving of the workers, submits nothing or that the node is unhealthy, and
  at the end of each no permit can be acquired or retained.\<close>

theorem faulted_process_stays_out:
  assumes "bind_failure_seen (pb_status pb)" "publication_run le turns pb = Some (pb', published)" "turns \<noteq> []"
    and "\<forall>(ii, ti) \<in> set turns. workers_revoke ti"
  shows "Some True \<notin> set published \<and> acquire rd led (pb_fresh pb') = None \<and> retain rd stamp (pb_fresh pb') = None"
proof -
  have "no_proof (pb_fresh pb') \<and> Some True \<notin> set published"
    using assms
  proof (induction turns arbitrary: pb published)
    case (Cons t turns)
    obtain ii ti where t: "t = (ii, ti)" by (cases t)
    obtain pb1 p pubs where turn: "publication_turn le ti (between_turns le ii pb) = Some (pb1, p)"
      and rest: "publication_run le turns pb1 = Some (pb', pubs)" and published: "published = p # pubs"
      using Cons.prems(2) by (auto simp: t bind_eq_Some_conv)
    have st: "bind_failure_seen (pb_status pb1)" using turn_keeps_status [OF turn] fault_kept(1) Cons.prems(1) by simp
    then have "\<not> status_healthy (pb_status pb1)" by (simp add: bind_failure_seen_def status_healthy_def)
    then have "no_proof (pb_fresh pb1) \<and> p \<noteq> Some True" using unhealthy_turn [OF turn] Cons.prems(4) t by auto
    then show ?case using Cons.IH [OF st rest] Cons.prems(4) rest published by (cases "turns = []") auto
  qed simp
  then show ?thesis using no_proof_permits_nothing by blast
qed

theorem faulted_process_stays_out_witness:
  "\<exists>pb'. publication_run ex_le [(ex_idle [], ex_turn (ProbeDone True))]
       (ex_publication (fail_binding BindFailed (local_health_new True))) = Some (pb', [None]) \<and>
     acquire (ex_readings 15) True (pb_fresh pb') = None"
proof -
  let ?pb = "ex_publication (fail_binding BindFailed (local_health_new True))"
  have idle: "between_turns ex_le (ex_idle []) ?pb = ?pb" by (simp add: between_turns_def ex_idle_def)
  obtain pb' where "publication_turn ex_le (ex_turn (ProbeDone True)) ?pb = Some (pb', None)" using ex_turn_runs by blast
  then have run: "publication_run ex_le [(ex_idle [], ex_turn (ProbeDone True))] ?pb = Some (pb', [None])" by (simp add: idle)
  have "bind_failure_seen (pb_status ?pb)" by (simp add: ex_publication_def bind_failure_seen_def local_health_new_def)
  from faulted_process_stays_out [OF this run] run ex_turn_workers show ?thesis by auto
qed

end
