(* ===== verification/Runtime_Rounds.thy ===== *)
theory Runtime_Rounds
  imports Runtime_Driver
begin

text \<open>
  The rounds of the admission driver (\<open>discovery.rs\<close> and the functions of
  \<open>driver.rs\<close> that talk to peers, under \<open>src/raft/admission/runtime\<close>): discovery, routing of a management action to
  the leader, and the entry of a boot into a cluster. Answers of peers are arguments, in the order of their
  arrival.
\<close>

subsection \<open>Routing\<close>

text \<open>\<open>route\<close>: the peers still to be asked are a stack, and a peer is asked at most once. \<open>ask\<close> answers for a peer after
  those asked before it. The loop returns the result and the peers asked.\<close>

partial_function (option) route_loop ::
  "(replica_id list \<Rightarrow> replica_id \<Rightarrow> management_result anyhow_result) \<Rightarrow> bool \<Rightarrow> replica_id set \<Rightarrow> replica_id list \<Rightarrow> replica_id list \<Rightarrow>
   (management_result anyhow_result \<times> replica_id list) option" where
  "route_loop ask health_proof peers pending visited =
     (if pending = [] then Some (Inl (unavailable ''no reachable admitted leader completed management operation''), visited)
      else let peer = last pending; rest = butlast pending in
        if peer \<in> set visited then route_loop ask health_proof peers rest visited
        else case ask visited peer of
          Inr (RedirectResult target) \<Rightarrow>
            route_loop ask health_proof peers (if target \<in> peers then rest @ [target] else rest) (visited @ [peer])
        | Inr result \<Rightarrow> Some (Inr result, visited @ [peer])
        | Inl e \<Rightarrow>
            if health_proof \<and> failure_kind e = RejectedFailure then Some (Inl e, visited @ [peer])
            else route_loop ask health_proof peers rest (visited @ [peer]))"

definition route ::
  "(replica_id list \<Rightarrow> replica_id \<Rightarrow> management_result anyhow_result) \<Rightarrow> bool \<Rightarrow> replica_id set \<Rightarrow>
   (management_result anyhow_result \<times> replica_id list) option" where
  "route ask health_proof peers = route_loop ask health_proof peers (sorted_list_of_set peers) []"

lemma unavailable_kind [simp]: "failure_kind (unavailable m) = Unavailable"
  by (simp add: failure_kind_def unavailable_def transport_kinds_def)

lemma route_loop_terminates:
  assumes "finite peers" "set pending \<subseteq> peers" "peers \<subseteq> set pending \<union> set visited" "distinct visited" "set visited \<subseteq> peers"
  shows "\<exists>r asked. route_loop ask health_proof peers pending visited = Some (r, asked) \<and> distinct asked \<and> set asked \<subseteq> peers \<and>
    (r = Inl (unavailable ''no reachable admitted leader completed management operation'') \<longrightarrow> set asked = peers)"
  using assms(2-5)
proof (induction "(card (peers - set visited), length pending)" arbitrary: pending visited
    rule: wf_induct_rule [OF wf_lex_prod [OF wf_less wf_less]])
  case 1
  note IH = 1(1) and pre = 1(2-5)
  show ?case
  proof (cases "pending = []")
    case True
    then show ?thesis using pre by (subst route_loop.simps) auto
  next
    case False
    then obtain rest peer where p: "pending = rest @ [peer]" by (metis rev_exhaust)
    show ?thesis
    proof (cases "peer \<in> set visited")
      case True
      then show ?thesis using IH [of visited rest] pre p by (subst route_loop.simps) (auto simp: Let_def)
    next
      case new: False
      have less: "card (peers - set (visited @ [peer])) < card (peers - set visited)"
        using pre(1) p new assms(1) by (intro psubset_card_mono) auto
      have next_ok: "\<exists>r asked. route_loop ask health_proof peers stack (visited @ [peer]) = Some (r, asked) \<and> distinct asked \<and>
          set asked \<subseteq> peers \<and> (r = Inl (unavailable ''no reachable admitted leader completed management operation'') \<longrightarrow> set asked = peers)"
        if "set stack \<subseteq> peers" "set rest \<subseteq> set stack" for stack
      proof (rule IH)
        show "((card (peers - set (visited @ [peer])), length stack), card (peers - set visited), length pending) \<in> {(x, y). x < y} <*lex*> {(x, y). x < y}"
          using less by simp
        show "peers \<subseteq> set stack \<union> set (visited @ [peer])" using pre(2) p that(2) by auto
      qed (use pre p new that(1) in auto)
      note step = route_loop.simps [of ask health_proof peers pending visited]
      show ?thesis
      proof (cases "ask visited peer")
        case (Inl e)
        then show ?thesis using step next_ok [of rest] pre p new by (auto simp: Let_def)
      next
        case (Inr result)
        then show ?thesis
          using step next_ok [of rest] next_ok [of "rest @ [target]" for target] pre p new
          by (cases result) (auto simp: Let_def)
      qed
    qed
  qed
qed

text \<open>C20. Routing a management action always ends and bothers no peer twice. Whatever the peers answer, also when they
  redirect to each other in circles, the loop returns; it has asked only the given peers, each at most once; and it
  reports that no leader could be reached only after it has asked all of them.\<close>

theorem route_terminates:
  assumes "finite peers"
  shows "\<exists>r asked. route ask health_proof peers = Some (r, asked) \<and> distinct asked \<and> set asked \<subseteq> peers \<and>
    (r = Inl (unavailable ''no reachable admitted leader completed management operation'') \<longrightarrow> set asked = peers)"
  using route_loop_terminates [of peers "sorted_list_of_set peers" "[]"] assms by (simp add: route_def)

theorem route_terminates_witness:
  "\<exists>r asked. route (\<lambda>_ p. Inr (RedirectResult (if p = ex_replica 1 then ex_replica 2 else ex_replica 1))) True {ex_replica 1, ex_replica 2} =
     Some (r, asked) \<and> distinct asked \<and> set asked \<subseteq> {ex_replica 1, ex_replica 2}"
  using route_terminates [of "{ex_replica 1, ex_replica 2}"
      "\<lambda>_ p. Inr (RedirectResult (if p = ex_replica 1 then ex_replica 2 else ex_replica 1))" True] by blast

subsection \<open>Discovery\<close>

record discovery =
  dc_boots :: "replica_id set"
  dc_histories :: "(replica_id, genesis) btree_map"

definition cohort_preimage :: "config_fingerprint \<Rightarrow> replica_id set \<Rightarrow> u8 list" where
  "cohort_preimage fp voters =
     ascii ''keepafloatd-cold-cohort-epoch-v1'' @ [0] @ [fp_version fp] @ be_bytes 32 (fp_digest fp) @
     concat (map replica_bytes (sorted_list_of_set voters))"

definition cohort_genesis :: "(u8 list \<Rightarrow> bytes32) \<Rightarrow> config \<Rightarrow> replica_id set \<Rightarrow> genesis anyhow_result" where
  "cohort_genesis sha cfg voters =
     rbind (cluster_config_fingerprint sha cfg) (\<lambda>fp.
       let g = \<lparr>g_config = fp, g_epoch = from_be_bytes (take 16 (be_bytes 32 (sha (cohort_preimage fp voters)))), g_voters = voters\<rparr>
       in rbind (from_denied (validate_roster g (peer_id ` set (cfg_peers cfg)))) (\<lambda>_. Inr g))"

text \<open>What one peer contributes: its authenticated boot and its history, or nothing if its configuration differs. \<open>status\<close> is
  the boot and fingerprint of its status answer, \<open>managed\<close> its answer to the discovery action for that boot.\<close>

definition discover_peer ::
  "config \<Rightarrow> config_fingerprint \<Rightarrow> peer_config \<Rightarrow> (replica_id option \<times> config_fingerprint option) anyhow_result \<Rightarrow>
   (replica_id \<Rightarrow> management_result anyhow_result) \<Rightarrow> (replica_id \<times> genesis option) option anyhow_result" where
  "discover_peer cfg fp peer status managed =
     rbind status (\<lambda>(boot, print).
     case boot of None \<Rightarrow> bail ''status has no authenticated boot'' | Some replica \<Rightarrow>
     rbind (ensured (physical_id replica = peer_id peer) ''status physical identity differs'') (\<lambda>_.
     case print of None \<Rightarrow> bail ''status has no configuration fingerprint'' | Some peer_fp \<Rightarrow>
     if peer_fp \<noteq> fp then Inr None
     else rbind (managed replica) (\<lambda>response.
       case response of
         DiscoveryResult g _ \<Rightarrow>
           rbind (case g of None \<Rightarrow> Inr ()
                  | Some h \<Rightarrow> rbind (from_denied (validate_roster h (peer_id ` set (cfg_peers cfg)))) (\<lambda>_.
                      ensured (g_config h = fp) ''discovered genesis configuration differs'')) (\<lambda>_.
           Inr (Some (replica, g)))
       | _ \<Rightarrow> bail ''unexpected discovery response'')))"

fun collect_discovery :: "bool \<Rightarrow> (replica_id \<times> genesis option) option anyhow_result list \<Rightarrow> discovery \<Rightarrow> discovery anyhow_result" where
  "collect_discovery reject_invalid [] dc = Inr dc"
| "collect_discovery reject_invalid (Inr (Some (replica, g)) # rs) dc =
     collect_discovery reject_invalid rs
       (dc\<lparr>dc_boots := insert replica (dc_boots dc),
           dc_histories := (case g of None \<Rightarrow> dc_histories dc | Some h \<Rightarrow> bm_insert replica h (dc_histories dc))\<rparr>)"
| "collect_discovery reject_invalid (Inr None # rs) dc = collect_discovery reject_invalid rs dc"
| "collect_discovery reject_invalid (Inl e # rs) dc =
     (if reject_invalid \<and> CauseUnauthenticated \<notin> set e \<and> failure_kind e = RejectedFailure then Inl e
      else collect_discovery reject_invalid rs dc)"

definition discover_peers ::
  "(u8 list \<Rightarrow> bytes32) \<Rightarrow> runtime_driver \<Rightarrow> bool \<Rightarrow>
   (peer_config \<times> (replica_id option \<times> config_fingerprint option) anyhow_result \<times> (replica_id \<Rightarrow> management_result anyhow_result)) list \<Rightarrow>
   discovery anyhow_result" where
  "discover_peers sha d reject_invalid answers =
     rbind (cluster_config_fingerprint sha (rt_cfg d)) (\<lambda>fp.
       collect_discovery reject_invalid (map (\<lambda>(peer, status, managed). discover_peer (rt_cfg d) fp peer status managed) answers)
         \<lparr>dc_boots = {rt_local d}, dc_histories = bm_empty\<rparr>)"

subsection \<open>Entering a cluster\<close>

record entry_answers =
  en_entropy :: "bytes32 option"
  en_discovered :: "discovery anyhow_result"
  en_routed :: "genesis \<Rightarrow> replica_id set \<Rightarrow> management_result anyhow_result"
  en_granted :: "replica_id set \<Rightarrow> admission_request \<Rightarrow> grant_answer list"
  en_initialized :: "bool anyhow_result"
  en_initialize :: "(replica_id \<times> string) list \<Rightarrow> unit anyhow_result"

definition first_history :: "discovery \<Rightarrow> genesis option" where
  "first_history dc = (case bm_values (dc_histories dc) of [] \<Rightarrow> None | g # _ \<Rightarrow> Some g)"

definition choose_genesis :: "(u8 list \<Rightarrow> bytes32) \<Rightarrow> config \<Rightarrow> discovery \<Rightarrow> genesis anyhow_result" where
  "choose_genesis sha cfg dc =
     (case first_history dc of
        Some g \<Rightarrow> rbind (ensured (list_all (\<lambda>other. other = g) (bm_values (dc_histories dc)))
                       ''reachable peers report conflicting genesis'') (\<lambda>_. Inr g)
      | None \<Rightarrow> cohort_genesis sha cfg (dc_boots dc))"

definition prepare_entry ::
  "turn_env \<Rightarrow> entry_answers \<Rightarrow> bytes32 \<Rightarrow> genesis \<Rightarrow> discovery \<Rightarrow> bool \<Rightarrow> admission_round \<Rightarrow> (prepared_join option \<times> admission_round) drive" where
  "prepare_entry te an operation_nonce g dc cold round =
     (if cold then dlift (Inr (None, round))
      else dbind (awaits te 13) (\<lambda>_.
           dbind (dlift (en_routed an g (dc_boots dc))) (\<lambda>response.
           dlift (case response of
                    PreparedResult p \<Rightarrow>
                      rbind (ensured (jp_request_nonce (pj_plan p) = operation_nonce) ''join operation nonce changed'') (\<lambda>_.
                      rbind (from_denied (bind_prepared (te_sha te) (te_clock te 14) p round)) (\<lambda>bound. Inr (Some p, bound)))
                  | _ \<Rightarrow> bail ''join preparation response missing''))))"

definition node :: "config \<Rightarrow> replica_id \<Rightarrow> string anyhow_result" where
  "node cfg r =
     (case get_peer cfg (physical_id r) of
        None \<Rightarrow> bail ''replica physical identity is not configured'' | Some p \<Rightarrow> Inr (raft_address p))"

text \<open>The members of a cold cluster and the initialization of Raft with them.\<close>

definition initialize_cold :: "entry_answers \<Rightarrow> genesis \<Rightarrow> unit drive" where
  "initialize_cold an g =
     dread (\<lambda>d. rbind (if \<forall>r \<in> g_voters g. is_ok (node (rt_cfg d) r)
                       then Inr (map (\<lambda>r. (r, projr (node (rt_cfg d) r))) (sorted_list_of_set (g_voters g)))
                       else bail ''replica physical identity is not configured'') (\<lambda>members.
                 rbind (attached_raft d) (\<lambda>_.
                 rbind (en_initialized an) (\<lambda>initialized.
                 if initialized then Inr () else en_initialize an members))))"

definition enter :: "turn_env \<Rightarrow> entry_answers \<Rightarrow> bytes32 \<Rightarrow> unit drive" where
  "enter te an operation_nonce =
     dbind (awaits te 10) (\<lambda>_.
     dbind (awaits te 11) (\<lambda>_.
     dbind (dlift (en_discovered an)) (\<lambda>dc.
     dbind (dread (\<lambda>d. choose_genesis (te_sha te) (rt_cfg d) dc)) (\<lambda>g.
     dbind (dread (\<lambda>d. Inr (rt_local d \<in> g_voters g))) (\<lambda>cold.
     dbind (driver_begin te 12 (en_entropy an) g (if cold then Cold else Join None)) (\<lambda>round.
     dbind (prepare_entry te an operation_nonce g dc cold round) (\<lambda>(prepared, bound).
     dbind (awaits te 15) (\<lambda>_.
     dbind (dread (\<lambda>d. gather_grants False (map (read_grant te d (rd_request bound))
              (en_granted an (if cold then g_voters g else dc_boots dc) (rd_request bound))))) (\<lambda>grants.
     dbind (install te 20 bound grants prepared) (\<lambda>_.
     if cold then dbind (awaits te 30) (\<lambda>_. initialize_cold an g) else dlift (Inr ())))))))))))"

lemma choose_genesis_Inr:
  assumes "choose_genesis sha cfg dc = Inr g"
  shows "(\<forall>r h. bm_get (dc_histories dc) r = Some h \<longrightarrow> h = g) \<and>
    (bm_values (dc_histories dc) = [] \<longrightarrow> g_voters g = dc_boots dc \<and>
       card (peer_id ` set (cfg_peers cfg)) div 2 < card (physical_id ` dc_boots dc))"
proof (cases "bm_values (dc_histories dc)")
  case Nil
  then have none: "bm_get (dc_histories dc) r = None" for r
    using set_bm_values [of "dc_histories dc"] by (cases "bm_get (dc_histories dc) r") (auto simp: ran_def)
  have "cohort_genesis sha cfg (dc_boots dc) = Inr g" using assms Nil by (simp add: choose_genesis_def first_history_def)
  then have "g_voters g = dc_boots dc \<and> card (peer_id ` set (cfg_peers cfg)) div 2 < card (physical_id ` dc_boots dc)"
    unfolding cohort_genesis_def by (elim rbind_InrE) (auto simp: validate_roster_def Let_def split: if_splits)
  then show ?thesis using none by simp
next
  case (Cons h hs)
  then have "list_all (\<lambda>other. other = g) (bm_values (dc_histories dc))"
    using assms by (auto simp: choose_genesis_def first_history_def ensured_def bail_def split: if_splits)
  then have "\<forall>h \<in> ran (bm_get (dc_histories dc)). h = g" by (simp add: list_all_iff set_bm_values)
  then show ?thesis using Cons by (auto simp: ran_def)
qed

lemma prepare_entry_Inr:
  assumes "prepare_entry te an nonce g dc cold round d = (d', Inr (prepared, bound))" "others_keep te"
  shows "same_process d d' \<and> ar_genesis (rd_request bound) = ar_genesis (rd_request round) \<and>
    ar_consumer (rd_request bound) = ar_consumer (rd_request round)"
proof -
  have "process_work (prepare_entry te an nonce g dc cold round)"
    unfolding prepare_entry_def using assms(2) by (cases cold) (auto intro: process_work_intro)
  then have "same_process d d'" using assms(1) by (rule process_work_same)
  moreover have "ar_genesis (rd_request bound) = ar_genesis (rd_request round) \<and> ar_consumer (rd_request bound) = ar_consumer (rd_request round)"
  proof (cases cold)
    case False
    then show ?thesis
      using assms(1) unfolding prepare_entry_def
      by (auto elim!: dbind_InrE simp: bail_def bind_prepared_def split: management_result.splits if_splits)
  qed (use assms(1) in \<open>simp add: prepare_entry_def\<close>)
  ultimately show ?thesis by blast
qed

text \<open>C19. A boot that learns of a running cluster never founds another one. Whatever the other tasks do, when a boot
  enters, there is one request of this boot such that, among the answers to it of the members that were asked, a
  majority of the configured members has granted it authentically. The members asked are the voters of its genesis
  if this boot is one of them, and the discovered boots otherwise. The genesis of the request is the one that the
  authority of this runtime has been made active for; every history that a discovered peer reported is exactly that
  genesis; and only if no peer reported any history it is a new one, whose voters are exactly the discovered boots,
  which cover a majority of the configured members.\<close>

theorem entry_follows_history:
  assumes "enter te an nonce d = (d', Inr u)" "others_keep te" "finite (ctl_configured (rt_core d))"
  shows "\<exists>dc req admitted stage until. en_discovered an = Inr dc \<and>
    granted_by_majority te d
      (en_granted an (if rt_local d \<in> g_voters (ar_genesis req) then g_voters (ar_genesis req) else dc_boots dc) req) req \<and>
    ar_consumer req = ctl_local (rt_core d) \<and>
    d' = (if rt_local d \<in> g_voters (ar_genesis req) then te_await te 30 admitted else admitted) \<and>
    ra_permission (rt_authority admitted) =
      Active (authority_identity (te_sha te) (rt_authority admitted)
                \<lparr>ctx_local_replica = ctl_local (rt_core d), ctx_genesis = ar_genesis req\<rparr>) stage until \<and>
    (\<forall>r h. bm_get (dc_histories dc) r = Some h \<longrightarrow> h = ar_genesis req) \<and>
    (bm_values (dc_histories dc) = [] \<longrightarrow> g_voters (ar_genesis req) = dc_boots dc \<and>
       card (peer_id ` set (cfg_peers (rt_cfg d))) div 2 < card (physical_id ` dc_boots dc))"
proof -
  obtain d1 d2 d3 d4 d5 dc g cold round prepared bound grants inst where
      w: "awaits te 10 d = (d1, Inr ())" "awaits te 11 d1 = (d2, Inr ())" "awaits te 15 d3 = (d4, Inr ())"
    and disc: "en_discovered an = Inr dc" and g: "choose_genesis (te_sha te) (rt_cfg d2) dc = Inr g"
    and cold: "cold = (rt_local d2 \<in> g_voters g)"
    and b: "begin_round (te_clock te 12) (en_entropy an) g (if cold then Cold else Join None) (rt_core d2) = Inr round"
    and p: "prepare_entry te an nonce g dc cold round d2 = (d3, Inr (prepared, bound))"
    and gs: "gather_grants False (map (read_grant te d4 (rd_request bound))
        (en_granted an (if cold then g_voters g else dc_boots dc) (rd_request bound))) = Inr grants"
    and i: "install te 20 bound grants prepared d4 = (d5, Inr inst)"
    and fin: "(if cold then dbind (awaits te 30) (\<lambda>_. initialize_cold an g) else dlift (Inr ())) d5 = (d', Inr u)"
    using assms(1) unfolding enter_def driver_begin_def by (elim dbind_InrE) (auto elim!: dbind_InrE)
  note pe = prepare_entry_Inr [OF p assms(2)]
  have s: "same_process d d2" "same_process d d4"
    using process_work_same [OF process_work_awaits [OF assms(2)]] w pe by (meson same_process_trans)+
  have d': "d' = (if cold then te_await te 30 d5 else d5)"
    using fin by (auto simp: initialize_cold_def dread_def awaits_def elim!: dbind_InrE split: if_splits option.splits)
  have "finite (ctl_configured (rt_core d4))" using assms(3) s(2) by (simp add: same_process_def)
  note inst = install_Inr [OF i assms(2) this gs]
  have req: "ar_genesis (rd_request bound) = g" "ar_consumer (rd_request bound) = ctl_local (rt_core d)"
    using begin_round_Inr [OF b] pe s(1) by (auto simp: same_process_def)
  have at: "cold = (rt_local d \<in> g_voters (ar_genesis (rd_request bound)))" "ctl_local (rt_core d4) = ctl_local (rt_core d)"
    using cold req s by (simp_all add: same_process_def)
  obtain stage "until" where "ra_permission (rt_authority d5) = Active (authority_identity (te_sha te) (rt_authority d5)
      \<lparr>ctx_local_replica = ctl_local (rt_core d), ctx_genesis = ar_genesis (rd_request bound)\<rparr>) stage until"
    using inst at(2) by auto
  moreover have "granted_by_majority te d
      (en_granted an (if rt_local d \<in> g_voters (ar_genesis (rd_request bound)) then g_voters (ar_genesis (rd_request bound)) else dc_boots dc)
        (rd_request bound)) (rd_request bound)"
    using inst granted_same_process [OF s(2)] at(1) [unfolded req(1)] by (auto simp: req(1))
  ultimately show ?thesis
    using choose_genesis_Inr [OF g] disc s(1) req d' at(1) unfolding same_process_def by (intro exI) (auto split: if_splits)
qed

text \<open>The first member restarts while the second still reports the genesis both had agreed on.\<close>

definition en_driver :: runtime_driver where
  "en_driver = (rn_driver ex_start)\<lparr>rt_core := adm_controller 1 False, rt_authority := adm_authority 1 (Quarantined 4), rt_first_verified := None\<rparr>"

definition en_found :: discovery where
  "en_found = \<lparr>dc_boots = {adm_replica 1, adm_replica 2}, dc_histories = bm_insert (adm_replica 2) adm_genesis bm_empty\<rparr>"

definition en_answers :: entry_answers where
  "en_answers =
     \<lparr>en_entropy = Some 9, en_discovered = Inr en_found, en_routed = (\<lambda>_ _. bail []),
      en_granted = (\<lambda>_ _. [LocalGrant (Some 0) (Inr (rg_record (adm_grant_of 1 1))), RemoteGrant (Inr (adm_grant_of 1 2))]),
      en_initialized = Inr True, en_initialize = (\<lambda>_. Inr ())\<rparr>"

lemma en_choose: "choose_genesis sha cfg en_found = Inr adm_genesis"
proof -
  have "set (bm_values (dc_histories en_found)) = {adm_genesis}" by (auto simp: set_bm_values en_found_def ran_def)
  then show ?thesis
    by (cases "bm_values (dc_histories en_found)") (auto simp: choose_genesis_def first_history_def ensured_def list_all_iff)
qed

lemma en_grants: "gather_grants False (map (read_grant rn_env d (adm_request 1)) (en_granted en_answers ts (adm_request 1))) =
    Inr [adm_grant_of 1 1, adm_grant_of 1 2]" if "rt_cfg d = adm_member 1" "rt_local d = adm_replica 1" for d
proof -
  have sign: "sa_sign (\<lambda>_ _. 0) (\<lambda>_. Some []) (cluster_secret sample_config) 10 (adm_replica 1) (adm_replica 1) 0 (adm_request 1) =
      Inr (adm_signed (adm_replica 1) (adm_replica 1) 1)"
    by (simp add: sa_sign_def sign_admission_record_def secret_key_def sample_config_def adm_signed_def)
  have "authenticate (\<lambda>_ _. 0) (\<lambda>_. Some []) (cluster_secret sample_config) (adm_replica 1) (adm_replica 1) 0 (adm_request 1)
      (rg_record (adm_grant_of 1 1)) = Inr (adm_grant_of 1 1)"
    using adm_verify [of 1 1] by (simp add: authenticate_def adm_grant_of_def) (simp add: adm_signed_def)
  moreover have "cluster_secret (rt_cfg d) = cluster_secret sample_config" using that by (simp add: adm_member_def)
  ultimately show ?thesis using that sign by (simp add: en_answers_def read_grant_def from_denied_def)
qed

lemma en_install: "\<exists>d' inst. install rn_env 20 (adm_round 1 False) [adm_grant_of 1 1, adm_grant_of 1 2] None en_driver = (d', Inr inst) \<and>
    rt_cfg d' = adm_member 1 \<and> rt_raft d' \<and> \<not> rt_stopped d'"
proof -
  let ?live = "en_driver\<lparr>rt_authority := adm_authority 1 (adm_live 1)\<rparr>"
  let ?bound = "?live\<lparr>rt_first_verified := Some 4, rt_state := ex_start\<lparr>admission := Some (adm_context 1)\<rparr>, rt_bootstrap_join := None\<rparr>"
  have "bind_admission \<lparr>fv_check = (\<lambda>c. snd (authority_check (\<lambda>_. 0) 4 c (adm_authority 1 (adm_live 1)))), fv_now = 4\<rparr> (adm_context 1) ex_start =
      Inr (ex_start\<lparr>admission := Some (adm_context 1)\<rparr>)"
    by (simp add: bind_admission_def session_check_def rn_checked ex_start_def new_admitted_store_def new_store_inner_def new_storage_def)
  moreover have "admission ex_start = None" by (simp add: ex_start_def new_admitted_store_def new_store_inner_def new_storage_def)
  ultimately have bind: "bind_state rn_env 25 (adm_admitted 1) (adm_context 1) (?live\<lparr>rt_first_verified := Some 4\<rparr>) = (?bound, Inr ())"
    by (simp add: bind_state_def en_driver_def adm_admitted_def)
  have "accept_admission rn_env 21 (adm_admitted 1) en_driver = (?live, Inr (adm_context 1))"
    by (simp add: accept_admission_def en_driver_def adm_accepted from_denied_def)
  moreover have "note_first_admission rn_env 24 (adm_admitted 1) ?live = (?live\<lparr>rt_first_verified := Some 4\<rparr>, Inr ())"
    by (simp add: note_first_admission_def en_driver_def adm_admitted_def)
  moreover have "awaits rn_env 20 en_driver = (en_driver, Inr ())" "ensure_running en_driver = Inr ()" "rt_core en_driver = adm_controller 1 False"
    by (simp_all add: awaits_def ensure_running_def en_driver_def rn_driver_def)
  ultimately have "\<exists>inst. install rn_env 20 (adm_round 1 False) [adm_grant_of 1 1, adm_grant_of 1 2] None en_driver = (?bound, Inr inst)"
    using bind by (simp add: ensure_running_def install_def dbind_def dread_def adm_completed from_denied_def dlift_def ensured_def same_bootstrap_def)
  moreover have "rt_cfg ?bound = adm_member 1" "rt_raft ?bound" "\<not> rt_stopped ?bound" by (simp_all add: en_driver_def rn_driver_def)
  ultimately show ?thesis by blast
qed

theorem entry_follows_history_witness:
  "\<exists>asked req. granted_by_majority rn_env en_driver (en_granted en_answers asked req) req \<and> ar_genesis req = adm_genesis"
proof -
  obtain d' inst where i: "install rn_env 20 (adm_round 1 False) [adm_grant_of 1 1, adm_grant_of 1 2] None en_driver = (d', Inr inst)"
    and d': "rt_cfg d' = adm_member 1" "rt_raft d'" "\<not> rt_stopped d'"
    using en_install by blast
  have voters: "g_voters adm_genesis = {adm_replica 1, adm_replica 2}" "rd_request (adm_round 1 False) = adm_request 1"
    by (simp_all add: adm_genesis_def adm_round_def)
  have "is_ok (node (adm_member 1) (adm_replica i))" if "i = 1 \<or> i = 2" for i
    using that by (auto simp: node_def adm_member_def get_peer_def sample_peer_def)
  then have init: "initialize_cold en_answers adm_genesis d' = (d', Inr ())"
    using d' voters by (simp add: initialize_cold_def dread_def attached_raft_def ensure_running_def from_denied_def ensured_def en_answers_def)
  have sel: "rt_cfg en_driver = adm_member 1" "rt_local en_driver = adm_replica 1" "rt_core en_driver = adm_controller 1 False"
    "\<not> rt_stopped en_driver" by (simp_all add: en_driver_def rn_driver_def)
  have "enter rn_env en_answers 0 en_driver = (d', Inr ())"
    by (simp add: enter_def dbind_def awaits_def dlift_def dread_def en_answers_def [THEN arg_cong [of _ _ en_discovered]]
        en_answers_def [THEN arg_cong [of _ _ en_entropy]] en_choose sel voters driver_begin_def ensure_running_def from_denied_def
        adm_begin_round prepare_entry_def en_grants i init)
  moreover have "others_keep rn_env" "finite (ctl_configured (rt_core en_driver))"
    by (simp_all add: others_keep_def sel adm_controller_def)
  ultimately obtain dc req asked where "en_discovered en_answers = Inr dc" "granted_by_majority rn_env en_driver (en_granted en_answers asked req) req"
    and h: "\<forall>r h. bm_get (dc_histories dc) r = Some h \<longrightarrow> h = ar_genesis req"
    using entry_follows_history [of rn_env en_answers 0 en_driver d' "()"] by blast
  moreover have "bm_get (dc_histories en_found) (adm_replica 2) = Some adm_genesis" by (simp add: en_found_def)
  ultimately show ?thesis by (auto simp: en_answers_def)
qed

end
