(* ===== verification/Spec2Isabelle.thy ===== *)
theory Spec2Isabelle
  imports Identity_Encoding Store_Properties Log_Properties Local_Vip Bind_Properties Admission_World
    Authorization_Properties Health_Publication Runtime_Rounds
begin

text \<open>
  A verification of keepAfloatD, a daemon that keeps virtual IP addresses (VIPs) on the healthy nodes of a small
  cluster. Paths are relative to the repository, whose Rust sources are in \<open>src/\<close>.

  \<^bold>\<open>The program.\<close> Every node runs one daemon. A boot first needs the consent of a majority of the configured
  members (admission). An admitted boot takes part in a Raft log whose state machine records health reports,
  memberships and who holds which VIP under which generation. Each daemon publishes the health of its node, keeps a
  proof of recent quorum contact, and binds or removes VIPs on its host when the applied state and the proof permit.
  The election and replication of Raft are the package openraft, which is not part of the repository; this
  development is about everything the repository adds to it.

  \<^bold>\<open>Conventions.\<close> Machine integers are words. Durations and monotonic instants are natural numbers of nanoseconds,
  with the checked operations of the standard library where the source uses them. A \<open>Result\<close> is a sum with the
  error on the left; an \<open>anyhow\<close> error is the list of its causes, outermost first; a panic is \<open>None\<close>. A \<open>BTreeMap\<close>
  is a sorted association list. Clock readings, entropy, the answers of peers and of the operating system, the hash
  function, the MAC and the serializer are arguments. Code between two awaits is atomic; what other tasks do at an
  await is an argument (\<open>turn_env\<close> in \<open>Runtime_Driver\<close>) or an interleaved step of a step relation.

  \<^bold>\<open>Foundations.\<close>
  \<^item> \<open>Kaf_Prelude\<close>, \<open>BTree_Map\<close>, \<open>Byte_Codec\<close>: integers, results, sorted maps, positional notation.
  \<^item> \<open>Kaf_Types\<close>, \<open>Identity_Encoding\<close>: \<open>src/raft/types.rs\<close>, \<open>src/raft/admission.rs\<close>; identities and digests name
    what they encode.
  \<^item> \<open>Ip_Text\<close>, \<open>Ip_Roundtrip\<close>: the text of addresses; printed addresses read back.
  \<^item> \<open>Kaf_Interfaces\<close>: the contracts shared by several components, as locales (step system with an invariant,
    permission that ends for good, quorums that meet, leases under clock drift). \<open>Config_Fingerprint\<close> adds the
    contract of a prefix code. All are interpreted on the definitions of the model.

  \<^bold>\<open>The store\<close> (\<open>src/raft/store/\<close>).
  \<^item> \<open>Storage_State\<close>, \<open>Vip_Logic\<close>, \<open>Membership_History\<close>, \<open>State_Machine\<close>, \<open>Log_Store\<close>: state and snapshots, eligibility
    and placement, join history, application of an entry, the log with its vote, commit and purge positions.
  \<^item> \<open>Vip_Placement\<close>, \<open>Vip_Fencing\<close>: placement is even, moves no more VIPs than any even placement has to, respects
    nopreempt, and the fencing data follows the moves.
  \<^item> \<open>Vip_Fence_Spec\<close>, \<open>Ownership\<close>: the ownership contract of one VIP and the proof that the state machine takes only
    its steps; a generation names one holder for ever.
  \<^item> \<open>Replication\<close>, \<open>Log_History\<close>: what the log determines; snapshots are transparent; genesis is immutable; joins
    complete in order.
  \<^item> \<open>Storage_System\<close>, \<open>Log_Properties\<close>, \<open>Store_Properties\<close>: all storage calls in any order; the invariant of the
    reachable states; nothing changes without a live admission. \<open>Example_Cluster\<close> is the data of the witnesses.

  \<^bold>\<open>Configuration\<close> (\<open>src/config.rs\<close>, \<open>src/config/\<close>): \<open>Kaf_Config\<close>, \<open>Config_Validation\<close>, \<open>Config_Fingerprint\<close>. Accepted
  configurations are well formed, and the fingerprint identifies exactly the settings of the cluster.

  \<^bold>\<open>Admission.\<close>
  \<^item> \<open>Lease_Timing\<close>, \<open>Runtime_Permission\<close>, \<open>Runtime_Authority\<close> (\<open>src/runtime_permission/\<close>): lifetimes and
    deadlines ordered on clocks with bounded drift, and a permission that never returns once sealed, or once its
    deadline has passed, observed or not.
  \<^item> \<open>Wire_Auth\<close> (\<open>src/auth.rs\<close>), \<open>Admission_Controller\<close> (\<open>src/raft/admission/controller.rs\<close>): handshake, signed
    requests and grants, quarantine, reservations and rounds.
  \<^item> \<open>Admission_World\<close>: all members with their boots, rounds, grants and authorities in any interleaving. In no
    reachable state do two geneses have live authority.
  \<^item> \<open>Runtime_Driver\<close>, \<open>Runtime_Rounds\<close> (\<open>src/raft/admission/runtime.rs\<close> and \<open>runtime/\<close>): readiness, grants, installing an
    admission, renewal, routing, discovery and entry. A returned proof rests on a committed report and on the
    answers of a majority of the boots that the same round discovered; activation outwaits older leases; a boot that sees a history never founds another cluster.

  \<^bold>\<open>Authorization of the network\<close> (\<open>src/raft/network/authorization.rs\<close> and \<open>authorization/\<close>): \<open>Raft_Authorization\<close>,
  \<open>Replication_Replay\<close>, \<open>Snapshot_Check\<close>, \<open>Authorization_State\<close> are the checks on what a peer may send;
  \<open>Replay_Simulation\<close> and \<open>Authorization_Properties\<close> show that accepted appends keep quorums connected and agree with
  the state machine, and that accepted snapshots restore an ordered history.

  \<^bold>\<open>From health to the host.\<close>
  \<^item> \<open>Local_Health\<close> (\<open>src/health.rs\<close>, \<open>src/health/local.rs\<close>), \<open>Consensus_Freshness\<close> (\<open>src/consensus_freshness.rs\<close>, its
    permits and \<open>runtime/proof.rs\<close>), \<open>Health_Publication\<close> (\<open>src/health_publication.rs\<close>): dampened health, permits that
    rest on a recent quorum, the publishing loop; a process with a failed bind stays out.
  \<^item> \<open>Error_Chain\<close> (\<open>consensus_freshness/failure.rs\<close>), \<open>Child_Process\<close> (\<open>src/process.rs\<close>), \<open>Vip_Effects\<close>
    (\<open>src/vip/effects.rs\<close>, \<open>src/vip/ownership.rs\<close>), \<open>Local_Vip\<close> (\<open>src/vip.rs\<close>, \<open>src/vip/startup.rs\<close>, and of
    \<open>src/vip/reconcile/worker.rs\<close> the need for a cleanup and the witness): commands and their cancellation at every
    await, those on locks included; what may be attached is tracked for cleanup, unless a killed command could not
    be reaped.
  \<^item> \<open>Bind_Policy\<close>, \<open>Bind_Properties\<close> (\<open>src/bind_policy.rs\<close>, \<open>src/vip/takeover.rs\<close>, \<open>src/vip/reconcile/intent.rs\<close>,
    \<open>src/handoff.rs\<close>): who may bind, and what two different views imply.

  \<^bold>\<open>Bounds and fuel.\<close> Recursion is structural or has a termination proof. The routing loop is a partial function
  and is proved to return for every behaviour of the peers. Loops that wait for the world (\<open>wait_progress\<close>,
  \<open>reserve_grant\<close>, \<open>guard_loop\<close>, the publishing loop) run over a list of what happens at each turn; its end stands for
  the end of the time budget, or for a loop still waiting. The theorems on permits assume fewer than \<open>2 ^ 64\<close>
  operations, since the epochs are 64-bit counters that wrap.

  \<^bold>\<open>Hypotheses on foreign code.\<close> \<open>membership_new_ok\<close> is the documented behaviour of openraft's \<open>Membership::new\<close>;
  hash and MAC enter as functions, and theorems on them exclude or exhibit a collision; clocks are monotonic with
  rates that differ at most by a factor of two where leases are compared.

  \<^bold>\<open>Not modelled.\<close> Sockets, frames and connection limits (\<open>src/listener.rs\<close>, \<open>src/frame.rs\<close>,
  \<open>src/connection_admission.rs\<close>, most of \<open>src/raft/network/\<close>), the wiring and supervision of openraft and of tasks
  (\<open>src/raft/mod.rs\<close>, \<open>guard.rs\<close>, \<open>tasks.rs\<close>, \<open>control.rs\<close>, \<open>probe.rs\<close>), forwarding of client writes
  (\<open>src/submit.rs\<close>), announcements and notifications, the rest of the reconcile worker's loop and the contents of
  its witness (\<open>src/vip/witness.rs\<close>), process start, signals and log limiting: I/O and calls into the
  asynchronous runtime whose decisions are modelled where they are taken. Of the admission runtime the leader's
  side of the management actions, the recovery of pending joins, the completion of a join and the supervising loop
  are left out; their effect on a round is covered by the arguments for peers and for other tasks.
\<close>

end
